(* ===== verification/Prelude.thy ===== *)
theory Prelude
  imports Main "HOL-Library.Word"
begin

text \<open>
  The shared base of the development: the names of the machine types of \<open>src/alc/types.h\<close>,
  the named collections the component proofs use, and generic facts on bits, words and lists.

  \<^item> \<open>fields\<close> collects the facts that read an instruction field back out of an encoded word;
  \<^item> \<open>frame\<close> collects the facts that say which part of a state an operation leaves alone;
  \<^item> \<open>bits\<close> collects the bit-level characterisations used to compare words bit by bit.
\<close>

unbundle bit_operations_syntax

named_theorems fields
named_theorems frame
named_theorems bits

section \<open>Machine integers\<close>

type_synonym u8 = "8 word"
type_synonym u16 = "16 word"
type_synonym u32 = "32 word"
type_synonym u64 = "64 word"
type_synonym i32 = "32 word"
type_synonym i64 = "64 word"
type_synonym usize = "64 word"

section \<open>Bits\<close>

lemma word_eq_by_bits:
  fixes x y :: "'a::len word"
  assumes "\<And>n. n < LENGTH('a) \<Longrightarrow> bit x n = bit y n"
  shows "x = y"
  using assms by (intro bit_word_eqI) simp

lemma bit_mask_word [bits]:
  "bit (mask k :: 'a::len word) n \<longleftrightarrow> n < k \<and> n < LENGTH('a)"
  by (auto simp: bit_mask_iff)

lemma and_mask_take_bit: "(w :: 'a::len word) AND mask n = take_bit n w"
  by (simp add: take_bit_eq_mask)

lemma take_bit_word_small:
  fixes w :: "'a::len word"
  assumes "unat w < 2 ^ n"
  shows "take_bit n w = w"
proof (cases "n < LENGTH('a)")
  case True
  have "unat (take_bit n w) = take_bit n (unat w)"
    by (simp add: unsigned_take_bit_eq)
  also have "\<dots> = unat w"
    using assms by (simp add: take_bit_nat_eq_self)
  finally show ?thesis by (simp add: unsigned_word_eqI)
next
  case False
  then show ?thesis by (intro bit_word_eqI) (simp add: bit_take_bit_iff)
qed

lemma unat_take_bit_less: "unat (take_bit n (w :: 'a::len word)) < 2 ^ n"
  by (simp add: unsigned_take_bit_eq)

lemma bit_word_small:
  fixes w :: "'a::len word"
  assumes "unat w < 2 ^ n" and "n \<le> k"
  shows "\<not> bit w k"
proof -
  have "w = take_bit n w" using take_bit_word_small [OF assms(1)] by simp
  then show ?thesis using assms(2) by (metis bit_take_bit_iff leD)
qed

lemma unat_pow2: "k < LENGTH('a) \<Longrightarrow> unat (2 ^ k :: 'a::len word) = 2 ^ k"
proof -
  assume "k < LENGTH('a)"
  then have "take_bit LENGTH('a) (2 ^ k :: nat) = 2 ^ k"
    by (intro take_bit_nat_eq_self power_strict_increasing) simp_all
  then show ?thesis
    by (metis of_nat_numeral of_nat_power unsigned_of_nat)
qed

section \<open>Lists\<close>

lemma nth_append_upd_left:
  "i < length xs \<Longrightarrow> (xs @ ys)[i := v] = xs[i := v] @ ys"
  by (simp add: list_update_append1)

lemma map_upt_add_Suc:
  "map f [a ..< a + Suc n] = f a # map f [Suc a ..< Suc a + n]"
  by (simp add: upt_rec)

lemma take_bit_word_add:
  fixes x y :: "'a::len word"
  shows "take_bit n (take_bit n x + y) = take_bit n (x + y)"
    and "take_bit n (x + take_bit n y) = take_bit n (x + y)"
    and "take_bit n (take_bit n x - y) = take_bit n (x - y)"
    and "take_bit n (x - take_bit n y) = take_bit n (x - y)"
  by (transfer, simp add: take_bit_add take_bit_diff take_bit_take_bit min.commute,
      metis take_bit_add take_bit_diff take_bit_take_bit min.idem)+

end
