(* ===== verification/Base_Types.thy ===== *)
theory Base_Types
  imports Prelude
begin

text \<open>
  \<open>src/alc/types.h\<close> and \<open>src/alc/str.h\<close>: the enumerations every component shares, the
  alignment and power-of-two helpers, and the string slices.

  A \<open>str\<close> is a pair of pointers; the memory it points into is an argument of the functions
  that read it. A character is an Isabelle \<open>char\<close>, which is exactly one byte.
\<close>

section \<open>Enumerations\<close>

datatype register_dst = RD_NONE | RET | PARAM | SCRATCH | NREG | STACK | FRAME

datatype cond =
    COND_EQ | COND_NE | COND_HS | COND_LO | COND_MI | COND_PL | COND_VS | COND_VC
  | COND_HI | COND_LS | COND_GE | COND_LT | COND_GT | COND_LE | COND_AL | COND_NV

definition all_conds :: "cond list" where
  "all_conds = [COND_EQ, COND_NE, COND_HS, COND_LO, COND_MI, COND_PL, COND_VS, COND_VC,
     COND_HI, COND_LS, COND_GE, COND_LT, COND_GT, COND_LE, COND_AL, COND_NV]"

text \<open>The numbering of the enumeration, which the code uses as an index and for parity tests.\<close>

fun cond_no :: "cond \<Rightarrow> nat" where
  "cond_no COND_EQ = 0" | "cond_no COND_NE = 1" | "cond_no COND_HS = 2" | "cond_no COND_LO = 3"
| "cond_no COND_MI = 4" | "cond_no COND_PL = 5" | "cond_no COND_VS = 6" | "cond_no COND_VC = 7"
| "cond_no COND_HI = 8" | "cond_no COND_LS = 9" | "cond_no COND_GE = 10" | "cond_no COND_LT = 11"
| "cond_no COND_GT = 12" | "cond_no COND_LE = 13" | "cond_no COND_AL = 14" | "cond_no COND_NV = 15"

lemma all_conds_nth: "all_conds ! cond_no c = c"
  by (cases c) (simp_all add: all_conds_def)

lemma cond_no_less: "cond_no c < 16"
  by (cases c) simp_all

lemma cond_no_inject [simp]: "cond_no c = cond_no d \<longleftrightarrow> c = d"
  by (cases c; cases d) simp_all

text \<open>The enumeration is ordered by its numbering, as the comparisons of the code take it.\<close>

instantiation cond :: linorder
begin

definition less_eq_cond :: "cond \<Rightarrow> cond \<Rightarrow> bool" where
  "less_eq_cond c d \<longleftrightarrow> cond_no c \<le> cond_no d"

definition less_cond :: "cond \<Rightarrow> cond \<Rightarrow> bool" where
  "less_cond c d \<longleftrightarrow> cond_no c < cond_no d"

instance
  by standard (auto simp: less_eq_cond_def less_cond_def)

end

section \<open>Alignment and powers of two\<close>

definition ALIGN_TO :: "'a::len word \<Rightarrow> 'a word \<Rightarrow> 'a word" where
  "ALIGN_TO e a = (e + a - 1) AND NOT (a - 1)"

definition MAX_REG_SIZE :: nat where
  "MAX_REG_SIZE = 16"

text \<open>The number of leading zero bits, \<open>__builtin_clz\<close>, of a nonzero 32-bit word.\<close>

fun clz_from :: "nat \<Rightarrow> u32 \<Rightarrow> nat" where
  "clz_from 0 w = 32"
| "clz_from (Suc k) w = (if bit w k then 31 - k else clz_from k w)"

definition clz32 :: "u32 \<Rightarrow> nat" where
  "clz32 w = clz_from 32 w"

definition next_pow2 :: "u32 \<Rightarrow> u32" where
  "next_pow2 n = (if n \<le> 1 then 1 else push_bit (32 - clz32 (n - 1)) 1)"


lemma clz_from_bit:
  assumes "k \<le> 32" and "\<And>j. k \<le> j \<Longrightarrow> \<not> bit w j" and "w \<noteq> 0"
  shows "clz_from k w \<le> 31 \<and> bit w (31 - clz_from k w)
         \<and> (\<forall>j. 31 - clz_from k w < j \<longrightarrow> \<not> bit w j)"
  using assms
proof (induction k w rule: clz_from.induct)
  case (1 w)
  then have "w = 0" by (intro bit_word_eqI) simp
  with "1.prems" show ?case by simp
next
  case (2 k w)
  show ?case
  proof (cases "bit w k")
    case True
    with 2 show ?thesis by auto
  next
    case False
    have "\<And>j. k \<le> j \<Longrightarrow> \<not> bit w j"
      using False "2.prems"(2) by (metis Suc_leI le_neq_implies_less)
    with 2 False show ?thesis by simp
  qed
qed

lemma clz32_top_bit:
  assumes "w \<noteq> 0"
  shows "clz32 w \<le> 31" and "bit w (31 - clz32 w)"
    and "\<And>j. 31 - clz32 w < j \<Longrightarrow> \<not> bit w j"
proof -
  have "\<And>j. 32 \<le> j \<Longrightarrow> \<not> bit w j"
    by (auto dest: bit_imp_le_length)
  then show "clz32 w \<le> 31" and "bit w (31 - clz32 w)"
    and "\<And>j. 31 - clz32 w < j \<Longrightarrow> \<not> bit w j"
    using clz_from_bit [of 32 w] assms by (auto simp: clz32_def)
qed

lemma unat_bounds_of_top_bit:
  fixes w :: "'a::len word"
  assumes "bit w k" and "\<And>j. k < j \<Longrightarrow> \<not> bit w j"
  shows "2 ^ k \<le> unat w" and "unat w < 2 ^ Suc k"
proof -
  have "w = take_bit (Suc k) w"
    using assms(2) by (intro bit_word_eqI) (metis bit_take_bit_iff not_less_eq)
  then show "unat w < 2 ^ Suc k"
    by (metis unat_take_bit_less)
  have "bit (unat w) k"
    using assms(1) by (simp add: bit_unsigned_iff)
  then show "2 ^ k \<le> unat w"
    by (metis bit_nat_iff div_less even_zero not_le bit_iff_odd)
qed

text \<open>
  \<open>next_pow2\<close> is the least power of two that is at least its argument, up to \<open>2 ^ 31\<close>: above
  that the shift count of the code reaches the width of the type.
\<close>

lemma next_pow2_exact:
  assumes "0 < unat n" and "unat n \<le> 2 ^ 31"
  shows "\<exists>k. next_pow2 n = push_bit k 1 \<and> unat (next_pow2 n) = 2 ^ k
             \<and> unat n \<le> 2 ^ k \<and> 2 ^ k < 2 * unat n"
proof (cases "n \<le> 1")
  case True
  then have "unat n = 1" using assms(1) by (simp add: word_le_nat_alt)
  then show ?thesis using True by (auto simp: next_pow2_def intro!: exI [of _ 0])
next
  case False
  then have n1: "unat (n - 1) = unat n - 1" and nz: "n - 1 \<noteq> 0"
    by (auto simp: word_le_nat_alt unat_sub_if_size)
  define k where "k = 31 - clz32 (n - 1)"
  have b: "2 ^ k \<le> unat n - 1" "unat n - 1 < 2 ^ Suc k"
    using unat_bounds_of_top_bit [of "n - 1" k] clz32_top_bit [OF nz] n1
    by (simp_all add: k_def)
  have n: "1 < unat n" using False by (simp add: word_le_nat_alt)
  then have "(2::nat) ^ k < 2 ^ 31" using assms(2) b(1) by arith
  then have k: "k < 31" by (rule power_less_imp_less_exp [rotated]) simp
  have sh: "32 - clz32 (n - 1) = Suc k"
    using clz32_top_bit(1) [OF nz] by (simp add: k_def)
  have u: "unat (push_bit (Suc k) (1 :: u32)) = 2 ^ Suc k"
    using k unat_pow2 [of "Suc k", where 'a = 32] by simp
  show ?thesis
    using False b u sh n
    by (intro exI [of _ "Suc k"]) (simp add: next_pow2_def, arith)
qed

section \<open>String slices\<close>

type_synonym memory = "nat \<Rightarrow> char"

record str =
  s_data :: nat
  s_end :: nat

definition str_len :: "str \<Rightarrow> nat" where
  "str_len s = (if s_end s < s_data s then 0 else s_end s - s_data s)"

definition str_empty :: "str \<Rightarrow> bool" where
  "str_empty s = (s_end s = s_data s)"

text \<open>\<open>memcmp\<close> on \<open>n\<close> bytes, as the test for equality the code uses it for.\<close>

fun memeq :: "memory \<Rightarrow> nat \<Rightarrow> nat \<Rightarrow> nat \<Rightarrow> bool" where
  "memeq m a b 0 = True"
| "memeq m a b (Suc n) = (m a = m b \<and> memeq m (Suc a) (Suc b) n)"

fun memeq_lit :: "memory \<Rightarrow> nat \<Rightarrow> string \<Rightarrow> bool" where
  "memeq_lit m a [] = True"
| "memeq_lit m a (c # cs) = (m a = c \<and> memeq_lit m (Suc a) cs)"

definition str_eq :: "memory \<Rightarrow> str \<Rightarrow> str \<Rightarrow> bool" where
  "str_eq m l r = (str_len l = str_len r \<and> memeq m (s_data l) (s_data r) (str_len l))"

definition str_eq_lit :: "memory \<Rightarrow> str \<Rightarrow> string \<Rightarrow> bool" where
  "str_eq_lit m s c = (str_len s = length c \<and> memeq_lit m (s_data s) c)"

definition str_ends_with :: "memory \<Rightarrow> str \<Rightarrow> string \<Rightarrow> bool" where
  "str_ends_with m s c = (length c \<le> str_len s \<and> memeq_lit m (s_end s - length c) c)"

text \<open>The bytes a slice denotes, and the copy into a buffer of \<open>bufsize\<close> bytes.\<close>

definition str_bytes :: "memory \<Rightarrow> str \<Rightarrow> string" where
  "str_bytes m s = map m [s_data s ..< s_end s]"

definition str_to_cstr :: "memory \<Rightarrow> str \<Rightarrow> nat \<Rightarrow> string option" where
  "str_to_cstr m s bufsize =
     (if bufsize \<le> str_len s then None else Some (str_bytes m s @ [CHR 0x00]))"

lemma str_len_bytes: "str_len s = length (str_bytes m s)"
  by (simp add: str_len_def str_bytes_def)

lemma memeq_map: "memeq m a b n \<longleftrightarrow> map m [a ..< a + n] = map m [b ..< b + n]"
  by (induction n arbitrary: a b) (simp_all only: memeq.simps map_upt_add_Suc, auto)

lemma memeq_lit_map: "memeq_lit m a c \<longleftrightarrow> map m [a ..< a + length c] = c"
  by (induction c arbitrary: a) (simp_all only: memeq_lit.simps length_Cons map_upt_add_Suc, auto)

lemma str_bytes_upt: "str_bytes m s = map m [s_data s ..< s_data s + str_len s]"
  by (simp add: str_bytes_def str_len_def)

lemma str_eq_bytes: "str_eq m l r \<longleftrightarrow> str_bytes m l = str_bytes m r"
proof
  assume "str_eq m l r"
  then show "str_bytes m l = str_bytes m r"
    by (auto simp: str_eq_def memeq_map str_bytes_upt)
next
  assume eq: "str_bytes m l = str_bytes m r"
  then have "str_len l = str_len r" by (metis str_len_bytes)
  with eq show "str_eq m l r" by (simp add: str_eq_def memeq_map str_bytes_upt)
qed

lemma str_eq_lit_bytes: "str_eq_lit m s c \<longleftrightarrow> str_bytes m s = c"
  by (metis memeq_lit_map str_bytes_upt str_eq_lit_def str_len_bytes)

text \<open>A cursor between two bounds, and the slice of what it has passed; taking a slice leaves the null slice.\<close>

record iter =
  it_cur :: nat
  it_start :: nat
  it_end :: nat

definition str_null :: str where
  "str_null = \<lparr>s_data = 0, s_end = 0\<rparr>"

definition str_move :: "str \<Rightarrow> str \<times> str" where
  "str_move s = (s, str_null)"

definition iter_init :: "nat \<Rightarrow> nat \<Rightarrow> iter" where
  "iter_init start n = \<lparr>it_cur = start, it_start = start, it_end = start + n\<rparr>"

definition str_from_iter :: "iter \<Rightarrow> str" where
  "str_from_iter it = \<lparr>s_data = it_start it, s_end = it_cur it\<rparr>"

lemma str_from_iter_passed:
  "str_len (str_from_iter ((iter_init start n)\<lparr>it_cur := start + k\<rparr>)) = k"
  by (simp add: str_len_def str_from_iter_def iter_init_def)

end
