(* ===== verification/Buffers.thy ===== *)
theory Buffers
  imports Base_Types
begin

text \<open>
  The containers of \<open>src/alc/buffer.h\<close>, \<open>arr.h\<close>, \<open>dyn.h\<close> and \<open>allocator.h\<close>: text buffers that grow,
  arrays of a fixed capacity, arrays that grow, and the arena that the parameter lists live in.

  A container with its \<open>begin\<close>, \<open>cur\<close> and \<open>end\<close> pointers is the list of the elements before \<open>cur\<close>
  with the capacity; what lies between \<open>cur\<close> and \<open>end\<close> is never read. The result is \<open>None\<close> where
  the code aborts, exits, runs for ever or writes past \<open>end\<close>. Sizes are unbounded.
\<close>

section \<open>Text buffers\<close>

record buf =
  b_cap :: nat
  b_text :: string

definition buf_cap :: "buf \<Rightarrow> nat" where
  "buf_cap b = b_cap b"

definition buf_len :: "buf \<Rightarrow> nat" where
  "buf_len b = length (b_text b)"

partial_function (option) buf_grow :: "nat \<Rightarrow> buf \<Rightarrow> buf option" where
  "buf_grow adding_size b =
    (if buf_cap b \<le> buf_len b + adding_size then buf_grow adding_size (b\<lparr>b_cap := buf_cap b * 2\<rparr>)
     else Some b)"

declare buf_grow.simps [code]

definition buf_init :: "nat \<Rightarrow> buf" where
  "buf_init n = \<lparr>b_cap = n, b_text = []\<rparr>"

definition buf_puts :: "string \<Rightarrow> buf \<Rightarrow> buf option" where
  "buf_puts s b = map_option (\<lambda>b'. b'\<lparr>b_text := b_text b' @ s\<rparr>) (buf_grow (length s) b)"

definition buf_putc :: "char \<Rightarrow> buf \<Rightarrow> buf option" where
  "buf_putc c b = map_option (\<lambda>b'. b'\<lparr>b_text := b_text b' @ [c]\<rparr>) (buf_grow 1 b)"

definition buf_putbuf :: "buf \<Rightarrow> buf \<Rightarrow> buf option" where
  "buf_putbuf src dst =
    map_option (\<lambda>b'. b'\<lparr>b_text := b_text b' @ b_text src\<rparr>) (buf_grow (buf_len src) dst)"

definition SPRINTF_BUFSIZ :: nat where "SPRINTF_BUFSIZ = 0x400"

text \<open>\<open>printed\<close> is the text that the format and its arguments denote.\<close>

definition buf_snprintf :: "string \<Rightarrow> buf \<Rightarrow> buf option" where
  "buf_snprintf printed b =
    (if SPRINTF_BUFSIZ \<le> length printed then None
     else map_option (\<lambda>b'. b'\<lparr>b_text := b_text b' @ printed\<rparr>) (buf_grow (length printed) b))"

subsection \<open>Growing\<close>

lemma buf_grow_done: "buf_len b + n < buf_cap b \<Longrightarrow> buf_grow n b = Some b"
  by (subst buf_grow.simps) simp

lemma buf_grow_total:
  assumes "0 < buf_cap b"
  shows "\<exists>k. buf_grow n b = Some (b\<lparr>b_cap := buf_cap b * 2 ^ k\<rparr>) \<and> buf_len b + n < buf_cap b * 2 ^ k
    \<and> (\<forall>j<k. buf_cap b * 2 ^ j \<le> buf_len b + n)"
  using assms
proof (induction "Suc (buf_len b + n) - buf_cap b" arbitrary: b rule: less_induct)
  case less
  show ?case
  proof (cases "buf_cap b \<le> buf_len b + n")
    case False
    then show ?thesis
      using buf_grow_done [of b n] by (intro exI [of _ 0]) (simp add: buf_cap_def)
  next
    case True
    define b' where "b' = b\<lparr>b_cap := buf_cap b * 2\<rparr>"
    have b': "buf_len b' = buf_len b" "buf_cap b' = buf_cap b * 2" "0 < buf_cap b'"
      using less.prems by (simp_all add: b'_def buf_len_def buf_cap_def)
    have "Suc (buf_len b' + n) - buf_cap b' < Suc (buf_len b + n) - buf_cap b"
      using True b' less.prems by linarith
    from less.hyps [OF this b'(3)] obtain k where
      k: "buf_grow n b' = Some (b'\<lparr>b_cap := buf_cap b' * 2 ^ k\<rparr>)" "buf_len b' + n < buf_cap b' * 2 ^ k"
        "\<forall>j<k. buf_cap b' * 2 ^ j \<le> buf_len b' + n" by blast
    have "buf_grow n b = buf_grow n b'"
      using True by (subst buf_grow.simps) (simp add: b'_def)
    moreover have "\<forall>j<Suc k. buf_cap b * 2 ^ j \<le> buf_len b + n"
      using k(3) b' True by (auto simp: less_Suc_eq_0_disj mult.assoc)
    ultimately show ?thesis
      using k(1,2) b' by (intro exI [of _ "Suc k"]) (simp add: b'_def mult.assoc)
  qed
qed

text \<open>A buffer of capacity zero never grows: the loop doubles zero for ever.\<close>

lemma buf_grow_zero:
  assumes "buf_cap b = 0"
  shows "buf_grow n b = None"
proof -
  have "buf_cap b' \<noteq> 0" if "buf_grow n b' = Some r" for b' r
    using that by (rule buf_grow.raw_induct [where P = "\<lambda>n b r. buf_cap b \<noteq> 0", rotated])
      (fastforce simp: buf_cap_def split: if_splits)
  then show ?thesis using assms by (metis not_None_eq)
qed

definition buf_ok :: "buf \<Rightarrow> bool" where
  "buf_ok b \<longleftrightarrow> 0 < buf_cap b \<and> buf_len b \<le> buf_cap b"

lemma buf_grow_append:
  assumes "buf_ok b" and "length s \<le> n"
  obtains b' where "buf_grow n b = Some b'" and "b_text b' = b_text b" and "buf_ok (b'\<lparr>b_text := b_text b' @ s\<rparr>)"
proof -
  obtain k where k: "buf_grow n b = Some (b\<lparr>b_cap := buf_cap b * 2 ^ k\<rparr>)" "buf_len b + n < buf_cap b * 2 ^ k"
    using buf_grow_total [of b n] assms(1) by (auto simp: buf_ok_def)
  show thesis
    by (rule that [OF k(1)]) (use k(2) assms in \<open>auto simp: buf_ok_def buf_len_def buf_cap_def\<close>)
qed

section \<open>Sinks of text\<close>

text \<open>
  What the assembly emitters rely on: writing is total and appends. \<open>put_all\<close> is a sequence of
  writes.
\<close>

locale text_sink =
  fixes contents :: "'s \<Rightarrow> string" and put :: "string \<Rightarrow> 's \<Rightarrow> 's option" and ok :: "'s \<Rightarrow> bool"
    and limit :: "string \<Rightarrow> bool"
  assumes put_appends: "ok s \<Longrightarrow> limit t \<Longrightarrow> \<exists>s'. put t s = Some s' \<and> ok s' \<and> contents s' = contents s @ t"
begin

primrec put_all :: "string list \<Rightarrow> 's \<Rightarrow> 's option" where
  "put_all [] s = Some s"
| "put_all (t # ts) s = Option.bind (put t s) (put_all ts)"

lemma put_all_appends:
  "ok s \<Longrightarrow> list_all limit ts \<Longrightarrow> \<exists>s'. put_all ts s = Some s' \<and> ok s' \<and> contents s' = contents s @ concat ts"
proof (induction ts arbitrary: s)
  case (Cons t ts)
  obtain s1 where s1: "put t s = Some s1" "ok s1" "contents s1 = contents s @ t"
    using put_appends [OF Cons.prems(1)] Cons.prems(2) by auto
  then show ?case using Cons.IH [OF s1(2)] Cons.prems(2) by auto
qed simp

end

interpretation puts: text_sink b_text buf_puts buf_ok "\<lambda>t. True"
proof
  fix b :: buf and t
  assume "buf_ok b"
  then obtain b' where "buf_grow (length t) b = Some b'" "b_text b' = b_text b"
      "buf_ok (b'\<lparr>b_text := b_text b' @ t\<rparr>)"
    using buf_grow_append [of b t "length t"] by auto
  then show "\<exists>s'. buf_puts t b = Some s' \<and> buf_ok s' \<and> b_text s' = b_text b @ t"
    by (simp add: buf_puts_def)
qed

interpretation printf: text_sink b_text buf_snprintf buf_ok "\<lambda>t. length t < SPRINTF_BUFSIZ"
proof
  fix b :: buf and t :: string
  assume "buf_ok b" and t: "length t < SPRINTF_BUFSIZ"
  then obtain b' where "buf_grow (length t) b = Some b'" "b_text b' = b_text b"
      "buf_ok (b'\<lparr>b_text := b_text b' @ t\<rparr>)"
    using buf_grow_append [of b t "length t"] by auto
  then show "\<exists>s'. buf_snprintf t b = Some s' \<and> buf_ok s' \<and> b_text s' = b_text b @ t"
    using t by (simp add: buf_snprintf_def)
qed

lemma buf_putc_puts: "buf_putc c b = buf_puts [c] b"
  by (simp add: buf_putc_def buf_puts_def)

lemma buf_putbuf_puts: "buf_putbuf src b = buf_puts (b_text src) b"
  by (simp add: buf_putbuf_def buf_puts_def buf_len_def)


section \<open>Arrays of a fixed capacity\<close>

text \<open>\<open>arr_T\<close> with \<open>SIZE\<close> entries; \<open>top\<close> and \<open>pop\<close> of an empty array do nothing.\<close>

definition arr_init :: "'a list" where
  "arr_init = []"

definition arr_push :: "nat \<Rightarrow> 'a list \<Rightarrow> 'a \<Rightarrow> 'a list option" where
  "arr_push SIZE arr value = (if length arr = SIZE then None else Some (arr @ [value]))"

definition arr_pop :: "'a list \<Rightarrow> 'a list" where
  "arr_pop arr = (if arr = [] then arr else butlast arr)"

definition arr_top :: "'a list \<Rightarrow> 'a option" where
  "arr_top arr = (if arr = [] then None else Some (last arr))"

definition arr_is_empty :: "'a list \<Rightarrow> bool" where
  "arr_is_empty arr \<longleftrightarrow> arr = []"

definition arr_len :: "'a list \<Rightarrow> nat" where
  "arr_len arr = length arr"

definition arr_dup :: "'a list \<Rightarrow> 'a list" where
  "arr_dup src = take (length src) src"

text \<open>What the block structure of the parser relies on: a push is undone by a pop.\<close>

locale bounded_stack =
  fixes push :: "'s \<Rightarrow> 'a \<Rightarrow> 's option" and pop :: "'s \<Rightarrow> 's" and top :: "'s \<Rightarrow> 'a option"
    and depth :: "'s \<Rightarrow> nat" and capacity :: nat and ok :: "'s \<Rightarrow> bool"
  assumes push_iff: "ok s \<Longrightarrow> push s a \<noteq> None \<longleftrightarrow> depth s < capacity"
    and push_ok: "ok s \<Longrightarrow> push s a = Some t \<Longrightarrow> ok t"
    and push_depth: "ok s \<Longrightarrow> push s a = Some t \<Longrightarrow> depth t = Suc (depth s)"
    and pop_push: "ok s \<Longrightarrow> push s a = Some t \<Longrightarrow> pop t = s"
    and top_push: "ok s \<Longrightarrow> push s a = Some t \<Longrightarrow> top t = Some a"
begin

primrec pushes :: "'a list \<Rightarrow> 's \<Rightarrow> 's option" where
  "pushes [] s = Some s"
| "pushes (a # as) s = Option.bind (push s a) (pushes as)"

lemma pushes_iff: "ok s \<Longrightarrow> pushes as s \<noteq> None \<longleftrightarrow> as = [] \<or> depth s + length as \<le> capacity"
proof (induction as arbitrary: s)
  case (Cons a as)
  show ?case
  proof (cases "push s a")
    case None
    then show ?thesis using push_iff [OF Cons.prems, of a] by simp
  next
    case (Some t)
    then show ?thesis
      using Cons.IH [OF push_ok [OF Cons.prems Some]] push_depth [OF Cons.prems Some]
        push_iff [OF Cons.prems, of a] by auto
  qed
qed simp

lemma pops_pushes: "ok s \<Longrightarrow> pushes as s = Some t \<Longrightarrow> (pop ^^ length as) t = s"
proof (induction as arbitrary: s)
  case (Cons a as)
  then obtain u where u: "push s a = Some u" "pushes as u = Some t"
    by (auto simp: bind_eq_Some_conv)
  then have "(pop ^^ length as) t = u" using Cons push_ok by blast
  then show ?case using pop_push [OF Cons.prems(1) u(1)] by simp
qed simp

end

interpretation arr: bounded_stack "arr_push SIZE" arr_pop arr_top arr_len SIZE "\<lambda>arr. length arr \<le> SIZE"
  for SIZE :: nat
  by unfold_locales (auto simp: arr_push_def arr_pop_def arr_top_def arr_len_def split: if_splits)

section \<open>Arrays that grow\<close>

record 'a dyn =
  dy_cap :: nat
  dy_elems :: "'a list"

definition dyn0 :: "'a dyn" where
  "dyn0 = \<lparr>dy_cap = 0, dy_elems = []\<rparr>"

definition dyn_realloc :: "'a dyn \<Rightarrow> 'a dyn" where
  "dyn_realloc d =
    (if dy_cap d = 0 then \<lparr>dy_cap = 8, dy_elems = []\<rparr> else d\<lparr>dy_cap := dy_cap d * 2\<rparr>)"

function dyn_reserve :: "nat \<Rightarrow> 'a dyn \<Rightarrow> 'a dyn" where
  "dyn_reserve len d = (if dy_cap d < len then dyn_reserve len (dyn_realloc d) else d)"
  by pat_completeness auto
termination
  by (relation "measure (\<lambda>(len, d). len - dy_cap d)") (auto simp: dyn_realloc_def)

declare dyn_reserve.simps [simp del]

text \<open>A push allocates only when the array is empty; a write at the end of the block is an error.\<close>

definition dyn_push :: "'a dyn \<Rightarrow> 'a \<Rightarrow> 'a dyn option" where
  "dyn_push d elem =
    (let d' = (if dy_elems d = [] then dyn_realloc d else d) in
     if dy_cap d' \<le> length (dy_elems d') then None else Some (d'\<lparr>dy_elems := dy_elems d' @ [elem]\<rparr>))"

definition dyn_len :: "'a dyn \<Rightarrow> nat" where
  "dyn_len d = length (dy_elems d)"

primrec dyn_pushes :: "'a list \<Rightarrow> 'a dyn \<Rightarrow> 'a dyn option" where
  "dyn_pushes [] d = Some d"
| "dyn_pushes (x # xs) d = Option.bind (dyn_push d x) (dyn_pushes xs)"

lemma dyn_reserve_cap: "len \<le> dy_cap (dyn_reserve len d)"
  by (induction len d rule: dyn_reserve.induct) (subst dyn_reserve.simps, simp)

lemma dyn_reserve_elems: "0 < dy_cap d \<or> dy_elems d = [] \<Longrightarrow> dy_elems (dyn_reserve len d) = dy_elems d"
  by (induction len d rule: dyn_reserve.induct) (subst dyn_reserve.simps, auto simp: dyn_realloc_def)

lemma dyn_pushes_room:
  "dy_elems d \<noteq> [] \<Longrightarrow>
    dyn_pushes xs d = (if xs = [] \<or> length (dy_elems d) + length xs \<le> dy_cap d
                       then Some (d\<lparr>dy_elems := dy_elems d @ xs\<rparr>) else None)"
  by (induction xs arbitrary: d) (auto simp: dyn_push_def)

text \<open>
  From the zero-initialised array the pushes succeed for eight elements and no more.
\<close>

lemma dyn_pushes_zero:
  "dyn_pushes xs dyn0 = (if length xs \<le> 8 then Some \<lparr>dy_cap = (if xs = [] then 0 else 8), dy_elems = xs\<rparr> else None)"
  by (cases xs) (auto simp: dyn_push_def dyn_pushes_room dyn_realloc_def dyn0_def)

section \<open>The arena\<close>

record allocator =
  al_size :: nat
  al_used :: nat

definition allocator_init :: "nat \<Rightarrow> allocator" where
  "allocator_init n = \<lparr>al_size = n, al_used = 0\<rparr>"

text \<open>The result is the offset of the block in the arena.\<close>

definition allocator_alloc_undefined :: "allocator \<Rightarrow> nat \<Rightarrow> (nat \<times> allocator) option" where
  "allocator_alloc_undefined al n =
    (let ret = al_used al; used = al_used al + n in
     if al_size al \<le> used then None else Some (ret, al\<lparr>al_used := used\<rparr>))"

primrec alloc_all :: "nat list \<Rightarrow> allocator \<Rightarrow> ((nat \<times> nat) list \<times> allocator) option" where
  "alloc_all [] al = Some ([], al)"
| "alloc_all (n # ns) al =
    (case allocator_alloc_undefined al n of None \<Rightarrow> None
     | Some (p, al') \<Rightarrow> map_option (\<lambda>(bs, al''). ((p, n) # bs, al'')) (alloc_all ns al'))"

text \<open>Blocks handed out one after the other lie in the arena and do not overlap.\<close>

lemma alloc_all_blocks:
  assumes "alloc_all ns al = Some (bs, al')" and "al_used al < al_size al"
  shows "al_used al' = al_used al + sum_list ns \<and> al_used al' < al_size al' \<and> map snd bs = ns
    \<and> (\<forall>i < length bs. fst (bs ! i) = al_used al + sum_list (take i ns))"
  using assms
proof (induction ns arbitrary: al bs al')
  case (Cons n ns)
  then obtain p al1 bs1 where
    a: "allocator_alloc_undefined al n = Some (p, al1)" "alloc_all ns al1 = Some (bs1, al')" "bs = (p, n) # bs1"
    by (auto split: option.splits)
  then have al1: "p = al_used al" "al_used al1 = al_used al + n" "al_used al1 < al_size al1"
    by (auto simp: allocator_alloc_undefined_def Let_def split: if_splits)
  then show ?case
    using Cons.IH [OF a(2) al1(3)] a(3) by (auto simp: nth_Cons split: nat.splits)
qed simp

text \<open>A list with a fixed number of places, allocated in the arena.\<close>

record 'a flist =
  fl_cap :: nat
  fl_elems :: "'a list"

definition list_init :: "nat \<Rightarrow> nat \<Rightarrow> allocator \<Rightarrow> ('a flist \<times> allocator) option" where
  "list_init elem_size len al =
    map_option (\<lambda>(p, al'). (\<lparr>fl_cap = len, fl_elems = []\<rparr>, al')) (allocator_alloc_undefined al (elem_size * len))"

definition list_push :: "'a flist \<Rightarrow> 'a \<Rightarrow> 'a flist option" where
  "list_push l elem =
    (if length (fl_elems l) = fl_cap l then None else Some (l\<lparr>fl_elems := fl_elems l @ [elem]\<rparr>))"

definition list_len :: "'a flist \<Rightarrow> nat" where
  "list_len l = length (fl_elems l)"

section \<open>Properties\<close>

text \<open>
  Growing a buffer ends exactly when its capacity is not zero, and then doubles the capacity as
  few times as it takes for the added bytes and a terminating one to fit; the text is kept.
\<close>

lemma buf_grow_exact:
  "buf_grow n b = (if buf_cap b = 0 then None
    else Some (b\<lparr>b_cap := buf_cap b * 2 ^ (LEAST k. buf_len b + n < buf_cap b * 2 ^ k)\<rparr>))"
proof (cases "buf_cap b = 0")
  case True
  then show ?thesis by (simp add: buf_grow_zero)
next
  case False
  then obtain k where k: "buf_grow n b = Some (b\<lparr>b_cap := buf_cap b * 2 ^ k\<rparr>)"
      "buf_len b + n < buf_cap b * 2 ^ k" "\<forall>j<k. buf_cap b * 2 ^ j \<le> buf_len b + n"
    using buf_grow_total [of b n] by auto
  then have "(LEAST k. buf_len b + n < buf_cap b * 2 ^ k) = k"
    by (intro Least_equality) (auto simp: not_less [symmetric])
  then show ?thesis using False k(1) by simp
qed

text \<open>
  C34. Pushing onto a zero-initialised growing array works for the first eight elements only: the array
  grows when it is empty and at no other time, so the ninth push writes past its block.
\<close>

theorem dyn_push_limit:
  "dyn_pushes xs dyn0 = (if length xs \<le> 8
    then Some \<lparr>dy_cap = (if xs = [] then 0 else 8), dy_elems = xs\<rparr> else None)"
  by (rule dyn_pushes_zero)

text \<open>
  C31. Blocks allocated one after the other from the symbol arena lie inside it, one right after
  another in the order of the requests, so that no two overlap; a request that reaches the end of
  the arena aborts.
\<close>

theorem arena_blocks:
  assumes "alloc_all ns (allocator_init n) = Some (bs, al)" and "0 < n"
  shows "map snd bs = ns \<and> (\<forall>i < length bs. fst (bs ! i) = sum_list (take i ns))
    \<and> al_used al = sum_list ns \<and> sum_list ns < n"
proof -
  have "al_size al' = al_size al0" if "alloc_all ms al0 = Some (cs, al')" for ms al0 cs al'
    using that
    by (induction ms arbitrary: al0 cs)
       (auto simp: allocator_alloc_undefined_def Let_def split: option.splits if_splits)
  then show ?thesis
    using alloc_all_blocks [OF assms(1)] assms by (simp add: allocator_init_def)
qed

lemma arena_blocks_witness:
  "\<exists>bs al. alloc_all [4, 8] (allocator_init 16) = Some (bs, al) \<and> map snd bs = [4, 8] \<and> fst (bs ! 1) = 4 \<and> al_used al = 12"
proof -
  obtain bs al where a: "alloc_all [4, 8] (allocator_init 16) = Some (bs, al)"
    by (simp add: allocator_alloc_undefined_def allocator_init_def)
  have "map snd bs = [4, 8] \<and> (\<forall>i < length bs. fst (bs ! i) = sum_list (take i [4, 8])) \<and> al_used al = sum_list [4, 8]"
    using arena_blocks [OF a] by simp
  moreover from this have "length bs = 2" using length_map [of snd bs] by simp
  ultimately show ?thesis using a by auto
qed

end
