(* ===== verification/Type_System.thy ===== *)
theory Type_System
  imports Buffers
begin

text \<open>
  \<open>src/alc/typesys.h\<close>: types, derived types (a base type under a list of declarators, the
  outermost first), registers, and the values an expression can denote.

  A \<open>type_t *\<close> is a \<open>nat\<close> address into a type store, so that the pointer comparisons of the
  code are comparisons of addresses; \<open>None\<close> is the null pointer. A function that follows a
  base pointer takes the store, and its result is \<open>None\<close> where the code would follow a null
  pointer or reach \<open>unreachable\<close>. The array \<open>decl\<close> with its \<open>decl_len\<close> is the list of the
  declarators in use.
\<close>

section \<open>Data\<close>

datatype type_kind = TK_NONE | TK_FUND | TK_STRUCT | TK_UNION

datatype dtype_kind = DK_ADDR | DK_ARRAY | DK_CHECK | DK_SLICE | DK_NONE

text \<open>The amount is a signed bit-field of 29 bits.\<close>

record declarator =
  dk_tag :: dtype_kind
  dk_amount :: "29 word"

definition amount_i32 :: "declarator \<Rightarrow> i32" where
  "amount_i32 d = scast (dk_amount d)"

definition DECLARATOR_MAX :: nat where
  "DECLARATOR_MAX = 8"

record dtype =
  d_base :: "nat option"
  d_decl :: "declarator list"

record member =
  m_dtype :: dtype
  m_name :: string
  m_offset :: usize

record type_t =
  ty_size :: usize
  ty_align :: u8
  ty_tag :: type_kind
  ty_sign :: bool
  ty_name :: string
  ty_members :: "member list"

type_synonym tstore = "nat \<Rightarrow> type_t"

definition base_type :: "tstore \<Rightarrow> dtype \<Rightarrow> type_t option" where
  "base_type ts d = map_option ts (d_base d)"

text \<open>The zero-initialised values \<open>(declarator_t){0}\<close> and \<open>(dtype_t){0}\<close>.\<close>

definition decl0 :: declarator where
  "decl0 = \<lparr>dk_tag = DK_ADDR, dk_amount = 0\<rparr>"

definition dtype0 :: dtype where
  "dtype0 = \<lparr>d_base = None, d_decl = []\<rparr>"

section \<open>Declarator lists\<close>

definition dtype_full :: "dtype \<Rightarrow> bool" where
  "dtype_full d \<longleftrightarrow> DECLARATOR_MAX \<le> length (d_decl d)"

definition dtype_append :: "dtype \<Rightarrow> declarator \<Rightarrow> dtype" where
  "dtype_append d x = (if dtype_full d then d else d\<lparr>d_decl := d_decl d @ [x]\<rparr>)"

definition dtype_wrap :: "dtype \<Rightarrow> declarator \<Rightarrow> dtype" where
  "dtype_wrap d x = (if dtype_full d then d else d\<lparr>d_decl := x # d_decl d\<rparr>)"

definition dtype_outer :: "dtype \<Rightarrow> declarator" where
  "dtype_outer d = (case d_decl d of [] \<Rightarrow> decl0 | x # _ \<Rightarrow> x)"

definition dtype_unwrap :: "dtype \<Rightarrow> declarator \<times> dtype" where
  "dtype_unwrap d = (case d_decl d of [] \<Rightarrow> (decl0, d) | x # xs \<Rightarrow> (x, d\<lparr>d_decl := xs\<rparr>))"

definition dtype_unwrap_dup :: "dtype \<Rightarrow> dtype" where
  "dtype_unwrap_dup d = snd (dtype_unwrap d)"

definition dtype_empty :: "dtype \<Rightarrow> bool" where
  "dtype_empty d \<longleftrightarrow> d_decl d = []"

definition dtype_tryget :: "dtype \<Rightarrow> dtype_kind \<Rightarrow> i32" where
  "dtype_tryget d k = (if dk_tag (dtype_outer d) \<noteq> k then 0 else amount_i32 (dtype_outer d))"

definition dtype_tryget_arr :: "dtype \<Rightarrow> i32" where
  "dtype_tryget_arr d =
     (if dk_tag (dtype_outer d) \<noteq> DK_ARRAY then 0 else amount_i32 (dtype_outer d))"

text \<open>The address declarator, looked for below one leading check declarator.\<close>

definition dtype_tryget_addr :: "dtype \<Rightarrow> i32" where
  "dtype_tryget_addr d =
     (let i = (case d_decl d of [] \<Rightarrow> 0 | x # _ \<Rightarrow> if dk_tag x = DK_CHECK then 1 else 0)
      in if length (d_decl d) \<le> i \<or> dk_tag (d_decl d ! i) \<noteq> DK_ADDR then 0
         else amount_i32 (d_decl d ! i))"

definition sizeof_ptr :: usize where
  "sizeof_ptr = 8"

text \<open>
  The size of a derived type. An address and a slice do not follow the base pointer. An array
  of nonpositive length is only reported, and its size is still the product.
\<close>

fun decls_size :: "type_t option \<Rightarrow> declarator list \<Rightarrow> usize option" where
  "decls_size b [] = map_option ty_size b"
| "decls_size b (x # xs) =
     (case dk_tag x of
        DK_ADDR \<Rightarrow> Some sizeof_ptr
      | DK_ARRAY \<Rightarrow> map_option (\<lambda>t. ty_size t * scast (dk_amount x)) b
      | DK_CHECK \<Rightarrow> decls_size b xs
      | DK_SLICE \<Rightarrow> Some (sizeof_ptr * 2)
      | DK_NONE \<Rightarrow> None)"

definition dtype_size :: "tstore \<Rightarrow> dtype \<Rightarrow> usize option" where
  "dtype_size ts d = decls_size (base_type ts d) (d_decl d)"

definition dtype_reg_count :: "dtype \<Rightarrow> nat" where
  "dtype_reg_count d = (if list_ex (\<lambda>x. dk_tag x = DK_SLICE) (d_decl d) then 2 else 1)"

text \<open>Equality of derived types: the length of a slice is not compared.\<close>

definition decl_match :: "declarator \<Rightarrow> declarator \<Rightarrow> bool" where
  "decl_match x y \<longleftrightarrow>
     dk_tag x = dk_tag y \<and> (dk_tag x \<noteq> DK_SLICE \<longrightarrow> dk_amount x = dk_amount y)"

fun decls_eq :: "declarator list \<Rightarrow> declarator list \<Rightarrow> bool" where
  "decls_eq (x # xs) (y # ys) =
     (if dk_tag x \<noteq> dk_tag y then False
      else if dk_tag x \<noteq> DK_SLICE \<and> dk_amount x \<noteq> dk_amount y then False
      else decls_eq xs ys)"
| "decls_eq _ _ = True"

definition dtype_eq :: "dtype \<Rightarrow> dtype \<Rightarrow> bool" where
  "dtype_eq l r =
     (if length (d_decl l) \<noteq> length (d_decl r) then False
      else if \<not> decls_eq (d_decl l) (d_decl r) then False
      else d_base l = d_base r)"

text \<open>
  Convertibility: the two cursors of the loop are the two remaining lists. A check declarator
  of the target is skipped where the source has none; what is left of the target after the
  loop must be check declarators.
\<close>

fun decls_check :: "declarator list \<Rightarrow> declarator list \<Rightarrow> bool" where
  "decls_check (x # xs) (y # ys) =
     (if dk_tag y = DK_CHECK \<and> dk_tag x \<noteq> DK_CHECK then decls_check (x # xs) ys
      else if dk_tag x \<noteq> dk_tag y then False
      else if dk_tag x \<noteq> DK_SLICE \<and> dk_amount x \<noteq> dk_amount y then False
      else decls_check xs ys)"
| "decls_check xs ys = (xs = [] \<and> dropWhile (\<lambda>y. dk_tag y = DK_CHECK) ys = [])"

definition dtype_check :: "dtype \<Rightarrow> dtype \<Rightarrow> bool" where
  "dtype_check from to = (decls_check (d_decl from) (d_decl to) \<and> d_base from = d_base to)"

section \<open>Registers and values\<close>

record reg =
  r_offset :: i32
  r_rsize :: u8
  r_type :: register_dst
  r_disp :: "21 word"
  r_dtype :: dtype

definition reg0 :: reg where
  "reg0 = \<lparr>r_offset = 0, r_rsize = 0, r_type = RD_NONE, r_disp = 0, r_dtype = dtype0\<rparr>"

definition reg_eq :: "reg \<Rightarrow> reg \<Rightarrow> bool" where
  "reg_eq l r \<longleftrightarrow> r_offset l = r_offset r \<and> r_rsize l = r_rsize r \<and> r_type l = r_type r
     \<and> dtype_eq (r_dtype l) (r_dtype r)"

datatype regable = R_NONE | R_VALUE i64 | R_REG reg

datatype agg_member = A_NONE | A_VALUE i64 | A_REG reg | A_AGGREGATE "agg_member list"

fun agg_member_from :: "regable \<Rightarrow> agg_member" where
  "agg_member_from (R_VALUE v) = A_VALUE v"
| "agg_member_from (R_REG r) = A_REG r"
| "agg_member_from R_NONE = A_NONE"

text \<open>The number of trailing zero bits of a nonzero word, \<open>__builtin_ctzll\<close>.\<close>

fun ctz_from :: "nat \<Rightarrow> nat \<Rightarrow> 'a::len word \<Rightarrow> nat" where
  "ctz_from 0 k w = k"
| "ctz_from (Suc n) k w = (if bit w k then k else ctz_from n (Suc k) w)"

definition ctz :: "'a::len word \<Rightarrow> nat" where
  "ctz w = ctz_from LENGTH('a) 0 w"

definition power_of_two_exponent :: "usize \<Rightarrow> nat" where
  "power_of_two_exponent n = (if n = 0 \<or> n AND (n - 1) \<noteq> 0 then 0 else ctz n)"

section \<open>Parser state\<close>

datatype eob = EOB_NONE | EOB | SOB

definition MAX_BLOCK_DEPTH :: nat where "MAX_BLOCK_DEPTH = 10"
definition MAX_STACK_SLOTS :: nat where "MAX_STACK_SLOTS = 64"

text \<open>
  A target's register is a pointer into the tables of local names: a scope and a slot of it. A
  symbol's lists have the capacity they were allocated with; a pointer to a symbol is its slot.
\<close>

record target =
  tg_reg :: "nat \<times> nat"
  tg_assigned :: bool
  tg_name :: string

record symbol =
  sy_name :: string
  sy_airity :: u8
  sy_ret_airity :: u8
  sy_is_fn :: bool
  sy_is_called :: bool
  sy_is_placeholder :: bool
  sy_params :: "reg flist"
  sy_rets :: "reg flist"

record stack_slot =
  sl_name :: string
  sl_type_name :: "string option"
  sl_offset :: usize
  sl_size :: usize

text \<open>
  The part of \<open>parser_context\<close> that is state of the function being compiled; the source, the token
  and the fields that only \<open>tok\<close> and its callers use are in the state of the lexer.
\<close>

record parser_context =
  pc_reg :: reg
  pc_stack_size :: i32
  pc_unnamed_labels :: u16
  pc_calls_fn :: bool
  pc_has_branched_ret :: bool
  pc_returns_on_exit :: bool
  pc_nreg_count :: u8
  pc_max_nreg_count :: u8
  pc_last_fn_call :: "nat option"
  pc_name :: string
  pc_check_fail_fn :: string
  pc_check_fail_label :: string
  pc_targets :: "target list"
  pc_nreg_mark :: "u8 list"
  pc_symbol :: "nat option"
  pc_stack_slots :: "stack_slot list"

definition parser_context0 :: parser_context where
  "parser_context0 = \<lparr>pc_reg = reg0, pc_stack_size = 0, pc_unnamed_labels = 0, pc_calls_fn = False,
     pc_has_branched_ret = False, pc_returns_on_exit = False, pc_nreg_count = 0, pc_max_nreg_count = 0,
     pc_last_fn_call = None, pc_name = [], pc_check_fail_fn = [], pc_check_fail_label = [], pc_targets = [],
     pc_nreg_mark = [], pc_symbol = None, pc_stack_slots = []\<rparr>"

section \<open>Laws of the declarator list\<close>

lemma dtype_unwrap_wrap:
  "\<not> dtype_full d \<Longrightarrow> dtype_unwrap (dtype_wrap d x) = (x, d)"
  by (simp add: dtype_unwrap_def dtype_wrap_def)

lemma dtype_wrap_full: "dtype_full d \<Longrightarrow> dtype_wrap d x = d"
  by (simp add: dtype_wrap_def)

lemma decls_eq_list_all2:
  "length xs = length ys \<Longrightarrow> decls_eq xs ys \<longleftrightarrow> list_all2 decl_match xs ys"
  by (induction xs ys rule: decls_eq.induct) (auto simp: decl_match_def)

lemma dtype_eq_iff:
  "dtype_eq l r \<longleftrightarrow> list_all2 decl_match (d_decl l) (d_decl r) \<and> d_base l = d_base r"
  by (auto simp: dtype_eq_def decls_eq_list_all2 dest: list_all2_lengthD)

lemma decl_match_refl: "decl_match x x"
  by (simp add: decl_match_def)

lemma decl_match_sym: "decl_match x y \<Longrightarrow> decl_match y x"
  by (auto simp: decl_match_def)

lemma decl_match_trans: "decl_match x y \<Longrightarrow> decl_match y z \<Longrightarrow> decl_match x z"
  by (auto simp: decl_match_def)

lemma dtype_eq_refl: "dtype_eq d d"
  by (simp add: dtype_eq_iff list_all2_refl decl_match_refl)

lemma dtype_eq_sym: "dtype_eq l r \<Longrightarrow> dtype_eq r l"
  by (auto simp: dtype_eq_iff list_all2_conv_all_nth decl_match_sym)

lemma dtype_eq_trans: "dtype_eq a b \<Longrightarrow> dtype_eq b c \<Longrightarrow> dtype_eq a c"
  using list_all2_trans [of decl_match decl_match decl_match, OF decl_match_trans]
  by (auto simp: dtype_eq_iff)

text \<open>The declarators that are not checks, which is what a value of the type is.\<close>

definition strip_checks :: "declarator list \<Rightarrow> declarator list" where
  "strip_checks xs = filter (\<lambda>x. dk_tag x \<noteq> DK_CHECK) xs"

lemma strip_checks_simps [simp]:
  "strip_checks [] = []"
  "strip_checks (x # xs) =
     (if dk_tag x = DK_CHECK then strip_checks xs else x # strip_checks xs)"
  by (simp_all add: strip_checks_def)

lemma strip_checks_Nil: "strip_checks ys = [] \<longleftrightarrow> (\<forall>y\<in>set ys. dk_tag y = DK_CHECK)"
  by (induction ys) auto

lemma decls_check_sound:
  "decls_check xs ys \<Longrightarrow> list_all2 decl_match (strip_checks xs) (strip_checks ys)"
  by (induction xs ys rule: decls_check.induct)
     (auto simp: decl_match_def strip_checks_Nil split: if_splits)

lemma decls_check_complete:
  assumes "strip_checks xs = xs" and "list_all2 decl_match xs (strip_checks ys)"
  shows "decls_check xs ys"
  using assms
proof (induction xs ys rule: decls_check.induct)
  case (1 x xs y ys)
  have x: "dk_tag x \<noteq> DK_CHECK" and xs: "strip_checks xs = xs"
    using "1.prems"(1) by (auto split: if_splits dest: arg_cong [of _ _ length])
       (metis impossible_Cons length_filter_le strip_checks_def)+
  then show ?case using 1 by (auto simp: decl_match_def split: if_splits)
qed (auto simp: strip_checks_Nil list_all2_Cons1 list_all2_Cons2)

lemma dtype_check_of_eq: "dtype_eq l r \<Longrightarrow> dtype_check l r"
proof -
  have "list_all2 decl_match xs ys \<Longrightarrow> decls_check xs ys" for xs ys
    by (induction xs ys rule: list_all2_induct) (auto simp: decl_match_def)
  then show "dtype_eq l r \<Longrightarrow> dtype_check l r"
    by (simp add: dtype_eq_iff dtype_check_def)
qed

end
