(* ===== verification/Hash_Tables.thy ===== *)
theory Hash_Tables
  imports Type_System
begin

text \<open>
  The hash tables of \<open>src/alc/hashmap.h\<close> and \<open>src/alc/mini_hashset.h\<close>: the symbol and type tables,
  the tables of local names with their stack of scopes, and the table of constants.

  A table is the list of its slots, a key and a value; a key whose pointer is null is \<open>None\<close>. Keys are
  compared by their bytes, so a key is its bytes. The conversion of a \<open>char\<close> to \<open>u64\<close>, which
  depends on the signedness of \<open>char\<close>, is the argument \<open>cv\<close>. Probing can find a slot, abort because it
  came back to its start, or never do either; the three are \<open>Some (Done i)\<close>, \<open>Some Abort\<close> and \<open>None\<close>.
\<close>

section \<open>Hashing and probing\<close>

fun fnv :: "(char \<Rightarrow> u64) \<Rightarrow> u64 \<Rightarrow> string \<Rightarrow> u64" where
  "fnv cv h [] = h"
| "fnv cv h (c # cs) = fnv cv ((h XOR cv c) * 0x100000001b3) cs"

definition hash_fnv_1a :: "(char \<Rightarrow> u64) \<Rightarrow> string \<Rightarrow> u64" where
  "hash_fnv_1a cv s = fnv cv 0xcbf29ce484222325 s"

definition hash :: "(char \<Rightarrow> u64) \<Rightarrow> string \<Rightarrow> u64" where
  "hash cv s = fnv cv 0xcbf29ce484222325 s"

datatype 'a outcome = Abort | Done 'a

type_synonym 'v table = "(string option \<times> 'v) list"

partial_function (option) probe ::
    "(nat \<Rightarrow> nat) \<Rightarrow> string option list \<Rightarrow> string \<Rightarrow> nat \<Rightarrow> nat \<Rightarrow> nat outcome option" where
  "probe step keys s start index =
    (if keys ! index = None \<or> keys ! index = Some s then Some (Done index)
     else if step index = start then Some Abort
     else probe step keys s start (step index))"

declare probe.simps [code]

section \<open>Symbol and type tables\<close>

definition hashmap_find :: "nat \<Rightarrow> (char \<Rightarrow> u64) \<Rightarrow> 'v table \<Rightarrow> string \<Rightarrow> nat outcome option" where
  "hashmap_find len cv tab s =
    (let start = unat (hash_fnv_1a cv s) mod len in
     probe (\<lambda>i. (i + 1) AND (len - 1)) (map fst tab) s start start)"

text \<open>The three callers of \<open>find\<close>, on the slot it returns.\<close>

definition tryfind_at :: "'v table \<Rightarrow> nat \<Rightarrow> 'v option" where
  "tryfind_at tab i = (if fst (tab ! i) = None then None else Some (snd (tab ! i)))"

definition overwrite_at :: "'v table \<Rightarrow> string \<Rightarrow> 'v \<Rightarrow> nat \<Rightarrow> 'v table" where
  "overwrite_at tab s v i = tab[i := (Some s, v)]"

definition tryadd_at :: "'v table \<Rightarrow> string \<Rightarrow> 'v \<Rightarrow> nat \<Rightarrow> ('v table) option" where
  "tryadd_at tab s v i = (if fst (tab ! i) \<noteq> None then None else Some (tab[i := (Some s, v)]))"

primrec on_found :: "('a \<Rightarrow> 'b) \<Rightarrow> 'a outcome \<Rightarrow> 'b outcome" where
  "on_found f Abort = Abort"
| "on_found f (Done a) = Done (f a)"

definition hashmap_tryfind :: "nat \<Rightarrow> (char \<Rightarrow> u64) \<Rightarrow> 'v table \<Rightarrow> string \<Rightarrow> 'v option outcome option" where
  "hashmap_tryfind len cv tab s = map_option (on_found (tryfind_at tab)) (hashmap_find len cv tab s)"

definition hashmap_overwrite :: "nat \<Rightarrow> (char \<Rightarrow> u64) \<Rightarrow> 'v table \<Rightarrow> string \<Rightarrow> 'v \<Rightarrow> 'v table outcome option" where
  "hashmap_overwrite len cv tab s v = map_option (on_found (overwrite_at tab s v)) (hashmap_find len cv tab s)"

definition hashmap_tryadd :: "nat \<Rightarrow> (char \<Rightarrow> u64) \<Rightarrow> 'v table \<Rightarrow> string \<Rightarrow> 'v \<Rightarrow> 'v table option outcome option" where
  "hashmap_tryadd len cv tab s v = map_option (on_found (tryadd_at tab s v)) (hashmap_find len cv tab s)"

section \<open>Tables of local names\<close>

definition array_len :: nat where "array_len = 26"

definition find_entry :: "(char \<Rightarrow> u64) \<Rightarrow> 'v table \<Rightarrow> string \<Rightarrow> nat outcome option" where
  "find_entry cv tab s =
    (let start = unat (hash cv s) mod array_len in
     probe (\<lambda>i. (i + 1) mod array_len) (map fst tab) s start start)"

definition has_entry :: "(char \<Rightarrow> u64) \<Rightarrow> 'v table \<Rightarrow> string \<Rightarrow> bool outcome option" where
  "has_entry cv tab s = map_option (on_found (\<lambda>i. fst (tab ! i) \<noteq> None)) (find_entry cv tab s)"

definition overwrite_id :: "(char \<Rightarrow> u64) \<Rightarrow> 'v table \<Rightarrow> string \<Rightarrow> 'v \<Rightarrow> 'v table outcome option" where
  "overwrite_id cv tab s v = map_option (on_found (overwrite_at tab s v)) (find_entry cv tab s)"

definition add_id :: "(char \<Rightarrow> u64) \<Rightarrow> 'v table \<Rightarrow> string \<Rightarrow> 'v \<Rightarrow> 'v table option outcome option" where
  "add_id cv tab s v = map_option (on_found (tryadd_at tab s v)) (find_entry cv tab s)"

definition mini_hashset_clear :: "'v table \<Rightarrow> 'v table" where
  "mini_hashset_clear tab = map (\<lambda>(k, v). (None, v)) tab"

section \<open>Scopes\<close>

definition MAX_DEPTH :: nat where "MAX_DEPTH = 7"

record 'v scopes =
  sc_data :: "'v table list"
  sc_cur :: nat

definition arr_mini_hashset_init :: "'v scopes \<Rightarrow> 'v scopes" where
  "arr_mini_hashset_init arr =
    arr\<lparr>sc_cur := 0, sc_data := (sc_data arr)[0 := mini_hashset_clear (sc_data arr ! 0)]\<rparr>"

definition arr_mini_hashset_push :: "'v scopes \<Rightarrow> 'v scopes option" where
  "arr_mini_hashset_push arr =
    (if sc_cur arr + 1 = MAX_DEPTH then None
     else (let c = sc_cur arr + 1 in
           Some (arr\<lparr>sc_cur := c, sc_data := (sc_data arr)[c := mini_hashset_clear (sc_data arr ! c)]\<rparr>)))"

definition arr_mini_hashset_pop :: "'v scopes \<Rightarrow> 'v scopes" where
  "arr_mini_hashset_pop arr = (if sc_cur arr = 0 then arr else arr\<lparr>sc_cur := sc_cur arr - 1\<rparr>)"

definition arr_mini_hashset_top :: "'v scopes \<Rightarrow> nat option" where
  "arr_mini_hashset_top arr = (if sc_cur arr = 0 then None else Some (sc_cur arr - 1))"

text \<open>The scope and the slot of an identifier, looked for from scope \<open>k\<close> outwards.\<close>

fun find_scope :: "(char \<Rightarrow> u64) \<Rightarrow> 'v table list \<Rightarrow> string \<Rightarrow> nat \<Rightarrow> (nat \<times> nat) option outcome option" where
  "find_scope cv data s k =
    (case find_entry cv (data ! k) s of
       None \<Rightarrow> None
     | Some Abort \<Rightarrow> Some Abort
     | Some (Done i) \<Rightarrow>
        if fst (data ! k ! i) \<noteq> None then Some (Done (Some (k, i)))
        else if k = 0 then Some (Done None)
        else find_scope cv data s (k - 1))"

declare find_scope.simps [simp del]

text \<open>Whether the identifier was found, and the scope and slot that \<open>*out\<close> points into.\<close>

definition find_id :: "(char \<Rightarrow> u64) \<Rightarrow> 'v scopes \<Rightarrow> string \<Rightarrow> (bool \<times> nat \<times> nat) outcome option" where
  "find_id cv arr s =
    (case find_scope cv (sc_data arr) s (sc_cur arr) of
       None \<Rightarrow> None
     | Some Abort \<Rightarrow> Some Abort
     | Some (Done (Some (k, i))) \<Rightarrow> Some (Done (True, k, i))
     | Some (Done None) \<Rightarrow>
        map_option (on_found (\<lambda>i. (False, sc_cur arr, i))) (find_entry cv (sc_data arr ! sc_cur arr) s))"

section \<open>The table of constants\<close>

definition CONST_MINI_HASHSET_SIZE :: nat where "CONST_MINI_HASHSET_SIZE = 64"

definition const_hashmap_find_index :: "(char \<Rightarrow> u64) \<Rightarrow> i64 table \<Rightarrow> string \<Rightarrow> nat outcome option" where
  "const_hashmap_find_index cv tab s =
    (let start = unat (hash cv s) mod array_len in
     probe (\<lambda>i. (i + 1) AND (array_len - 1)) (map fst tab) s start start)"

definition const_hashmap_tryadd :: "(char \<Rightarrow> u64) \<Rightarrow> i64 table \<Rightarrow> string \<Rightarrow> i64 \<Rightarrow> i64 table option outcome option" where
  "const_hashmap_tryadd cv tab s v = map_option (on_found (tryadd_at tab s v)) (const_hashmap_find_index cv tab s)"

definition const_hashmap_tryfind :: "(char \<Rightarrow> u64) \<Rightarrow> i64 table \<Rightarrow> string \<Rightarrow> i64 option outcome option" where
  "const_hashmap_tryfind cv tab s = map_option (on_found (tryfind_at tab)) (const_hashmap_find_index cv tab s)"

section \<open>What probing finds\<close>

text \<open>The slots in the order of a linear probe, and the first of them that is free or has the key.\<close>

definition slots :: "nat \<Rightarrow> nat \<Rightarrow> nat list" where
  "slots len start = map (\<lambda>k. (start + k) mod len) [0 ..< len]"

fun scan :: "string option list \<Rightarrow> string \<Rightarrow> nat list \<Rightarrow> nat outcome" where
  "scan keys s [] = Abort"
| "scan keys s (i # is) = (if keys ! i = None \<or> keys ! i = Some s then Done i else scan keys s is)"

lemma set_slots: "start < len \<Longrightarrow> set (slots len start) = {..<len}"
proof -
  assume s: "start < len"
  have "i \<in> set (slots len start)" if "i < len" for i
  proof (cases "start \<le> i")
    case True
    then show ?thesis using that unfolding slots_def by (intro image_eqI [of _ _ "i - start"] list.set_map [THEN equalityD2, THEN subsetD]) auto
  next
    case False
    then show ?thesis using that s unfolding slots_def
      by (intro list.set_map [THEN equalityD2, THEN subsetD] image_eqI [of _ _ "len + i - start"]) auto
  qed
  then show ?thesis using s by (auto simp: slots_def)
qed

lemma distinct_slots: "start < len \<Longrightarrow> distinct (slots len start)"
  using set_slots [of start len] by (intro card_distinct) (simp add: slots_def)

lemma scan_Done:
  "scan keys s is = Done i \<longleftrightarrow>
    (\<exists>pre post. is = pre @ i # post \<and> (keys ! i = None \<or> keys ! i = Some s)
       \<and> (\<forall>j\<in>set pre. keys ! j \<noteq> None \<and> keys ! j \<noteq> Some s))"
proof (induction "is")
  case (Cons a "is")
  show ?case
  proof (cases "keys ! a = None \<or> keys ! a = Some s")
    case True
    then show ?thesis by (auto simp: Cons_eq_append_conv)
  next
    case False
    then have "scan keys s (a # is) = scan keys s is" by (simp del: not_None_eq)
    also have "\<dots> = Done i \<longleftrightarrow> (\<exists>pre post. a # is = pre @ i # post \<and> (keys ! i = None \<or> keys ! i = Some s)
       \<and> (\<forall>j\<in>set pre. keys ! j \<noteq> None \<and> keys ! j \<noteq> Some s))" (is "_ \<longleftrightarrow> ?R")
    proof
      assume "scan keys s is = Done i"
      then obtain pre post where "is = pre @ i # post" "keys ! i = None \<or> keys ! i = Some s"
          "\<forall>j\<in>set pre. keys ! j \<noteq> None \<and> keys ! j \<noteq> Some s"
        using Cons.IH by blast
      then show ?R using False by (intro exI [of _ "a # pre"] exI [of _ post]) auto
    next
      assume ?R
      then obtain pre post where p: "a # is = pre @ i # post" "keys ! i = None \<or> keys ! i = Some s"
          "\<forall>j\<in>set pre. keys ! j \<noteq> None \<and> keys ! j \<noteq> Some s" by blast
      then obtain pre' where "pre = a # pre'" using False by (cases pre) auto
      then show "scan keys s is = Done i"
        using p Cons.IH by (intro iffD2 [OF Cons.IH] exI [of _ pre'] exI [of _ post]) auto
    qed
    finally show ?thesis .
  qed
qed simp

lemma scan_Abort: "scan keys s is = Abort \<longleftrightarrow> (\<forall>j\<in>set is. keys ! j \<noteq> None \<and> keys ! j \<noteq> Some s)"
  by (induction "is") auto

lemma scan_mem: "scan keys s is = Done i \<Longrightarrow> i \<in> set is \<and> (keys ! i = None \<or> keys ! i = Some s)"
  by (auto simp: scan_Done)

text \<open>A slot that the scan of another key passes, or that lies behind it, can be given any other key.\<close>

lemma scan_update:
  assumes "distinct is" and "i < length keys" and "scan keys s is = Done j" and "j \<noteq> i" and "s' \<noteq> s"
  shows "scan (keys[i := Some s']) s is = Done j"
proof -
  obtain pre post where p: "is = pre @ j # post" "keys ! j = None \<or> keys ! j = Some s"
      "\<forall>k\<in>set pre. keys ! k \<noteq> None \<and> keys ! k \<noteq> Some s"
    using assms(3) by (auto simp: scan_Done)
  have "keys[i := Some s'] ! k \<noteq> None \<and> keys[i := Some s'] ! k \<noteq> Some s" if "k \<in> set pre" for k
    using that p(3) assms(2,5) by (cases "k = i") auto
  then show ?thesis using p assms(4) unfolding scan_Done by (intro exI [of _ pre] exI [of _ post]) auto
qed

lemma scan_update_same:
  assumes "distinct is" and "i < length keys" and "scan keys s is = Done i"
  shows "scan (keys[i := Some s]) s is = Done i"
proof -
  obtain pre post where p: "is = pre @ i # post" "\<forall>k\<in>set pre. keys ! k \<noteq> None \<and> keys ! k \<noteq> Some s"
    using assms(3) by (auto simp: scan_Done)
  then have "i \<notin> set pre" using assms(1) by auto
  then have "keys[i := Some s] ! k = keys ! k" if "k \<in> set pre" for k using that by (cases "k = i") auto
  then show ?thesis using p assms(2) unfolding scan_Done by (intro exI [of _ pre] exI [of _ post]) auto
qed

section \<open>Linear probing as a map\<close>

text \<open>The contract of a table of identifiers: an update changes the entry of its key only.\<close>

locale id_map =
  fixes lookup :: "'t \<Rightarrow> string \<Rightarrow> 'v option" and update :: "'t \<Rightarrow> string \<Rightarrow> 'v \<Rightarrow> 't option" and ok :: "'t \<Rightarrow> bool"
  assumes update_ok: "ok t \<Longrightarrow> update t s v = Some t' \<Longrightarrow> ok t'"
    and lookup_update: "ok t \<Longrightarrow> update t s v = Some t' \<Longrightarrow> lookup t' x = (if x = s then Some v else lookup t x)"
begin

primrec updates :: "(string \<times> 'v) list \<Rightarrow> 't \<Rightarrow> 't option" where
  "updates [] t = Some t"
| "updates (kv # kvs) t = Option.bind (update t (fst kv) (snd kv)) (updates kvs)"

lemma updates_ok: "ok t \<Longrightarrow> updates kvs t = Some t' \<Longrightarrow> ok t'"
proof (induction kvs arbitrary: t)
  case (Cons kv kvs)
  then obtain u where u: "update t (fst kv) (snd kv) = Some u" "updates kvs u = Some t'"
    by (auto simp: bind_eq_Some_conv)
  show ?case by (rule Cons.IH [OF update_ok [OF Cons.prems(1) u(1)] u(2)])
qed simp

lemma lookup_updates:
  "ok t \<Longrightarrow> updates kvs t = Some t' \<Longrightarrow> lookup t' x = (lookup t ++ map_of (rev kvs)) x"
proof (induction kvs arbitrary: t)
  case (Cons kv kvs)
  then obtain u where u: "update t (fst kv) (snd kv) = Some u" "updates kvs u = Some t'"
    by (auto simp: bind_eq_Some_conv)
  have "lookup t' x = (lookup u ++ map_of (rev kvs)) x"
    using Cons.IH [OF update_ok [OF Cons.prems(1) u(1)] u(2)] .
  then show ?case
    using lookup_update [OF Cons.prems(1) u(1), of x] by (auto simp: map_add_def split: option.split)
qed simp

end

locale linear_probe =
  fixes len :: nat and step :: "nat \<Rightarrow> nat" and home :: "string \<Rightarrow> nat"
  assumes step_mod: "i < len \<Longrightarrow> step i = Suc i mod len" and home_less: "home s < len"
begin

definition find_in :: "string option list \<Rightarrow> string \<Rightarrow> nat outcome" where
  "find_in keys s = scan keys s (slots len (home s))"

text \<open>Probing always ends, with the first free or matching slot in the order of the slots.\<close>

lemma probe_from:
  assumes "k < len"
  shows "probe step keys s (home s) ((home s + k) mod len)
    = Some (scan keys s (map (\<lambda>j. (home s + j) mod len) [k ..< len]))"
  using assms
proof (induction "len - k" arbitrary: k)
  case (Suc n)
  define i where "i = (home s + k) mod len"
  have i: "i < len" "step i = (home s + Suc k) mod len"
    using Suc.prems step_mod [of i] by (simp_all add: i_def mod_Suc_eq)
  have upt: "[k ..< len] = k # [Suc k ..< len]" using Suc.prems by (simp add: upt_rec)
  show ?case
  proof (cases "keys ! i = None \<or> keys ! i = Some s")
    case True
    then show ?thesis by (subst probe.simps) (simp add: upt i_def del: not_None_eq)
  next
    case False
    note F = this
    show ?thesis
    proof (cases "Suc k < len")
      case True
      have "(home s + Suc k) mod len \<noteq> home s"
      proof (cases "home s + Suc k < len")
        case True
        then show ?thesis by simp
      next
        case False
        then have "(home s + Suc k) mod len = home s + Suc k - len"
          using True home_less [of s] by (simp add: mod_if)
        then show ?thesis using True False by linarith
      qed
      then show ?thesis
        using F i Suc.hyps(1) [of "Suc k"] Suc.hyps(2) True by (subst probe.simps) (simp add: upt i_def del: not_None_eq)
    next
      case False
      then have k: "Suc k = len" using Suc.prems by simp
      then have "step i = home s" using i(2) home_less [of s] by simp
      then show ?thesis using F k by (subst probe.simps) (simp add: upt i_def del: not_None_eq)
    qed
  qed
qed simp

lemma probe_total: "probe step keys s (home s) (home s) = Some (find_in keys s)"
  using probe_from [of 0 keys s] home_less [of s] by (simp add: find_in_def slots_def)

lemma find_in_home:
  assumes "keys ! home s = None \<or> keys ! home s = Some s"
  shows "find_in keys s = Done (home s)"
proof -
  have "[0 ..< len] = 0 # [Suc 0 ..< len]" using home_less [of s] by (simp add: upt_rec)
  then show ?thesis using assms home_less [of s] by (simp add: find_in_def slots_def)
qed

text \<open>Every stored key is where its own search ends.\<close>

definition table_ok :: "'v table \<Rightarrow> bool" where
  "table_ok tab \<longleftrightarrow> length tab = len
     \<and> (\<forall>i<len. \<forall>s. fst (tab ! i) = Some s \<longrightarrow> find_in (map fst tab) s = Done i)"

definition table_get :: "'v table \<Rightarrow> string \<Rightarrow> 'v option" where
  "table_get tab s = (case find_in (map fst tab) s of Abort \<Rightarrow> None | Done i \<Rightarrow> tryfind_at tab i)"

definition table_put :: "'v table \<Rightarrow> string \<Rightarrow> 'v \<Rightarrow> 'v table option" where
  "table_put tab s v = (case find_in (map fst tab) s of Abort \<Rightarrow> None | Done i \<Rightarrow> Some (overwrite_at tab s v i))"

lemma find_in_mem: "find_in keys s = Done i \<Longrightarrow> i < len \<and> (keys ! i = None \<or> keys ! i = Some s)"
  using scan_mem [of keys s] set_slots [OF home_less [of s]] by (auto simp: find_in_def)

lemma find_in_Abort: "find_in keys s = Abort \<longleftrightarrow> (\<forall>i<len. keys ! i \<noteq> None \<and> keys ! i \<noteq> Some s)"
  using set_slots [OF home_less [of s]] by (auto simp: find_in_def scan_Abort)

lemma find_in_free:
  assumes "length tab = len" and "\<exists>slot\<in>set tab. fst slot = None"
  shows "\<exists>i. find_in (map fst tab) s = Done i \<and> i < length tab
    \<and> (fst (tab ! i) = None \<or> fst (tab ! i) = Some s)"
proof (cases "find_in (map fst tab) s")
  case Abort
  then have "\<forall>i<len. map fst tab ! i \<noteq> None" using find_in_Abort by blast
  then show ?thesis using assms by (metis in_set_conv_nth nth_map)
next
  case (Done i)
  then show ?thesis using find_in_mem [OF Done] assms(1) by auto
qed

lemma find_in_put:
  assumes "length keys = len" and "find_in keys s = Done i"
  shows "find_in (keys[i := Some s]) s = Done i"
    and "find_in keys x = Done j \<Longrightarrow> j \<noteq> i \<Longrightarrow> x \<noteq> s \<Longrightarrow> find_in (keys[i := Some s]) x = Done j"
proof -
  note d = distinct_slots [OF home_less]
  have i: "i < length keys" using assms find_in_mem by simp
  show "find_in (keys[i := Some s]) s = Done i"
    using scan_update_same [OF d i] assms(2) by (simp add: find_in_def)
  show "find_in keys x = Done j \<Longrightarrow> j \<noteq> i \<Longrightarrow> x \<noteq> s \<Longrightarrow> find_in (keys[i := Some s]) x = Done j"
    using scan_update [OF d i, of x] by (auto simp: find_in_def)
qed

lemma put_ok:
  assumes "table_ok tab" and "find_in (map fst tab) s = Done i"
  shows "table_ok (tab[i := (Some s, v)])"
proof -
  define keys where "keys = map fst tab"
  have l: "length keys = len" "length tab = len" using assms(1) by (simp_all add: keys_def table_ok_def)
  have i: "i < len" "keys ! i = None \<or> keys ! i = Some s" using find_in_mem assms(2) by (auto simp: keys_def)
  have keys': "map fst (tab[i := (Some s, v)]) = keys[i := Some s]" by (simp add: keys_def map_update)
  have "find_in (keys[i := Some s]) x = Done j"
    if j: "j < len" and x: "fst (tab[i := (Some s, v)] ! j) = Some x" for j x
  proof (cases "j = i")
    case True
    then show ?thesis using find_in_put(1) [OF l(1)] assms(2) x i l by (simp add: keys_def)
  next
    case False
    then have jx: "fst (tab ! j) = Some x" using x by simp
    then have f: "find_in keys x = Done j" using assms(1) j by (simp add: table_ok_def keys_def)
    have "x \<noteq> s"
      using f assms(2) False by (auto simp: keys_def)
    then show ?thesis using find_in_put(2) [OF l(1)] assms(2) f False by (simp add: keys_def)
  qed
  then show ?thesis unfolding table_ok_def keys' by (simp add: l)
qed

lemma put_get:
  assumes "table_ok tab" and "find_in (map fst tab) s = Done i"
  shows "table_get (tab[i := (Some s, v)]) x = (if x = s then Some v else table_get tab x)"
proof -
  define keys where "keys = map fst tab"
  have l: "length keys = len" "length tab = len" using assms(1) by (simp_all add: keys_def table_ok_def)
  have i: "i < len" "keys ! i = None \<or> keys ! i = Some s" using find_in_mem assms(2) by (auto simp: keys_def)
  have keys': "map fst (tab[i := (Some s, v)]) = keys[i := Some s]" by (simp add: keys_def map_update)
  have f: "find_in keys s = Done i" using assms(2) by (simp add: keys_def)
  show ?thesis
  proof (cases "x = s")
    case True
    then show ?thesis
      using find_in_put(1) [OF l(1) f] i l by (simp add: table_get_def keys' tryfind_at_def)
  next
    case x: False
    have none: "tryfind_at tab j = None" if "j < len" "keys ! j = None" for j
      using that l by (simp add: tryfind_at_def keys_def)
    show ?thesis
    proof (cases "\<exists>j. find_in keys x = Done j \<and> j \<noteq> i")
      case True
      then obtain j where j: "find_in keys x = Done j" "j \<noteq> i" by blast
      then show ?thesis
        using find_in_put(2) [OF l(1) f j x] x by (simp add: table_get_def keys' keys_def [symmetric] tryfind_at_def)
    next
      case False
      have old: "table_get tab x = None"
      proof (cases "find_in keys x")
        case Abort
        then show ?thesis by (simp add: table_get_def keys_def [symmetric])
      next
        case (Done j)
        then have "j = i" using False by blast
        moreover have "keys ! i \<noteq> Some x" using i(2) x by auto
        ultimately have "keys ! j = None" using find_in_mem [OF Done] by auto
        then show ?thesis
          using Done none [of j] find_in_mem [OF Done] by (simp add: table_get_def keys_def [symmetric])
      qed
      have "table_get (tab[i := (Some s, v)]) x = None"
      proof (cases "find_in (keys[i := Some s]) x")
        case Abort
        then show ?thesis by (simp add: table_get_def keys')
      next
        case (Done j)
        note m = find_in_mem [OF Done]
        have ji: "j \<noteq> i" using m x i l by auto
        have "keys ! j \<noteq> Some x"
        proof
          assume "keys ! j = Some x"
          then have "find_in keys x = Done j"
            using assms(1) m l by (auto simp: table_ok_def keys_def)
          then show False using False ji by blast
        qed
        then have "keys ! j = None" using m ji by auto
        then show ?thesis
          using Done m ji l by (simp add: table_get_def keys' tryfind_at_def keys_def)
      qed
      then show ?thesis using old x by simp
    qed
  qed
qed

lemma empty_ok: "length tab = len \<Longrightarrow> (\<forall>i<len. fst (tab ! i) = None) \<Longrightarrow> table_ok tab"
  by (simp add: table_ok_def)

lemma get_empty: "length tab = len \<Longrightarrow> (\<forall>i<len. fst (tab ! i) = None) \<Longrightarrow> table_get tab s = None"
  using find_in_mem [of "map fst tab" s] by (auto simp: table_get_def tryfind_at_def split: outcome.split)

lemma get_stored:
  "table_ok tab \<Longrightarrow> table_get tab s = Some v \<longleftrightarrow> (Some s, v) \<in> set tab"
proof
  assume ok: "table_ok tab" and "(Some s, v) \<in> set tab"
  then obtain i where i: "i < len" "tab ! i = (Some s, v)" by (auto simp: table_ok_def in_set_conv_nth)
  moreover have "find_in (map fst tab) s = Done i" using ok i by (auto simp: table_ok_def)
  ultimately show "table_get tab s = Some v" by (simp add: table_get_def tryfind_at_def)
next
  assume ok: "table_ok tab" and "table_get tab s = Some v"
  then obtain i where f: "find_in (map fst tab) s = Done i" and i: "fst (tab ! i) \<noteq> None" "v = snd (tab ! i)"
    by (auto simp: table_get_def tryfind_at_def split: outcome.splits if_splits)
  have l: "i < length tab" using find_in_mem [OF f] ok by (simp add: table_ok_def)
  then have "fst (tab ! i) = Some s" using find_in_mem [OF f] i by auto
  then have "tab ! i = (Some s, v)" using i by (simp add: prod_eq_iff)
  then show "(Some s, v) \<in> set tab" using l by (metis nth_mem)
qed

end

sublocale linear_probe \<subseteq> id_map table_get table_put table_ok
proof
  fix tab t' :: "'v table" and s v x
  assume ok: "table_ok tab" and p: "table_put tab s v = Some t'"
  then obtain i where f: "find_in (map fst tab) s = Done i" and t': "t' = tab[i := (Some s, v)]"
    by (auto simp: table_put_def overwrite_at_def split: outcome.splits)
  show "table_ok t'" unfolding t' by (rule put_ok [OF ok f])
  show "table_get t' x = (if x = s then Some v else table_get tab x)" unfolding t' by (rule put_get [OF ok f])
qed

section \<open>The tables of the code\<close>

lemma and_pow2_minus_1: "(i :: nat) AND (2 ^ n - 1) = i mod 2 ^ n"
  by (metis mask_eq_exp_minus_1 take_bit_eq_mask take_bit_eq_mod)

interpretation names: linear_probe array_len "\<lambda>i. (i + 1) mod array_len" "\<lambda>s. unat (hash cv s) mod array_len"
  for cv :: "char \<Rightarrow> u64"
  by unfold_locales (simp_all add: array_len_def)

interpretation symbols: linear_probe 1024 "\<lambda>i. (i + 1) AND (1024 - 1)" "\<lambda>s. unat (hash_fnv_1a cv s) mod 1024"
  for cv :: "char \<Rightarrow> u64"
  using and_pow2_minus_1 [of _ 10] by unfold_locales simp_all

interpretation types: linear_probe 128 "\<lambda>i. (i + 1) AND (128 - 1)" "\<lambda>s. unat (hash_fnv_1a cv s) mod 128"
  for cv :: "char \<Rightarrow> u64"
  using and_pow2_minus_1 [of _ 7] by unfold_locales simp_all

lemma find_entry_names: "find_entry cv tab s = Some (names.find_in cv (map fst tab) s)"
  unfolding find_entry_def Let_def by (rule names.probe_total)

lemma hashmap_find_symbols: "hashmap_find 1024 cv tab s = Some (symbols.find_in cv (map fst tab) s)"
  unfolding hashmap_find_def Let_def by (rule symbols.probe_total)

lemma hashmap_find_types: "hashmap_find 128 cv tab s = Some (types.find_in cv (map fst tab) s)"
  unfolding hashmap_find_def Let_def by (rule types.probe_total)

lemma overwrite_symbols:
  "hashmap_overwrite 1024 cv tab s v
    = Some (case symbols.table_put cv tab s v of None \<Rightarrow> Abort | Some t \<Rightarrow> Done t)"
  by (auto simp: hashmap_overwrite_def hashmap_find_symbols symbols.table_put_def split: outcome.split)

lemma tryfind_symbols:
  "hashmap_tryfind 1024 cv tab s
    = Some (if symbols.find_in cv (map fst tab) s = Abort then Abort else Done (symbols.table_get cv tab s))"
  by (auto simp: hashmap_tryfind_def hashmap_find_symbols symbols.table_get_def split: outcome.split)

text \<open>A sequence of overwrites, as the declarations of a program make them.\<close>

primrec hashmap_overwrites ::
    "nat \<Rightarrow> (char \<Rightarrow> u64) \<Rightarrow> (string \<times> 'v) list \<Rightarrow> 'v table \<Rightarrow> 'v table outcome option" where
  "hashmap_overwrites len cv [] tab = Some (Done tab)"
| "hashmap_overwrites len cv (kv # kvs) tab =
    (case hashmap_overwrite len cv tab (fst kv) (snd kv) of
       Some (Done t) \<Rightarrow> hashmap_overwrites len cv kvs t | r \<Rightarrow> r)"

lemma overwrites_symbols:
  "hashmap_overwrites 1024 cv kvs tab
    = Some (case symbols.updates cv kvs tab of None \<Rightarrow> Abort | Some t \<Rightarrow> Done t)"
  by (induction kvs arbitrary: tab) (auto simp: overwrite_symbols split: option.split)

text \<open>
  C25. The symbol table is a map. After any sequence of overwrites of an empty table that did not
  find it full, looking a name up gives the value written last for it, or nothing; only in a full
  table does the search for a name that was never written abort.
\<close>

theorem symbol_table_is_map:
  assumes "hashmap_overwrites 1024 cv kvs (replicate 1024 (None, v0)) = Some (Done tab)"
  shows "hashmap_tryfind 1024 cv tab s =
    Some (if map_of (rev kvs) s = None \<and> (\<forall>slot\<in>set tab. fst slot \<noteq> None) then Abort
          else Done (map_of (rev kvs) s))"
proof -
  have u: "symbols.updates cv kvs (replicate 1024 (None, v0)) = Some tab"
    using assms by (simp add: overwrites_symbols split: option.splits)
  have ok0: "symbols.table_ok cv (replicate 1024 (None, v0))" by (rule symbols.empty_ok) simp_all
  have ok: "symbols.table_ok cv tab" by (rule symbols.updates_ok [OF ok0 u])
  have l: "length tab = 1024" using ok by (simp add: symbols.table_ok_def)
  have g: "symbols.table_get cv tab s = map_of (rev kvs) s"
    using symbols.lookup_updates [OF ok0 u, of s] symbols.get_empty [of "replicate 1024 (None, v0)" cv s]
    by (simp add: map_add_def split: option.split)
  have "symbols.find_in cv (map fst tab) s = Abort
      \<longleftrightarrow> map_of (rev kvs) s = None \<and> (\<forall>slot\<in>set tab. fst slot \<noteq> None)"
  proof -
    have "symbols.find_in cv (map fst tab) s = Abort
        \<longleftrightarrow> (\<forall>slot\<in>set tab. fst slot \<noteq> None) \<and> (\<forall>slot\<in>set tab. fst slot \<noteq> Some s)"
      unfolding symbols.find_in_Abort using l by (auto simp: all_set_conv_all_nth)
    moreover have "map_of (rev kvs) s = None \<longleftrightarrow> (\<forall>slot\<in>set tab. fst slot \<noteq> Some s)"
      unfolding g [symmetric] using symbols.get_stored [OF ok, of s] by (cases "symbols.table_get cv tab s") force+
    ultimately show ?thesis by blast
  qed
  then show ?thesis unfolding tryfind_symbols g by simp
qed

lemma symbol_table_is_map_witness:
  "hashmap_tryfind 1024 (\<lambda>_. 0) ((replicate 1024 (None, 0))[991 := (Some ''f'', 2 :: nat)]) ''f'' = Some (Done (Some 2))"
proof -
  have h: "unat (hash_fnv_1a (\<lambda>_. 0) ''f'') mod 1024 = 991" by (simp add: hash_fnv_1a_def)
  have f: "symbols.find_in (\<lambda>_. 0) (map fst tab) ''f'' = Done 991" if "fst (tab ! 991) \<in> {None, Some ''f''}"
      "length tab = 1024" for tab :: "nat table"
    using symbols.find_in_home [of "map fst tab" "\<lambda>_. 0" "''f''"] that by (simp add: h)
  have "hashmap_overwrites 1024 (\<lambda>_. 0) [(''f'', 1), (''f'', 2)] (replicate 1024 (None, 0 :: nat))
      = Some (Done ((replicate 1024 (None, 0))[991 := (Some ''f'', 2)]))"
    unfolding overwrites_symbols by (simp add: symbols.table_put_def f overwrite_at_def del: map_replicate replicate.simps)
  from symbol_table_is_map [OF this, of "''f''"] show ?thesis by simp
qed

section \<open>Scopes of local names\<close>

lemma length_clear: "length (mini_hashset_clear tab) = length tab"
  by (simp add: mini_hashset_clear_def)

lemma clear_ok: "length tab = array_len \<Longrightarrow> names.table_ok cv (mini_hashset_clear tab)"
  by (rule names.empty_ok) (auto simp: mini_hashset_clear_def split: prod.split)

lemma get_clear: "length tab = array_len \<Longrightarrow> names.table_get cv (mini_hashset_clear tab) s = None"
  by (rule names.get_empty) (auto simp: mini_hashset_clear_def split: prod.split)

definition scopes_ok :: "(char \<Rightarrow> u64) \<Rightarrow> 'v scopes \<Rightarrow> bool" where
  "scopes_ok cv arr \<longleftrightarrow> length (sc_data arr) = MAX_DEPTH \<and> sc_cur arr < MAX_DEPTH
     \<and> list_all (\<lambda>tab. length tab = array_len) (sc_data arr)
     \<and> (\<forall>k\<le> sc_cur arr. names.table_ok cv (sc_data arr ! k))"

text \<open>The innermost value of an identifier in the scopes up to \<open>k\<close>.\<close>

fun scopes_get :: "(char \<Rightarrow> u64) \<Rightarrow> 'v table list \<Rightarrow> nat \<Rightarrow> string \<Rightarrow> 'v option" where
  "scopes_get cv data 0 s = names.table_get cv (data ! 0) s"
| "scopes_get cv data (Suc k) s =
    (case names.table_get cv (data ! Suc k) s of None \<Rightarrow> scopes_get cv data k s | Some v \<Rightarrow> Some v)"

lemma scopes_get_cong:
  "(\<And>j. j \<le> k \<Longrightarrow> data ! j = data' ! j) \<Longrightarrow> scopes_get cv data k s = scopes_get cv data' k s"
  by (induction k) (simp_all split: option.split)

text \<open>What a function does with its innermost scope.\<close>

definition overwrite_local ::
    "(char \<Rightarrow> u64) \<Rightarrow> 'v scopes \<Rightarrow> string \<Rightarrow> 'v \<Rightarrow> 'v scopes outcome option" where
  "overwrite_local cv arr s v =
    map_option (on_found (\<lambda>tab. arr\<lparr>sc_data := (sc_data arr)[sc_cur arr := tab]\<rparr>))
      (overwrite_id cv (sc_data arr ! sc_cur arr) s v)"

lemma overwrite_id_names:
  "overwrite_id cv tab s v = Some (case names.table_put cv tab s v of None \<Rightarrow> Abort | Some t \<Rightarrow> Done t)"
  by (auto simp: overwrite_id_def find_entry_names names.table_put_def split: outcome.split)

lemma overwrite_local_put:
  assumes "overwrite_local cv arr s v = Some (Done arr')"
  obtains t where "names.table_put cv (sc_data arr ! sc_cur arr) s v = Some t"
    and "arr' = arr\<lparr>sc_data := (sc_data arr)[sc_cur arr := t]\<rparr>"
  using assms by (auto simp: overwrite_local_def overwrite_id_names split: option.splits)

lemma push_scopes:
  assumes "scopes_ok cv arr" and "arr_mini_hashset_push arr = Some arr'"
  shows "scopes_ok cv arr'" and "sc_cur arr' = Suc (sc_cur arr)"
    and "\<And>k. k \<le> sc_cur arr \<Longrightarrow> sc_data arr' ! k = sc_data arr ! k"
    and "names.table_get cv (sc_data arr' ! sc_cur arr') s = None"
proof -
  define c where "c = Suc (sc_cur arr)"
  have c: "c < MAX_DEPTH" "arr' = arr\<lparr>sc_cur := c, sc_data := (sc_data arr)[c := mini_hashset_clear (sc_data arr ! c)]\<rparr>"
    using assms by (auto simp: arr_mini_hashset_push_def scopes_ok_def c_def Let_def split: if_splits)
  have l: "c < length (sc_data arr)" "length (sc_data arr ! c) = array_len"
    using assms(1) c(1) by (auto simp: scopes_ok_def list_all_length)
  have "names.table_ok cv (sc_data arr' ! k)" if "k \<le> c" for k
    using that assms(1) l clear_ok [OF l(2), of cv] by (cases "k = c") (auto simp: c(2) scopes_ok_def c_def)
  then show "scopes_ok cv arr'"
    using assms(1) c(1) l by (auto simp: c(2) scopes_ok_def list_all_length nth_list_update length_clear)
  show "sc_cur arr' = Suc (sc_cur arr)" by (simp add: c(2) c_def)
  show "\<And>k. k \<le> sc_cur arr \<Longrightarrow> sc_data arr' ! k = sc_data arr ! k" by (simp add: c(2) c_def)
  show "names.table_get cv (sc_data arr' ! sc_cur arr') s = None"
    using get_clear [OF l(2)] l(1) by (simp add: c(2))
qed

lemma overwrite_local_scopes:
  assumes "scopes_ok cv arr" and "overwrite_local cv arr s v = Some (Done arr')"
  shows "scopes_ok cv arr'" and "sc_cur arr' = sc_cur arr"
    and "\<And>k. k \<noteq> sc_cur arr \<Longrightarrow> sc_data arr' ! k = sc_data arr ! k"
    and "names.table_get cv (sc_data arr' ! sc_cur arr) x
      = (if x = s then Some v else names.table_get cv (sc_data arr ! sc_cur arr) x)"
proof -
  obtain t where t: "names.table_put cv (sc_data arr ! sc_cur arr) s v = Some t"
      "arr' = arr\<lparr>sc_data := (sc_data arr)[sc_cur arr := t]\<rparr>"
    using assms(2) by (rule overwrite_local_put)
  have ok: "names.table_ok cv (sc_data arr ! sc_cur arr)" and l: "sc_cur arr < length (sc_data arr)"
    using assms(1) by (simp_all add: scopes_ok_def)
  note ok' = names.update_ok [OF ok t(1)]
  have "length t = array_len" using ok' by (simp add: names.table_ok_def)
  then show "scopes_ok cv arr'"
    using assms(1) ok' l by (auto simp: t(2) scopes_ok_def list_all_length nth_list_update)
  show "sc_cur arr' = sc_cur arr" "\<And>k. k \<noteq> sc_cur arr \<Longrightarrow> sc_data arr' ! k = sc_data arr ! k"
    by (simp_all add: t(2))
  show "names.table_get cv (sc_data arr' ! sc_cur arr) x
      = (if x = s then Some v else names.table_get cv (sc_data arr ! sc_cur arr) x)"
    using names.lookup_update [OF ok t(1), of x] l by (simp add: t(2))
qed

lemma find_scope_get:
  assumes "\<forall>j\<le>k. names.table_ok cv (data ! j) \<and> (\<exists>slot\<in>set (data ! j). fst slot = None)"
  shows "case scopes_get cv data k s of
      None \<Rightarrow> find_scope cv data s k = Some (Done None)
    | Some v \<Rightarrow> (\<exists>j i. find_scope cv data s k = Some (Done (Some (j, i))) \<and> j \<le> k \<and> data ! j ! i = (Some s, v))"
  using assms
proof (induction k)
  have one: "\<exists>i. find_entry cv (data ! j) s = Some (Done i)
      \<and> (case names.table_get cv (data ! j) s of None \<Rightarrow> fst (data ! j ! i) = None
         | Some v \<Rightarrow> data ! j ! i = (Some s, v))"
    if "names.table_ok cv (data ! j)" and free: "\<exists>slot\<in>set (data ! j). fst slot = None" for j
  proof -
    have l: "length (data ! j) = array_len" using that(1) by (simp add: names.table_ok_def)
    obtain i where i: "names.find_in cv (map fst (data ! j)) s = Done i"
        "fst (data ! j ! i) = None \<or> fst (data ! j ! i) = Some s"
      using names.find_in_free [OF l free] by blast
    then show ?thesis
      by (auto simp: find_entry_names names.table_get_def tryfind_at_def prod_eq_iff)
  qed
  {
    case 0
    have "find_scope cv data s 0 = Some (Done (if fst (data ! 0 ! i) \<noteq> None then Some (0, i) else None))"
      if "find_entry cv (data ! 0) s = Some (Done i)" for i
      using that by (subst find_scope.simps) simp
    then show ?case using 0 one [of 0] by (auto split: option.splits)
  next
    case (Suc k)
    obtain i where i: "find_entry cv (data ! Suc k) s = Some (Done i)"
        "case names.table_get cv (data ! Suc k) s of None \<Rightarrow> fst (data ! Suc k ! i) = None
         | Some v \<Rightarrow> data ! Suc k ! i = (Some s, v)"
      using one [of "Suc k"] Suc.prems by blast
    show ?case
    proof (cases "names.table_get cv (data ! Suc k) s")
      case None
      then have "find_scope cv data s (Suc k) = find_scope cv data s k"
        using i by (subst find_scope.simps) simp
      moreover have "scopes_get cv data (Suc k) s = scopes_get cv data k s" using None by simp
      ultimately show ?thesis using Suc by (auto split: option.splits intro: le_SucI)
    next
      case (Some v)
      then have "find_scope cv data s (Suc k) = Some (Done (Some (Suc k, i)))"
        using i by (subst find_scope.simps) simp
      then show ?thesis using Some i by auto
    qed
  }
qed

text \<open>
  C24. An identifier is resolved in the innermost scope that declares it. With a free slot in every
  scope, \<open>find_id\<close> ends without aborting: it points at the slot of the innermost declaration, or
  reports that there is none and points at a free slot of the current scope.
\<close>

theorem find_id_innermost:
  assumes "scopes_ok cv arr" and "\<forall>k\<le> sc_cur arr. \<exists>slot\<in>set (sc_data arr ! k). fst slot = None"
  shows "\<exists>k i. find_id cv arr s = Some (Done (scopes_get cv (sc_data arr) (sc_cur arr) s \<noteq> None, k, i))
    \<and> (case scopes_get cv (sc_data arr) (sc_cur arr) s of
         None \<Rightarrow> k = sc_cur arr \<and> fst (sc_data arr ! k ! i) = None
       | Some v \<Rightarrow> k \<le> sc_cur arr \<and> sc_data arr ! k ! i = (Some s, v))"
proof -
  have a: "\<forall>j\<le> sc_cur arr. names.table_ok cv (sc_data arr ! j) \<and> (\<exists>slot\<in>set (sc_data arr ! j). fst slot = None)"
    using assms by (auto simp: scopes_ok_def)
  show ?thesis
  proof (cases "scopes_get cv (sc_data arr) (sc_cur arr) s")
    case (Some v)
    then show ?thesis using find_scope_get [OF a, of s] by (auto simp: find_id_def)
  next
    case None
    have n: "names.table_get cv (sc_data arr ! sc_cur arr) s = None"
      using None by (cases "sc_cur arr") (auto split: option.splits)
    obtain i where i: "names.find_in cv (map fst (sc_data arr ! sc_cur arr)) s = Done i"
      using names.find_in_free [of "sc_data arr ! sc_cur arr" cv s] a by (auto simp: names.table_ok_def)
    then have "fst (sc_data arr ! sc_cur arr ! i) = None"
      using n by (simp add: names.table_get_def tryfind_at_def split: if_splits)
    then show ?thesis
      using None i find_scope_get [OF a, of s] by (simp add: find_id_def find_entry_names)
  qed
qed

definition ex_scopes :: "nat scopes" where
  "ex_scopes = \<lparr>sc_data = replicate 7 (replicate 26 (None, 0)), sc_cur = 0\<rparr>"

lemma ex_scopes_ok: "scopes_ok cv ex_scopes"
proof -
  have "names.table_ok cv (replicate 26 (None, 0 :: nat))"
    by (rule names.empty_ok) (simp_all add: array_len_def)
  then show ?thesis
    by (simp add: scopes_ok_def ex_scopes_def MAX_DEPTH_def array_len_def list_all_length del: replicate.simps)
qed

lemma find_id_innermost_witness:
  "\<exists>i. find_id (\<lambda>_. 0) ex_scopes ''a'' = Some (Done (False, 0, i))"
proof -
  have "scopes_get (\<lambda>_. 0) (sc_data ex_scopes) (sc_cur ex_scopes) ''a'' = None"
    by (simp add: ex_scopes_def) (rule names.get_empty, simp_all add: array_len_def)
  then show ?thesis
    using find_id_innermost [OF ex_scopes_ok, of "\<lambda>_. 0" "''a''"] by (auto simp: ex_scopes_def)
qed

text \<open>
  C30. Scopes nest. A declaration in a fresh scope hides the outer declarations of its name and no
  other, and leaving the scope gives the names back the meaning they had; a new scope is refused only
  at the seventh level.
\<close>

theorem scope_shadowing:
  assumes "scopes_ok cv arr" and "arr_mini_hashset_push arr = Some arr1"
    and "overwrite_local cv arr1 s v = Some (Done arr2)"
  shows "scopes_ok cv arr2
    \<and> scopes_get cv (sc_data arr2) (sc_cur arr2) x
        = (if x = s then Some v else scopes_get cv (sc_data arr) (sc_cur arr) x)
    \<and> scopes_get cv (sc_data (arr_mini_hashset_pop arr2)) (sc_cur (arr_mini_hashset_pop arr2)) x
        = scopes_get cv (sc_data arr) (sc_cur arr) x
    \<and> (arr_mini_hashset_push arr = None \<longleftrightarrow> sc_cur arr = 6)"
proof -
  note p = push_scopes [OF assms(1,2)] and o' = overwrite_local_scopes [OF push_scopes(1) [OF assms(1,2)] assms(3)]
  have pop: "arr_mini_hashset_pop arr2 = arr2\<lparr>sc_cur := sc_cur arr\<rparr>"
    by (simp add: arr_mini_hashset_pop_def o'(2) p(2))
  have low: "scopes_get cv (sc_data arr2) (sc_cur arr) x = scopes_get cv (sc_data arr) (sc_cur arr) x"
    by (rule scopes_get_cong) (simp add: o'(3) p(2,3))
  have "names.table_get cv (sc_data arr2 ! sc_cur arr1) x = (if x = s then Some v else None)"
    unfolding o'(4) using p(4) by simp
  then have "scopes_get cv (sc_data arr2) (sc_cur arr2) x
      = (if x = s then Some v else scopes_get cv (sc_data arr) (sc_cur arr) x)"
    by (simp add: o'(2) p(2) low)
  then show ?thesis
    using o'(1) assms(2) by (auto simp: pop low arr_mini_hashset_push_def MAX_DEPTH_def Let_def)
qed

lemma scope_shadowing_witness:
  "\<exists>arr2. scopes_get (\<lambda>_. 0) (sc_data arr2) (sc_cur arr2) ''a'' = Some (5 :: nat)
    \<and> scopes_get (\<lambda>_. 0) (sc_data (arr_mini_hashset_pop arr2)) (sc_cur (arr_mini_hashset_pop arr2)) ''a'' = None"
proof -
  obtain arr1 where p: "arr_mini_hashset_push ex_scopes = Some arr1"
    by (auto simp: arr_mini_hashset_push_def ex_scopes_def MAX_DEPTH_def Let_def)
  note s1 = push_scopes [OF ex_scopes_ok p]
  have tab: "sc_data arr1 ! sc_cur arr1 = replicate 26 (None, 0)"
    using p by (auto simp: arr_mini_hashset_push_def ex_scopes_def MAX_DEPTH_def Let_def mini_hashset_clear_def)
  have "names.find_in (\<lambda>_. 0) (map fst (replicate 26 (None, 0 :: nat))) ''a'' = Done (unat (hash (\<lambda>_. 0) ''a'') mod 26)"
    using names.find_in_home [of "map fst (replicate 26 (None, 0 :: nat))" "\<lambda>_. 0" "''a''"]
    by (simp add: array_len_def del: map_replicate)
  then obtain arr2 where o': "overwrite_local (\<lambda>_. 0) arr1 ''a'' 5 = Some (Done arr2)"
    by (auto simp: overwrite_local_def overwrite_id_names names.table_put_def tab)
  have "scopes_get (\<lambda>_. 0) (sc_data ex_scopes) (sc_cur ex_scopes) ''a'' = None"
    by (simp add: ex_scopes_def) (rule names.get_empty, simp_all add: array_len_def)
  then show ?thesis using scope_shadowing [OF ex_scopes_ok p o', of "''a''"] by auto
qed

section \<open>The probe sequence of the constants\<close>

lemma array_len_25: "(2 + 1) AND (array_len - 1) = 1" "(1 + 1) AND (array_len - 1) = 0"
    "(0 + 1) AND (array_len - 1) = 1"
  by (simp_all add: array_len_def flip: numeral_2_eq_2)

lemma probe_diverges:
  assumes "\<forall>i<3. keys ! i \<noteq> None \<and> keys ! i \<noteq> Some s"
  shows "probe (\<lambda>i. (i + 1) AND (array_len - 1)) keys s 2 2 = None"
proof -
  define step where "step = (\<lambda>i :: nat. (i + 1) AND (array_len - 1))"
  have st: "step 2 = 1" "step 1 = 0" "step 0 = 1"
    unfolding step_def using array_len_25 by simp_all
  have F: "False" if "probe step keys s 2 i = Some r" "i \<in> {0, 1, 2}" for i r
  proof -
    have "step' = step \<and> keys' = keys \<and> s' = s \<and> start = 2 \<and> j \<in> {0, 1, 2} \<longrightarrow> False"
      if "probe step' keys' s' start j = Some r'" for step' keys' s' start j r'
      using that
    proof (rule probe.raw_induct [rotated])
      fix P step' and keys' :: "string option list" and s' start j r'
      assume IH: "\<And>a b c d e r. P a b c d e = Some r \<Longrightarrow> a = step \<and> b = keys \<and> c = s \<and> d = 2 \<and> e \<in> {0, 1, 2} \<longrightarrow> False"
        and body: "(if keys' ! j = None \<or> keys' ! j = Some s' then Some (Done j)
          else if step' j = start then Some Abort else P step' keys' s' start (step' j)) = Some r'"
      show "step' = step \<and> keys' = keys \<and> s' = s \<and> start = 2 \<and> j \<in> {0, 1, 2} \<longrightarrow> False"
      proof (intro impI)
        assume a: "step' = step \<and> keys' = keys \<and> s' = s \<and> start = 2 \<and> j \<in> {0, 1, 2}"
        then have "j < 3" by auto
        then have k: "\<not> (keys ! j = None \<or> keys ! j = Some s)" using assms by blast
        have j': "step j \<in> {0, 1, 2}" "step j \<noteq> 2" using a st by auto
        have "P step keys s 2 (step j) = Some r'" using body a k j'(2) by (simp del: not_None_eq)
        then show False using IH j'(1) by blast
      qed
    qed
    then show False using that by blast
  qed
  then show ?thesis unfolding step_def [symmetric] by (metis insertCI not_None_eq)
qed

lemma probe_01:
  assumes "\<forall>i<2. keys ! i \<noteq> None \<and> keys ! i \<noteq> Some s" and "h < 2"
  shows "probe (\<lambda>i. (i + 1) AND (array_len - 1)) keys s h h = Some Abort"
proof -
  have h: "h = 0 \<or> h = 1" using assms(2) by auto
  have k: "\<not> (keys ! i = None \<or> keys ! i = Some s)" if "i < 2" for i using assms(1) that by blast
  show ?thesis
    using h array_len_25 k [of 0] k [of 1]
    by (auto simp: probe.simps [of _ keys s h h] simp del: not_None_eq)
       (subst probe.simps, simp del: not_None_eq)+
qed

text \<open>
  C33. The table of constants wraps its probes with a mask that is not one less than a power of two, so
  the probes of a name do not go round the table. A name that hashes to slot 2 and meets other
  constants in slots 2, 1 and 0 is searched for ever; one that hashes to slot 0 or 1 and meets other
  constants there aborts the compiler, whatever else is free.
\<close>

theorem const_lookup_stuck:
  assumes "\<forall>i<3. fst (tab ! i) \<noteq> None \<and> fst (tab ! i) \<noteq> Some s" and "3 \<le> length tab"
    and "unat (hash cv s) mod array_len < 3"
  shows "const_hashmap_tryfind cv tab s = (if unat (hash cv s) mod array_len = 2 then None else Some Abort)"
proof -
  have "\<forall>i<3. map fst tab ! i \<noteq> None \<and> map fst tab ! i \<noteq> Some s" using assms(1,2) by auto
  then show ?thesis
    using probe_diverges [of "map fst tab" s] probe_01 [of "map fst tab" s "unat (hash cv s) mod array_len"] assms(3)
    by (auto simp: const_hashmap_tryfind_def const_hashmap_find_index_def Let_def)
qed

lemma const_lookup_stuck_witness:
  "const_hashmap_tryfind (\<lambda>c. of_nat (of_char c))
     ([(Some ''o'', 1), (Some ''h'', 2), (Some ''u'', 3)] @ replicate 61 (None, 0)) ''O'' = None"
proof -
  have h: "unat (hash (\<lambda>c. of_nat (of_char c)) ''O'') mod array_len = 2"
    by (simp add: hash_def array_len_def)
  have "fst ((a # b # c # tab) ! i) \<in> {fst a, fst b, fst c}" if "i < 3" for a b c :: "string option \<times> i64" and tab i
    using that by (auto simp: nth_Cons less_Suc_eq numeral_3_eq_3 split: nat.splits)
  from this [of _ "(Some ''o'', 1)" "(Some ''h'', 2)" "(Some ''u'', 3)" "replicate 61 (None, 0)"]
  show ?thesis
    using const_lookup_stuck [of "[(Some ''o'', 1), (Some ''h'', 2), (Some ''u'', 3)] @ replicate 61 (None, 0)" "''O''"
      "\<lambda>c. of_nat (of_char c)"] h by force
qed

end
