(* ===== verification/A64_State.thy ===== *)
theory A64_State
  imports Type_System
begin

text \<open>
  The static state of \<open>src/alc/bin-aarch64.c\<close> and the primitives every emitter goes through:
  the word buffers of the function being emitted, the linked code, the label and fixup tables.

  A buffer with its length variable is the list of its used part; the capacities are the
  constants of the code. A call to \<open>report_err\<close> prints and goes on, so it is an entry of \<open>errs\<close>.
  An \<open>emit_context_t\<close> is the caller's object, so the contexts are a store that \<open>active_ctx\<close>
  points into.
\<close>

section \<open>Constants\<close>

definition CODE_CAP :: nat where "CODE_CAP = 0x2000"
definition PROL_CAP :: nat where "PROL_CAP = 64"
definition LABEL_CAP :: nat where "LABEL_CAP = 1024"
definition FIXUP_CAP :: nat where "FIXUP_CAP = 1024"
definition KEY_CAP :: nat where "KEY_CAP = 96"
definition CALLEE_START :: nat where "CALLEE_START = 19"
definition CSTR_CAP :: nat where "CSTR_CAP = 0x1000"
definition IMPORT_CAP :: nat where "IMPORT_CAP = 64"

definition OP_MOVN :: u32 where "OP_MOVN = 0x12800000"
definition OP_MOVZ :: u32 where "OP_MOVZ = 0x52800000"
definition OP_MOVK :: u32 where "OP_MOVK = 0x72800000"
definition OP_ORR_REG :: u32 where "OP_ORR_REG = 0x2a000000"
definition OP_MOV_REG :: u32 where "OP_MOV_REG = OP_ORR_REG OR 0x3e0"
definition OP_ADD_IMM :: u32 where "OP_ADD_IMM = 0x11000000"
definition OP_SUB_IMM :: u32 where "OP_SUB_IMM = 0x51000000"
definition OP_SUBS_IMM :: u32 where "OP_SUBS_IMM = 0x71000000"
definition ADDSUB_NEG_BIT :: u32 where "ADDSUB_NEG_BIT = 0x40000000"
definition OP_ADD_REG :: u32 where "OP_ADD_REG = 0x0b000000"
definition OP_SUB_REG :: u32 where "OP_SUB_REG = 0x4b000000"
definition OP_SUBS_REG :: u32 where "OP_SUBS_REG = 0x6b000000"
definition ADDSUB_EXT_BIT :: u32 where "ADDSUB_EXT_BIT = 0x00200000"
definition OP_UBFM32 :: u32 where "OP_UBFM32 = 0x53000000"
definition OP_UBFM64 :: u32 where "OP_UBFM64 = 0xd3400000"
definition OP_BFM32 :: u32 where "OP_BFM32 = 0x33000000"
definition OP_BFM64 :: u32 where "OP_BFM64 = 0xb3400000"
definition OP_SBFM64 :: u32 where "OP_SBFM64 = 0x93400000"
definition OP_AND_IMM32 :: u32 where "OP_AND_IMM32 = 0x12000000"
definition OP_AND_IMM64 :: u32 where "OP_AND_IMM64 = 0x92400000"
definition OP_CSINC :: u32 where "OP_CSINC = 0x1a9f07e0"
definition OP_SMULL :: u32 where "OP_SMULL = 0x9b207c00"
definition OP_LDST_USCALED :: u32 where "OP_LDST_USCALED = 0x39000000"
definition OP_LDST_UNSCALED :: u32 where "OP_LDST_UNSCALED = 0x38000000"
definition OP_LDST_REGOFF :: u32 where "OP_LDST_REGOFF = 0x38206800"
definition LDST_LOAD :: u32 where "LDST_LOAD = 0x00400000"
definition LDST_LOAD_SIGNED :: u32 where "LDST_LOAD_SIGNED = 0x00800000"
definition LDST_REGOFF_SCALE :: u32 where "LDST_REGOFF_SCALE = 0x00001000"
definition OP_SUB_SP_IMM :: u32 where "OP_SUB_SP_IMM = 0xd1000000"
definition OP_ADD_SP_IMM :: u32 where "OP_ADD_SP_IMM = 0x91000000"
definition OP_STP_OFF :: u32 where "OP_STP_OFF = 0xa9000000"
definition OP_LDP_OFF :: u32 where "OP_LDP_OFF = 0xa9400000"
definition OP_STP_PRE :: u32 where "OP_STP_PRE = 0xa9800000"
definition OP_LDP_POST :: u32 where "OP_LDP_POST = 0xa8c00000"
definition OP_STR_PRE :: u32 where "OP_STR_PRE = 0xf8000c00"
definition OP_LDR_POST :: u32 where "OP_LDR_POST = 0xf8400400"
definition OP_STR_OFF64 :: u32 where "OP_STR_OFF64 = 0xf9000000"
definition OP_LDR_OFF64 :: u32 where "OP_LDR_OFF64 = 0xf9400000"
definition OP_B :: u32 where "OP_B = 0x14000000"
definition OP_BCOND :: u32 where "OP_BCOND = 0x54000000"
definition OP_BL :: u32 where "OP_BL = 0x94000000"
definition OP_ADR :: u32 where "OP_ADR = 0x10000000"
definition OP_RET :: u32 where "OP_RET = 0xd65f03c0"

lemmas a64_ops [fields] =
  OP_MOVN_def OP_MOVZ_def OP_MOVK_def OP_ORR_REG_def OP_MOV_REG_def OP_ADD_IMM_def
  OP_SUB_IMM_def OP_SUBS_IMM_def ADDSUB_NEG_BIT_def OP_ADD_REG_def OP_SUB_REG_def
  OP_SUBS_REG_def ADDSUB_EXT_BIT_def OP_UBFM32_def OP_UBFM64_def OP_BFM32_def OP_BFM64_def
  OP_SBFM64_def OP_AND_IMM32_def OP_AND_IMM64_def OP_CSINC_def OP_SMULL_def
  OP_LDST_USCALED_def OP_LDST_UNSCALED_def OP_LDST_REGOFF_def LDST_LOAD_def
  LDST_LOAD_SIGNED_def LDST_REGOFF_SCALE_def OP_SUB_SP_IMM_def OP_ADD_SP_IMM_def
  OP_STP_OFF_def OP_LDP_OFF_def OP_STP_PRE_def OP_LDP_POST_def OP_STR_PRE_def
  OP_LDR_POST_def OP_STR_OFF64_def OP_LDR_OFF64_def OP_B_def OP_BCOND_def OP_BL_def
  OP_ADR_def OP_RET_def

section \<open>State\<close>

record label =
  lb_key :: string
  lb_word :: nat
  lb_done :: bool

datatype fixup_kind = FX_BRANCH | FX_COND | FX_CALL | FX_STR

record fixup =
  fx_key :: string
  fx_site :: nat
  fx_aux :: nat
  fx_kind :: fixup_kind
  fx_done :: bool

record emit_context =
  ctx_fn_name :: string
  ctx_fn_named :: bool

datatype a64_error =
    CodeOverflow | PrologueOverflow | ImportOverflow | UnresolvedLabel string | ZeroSize
  | OutOfCalleeRegs | FixupOverflow | UnknownCond | LabelOverflow | UnexpectedTag
  | ElementSizeZero | CstringOverflow

record a64 =
  code :: "u32 list"
  entry_off :: nat
  body :: "u32 list"
  prol :: "u32 list"
  labels :: "label list"
  fixups :: "fixup list"
  fn_syms :: "label list"
  ctxs :: "nat \<Rightarrow> emit_context"
  active_ctx :: "nat option"
  cstrs :: string
  bin_imports :: "string list"
  extcalls :: "(nat \<times> nat) list"
  errs :: "a64_error list"

definition a64_init :: "(nat \<Rightarrow> emit_context) \<Rightarrow> a64" where
  "a64_init cs = \<lparr>code = [], entry_off = 0, body = [], prol = [], labels = [], fixups = [],
     fn_syms = [], ctxs = cs, active_ctx = None, cstrs = [], bin_imports = [], extcalls = [],
     errs = []\<rparr>"

definition report_err :: "a64_error \<Rightarrow> a64 \<Rightarrow> a64" where
  "report_err e st = st\<lparr>errs := errs st @ [e]\<rparr>"

section \<open>Constant registers\<close>

definition FP :: reg where
  "FP = reg0\<lparr>r_type := FRAME, r_rsize := 8\<rparr>"

definition XZR :: reg where
  "XZR = reg0\<lparr>r_type := RD_NONE, r_rsize := 8\<rparr>"

definition WZR :: reg where
  "WZR = reg0\<lparr>r_type := RD_NONE, r_rsize := 4\<rparr>"

definition cond_aarch64 :: "u32 list" where
  "cond_aarch64 = [0x0, 0x1, 0x2, 0x3, 0x4, 0x5, 0x6, 0x7, 0x8, 0x9, 0xa, 0xb, 0xc, 0xd, 0xe, 0xf]"

section \<open>Primitives\<close>

definition put_word :: "u32 \<Rightarrow> a64 \<Rightarrow> a64" where
  "put_word w st =
     (if CODE_CAP \<le> length (body st) then report_err CodeOverflow st
      else st\<lparr>body := body st @ [w]\<rparr>)"

definition put_prologue :: "u32 \<Rightarrow> a64 \<Rightarrow> a64" where
  "put_prologue w st =
     (if PROL_CAP \<le> length (prol st) then report_err PrologueOverflow st
      else st\<lparr>prol := prol st @ [w]\<rparr>)"

definition reg_no :: "reg \<Rightarrow> u32" where
  "reg_no r = (case r_type r of
      SCRATCH \<Rightarrow> r_offset r + 8
    | NREG \<Rightarrow> r_offset r + 19
    | FRAME \<Rightarrow> 29
    | STACK \<Rightarrow> 31
    | RD_NONE \<Rightarrow> 31
    | _ \<Rightarrow> r_offset r)"

definition is64 :: "reg \<Rightarrow> u32" where
  "is64 r = (if dtype_tryget_addr (r_dtype r) \<noteq> 0 then 1 else if 4 < r_rsize r then 1 else 0)"

text \<open>Decimal digits, the \<open>%d\<close> of a label key.\<close>

fun nat_dec :: "nat \<Rightarrow> string" where
  "nat_dec n =
     (if n < 10 then [char_of (48 + n)] else nat_dec (n div 10) @ [char_of (48 + n mod 10)])"

declare nat_dec.simps [simp del]

definition int_dec :: "int \<Rightarrow> string" where
  "int_dec i = (if i < 0 then CHR ''-'' # nat_dec (nat (- i)) else nat_dec (nat i))"

text \<open>\<open>snprintf\<close> into a key buffer keeps the first \<open>KEY_CAP - 1\<close> characters.\<close>

definition key_buf :: "string \<Rightarrow> string" where
  "key_buf s = take (KEY_CAP - 1) s"

definition make_key :: "string \<Rightarrow> string \<Rightarrow> int \<Rightarrow> string" where
  "make_key fn_name label index = key_buf (fn_name @ ''.'' @ label @ ''.'' @ int_dec index)"

section \<open>Facts on the primitives\<close>

lemma is64_cases: "is64 r = 0 \<or> is64 r = 1"
  by (simp add: is64_def)

lemma unat_is64: "unat (is64 r) < 2"
  by (simp add: is64_def)

lemma reg_no_31 [simp]:
  "r_type r = RD_NONE \<Longrightarrow> reg_no r = 31" "r_type r = STACK \<Longrightarrow> reg_no r = 31"
  "r_type r = FRAME \<Longrightarrow> reg_no r = 29"
  by (simp_all add: reg_no_def)

text \<open>What emitting a word changes: the body only, and nothing else unless it overflows.\<close>

definition room :: "nat \<Rightarrow> a64 \<Rightarrow> bool" where
  "room n st \<longleftrightarrow> length (body st) + n \<le> CODE_CAP"

definition emits :: "a64 \<Rightarrow> u32 list \<Rightarrow> a64" where
  "emits st ws = st\<lparr>body := body st @ ws\<rparr>"

text \<open>The words an emitter appends to the body of a state.\<close>

definition emitted :: "(a64 \<Rightarrow> a64) \<Rightarrow> a64 \<Rightarrow> u32 list" where
  "emitted f st = drop (length (body st)) (body (f st))"

lemma emitted_emits: "f st = emits st ws \<Longrightarrow> emitted f st = ws"
  by (simp add: emitted_def emits_def)

lemma emitted_put_word [simp]: "length (body st) < CODE_CAP \<Longrightarrow> emitted (put_word w) st = [w]"
  by (simp add: emitted_def put_word_def)

lemma emits_Nil [simp]: "emits st [] = st"
  by (simp add: emits_def)

lemma emits_emits [simp]: "emits (emits st xs) ys = emits st (xs @ ys)"
  by (simp add: emits_def)

lemma body_emits [simp]: "body (emits st ws) = body st @ ws"
  by (simp add: emits_def)

lemma room_emits [simp]: "room n (emits st ws) \<longleftrightarrow> room (n + length ws) st"
  by (simp add: room_def emits_def algebra_simps)

lemma room_less: "room n st \<Longrightarrow> k \<le> n \<Longrightarrow> room k st"
  by (simp add: room_def)

lemma room_Suc: "room (Suc n) st \<Longrightarrow> room n st"
  by (simp add: room_def)

lemma put_word_room [simp]: "room (Suc n) st \<Longrightarrow> put_word w st = emits st [w]"
  by (simp add: put_word_def room_def emits_def)

lemma emits_frame [frame]:
  "code (emits st ws) = code st" "labels (emits st ws) = labels st"
  "fixups (emits st ws) = fixups st" "prol (emits st ws) = prol st"
  "errs (emits st ws) = errs st" "cstrs (emits st ws) = cstrs st"
  "fn_syms (emits st ws) = fn_syms st" "bin_imports (emits st ws) = bin_imports st"
  "active_ctx (emits st ws) = active_ctx st" "ctxs (emits st ws) = ctxs st"
  by (simp_all add: emits_def)

end
