(* ===== verification/A64_Isa.thy ===== *)
theory A64_Isa
  imports Prelude
begin

text \<open>
  The specification side of the AArch64 back end: a reading of the instruction words that the
  Arm architecture documents, limited to the encodings the compiler emits, and what each
  instruction does to the registers, the flags and a byte-addressed memory. Nothing here models
  code of the repository; the properties of the emitters are stated against it.
\<close>

section \<open>Instruction fields\<close>

definition fld :: "nat \<Rightarrow> nat \<Rightarrow> u32 \<Rightarrow> u32" where
  "fld lo n w = take_bit n (drop_bit lo w)"

lemma bit_fld [bits]: "bit (fld lo n w) i \<longleftrightarrow> i < n \<and> bit w (lo + i)"
  by (simp add: fld_def bit_take_bit_iff bit_drop_bit_eq)

lemma fld_or [fields]: "fld lo n (a OR b) = fld lo n a OR fld lo n b"
  by (simp add: fld_def)

text \<open>
  \<open>small n x\<close> says that \<open>x\<close> fits a field of \<open>n\<close> bits. It stays folded, so that the simplifier
  finds the width of a field from the assumption about its contents.
\<close>

definition small :: "nat \<Rightarrow> u32 \<Rightarrow> bool" where
  "small n x \<longleftrightarrow> unat x < 2 ^ n"

lemma small_const [fields]:
  "small n 0" "0 < n \<Longrightarrow> small n 1"
  "small n (numeral k) \<longleftrightarrow> unat (numeral k :: u32) < 2 ^ n"
  using one_less_power [of "2 :: nat" n] by (simp_all add: small_def)

lemma small_mono: "small m x \<Longrightarrow> m \<le> n \<Longrightarrow> small n x"
  unfolding small_def by (meson less_le_trans one_le_numeral power_increasing)

lemma small_bit: "small n x \<Longrightarrow> n \<le> i \<Longrightarrow> \<not> bit x i"
  by (simp add: small_def bit_word_small)

lemma small_bit_less: "small n x \<Longrightarrow> bit x i \<Longrightarrow> i < n"
  using small_bit not_le by blast

lemma small_iff_bits: "small n x \<longleftrightarrow> (\<forall>i. n \<le> i \<longrightarrow> \<not> bit x i)"
proof
  assume "\<forall>i. n \<le> i \<longrightarrow> \<not> bit x i"
  then have "x = take_bit n x"
    by (intro word_eq_by_bits) (auto simp: bit_take_bit_iff not_le)
  then show "small n x" by (metis small_def unat_take_bit_less)
qed (simp add: small_bit)

lemma small_and_mask [fields]: "small n (x AND mask n)"
  by (auto simp: small_iff_bits bit_and_iff bit_mask_iff)

lemma small_take_bit [fields]: "small n (take_bit n x)"
  by (simp add: small_def unat_take_bit_less)

lemma fld_push_same [fields]:
  "small n x \<Longrightarrow> lo + n \<le> 32 \<Longrightarrow> fld lo n (push_bit lo x) = x"
  by (intro word_eq_by_bits) (force simp: bit_fld bit_push_bit_iff dest: small_bit_less)

lemma fld_push_above [fields]: "lo + n \<le> k \<Longrightarrow> fld lo n (push_bit k x) = 0"
  by (intro word_eq_by_bits) (simp add: bit_fld bit_push_bit_iff)

lemma fld_push_below [fields]: "small m x \<Longrightarrow> k + m \<le> lo \<Longrightarrow> fld lo n (push_bit k x) = 0"
  by (intro word_eq_by_bits) (force simp: bit_fld bit_push_bit_iff dest: small_bit_less)

lemma fld_low_same [fields]: "small n x \<Longrightarrow> fld 0 n x = x"
  by (intro word_eq_by_bits) (force simp: bit_fld dest: small_bit_less)

lemma fld_low_below [fields]: "small m x \<Longrightarrow> m \<le> lo \<Longrightarrow> fld lo n x = 0"
  by (intro word_eq_by_bits) (force simp: bit_fld dest: small_bit_less)

lemma fld_low_wide [fields]: "small m x \<Longrightarrow> m \<le> n \<Longrightarrow> fld 0 n x = x"
  by (rule fld_low_same) (rule small_mono)

lemma fld_const [fields]:
  "fld lo n 0 = 0" "fld lo n (numeral k) = take_bit n (drop_bit lo (numeral k))"
  by (simp_all add: fld_def)

section \<open>Instructions\<close>

datatype addr_mode = Offset | PreIndex | PostIndex

datatype a64_instr =
    MovN bool nat u32 nat
  | MovZ bool nat u32 nat
  | MovK bool nat u32 nat
  | AddSubImm bool bool bool bool u32 nat nat
  | AddSubReg bool bool bool nat nat nat
  | AddSubExt bool bool bool nat u32 nat nat nat
  | OrrReg bool nat nat nat
  | AndImm bool bool u32 nat nat nat
  | Bitfield u32 bool bool nat nat nat nat
  | Csinc bool nat nat nat nat
  | Smaddl nat nat nat nat
  | LdStUImm nat u32 u32 nat nat
  | LdStSImm addr_mode nat u32 u32 nat nat
  | LdStReg nat u32 nat u32 bool nat nat
  | LdStPair bool addr_mode u32 nat nat nat
  | Branch u32
  | BranchLink u32
  | BranchCond nat u32
  | Adr u32 u32 nat
  | Return

text \<open>A register number field.\<close>

definition rn_fld :: "nat \<Rightarrow> u32 \<Rightarrow> nat" where
  "rn_fld lo w = unat (fld lo 5 w)"

definition decode_dp :: "u32 \<Rightarrow> a64_instr option" where
  "decode_dp w =
    (let sf = (fld 31 1 w = 1); opc = fld 29 2 w; sub = (fld 30 1 w = 1); s = (fld 29 1 w = 1);
         rd = rn_fld 0 w; rn = rn_fld 5 w; rm = rn_fld 16 w;
         hw = unat (fld 21 2 w); imm16 = fld 5 16 w in
     if fld 24 5 w = 0x10 then
       (if fld 31 1 w = 0 then Some (Adr (fld 29 2 w) (fld 5 19 w) rd) else None)
     else if fld 23 6 w = 0x25 then
       (if opc = 0 then Some (MovN sf hw imm16 rd)
        else if opc = 2 then Some (MovZ sf hw imm16 rd)
        else if opc = 3 then Some (MovK sf hw imm16 rd) else None)
     else if fld 23 6 w = 0x22 then
       Some (AddSubImm sf sub s (fld 22 1 w = 1) (fld 10 12 w) rn rd)
     else if fld 23 6 w = 0x24 then
       (if opc = 0 then
          Some (AndImm sf (fld 22 1 w = 1) (fld 16 6 w) (unat (fld 10 6 w)) rn rd) else None)
     else if fld 23 6 w = 0x26 then
       Some (Bitfield opc sf (fld 22 1 w = 1) (unat (fld 16 6 w)) (unat (fld 10 6 w)) rn rd)
     else if fld 21 8 w = 0x58 then
       (if fld 10 6 w = 0 then Some (AddSubReg sf sub s rm rn rd) else None)
     else if fld 21 8 w = 0x59 then
       Some (AddSubExt sf sub s rm (fld 13 3 w) (unat (fld 10 3 w)) rn rd)
     else if fld 21 8 w = 0x50 then
       (if opc = 1 \<and> fld 10 6 w = 0 then Some (OrrReg sf rm rn rd) else None)
     else if fld 21 8 w = 0xd4 then
       (if opc = 0 \<and> fld 10 2 w = 1 then Some (Csinc sf rm (unat (fld 12 4 w)) rn rd) else None)
     else if fld 21 11 w = 0x4d9 then
       (if fld 15 1 w = 0 then Some (Smaddl rm (rn_fld 10 w) rn rd) else None)
     else None)"

definition decode_mem :: "u32 \<Rightarrow> a64_instr option" where
  "decode_mem w =
    (let sz = unat (fld 30 2 w); opc = fld 22 2 w; rt = rn_fld 0 w; rn = rn_fld 5 w;
         rt2 = rn_fld 10 w; rm = rn_fld 16 w; load = (fld 22 1 w = 1);
         imm9 = fld 12 9 w; imm7 = fld 15 7 w in
     if fld 24 6 w = 0x39 then Some (LdStUImm sz opc (fld 10 12 w) rn rt)
     else if fld 24 6 w = 0x38 then
       (if fld 21 1 w = 0 then
          (if fld 10 2 w = 0 then Some (LdStSImm Offset sz opc imm9 rn rt)
           else if fld 10 2 w = 1 then Some (LdStSImm PostIndex sz opc imm9 rn rt)
           else if fld 10 2 w = 3 then Some (LdStSImm PreIndex sz opc imm9 rn rt)
           else None)
        else if fld 10 2 w = 2 then
          Some (LdStReg sz opc rm (fld 13 3 w) (fld 12 1 w = 1) rn rt)
        else None)
     else if fld 23 9 w = 0x151 then Some (LdStPair load PostIndex imm7 rt2 rn rt)
     else if fld 23 9 w = 0x152 then Some (LdStPair load Offset imm7 rt2 rn rt)
     else if fld 23 9 w = 0x153 then Some (LdStPair load PreIndex imm7 rt2 rn rt)
     else None)"

definition decode_br :: "u32 \<Rightarrow> a64_instr option" where
  "decode_br w =
    (if fld 26 6 w = 0x05 then Some (Branch (fld 0 26 w))
     else if fld 26 6 w = 0x25 then Some (BranchLink (fld 0 26 w))
     else if fld 24 8 w = 0x54 \<and> fld 4 1 w = 0 then
       Some (BranchCond (unat (fld 0 4 w)) (fld 5 19 w))
     else if w = 0xd65f03c0 then Some Return
     else None)"

text \<open>The top-level split of the encoding: loads and stores, branches, data processing.\<close>

definition a64_decode :: "u32 \<Rightarrow> a64_instr option" where
  "a64_decode w =
    (if fld 27 1 w = 1 \<and> fld 25 1 w = 0 then decode_mem w
     else if fld 26 3 w = 5 then decode_br w
     else decode_dp w)"

section \<open>The machine\<close>

record machine =
  xr :: "nat \<Rightarrow> u64"
  spr :: u64
  nzcv :: "bool \<times> bool \<times> bool \<times> bool"
  memory :: "u64 \<Rightarrow> u8"

definition width :: "bool \<Rightarrow> nat" where
  "width sf = (if sf then 64 else 32)"

text \<open>Register 31 is the zero register in one position and the stack pointer in the other.\<close>

definition rd_zr :: "machine \<Rightarrow> nat \<Rightarrow> u64" where
  "rd_zr m n = (if n = 31 then 0 else xr m n)"

definition rd_sp :: "machine \<Rightarrow> nat \<Rightarrow> u64" where
  "rd_sp m n = (if n = 31 then spr m else xr m n)"

definition wr_zr :: "bool \<Rightarrow> nat \<Rightarrow> u64 \<Rightarrow> machine \<Rightarrow> machine" where
  "wr_zr sf n v m = (if n = 31 then m else m\<lparr>xr := (xr m)(n := take_bit (width sf) v)\<rparr>)"

definition wr_sp :: "bool \<Rightarrow> nat \<Rightarrow> u64 \<Rightarrow> machine \<Rightarrow> machine" where
  "wr_sp sf n v m =
     (if n = 31 then m\<lparr>spr := take_bit (width sf) v\<rparr> else wr_zr sf n v m)"

definition sub_flags :: "'a::len word \<Rightarrow> 'a word \<Rightarrow> bool \<times> bool \<times> bool \<times> bool" where
  "sub_flags a b = (bit (a - b) (LENGTH('a) - 1), a = b, b \<le> a, sint (a - b) \<noteq> sint a - sint b)"

definition add_flags :: "'a::len word \<Rightarrow> 'a word \<Rightarrow> bool \<times> bool \<times> bool \<times> bool" where
  "add_flags a b = (bit (a + b) (LENGTH('a) - 1), a + b = 0,
     2 ^ LENGTH('a) \<le> unat a + unat b, sint (a + b) \<noteq> sint a + sint b)"

definition arith_flags :: "bool \<Rightarrow> bool \<Rightarrow> u64 \<Rightarrow> u64 \<Rightarrow> bool \<times> bool \<times> bool \<times> bool" where
  "arith_flags sf sub a b =
     (if sf then (if sub then sub_flags a b else add_flags a b)
      else (if sub then sub_flags (ucast a :: u32) (ucast b) else add_flags (ucast a :: u32) (ucast b)))"

definition addsub :: "bool \<Rightarrow> u64 \<Rightarrow> u64 \<Rightarrow> u64" where
  "addsub sub a b = (if sub then a - b else a + b)"

definition extend_reg :: "u32 \<Rightarrow> u64 \<Rightarrow> u64" where
  "extend_reg opt v =
     (let n = 8 * 2 ^ unat (opt AND 3) in
      if bit opt 2 then signed_take_bit (n - 1) v else take_bit n v)"

fun cond_holds :: "nat \<Rightarrow> bool \<times> bool \<times> bool \<times> bool \<Rightarrow> bool" where
  "cond_holds k (n, z, c, v) =
     (let base = [z, c, n, v, c \<and> \<not> z, n = v, n = v \<and> \<not> z, True] ! (k div 2)
      in if odd k \<and> k \<noteq> 15 then \<not> base else base)"

text \<open>Little-endian accesses to \<open>n\<close> consecutive bytes.\<close>

fun mem_read :: "(u64 \<Rightarrow> u8) \<Rightarrow> u64 \<Rightarrow> nat \<Rightarrow> u64" where
  "mem_read m a 0 = 0"
| "mem_read m a (Suc n) = ucast (m a) OR push_bit 8 (mem_read m (a + 1) n)"

definition mem_write :: "(u64 \<Rightarrow> u8) \<Rightarrow> u64 \<Rightarrow> nat \<Rightarrow> u64 \<Rightarrow> (u64 \<Rightarrow> u8)" where
  "mem_write m a n v =
     (\<lambda>x. if unat (x - a) < n then ucast (drop_bit (8 * unat (x - a)) v) else m x)"

definition sext :: "nat \<Rightarrow> u32 \<Rightarrow> u64" where
  "sext n w = signed_take_bit (n - 1) (ucast w)"

text \<open>One access: \<open>opc\<close> 0 stores, 1 loads with zero extension, 2 with sign extension.\<close>

definition ldst :: "nat \<Rightarrow> u32 \<Rightarrow> nat \<Rightarrow> u64 \<Rightarrow> machine \<Rightarrow> machine option" where
  "ldst sz opc rt a m =
     (let n = 2 ^ sz in
      if opc = 0 then Some (m\<lparr>memory := mem_write (memory m) a n (rd_zr m rt)\<rparr>)
      else if opc = 1 then Some (wr_zr True rt (mem_read (memory m) a n) m)
      else if opc = 2 \<and> sz < 3 then
        Some (wr_zr True rt (signed_take_bit (8 * n - 1) (mem_read (memory m) a n)) m)
      else None)"

definition ldst_pair :: "bool \<Rightarrow> nat \<Rightarrow> nat \<Rightarrow> u64 \<Rightarrow> machine \<Rightarrow> machine" where
  "ldst_pair load rt rt2 a m =
     (if load then wr_zr True rt2 (mem_read (memory m) (a + 8) 8)
                     (wr_zr True rt (mem_read (memory m) a 8) m)
      else m\<lparr>memory := mem_write (mem_write (memory m) a 8 (rd_zr m rt)) (a + 8) 8 (rd_zr m rt2)\<rparr>)"

text \<open>The address of an access and the base register it leaves, for the three modes.\<close>

definition mode_addr :: "addr_mode \<Rightarrow> u64 \<Rightarrow> u64 \<Rightarrow> u64" where
  "mode_addr md b off = (if md = PostIndex then b else b + off)"

definition mode_back :: "addr_mode \<Rightarrow> nat \<Rightarrow> u64 \<Rightarrow> u64 \<Rightarrow> machine \<Rightarrow> machine" where
  "mode_back md rn b off m = (if md = Offset then m else wr_sp True rn (b + off) m)"

definition bfm_src :: "bool \<Rightarrow> nat \<Rightarrow> nat \<Rightarrow> u64 \<Rightarrow> u64" where
  "bfm_src sf immr imms v =
     (if immr \<le> imms then take_bit (imms - immr + 1) (drop_bit immr v)
      else push_bit (width sf - immr) (take_bit (imms + 1) v))"

definition bfm_mask :: "bool \<Rightarrow> nat \<Rightarrow> nat \<Rightarrow> u64" where
  "bfm_mask sf immr imms =
     (if immr \<le> imms then mask (imms - immr + 1)
      else push_bit (width sf - immr) (mask (imms + 1)))"

fun a64_exec :: "a64_instr \<Rightarrow> machine \<Rightarrow> machine option" where
  "a64_exec (MovN sf hw imm rd) m = Some (wr_zr sf rd (NOT (push_bit (16 * hw) (ucast imm))) m)"
| "a64_exec (MovZ sf hw imm rd) m = Some (wr_zr sf rd (push_bit (16 * hw) (ucast imm)) m)"
| "a64_exec (MovK sf hw imm rd) m =
     Some (wr_zr sf rd ((rd_zr m rd AND NOT (push_bit (16 * hw) (mask 16)))
                        OR push_bit (16 * hw) (ucast imm)) m)"
| "a64_exec (AddSubImm sf sub s sh imm rn rd) m =
     (let a = take_bit (width sf) (rd_sp m rn);
          b = push_bit (if sh then 12 else 0) (ucast imm) in
      if s then Some ((wr_zr sf rd (addsub sub a b) m)\<lparr>nzcv := arith_flags sf sub a b\<rparr>)
      else Some (wr_sp sf rd (addsub sub a b) m))"
| "a64_exec (AddSubReg sf sub s rm rn rd) m =
     (let a = take_bit (width sf) (rd_zr m rn); b = take_bit (width sf) (rd_zr m rm) in
      if s then Some ((wr_zr sf rd (addsub sub a b) m)\<lparr>nzcv := arith_flags sf sub a b\<rparr>)
      else Some (wr_zr sf rd (addsub sub a b) m))"
| "a64_exec (AddSubExt sf sub s rm opt imm3 rn rd) m =
     (if 4 < imm3 then None else
      let a = take_bit (width sf) (rd_sp m rn);
          b = take_bit (width sf) (push_bit imm3 (extend_reg opt (rd_zr m rm))) in
      if s then Some ((wr_zr sf rd (addsub sub a b) m)\<lparr>nzcv := arith_flags sf sub a b\<rparr>)
      else Some (wr_sp sf rd (addsub sub a b) m))"
| "a64_exec (OrrReg sf rm rn rd) m = Some (wr_zr sf rd (rd_zr m rn OR rd_zr m rm) m)"
| "a64_exec (AndImm sf n immr imms rn rd) m =
     (if immr = 0 \<and> n = sf \<and> imms < width sf - 1
      then Some (wr_sp sf rd (rd_zr m rn AND mask (imms + 1)) m) else None)"
| "a64_exec (Bitfield opc sf n immr imms rn rd) m =
     (if n \<noteq> sf \<or> width sf \<le> immr \<or> width sf \<le> imms then None
      else let v = bfm_src sf immr imms (take_bit (width sf) (rd_zr m rn)) in
      if opc = 2 then Some (wr_zr sf rd v m)
      else if opc = 1 then
        Some (wr_zr sf rd ((rd_zr m rd AND NOT (bfm_mask sf immr imms)) OR v) m)
      else if opc = 0 \<and> immr = 0 then Some (wr_zr sf rd (signed_take_bit imms v) m)
      else None)"
| "a64_exec (Csinc sf rm k rn rd) m =
     Some (wr_zr sf rd (if cond_holds k (nzcv m) then rd_zr m rn else rd_zr m rm + 1) m)"
| "a64_exec (Smaddl rm ra rn rd) m =
     Some (wr_zr True rd (rd_zr m ra
        + signed_take_bit 31 (rd_zr m rn) * signed_take_bit 31 (rd_zr m rm)) m)"
| "a64_exec (LdStUImm sz opc imm rn rt) m =
     ldst sz opc rt (rd_sp m rn + push_bit sz (ucast imm)) m"
| "a64_exec (LdStSImm md sz opc imm rn rt) m =
     (let b = rd_sp m rn; off = sext 9 imm in
      map_option (mode_back md rn b off) (ldst sz opc rt (mode_addr md b off) m))"
| "a64_exec (LdStReg sz opc rm opt s rn rt) m =
     (if opt = 3 then ldst sz opc rt (rd_sp m rn + push_bit (if s then sz else 0) (rd_zr m rm)) m
      else None)"
| "a64_exec (LdStPair load md imm rt2 rn rt) m =
     (let b = rd_sp m rn; off = push_bit 3 (sext 7 imm) in
      Some (mode_back md rn b off (ldst_pair load rt rt2 (mode_addr md b off) m)))"
| "a64_exec _ m = None"

text \<open>Straight-line code: every word must decode and execute.\<close>

fun a64_run :: "u32 list \<Rightarrow> machine \<Rightarrow> machine option" where
  "a64_run [] m = Some m"
| "a64_run (w # ws) m =
     (case a64_decode w of None \<Rightarrow> None
      | Some i \<Rightarrow> (case a64_exec i m of None \<Rightarrow> None | Some m' \<Rightarrow> a64_run ws m'))"

lemma a64_run_append:
  "a64_run (xs @ ys) m = (case a64_run xs m of None \<Rightarrow> None | Some m' \<Rightarrow> a64_run ys m')"
  by (induction xs arbitrary: m) (auto split: option.splits)

text \<open>
  The target of a direct branch, in words relative to the branch itself, and the byte offset of
  an \<open>ADR\<close>.
\<close>

fun branch_rel :: "a64_instr \<Rightarrow> int option" where
  "branch_rel (Branch imm) = Some (signed_take_bit 25 (uint imm))"
| "branch_rel (BranchLink imm) = Some (signed_take_bit 25 (uint imm))"
| "branch_rel (BranchCond k imm) = Some (signed_take_bit 18 (uint imm))"
| "branch_rel _ = None"

fun adr_rel :: "a64_instr \<Rightarrow> int option" where
  "adr_rel (Adr lo hi rd) = Some (signed_take_bit 20 (uint hi * 4 + uint lo))"
| "adr_rel _ = None"

section \<open>Memory laws\<close>

lemma bit_mem_read:
  "bit (mem_read m a n) i \<longleftrightarrow> i < 8 * n \<and> i < 64 \<and> bit (m (a + of_nat (i div 8))) (i mod 8)"
proof (induction m a n arbitrary: i rule: mem_read.induct)
  case (2 m a n)
  show ?case
  proof (cases "i < 8")
    case True
    then show ?thesis by (simp add: bit_or_iff bit_ucast_iff bit_push_bit_iff)
  next
    case False
    then have "i div 8 = Suc ((i - 8) div 8)" and "i mod 8 = (i - 8) mod 8"
      by (simp_all add: le_div_geq le_mod_geq)
    moreover have "\<not> bit (ucast (m a) :: u64) i"
      using False by (auto simp: bit_ucast_iff dest: bit_imp_le_length)
    ultimately show ?thesis
      using False "2.IH" [of "i - 8"]
      by (auto simp: bit_or_iff bit_push_bit_iff algebra_simps)
  qed
qed simp

lemma mem_read_cong:
  assumes "\<And>k. k < n \<Longrightarrow> m (a + of_nat k) = m' (a + of_nat k)"
  shows "mem_read m a n = mem_read m' a n"
  by (intro word_eq_by_bits) (auto simp: bit_mem_read assms less_mult_imp_div_less mult.commute)

lemma mem_read_write_same:
  assumes "n \<le> 8"
  shows "mem_read (mem_write m a n v) a n = take_bit (8 * n) v"
proof (intro word_eq_by_bits)
  fix i :: nat
  assume i: "i < LENGTH(64)"
  show "bit (mem_read (mem_write m a n v) a n) i = bit (take_bit (8 * n) v) i"
  proof (cases "i < 8 * n")
    case True
    then have d: "i div 8 < n" by (simp add: less_mult_imp_div_less mult.commute)
    then have u: "unat (of_nat (i div 8) :: u64) = i div 8"
      using assms by (simp add: unsigned_of_nat take_bit_nat_eq_self)
    have "8 * (i div 8) + i mod 8 = i" by simp
    then show ?thesis
      using True i d u
      by (simp add: bit_mem_read mem_write_def bit_ucast_iff bit_drop_bit_eq bit_take_bit_iff)
  next
    case False
    then show ?thesis by (simp add: bit_mem_read bit_take_bit_iff)
  qed
qed

text \<open>An access of \<open>n\<close> bytes at \<open>b\<close> is outside one of \<open>k\<close> bytes at \<open>a\<close>.\<close>

definition apart :: "u64 \<Rightarrow> nat \<Rightarrow> u64 \<Rightarrow> nat \<Rightarrow> bool" where
  "apart b n a k \<longleftrightarrow> (\<forall>i<n. k \<le> unat (b + of_nat i - a))"

lemma mem_read_write_apart:
  assumes "apart b n a k"
  shows "mem_read (mem_write m a k v) b n = mem_read m b n"
  using assms by (intro mem_read_cong) (auto simp: mem_write_def apart_def)

end
