(* ===== verification/A64_Emit.thy ===== *)
theory A64_Emit
  imports A64_State A64_Isa
begin

text \<open>
  The data-processing and load/store emitters of \<open>src/alc/bin-aarch64.c\<close>, each a function on
  the emission state, and what the emitted words do on the machine of \<open>A64_Isa\<close>.
\<close>

section \<open>Moves\<close>

definition chunk16 :: "u64 \<Rightarrow> nat \<Rightarrow> u32" where
  "chunk16 uv lane = ucast (drop_bit (lane * 16) uv AND 0xffff)"

fun movn_lanes :: "u32 \<Rightarrow> u32 \<Rightarrow> u64 \<Rightarrow> nat list \<Rightarrow> bool \<Rightarrow> a64 \<Rightarrow> bool \<times> a64" where
  "movn_lanes sf rd uv [] ini st = (ini, st)"
| "movn_lanes sf rd uv (lane # ls) ini st =
     (let chunk = chunk16 uv lane in
      if chunk = 0xffff then movn_lanes sf rd uv ls ini st
      else if ini then
        movn_lanes sf rd uv ls ini
          (put_word (push_bit 31 sf OR OP_MOVK OR push_bit 21 (of_nat lane) OR push_bit 5 chunk OR rd) st)
      else
        (let inv = NOT chunk AND 0xffff in
         movn_lanes sf rd uv ls True
          (put_word (push_bit 31 sf OR OP_MOVN OR push_bit 21 (of_nat lane) OR push_bit 5 inv OR rd) st)))"

fun movz_lanes :: "u32 \<Rightarrow> u32 \<Rightarrow> u64 \<Rightarrow> nat list \<Rightarrow> bool \<Rightarrow> a64 \<Rightarrow> bool \<times> a64" where
  "movz_lanes sf rd uv [] ini st = (ini, st)"
| "movz_lanes sf rd uv (lane # ls) ini st =
     (let chunk = chunk16 uv lane in
      if chunk = 0 \<and> ini then movz_lanes sf rd uv ls ini st
      else
        (let base = (if ini then OP_MOVK else OP_MOVZ) in
         movz_lanes sf rd uv ls True
          (put_word (push_bit 31 sf OR base OR push_bit 21 (of_nat lane) OR push_bit 5 chunk OR rd) st)))"

definition emit_mov :: "reg \<Rightarrow> i64 \<Rightarrow> a64 \<Rightarrow> a64" where
  "emit_mov dst value st =
    (let rd = reg_no dst;
         sf = (if 0xffffffff <s value \<or> value <s 0 then 1 else is64 dst);
         lanes = (if sf \<noteq> 0 then 4 else 2);
         uv = value;
         movz_count = length (filter (\<lambda>l. chunk16 uv l \<noteq> 0) [0 ..< lanes]);
         movn_count = length (filter (\<lambda>l. chunk16 uv l \<noteq> 0xffff) [0 ..< lanes]) in
     if movn_count < movz_count then
       (let (ini, st1) = movn_lanes sf rd uv [0 ..< lanes] False st in
        if \<not> ini then put_word (push_bit 31 sf OR OP_MOVN OR rd) st1 else st1)
     else
       (let (ini, st1) = movz_lanes sf rd uv [0 ..< lanes] False st in
        if \<not> ini then put_word (push_bit 31 sf OR OP_MOVZ OR rd) st1 else st1))"

definition emit_and_lowbits :: "reg \<Rightarrow> reg \<Rightarrow> u32 \<Rightarrow> a64 \<Rightarrow> a64" where
  "emit_and_lowbits dst src nbits st =
    (let base = (if is64 dst \<noteq> 0 then OP_AND_IMM64 else OP_AND_IMM32) in
     put_word (base OR push_bit 10 (nbits - 1) OR push_bit 5 (reg_no src) OR reg_no dst) st)"

definition emit_mov_reg :: "tstore \<Rightarrow> reg \<Rightarrow> reg \<Rightarrow> a64 \<Rightarrow> a64" where
  "emit_mov_reg ts dst src st =
    (if reg_eq dst src then st
     else
      let dsize = (if dtype_tryget_addr (r_dtype dst) \<noteq> 0 then 8 else ucast (r_rsize dst) :: u32);
          mov = (let sf = (if 4 < dsize then 1 else 0) in
            put_word (push_bit 31 sf OR OP_MOV_REG OR push_bit 16 (reg_no src) OR reg_no dst) st) in
      (case base_type ts (r_dtype src) of
         None \<Rightarrow> mov
       | Some t \<Rightarrow>
          if 4 < dsize \<and> r_rsize src \<le> 4 then
            (if ty_sign t then
               (let imms = ucast (ty_size t * 8 - 1) in
                put_word (OP_SBFM64 OR push_bit 10 imms OR push_bit 5 (reg_no src) OR reg_no dst) st)
             else if ty_size t < 4 then emit_and_lowbits dst src (ucast (ty_size t * 8)) st
             else put_word (OP_ORR_REG OR push_bit 16 (reg_no src) OR 0x3e0 OR reg_no dst) st)
          else mov))"

definition emit_orr_reg :: "reg \<Rightarrow> reg \<Rightarrow> reg \<Rightarrow> a64 \<Rightarrow> a64" where
  "emit_orr_reg dst lhs rhs st =
    put_word (push_bit 31 (is64 dst) OR OP_ORR_REG OR push_bit 16 (reg_no rhs)
              OR push_bit 5 (reg_no lhs) OR reg_no dst) st"

definition emit_zero_out :: "reg \<Rightarrow> a64 \<Rightarrow> a64" where
  "emit_zero_out dst st = emit_mov dst 0 st"

section \<open>Addition, subtraction and comparison\<close>

definition addsub_imm :: "u32 \<Rightarrow> reg \<Rightarrow> reg \<Rightarrow> i64 \<Rightarrow> a64 \<Rightarrow> a64" where
  "addsub_imm base dst lhs rhs st =
    (let sf = is64 dst;
         imm0 = (if rhs <s 0 then - rhs else rhs);
         base' = (if rhs <s 0 then base XOR ADDSUB_NEG_BIT else base);
         sh = (if 0xfff < imm0 then 1 else 0);
         imm = (if 0xfff < imm0 then drop_bit 12 imm0 else imm0) in
     put_word (push_bit 31 sf OR base' OR push_bit 22 sh OR push_bit 10 (ucast (imm AND 0xfff))
               OR push_bit 5 (reg_no lhs) OR reg_no dst) st)"

definition emit_add :: "tstore \<Rightarrow> reg \<Rightarrow> reg \<Rightarrow> i64 \<Rightarrow> a64 \<Rightarrow> a64" where
  "emit_add ts dst lhs rhs st =
    (if rhs = 0 then emit_mov_reg ts dst lhs st else addsub_imm OP_ADD_IMM dst lhs rhs st)"

definition emit_sub :: "tstore \<Rightarrow> reg \<Rightarrow> reg \<Rightarrow> i64 \<Rightarrow> a64 \<Rightarrow> a64" where
  "emit_sub ts dst lhs rhs st =
    (if rhs = 0 then emit_mov_reg ts dst lhs st else addsub_imm OP_SUB_IMM dst lhs rhs st)"

definition zr_of :: "u8 \<Rightarrow> reg" where
  "zr_of n = reg0\<lparr>r_type := RD_NONE, r_rsize := n\<rparr>"

definition emit_cmp :: "reg \<Rightarrow> i64 \<Rightarrow> a64 \<Rightarrow> a64" where
  "emit_cmp lhs rhs st = addsub_imm OP_SUBS_IMM (zr_of (r_rsize lhs)) lhs rhs st"

definition addsub_reg :: "u32 \<Rightarrow> reg \<Rightarrow> reg \<Rightarrow> reg \<Rightarrow> a64 \<Rightarrow> a64" where
  "addsub_reg base dst lhs rhs st =
    put_word (push_bit 31 (is64 dst) OR base OR push_bit 16 (reg_no rhs)
              OR push_bit 5 (reg_no lhs) OR reg_no dst) st"

definition ext_option :: "tstore \<Rightarrow> reg \<Rightarrow> u32" where
  "ext_option ts narrow =
    (let t = base_type ts (r_dtype narrow);
         size = (case t of Some t' \<Rightarrow> ty_size t' | None \<Rightarrow> ucast (r_rsize narrow));
         log2 = (if 8 \<le> size then 3 else if 4 \<le> size then 2 else if 2 \<le> size then 1 else 0);
         sign = (case t of Some t' \<Rightarrow> if ty_sign t' then 4 else 0 | None \<Rightarrow> 0) in
     sign OR log2)"

definition addsub_ext :: "tstore \<Rightarrow> u32 \<Rightarrow> reg \<Rightarrow> reg \<Rightarrow> reg \<Rightarrow> u32 \<Rightarrow> a64 \<Rightarrow> a64" where
  "addsub_ext ts plain_base dst wide narrow imm3 st =
    (let sf = is64 wide; base = plain_base OR ADDSUB_EXT_BIT OR push_bit 31 sf in
     put_word (base OR push_bit 16 (reg_no narrow) OR push_bit 13 (ext_option ts narrow)
               OR push_bit 10 imm3 OR push_bit 5 (reg_no wide) OR reg_no dst) st)"

definition emit_add_reg :: "tstore \<Rightarrow> reg \<Rightarrow> reg \<Rightarrow> reg \<Rightarrow> a64 \<Rightarrow> a64" where
  "emit_add_reg ts dst lhs rhs st =
    (if r_rsize lhs \<noteq> r_rsize rhs then
       (let wide = (if r_rsize rhs < r_rsize lhs then lhs else rhs);
            narrow = (if r_rsize rhs < r_rsize lhs then rhs else lhs) in
        addsub_ext ts OP_ADD_REG dst wide narrow 0 st)
     else addsub_reg OP_ADD_REG dst lhs rhs st)"

definition emit_sub_reg :: "tstore \<Rightarrow> reg \<Rightarrow> reg \<Rightarrow> reg \<Rightarrow> a64 \<Rightarrow> a64" where
  "emit_sub_reg ts dst lhs rhs st =
    (if r_rsize lhs = r_rsize rhs then addsub_reg OP_SUB_REG dst lhs rhs st
     else if r_rsize rhs < r_rsize lhs then addsub_ext ts OP_SUB_REG dst lhs rhs 0 st
     else
      let tmp = reg0\<lparr>r_type := SCRATCH, r_offset := 8, r_rsize := r_rsize dst,
                     r_dtype := r_dtype lhs\<rparr> in
      addsub_reg OP_SUB_REG dst tmp rhs (emit_mov_reg ts tmp lhs st))"

definition emit_cmp_reg :: "tstore \<Rightarrow> reg \<Rightarrow> reg \<Rightarrow> cond \<Rightarrow> a64 \<Rightarrow> a64" where
  "emit_cmp_reg ts lhs rhs c st =
    (if r_rsize lhs = r_rsize rhs then addsub_reg OP_SUBS_REG (zr_of (r_rsize lhs)) lhs rhs st
     else if r_rsize rhs < r_rsize lhs then
       addsub_ext ts OP_SUBS_REG (zr_of (r_rsize lhs)) lhs rhs 0 st
     else
      let tmp = reg0\<lparr>r_type := SCRATCH, r_offset := 8, r_rsize := r_rsize rhs,
                     r_dtype := r_dtype lhs\<rparr> in
      addsub_reg OP_SUBS_REG (zr_of (r_rsize rhs)) tmp rhs (emit_mov_reg ts tmp lhs st))"

section \<open>Shifts, bit fields and condition results\<close>

definition emit_lsl :: "reg \<Rightarrow> reg \<Rightarrow> i64 \<Rightarrow> a64 \<Rightarrow> a64" where
  "emit_lsl dst lhs rhs st =
    (let sf = is64 dst;
         wd = (if sf \<noteq> 0 then 64 else 32 :: u32);
         shift = ucast rhs AND (wd - 1);
         immr = (wd - shift) AND (wd - 1);
         imms = wd - 1 - shift;
         base = (if sf \<noteq> 0 then OP_UBFM64 else OP_UBFM32) in
     put_word (base OR push_bit 16 immr OR push_bit 10 imms OR push_bit 5 (reg_no lhs)
               OR reg_no dst) st)"

definition emit_lsr_imm :: "reg \<Rightarrow> reg \<Rightarrow> i64 \<Rightarrow> a64 \<Rightarrow> a64" where
  "emit_lsr_imm dst src rhs st =
    (let sf = is64 dst;
         wd = (if sf \<noteq> 0 then 64 else 32 :: u32);
         immr = ucast rhs AND (wd - 1);
         imms = wd - 1;
         base = (if sf \<noteq> 0 then OP_UBFM64 else OP_UBFM32) in
     put_word (base OR push_bit 16 immr OR push_bit 10 imms OR push_bit 5 (reg_no src)
               OR reg_no dst) st)"

definition emit_bitfield :: "u32 \<Rightarrow> u32 \<Rightarrow> reg \<Rightarrow> reg \<Rightarrow> i64 \<Rightarrow> i64 \<Rightarrow> a64 \<Rightarrow> a64" where
  "emit_bitfield base32 base64 dst src lsb wdth st =
    (let sf = is64 dst;
         rbits = (if sf \<noteq> 0 then 64 else 32 :: u32);
         base = (if sf \<noteq> 0 then base64 else base32);
         immr = (rbits - ucast lsb) AND (rbits - 1);
         imms = ucast (wdth - 1) in
     put_word (base OR push_bit 16 immr OR push_bit 10 imms OR push_bit 5 (reg_no src)
               OR reg_no dst) st)"

definition emit_cond_set :: "reg \<Rightarrow> cond \<Rightarrow> a64 \<Rightarrow> a64" where
  "emit_cond_set dst c st =
    (let inv = cond_aarch64 ! cond_no c XOR 1 in
     put_word (OP_CSINC OR push_bit 12 inv OR reg_no dst) st)"

section \<open>Loads and stores\<close>

definition ldst_size :: "reg \<Rightarrow> u64" where
  "ldst_size r = (if dtype_tryget_addr (r_dtype r) \<noteq> 0 then 8 else ucast (r_rsize r))"

definition ldst_size_bits :: "reg \<Rightarrow> a64 \<Rightarrow> u32 \<times> a64" where
  "ldst_size_bits r st =
    (let sz = ldst_size r; st1 = (if sz = 0 then report_err ZeroSize st else st) in
     (if 8 \<le> sz then 3 else if 4 \<le> sz then 2 else if 2 \<le> sz then 1 else 0, st1))"

definition ldst_load_opc :: "tstore \<Rightarrow> bool \<Rightarrow> reg \<Rightarrow> u32 \<Rightarrow> u32" where
  "ldst_load_opc ts is_load value sz =
    (if \<not> is_load then 0
     else if (case base_type ts (r_dtype value) of None \<Rightarrow> False | Some t \<Rightarrow> ty_sign t) \<and> sz < 3
     then LDST_LOAD_SIGNED else LDST_LOAD)"

definition mem_op :: "tstore \<Rightarrow> bool \<Rightarrow> reg \<Rightarrow> reg \<Rightarrow> i64 \<Rightarrow> a64 \<Rightarrow> a64" where
  "mem_op ts is_load value base offset st =
    (let (sz, st1) = ldst_size_bits value st;
         access = push_bit (unat sz) 1 :: u64;
         rt = reg_no value; rn = reg_no base;
         opc = ldst_load_opc ts is_load value sz in
     if 0 \<le>s offset \<and> offset mod access = 0 \<and> offset div access \<le> 0xfff then
       (let imm12 = ucast (offset div access) in
        put_word (push_bit 30 sz OR OP_LDST_USCALED OR opc OR push_bit 10 imm12
                  OR push_bit 5 rn OR rt) st1)
     else
       (let imm9 = ucast (offset AND 0x1ff) in
        put_word (push_bit 30 sz OR OP_LDST_UNSCALED OR opc OR push_bit 12 imm9
                  OR push_bit 5 rn OR rt) st1))"

definition ldst_regoff :: "tstore \<Rightarrow> bool \<Rightarrow> reg \<Rightarrow> reg \<Rightarrow> reg \<Rightarrow> bool \<Rightarrow> a64 \<Rightarrow> a64" where
  "ldst_regoff ts is_load value base off scaled st =
    (let (sz, st1) = ldst_size_bits value st;
         opc = ldst_load_opc ts is_load value sz;
         s = (if scaled then LDST_REGOFF_SCALE else 0) in
     put_word (push_bit 30 sz OR OP_LDST_REGOFF OR opc OR push_bit 16 (reg_no off) OR s
               OR push_bit 5 (reg_no base) OR reg_no value) st1)"

definition emit_str_reg :: "tstore \<Rightarrow> reg \<Rightarrow> reg \<Rightarrow> i32 \<Rightarrow> a64 \<Rightarrow> a64" where
  "emit_str_reg ts dst src offset st = mem_op ts False src dst (scast offset) st"

definition emit_ldr :: "tstore \<Rightarrow> reg \<Rightarrow> reg \<Rightarrow> i32 \<Rightarrow> a64 \<Rightarrow> a64" where
  "emit_ldr ts dst src offset st = mem_op ts True dst src (scast offset) st"

text \<open>The scratch register an immediate store goes through.\<close>

definition imm_tmp :: "tstore \<Rightarrow> reg \<Rightarrow> i32 \<Rightarrow> reg" where
  "imm_tmp ts dst off =
    reg0\<lparr>r_type := SCRATCH, r_offset := off,
         r_rsize := (case base_type ts (r_dtype dst) of Some t \<Rightarrow> ucast (ty_size t) | None \<Rightarrow> 8),
         r_dtype := dtype0\<lparr>d_base := d_base (r_dtype dst)\<rparr>\<rparr>"

definition emit_str_imm :: "tstore \<Rightarrow> reg \<Rightarrow> i64 \<Rightarrow> i32 \<Rightarrow> a64 \<Rightarrow> a64" where
  "emit_str_imm ts dst value offset st =
    (let tmp = imm_tmp ts dst 0 in
     if value \<noteq> 0 then emit_str_reg ts dst tmp offset (emit_mov tmp value st)
     else emit_str_reg ts dst XZR offset st)"

definition emit_str_regoff :: "tstore \<Rightarrow> reg \<Rightarrow> reg \<Rightarrow> reg \<Rightarrow> a64 \<Rightarrow> a64" where
  "emit_str_regoff ts dst src offset st = ldst_regoff ts False src dst offset False st"

definition emit_ldr_reg :: "tstore \<Rightarrow> reg \<Rightarrow> reg \<Rightarrow> reg \<Rightarrow> a64 \<Rightarrow> a64" where
  "emit_ldr_reg ts dst src offset st = ldst_regoff ts True dst src offset False st"

definition emit_str_imm_regoff :: "tstore \<Rightarrow> reg \<Rightarrow> i64 \<Rightarrow> reg \<Rightarrow> a64 \<Rightarrow> a64" where
  "emit_str_imm_regoff ts dst value offset st =
    (let tmp = imm_tmp ts dst 8 in
     emit_str_regoff ts dst tmp offset (emit_mov tmp value st))"

section \<open>Array elements\<close>

definition emit_array_access ::
    "tstore \<Rightarrow> reg \<Rightarrow> reg \<Rightarrow> reg \<Rightarrow> bool \<Rightarrow> a64 \<Rightarrow> a64 option" where
  "emit_array_access ts dst src offset is_store st =
    (let mem = (if is_store then dst else src);
         value = (if is_store then src else dst);
         access = (\<lambda>mem st. if is_store then emit_str_regoff ts mem value offset st
                            else emit_ldr_reg ts value mem offset st) in
     case dtype_size ts (r_dtype mem) of None \<Rightarrow> None | Some array_size \<Rightarrow>
     case base_type ts (r_dtype mem) of None \<Rightarrow> None | Some t \<Rightarrow>
     let elem_size = ty_size t;
         tmp_mem = mem\<lparr>r_type := SCRATCH, r_offset := 3, r_rsize := 8,
                       r_dtype := dtype_wrap (r_dtype mem) \<lparr>dk_tag = DK_ADDR, dk_amount = 1\<rparr>\<rparr>;
         on_stack = (r_type mem = STACK \<and> r_offset mem \<noteq> 0);
         st1 = (if on_stack then emit_sub ts tmp_mem FP (scast (r_offset mem)) st else st);
         mem1 = (if on_stack then tmp_mem else mem) in
     if elem_size = 0 then Some (report_err ElementSizeZero st1)
     else if elem_size = 1 then Some (access mem1 st1)
     else if elem_size \<le> 8 \<and> power_of_two_exponent elem_size \<noteq> 0 then
       Some (ldst_regoff ts (\<not> is_store) value mem1 offset True st1)
     else
       let size = (if array_size \<noteq> 0 then reg0\<lparr>r_type := SCRATCH, r_offset := 1\<rparr>
                   else reg0\<lparr>r_type := RD_NONE\<rparr>);
           st2 = (if array_size \<noteq> 0 then emit_mov size array_size st1 else st1);
           idx = reg0\<lparr>r_type := SCRATCH, r_offset := 2\<rparr>;
           st3 = put_word (OP_SMULL OR push_bit 16 (reg_no size) OR push_bit 5 (reg_no idx)
                           OR reg_no idx) st2 in
       Some (access mem1 st3))"

definition emit_elem_addr :: "tstore \<Rightarrow> reg \<Rightarrow> reg \<Rightarrow> reg \<Rightarrow> a64 \<Rightarrow> a64 option" where
  "emit_elem_addr ts dst object index st =
    (let tmp = reg0\<lparr>r_type := SCRATCH, r_offset := 0, r_rsize := 8\<rparr>;
         st1 = (if r_type object = STACK then emit_sub ts tmp FP (scast (r_offset object)) st else st);
         base = (if r_type object = STACK then tmp else object) in
     case base_type ts (r_dtype object) of None \<Rightarrow> None | Some t \<Rightarrow>
     if (ucast (ty_size t) :: u32) = 0 then None else
     let shift = of_nat (ctz (ucast (ty_size t) :: u32)) in
     case base_type ts (r_dtype index) of None \<Rightarrow> None | Some itype \<Rightarrow>
     if 8 \<le> ty_size itype then
       (let index' = index\<lparr>r_rsize := 8\<rparr>; sf = is64 dst in
        Some (put_word (push_bit 31 sf OR OP_ADD_REG OR push_bit 16 (reg_no index')
                        OR push_bit 10 shift OR push_bit 5 (reg_no base) OR reg_no dst) st1))
     else Some (addsub_ext ts OP_ADD_REG dst base (index\<lparr>r_rsize := 4\<rparr>) shift st1))"

section \<open>Concrete inputs\<close>

text \<open>
  The inputs the properties are applied to: an empty emission state, a machine whose registers
  hold their own number, an unsigned byte type at address 0 and a signed word type at 1.
\<close>

definition ex_reg :: "register_dst \<Rightarrow> i32 \<Rightarrow> u8 \<Rightarrow> reg" where
  "ex_reg t k n = reg0\<lparr>r_type := t, r_offset := k, r_rsize := n\<rparr>"

definition ex_typed :: "nat \<Rightarrow> reg \<Rightarrow> reg" where
  "ex_typed b r = r\<lparr>r_dtype := dtype0\<lparr>d_base := Some b\<rparr>\<rparr>"

definition ex_st :: a64 where
  "ex_st = a64_init (\<lambda>_. \<lparr>ctx_fn_name = ''f'', ctx_fn_named = True\<rparr>)"

definition ex_ts :: tstore where
  "ex_ts = (\<lambda>b. \<lparr>ty_size = (if b = 0 then 1 else 4), ty_align = (if b = 0 then 1 else 4),
     ty_tag = TK_FUND, ty_sign = (b \<noteq> 0), ty_name = [], ty_members = []\<rparr>)"

definition ex_mach :: machine where
  "ex_mach = \<lparr>xr = of_nat, spr = 0x1000, nzcv = (False, False, False, False), memory = (\<lambda>_. 0)\<rparr>"

lemma ex_reg [simp]:
  "small 5 0" "small 5 1" "small 5 (21 :: u32)"
  "reg_no (ex_reg RET 0 n) = 0" "reg_no (ex_reg PARAM 1 n) = 1" "reg_no (ex_reg NREG 2 n) = 21"
  "r_rsize (ex_reg t k n) = n" "r_dtype (ex_reg t k n) = dtype0"
  "is64 (ex_reg t k n) = (if 4 < n then 1 else 0)"
  by (simp_all add: ex_reg_def small_def reg_no_def reg0_def is64_def
      dtype0_def dtype_tryget_addr_def)

lemma ex_typed [simp]:
  "reg_no (ex_typed b r) = reg_no r" "r_rsize (ex_typed b r) = r_rsize r"
  "base_type ts (r_dtype (ex_typed b r)) = Some (ts b)"
  "is64 (ex_typed b r) = (if 4 < r_rsize r then 1 else 0)"
  by (simp_all add: ex_typed_def reg_no_def base_type_def is64_def dtype0_def
      dtype_tryget_addr_def split: register_dst.split)

lemma ex_ts [simp]: "ty_size (ex_ts 0) = 1" "ty_sign (ex_ts 0) = False"
  "ty_size (ex_ts 1) = 4" "ty_sign (ex_ts 1) = True" "ty_size (ex_ts (Suc 0)) = 4"
  "ty_sign (ex_ts (Suc 0)) = True"
  by (simp_all add: ex_ts_def)

lemma ex_st [simp]: "body ex_st = []" "0 < CODE_CAP" "room 5 ex_st" "room 2 ex_st"
  by (simp_all add: ex_st_def a64_init_def CODE_CAP_def room_def)

end
