(* ===== verification/A64_Decode.thy ===== *)
theory A64_Decode
  imports A64_Emit
begin

text \<open>
  Reading the emitted words back: for every encoding the emitters build, the instruction that
  \<open>a64_decode\<close> finds in it. The contents of each field are assumed to fit it (\<open>small\<close>); the
  facts form the collection \<open>encodings\<close>.
\<close>

named_theorems encodings

lemma decode_move [encodings]:
  assumes "small 5 rd" "small 2 lane" "small 16 c" "small 1 sf"
  shows "a64_decode (push_bit 31 sf OR OP_MOVZ OR push_bit 21 lane OR push_bit 5 c OR rd)
    = Some (MovZ (sf = 1) (unat lane) c (unat rd))"
   "a64_decode (push_bit 31 sf OR OP_MOVN OR push_bit 21 lane OR push_bit 5 c OR rd)
    = Some (MovN (sf = 1) (unat lane) c (unat rd))"
   "a64_decode (push_bit 31 sf OR OP_MOVK OR push_bit 21 lane OR push_bit 5 c OR rd)
    = Some (MovK (sf = 1) (unat lane) c (unat rd))"
  using assms by (simp_all add: a64_decode_def decode_dp_def rn_fld_def fields Let_def)

lemma decode_addsub_imm [encodings]:
  assumes "small 5 rd" "small 5 rn" "small 1 sh" "small 12 c" "small 1 sf"
  shows "a64_decode (push_bit 31 sf OR OP_ADD_IMM OR push_bit 22 sh OR push_bit 10 c OR push_bit 5 rn OR rd)
    = Some (AddSubImm (sf = 1) False False (sh = 1) c (unat rn) (unat rd))"
   "a64_decode (push_bit 31 sf OR OP_SUB_IMM OR push_bit 22 sh OR push_bit 10 c OR push_bit 5 rn OR rd)
    = Some (AddSubImm (sf = 1) True False (sh = 1) c (unat rn) (unat rd))"
   "a64_decode (push_bit 31 sf OR OP_SUBS_IMM OR push_bit 22 sh OR push_bit 10 c OR push_bit 5 rn OR rd)
    = Some (AddSubImm (sf = 1) True True (sh = 1) c (unat rn) (unat rd))"
   "a64_decode (push_bit 31 sf OR (OP_SUBS_IMM XOR ADDSUB_NEG_BIT) OR push_bit 22 sh OR push_bit 10 c
      OR push_bit 5 rn OR rd)
    = Some (AddSubImm (sf = 1) False True (sh = 1) c (unat rn) (unat rd))"
  using assms by (simp_all add: a64_decode_def decode_dp_def rn_fld_def fields Let_def)

lemma decode_bitfield [encodings]:
  assumes "small 5 rd" "small 5 rn" "small 6 r" "small 6 s"
  shows "a64_decode (OP_UBFM64 OR push_bit 16 r OR push_bit 10 s OR push_bit 5 rn OR rd)
    = Some (Bitfield 2 True True (unat r) (unat s) (unat rn) (unat rd))"
  "a64_decode (OP_UBFM32 OR push_bit 16 r OR push_bit 10 s OR push_bit 5 rn OR rd)
    = Some (Bitfield 2 False False (unat r) (unat s) (unat rn) (unat rd))"
  "a64_decode (OP_BFM32 OR push_bit 16 r OR push_bit 10 s OR push_bit 5 rn OR rd)
    = Some (Bitfield 1 False False (unat r) (unat s) (unat rn) (unat rd))"
  "a64_decode (OP_BFM64 OR push_bit 16 r OR push_bit 10 s OR push_bit 5 rn OR rd)
    = Some (Bitfield 1 True True (unat r) (unat s) (unat rn) (unat rd))"
  "a64_decode (OP_SBFM64 OR push_bit 10 s OR push_bit 5 rn OR rd)
    = Some (Bitfield 0 True True 0 (unat s) (unat rn) (unat rd))"
  using assms by (simp_all add: a64_decode_def decode_dp_def rn_fld_def fields Let_def)

lemma decode_and [encodings]:
  assumes "small 5 rd" "small 5 rn" "small 6 s"
  shows "a64_decode (OP_AND_IMM64 OR push_bit 10 s OR push_bit 5 rn OR rd)
    = Some (AndImm True True 0 (unat s) (unat rn) (unat rd))"
   "a64_decode (OP_AND_IMM32 OR push_bit 10 s OR push_bit 5 rn OR rd)
    = Some (AndImm False False 0 (unat s) (unat rn) (unat rd))"
  using assms by (simp_all add: a64_decode_def decode_dp_def rn_fld_def fields Let_def)

lemma decode_orr [encodings]:
  assumes "small 5 rd" "small 5 rn" "small 5 rm" "small 1 sf"
  shows "a64_decode (push_bit 31 sf OR OP_ORR_REG OR push_bit 16 rm OR push_bit 5 rn OR rd)
    = Some (OrrReg (sf = 1) (unat rm) (unat rn) (unat rd))"
  "a64_decode (push_bit 31 sf OR OP_MOV_REG OR push_bit 16 rm OR rd)
    = Some (OrrReg (sf = 1) (unat rm) 31 (unat rd))"
  "a64_decode (OP_ORR_REG OR push_bit 16 rm OR 0x3e0 OR rd)
    = Some (OrrReg False (unat rm) 31 (unat rd))"
  using assms by (simp_all add: a64_decode_def decode_dp_def rn_fld_def fields Let_def)

lemma decode_addsub_reg [encodings]:
  assumes "small 5 rd" "small 5 rn" "small 5 rm" "small 1 sf"
  shows "a64_decode (push_bit 31 sf OR OP_ADD_REG OR push_bit 16 rm OR push_bit 5 rn OR rd)
    = Some (AddSubReg (sf = 1) False False (unat rm) (unat rn) (unat rd))"
  "a64_decode (push_bit 31 sf OR OP_SUB_REG OR push_bit 16 rm OR push_bit 5 rn OR rd)
    = Some (AddSubReg (sf = 1) True False (unat rm) (unat rn) (unat rd))"
  "a64_decode (push_bit 31 sf OR OP_SUBS_REG OR push_bit 16 rm OR push_bit 5 rn OR rd)
    = Some (AddSubReg (sf = 1) True True (unat rm) (unat rn) (unat rd))"
  using assms by (simp_all add: a64_decode_def decode_dp_def rn_fld_def fields Let_def)

lemma decode_addsub_ext [encodings]:
  assumes "small 5 rd" "small 5 rn" "small 5 rm" "small 1 sf" "small 3 opt" "small 3 i"
  shows "a64_decode ((OP_ADD_REG OR ADDSUB_EXT_BIT OR push_bit 31 sf) OR push_bit 16 rm OR push_bit 13 opt OR push_bit 10 i OR push_bit 5 rn OR rd)
    = Some (AddSubExt (sf = 1) False False (unat rm) opt (unat i) (unat rn) (unat rd))"
  "a64_decode ((OP_SUB_REG OR ADDSUB_EXT_BIT OR push_bit 31 sf) OR push_bit 16 rm OR push_bit 13 opt OR push_bit 10 i OR push_bit 5 rn OR rd)
    = Some (AddSubExt (sf = 1) True False (unat rm) opt (unat i) (unat rn) (unat rd))"
  "a64_decode ((OP_SUBS_REG OR ADDSUB_EXT_BIT OR push_bit 31 sf) OR push_bit 16 rm OR push_bit 13 opt OR push_bit 10 i OR push_bit 5 rn OR rd)
    = Some (AddSubExt (sf = 1) True True (unat rm) opt (unat i) (unat rn) (unat rd))"
  using assms by (simp_all add: a64_decode_def decode_dp_def rn_fld_def fields Let_def)

lemma decode_misc [encodings]:
  assumes "small 5 rd" "small 4 c" "small 5 rm" "small 5 rn"
  shows "a64_decode (OP_CSINC OR push_bit 12 c OR rd) = Some (Csinc False 31 (unat c) 31 (unat rd))"
   "a64_decode (OP_SMULL OR push_bit 16 rm OR push_bit 5 rn OR rd) = Some (Smaddl (unat rm) 31 (unat rn) (unat rd))"
  using assms by (simp_all add: a64_decode_def decode_dp_def rn_fld_def fields Let_def)

lemma decode_ldst_imm [encodings]:
  assumes "small 5 rt" "small 5 rn" "small 2 sz" "small 12 i" "small 9 j" "small 2 k"
  shows "a64_decode (push_bit 30 sz OR OP_LDST_USCALED OR push_bit 22 k OR push_bit 10 i OR push_bit 5 rn OR rt)
     = Some (LdStUImm (unat sz) k i (unat rn) (unat rt))"
   "a64_decode (push_bit 30 sz OR OP_LDST_UNSCALED OR push_bit 22 k OR push_bit 12 j OR push_bit 5 rn OR rt)
     = Some (LdStSImm Offset (unat sz) k j (unat rn) (unat rt))"
  using assms by (simp_all add: a64_decode_def decode_mem_def rn_fld_def fields Let_def)

lemma decode_ldst_reg [encodings]:
  assumes "small 5 rt" "small 5 rn" "small 5 rm" "small 2 sz" "small 2 k" "small 1 s"
  shows "a64_decode (push_bit 30 sz OR OP_LDST_REGOFF OR push_bit 22 k OR push_bit 16 rm OR push_bit 12 s OR push_bit 5 rn OR rt)
     = Some (LdStReg (unat sz) k (unat rm) 3 (s = 1) (unat rn) (unat rt))"
  using assms by (simp_all add: a64_decode_def decode_mem_def rn_fld_def fields Let_def)

lemma decode_pair [encodings]:
  assumes "small 5 a" "small 5 b" "small 5 rn" "small 7 i"
  shows "a64_decode (OP_STP_OFF OR push_bit 15 i OR push_bit 10 b OR push_bit 5 rn OR a)
      = Some (LdStPair False Offset i (unat b) (unat rn) (unat a))"
  "a64_decode (OP_LDP_OFF OR push_bit 15 i OR push_bit 10 b OR push_bit 5 rn OR a)
      = Some (LdStPair True Offset i (unat b) (unat rn) (unat a))"
  "a64_decode (OP_STP_PRE OR push_bit 15 i OR push_bit 10 b OR push_bit 5 rn OR a)
      = Some (LdStPair False PreIndex i (unat b) (unat rn) (unat a))"
  "a64_decode (OP_LDP_POST OR push_bit 15 i OR push_bit 10 b OR push_bit 5 rn OR a)
      = Some (LdStPair True PostIndex i (unat b) (unat rn) (unat a))"
  using assms by (simp_all add: a64_decode_def decode_mem_def rn_fld_def fields Let_def)

lemma decode_frame_one [encodings]:
  assumes "small 5 a" "small 5 rn" "small 9 i" "small 12 j"
  shows "a64_decode (OP_STR_PRE OR push_bit 12 i OR push_bit 5 rn OR a)
      = Some (LdStSImm PreIndex 3 0 i (unat rn) (unat a))"
  "a64_decode (OP_LDR_POST OR push_bit 12 i OR push_bit 5 rn OR a)
      = Some (LdStSImm PostIndex 3 1 i (unat rn) (unat a))"
  "a64_decode (OP_STR_OFF64 OR push_bit 10 j OR push_bit 5 rn OR a)
      = Some (LdStUImm 3 0 j (unat rn) (unat a))"
  "a64_decode (OP_LDR_OFF64 OR push_bit 10 j OR push_bit 5 rn OR a)
      = Some (LdStUImm 3 1 j (unat rn) (unat a))"
  using assms by (simp_all add: a64_decode_def decode_mem_def rn_fld_def fields Let_def)

lemma decode_frame_sp [encodings]:
  assumes "small 5 a" "small 5 rn" "small 12 j"
  shows "a64_decode (OP_SUB_SP_IMM OR push_bit 10 j OR push_bit 5 rn OR a)
      = Some (AddSubImm True True False False j (unat rn) (unat a))"
  "a64_decode (OP_ADD_SP_IMM OR push_bit 10 j OR push_bit 5 rn OR a)
      = Some (AddSubImm True False False False j (unat rn) (unat a))"
  using assms by (simp_all add: a64_decode_def decode_dp_def rn_fld_def fields Let_def)

lemma decode_branches [encodings]:
  assumes "small 26 i" "small 19 j" "small 4 c" "small 2 lo" "small 5 rd"
  shows "a64_decode (OP_B OR i) = Some (Branch i)"
   "a64_decode (OP_BL OR i) = Some (BranchLink i)"
   "a64_decode ((OP_BCOND OR c) OR push_bit 5 j) = Some (BranchCond (unat c) j)"
   "a64_decode ((OP_ADR OR rd) OR push_bit 29 lo OR push_bit 5 j) = Some (Adr lo j (unat rd))"
   "a64_decode OP_RET = Some Return"
  using assms by (simp_all add: a64_decode_def decode_br_def decode_dp_def rn_fld_def fields Let_def)
end
