(* ===== verification/A64_Mov.thy ===== *)
theory A64_Mov
  imports A64_Decode
begin

text \<open>
  \<open>emit_mov\<close> materialises its value: whichever of the two strategies it takes, executing the
  words it emits leaves exactly the 64-bit value in the destination.
\<close>

section \<open>Writing one lane\<close>

lemma and_hex_mask:
  "(w :: 'a::len word) AND 0x7f = take_bit 7 w" "w AND 0x1ff = take_bit 9 w"
  "w AND 0xfff = take_bit 12 w" "w AND 0xffff = take_bit 16 w"
  by (simp_all add: take_bit_eq_mask mask_eq_exp_minus_1)

definition put_lane :: "u64 \<Rightarrow> nat \<Rightarrow> u32 \<Rightarrow> u64" where
  "put_lane r l c = (r AND NOT (push_bit (16 * l) (mask 16))) OR push_bit (16 * l) (ucast c)"

lemma bit_chunk16 [bits]: "bit (chunk16 uv l) i \<longleftrightarrow> i < 16 \<and> bit uv (16 * l + i)"
  by (auto simp: chunk16_def and_hex_mask bit_simps algebra_simps)

lemma small_chunk16 [fields]: "small 16 (chunk16 uv l)"
  by (auto simp: small_iff_bits bit_chunk16)

definition in_lane :: "nat \<Rightarrow> nat \<Rightarrow> bool" where
  "in_lane l i \<longleftrightarrow> 16 * l \<le> i \<and> i < 16 * l + 16"

lemma in_lane_div: "in_lane l i \<longleftrightarrow> i div 16 = l"
  by (auto simp: in_lane_def)

lemma bit_put_lane [bits]:
  "i < 64 \<Longrightarrow> bit (put_lane r l (chunk16 uv l)) i = (if in_lane l i then bit uv i else bit r i)"
  by (auto simp: put_lane_def in_lane_def bit_simps bit_chunk16)

lemma bit_put_lane_inv:
  "i < 64 \<Longrightarrow> bit (NOT (push_bit (16 * l) (ucast (NOT (chunk16 uv l) AND 0xffff) :: u64))) i
     = (if in_lane l i then bit uv i else True)"
  by (auto simp: in_lane_def and_hex_mask bit_simps bit_chunk16)

text \<open>A lane that holds \<open>0xffff\<close>, or 0, already is what a skipped iteration leaves.\<close>

lemma chunk_ones: "chunk16 uv l = 0xffff \<Longrightarrow> in_lane l i \<Longrightarrow> bit uv i"
proof -
  assume c: "chunk16 uv l = 0xffff" and l: "in_lane l i"
  have ffff: "bit (0xffff :: u32) k" if "k < 16" for k
  proof -
    have "(0xffff :: u32) = take_bit 16 (- 1)"
      by (simp add: take_bit_minus_one_eq_mask mask_eq_exp_minus_1)
    with that show ?thesis by (simp only: bit_take_bit_iff bit_minus_1_iff possible_bit_word) auto
  qed
  have "bit (chunk16 uv l) (i - 16 * l)"
    unfolding c using l by (intro ffff) (auto simp: in_lane_def)
  with l show "bit uv i" by (simp add: bit_chunk16 in_lane_def)
qed

lemma chunk_zero: "chunk16 uv l = 0 \<Longrightarrow> in_lane l i \<Longrightarrow> \<not> bit uv i"
proof -
  assume "chunk16 uv l = 0" and l: "in_lane l i"
  then have "\<not> bit (chunk16 uv l) (i - 16 * l)" by simp
  with l show "\<not> bit uv i" by (auto simp: bit_chunk16 in_lane_def)
qed


section \<open>The lane loops\<close>

definition sf_of :: "bool \<Rightarrow> u32" where
  "sf_of b = (if b then 1 else 0)"

lemma small_sf_of [fields]: "small 1 (sf_of b)" "(sf_of b = 1) = b"
  by (simp_all add: sf_of_def fields)

definition mov_word :: "u32 \<Rightarrow> bool \<Rightarrow> nat \<Rightarrow> u32 \<Rightarrow> u32 \<Rightarrow> u32" where
  "mov_word op b lane c rd = push_bit 31 (sf_of b) OR op OR push_bit 21 (of_nat lane) OR push_bit 5 c OR rd"

text \<open>The words of the two loops, without the state.\<close>

fun movk_words :: "u32 \<Rightarrow> bool \<Rightarrow> u32 \<Rightarrow> u64 \<Rightarrow> nat list \<Rightarrow> u32 list" where
  "movk_words skip b rd uv [] = []"
| "movk_words skip b rd uv (l # ls) =
     (if chunk16 uv l = skip then [] else [mov_word OP_MOVK b l (chunk16 uv l) rd])
      @ movk_words skip b rd uv ls"

fun movn_words :: "bool \<Rightarrow> u32 \<Rightarrow> u64 \<Rightarrow> nat list \<Rightarrow> u32 list" where
  "movn_words b rd uv [] = []"
| "movn_words b rd uv (l # ls) =
     (if chunk16 uv l = 0xffff then movn_words b rd uv ls
      else mov_word OP_MOVN b l (NOT (chunk16 uv l) AND 0xffff) rd
           # movk_words 0xffff b rd uv ls)"

lemma length_movk_words: "length (movk_words skip b rd uv ls) \<le> length ls"
  by (induction ls) auto

lemma movn_lanes_True:
  "room (length ls) st \<Longrightarrow>
   movn_lanes (sf_of b) rd uv ls True st = (True, emits st (movk_words 0xffff b rd uv ls))"
proof (induction ls arbitrary: st)
  case (Cons l ls)
  then show ?case
    by (auto simp: Let_def mov_word_def dest: room_Suc)
qed simp

lemma movz_lanes_True:
  "room (length ls) st \<Longrightarrow>
   movz_lanes (sf_of b) rd uv ls True st = (True, emits st (movk_words 0 b rd uv ls))"
proof (induction ls arbitrary: st)
  case (Cons l ls)
  then show ?case
    by (auto simp: Let_def mov_word_def dest: room_Suc)
qed simp

lemma movn_lanes_False:
  "room (length ls) st \<Longrightarrow>
   movn_lanes (sf_of b) rd uv ls False st
     = (\<exists>l \<in> set ls. chunk16 uv l \<noteq> 0xffff, emits st (movn_words b rd uv ls))"
proof (induction ls arbitrary: st)
  case (Cons l ls)
  then show ?case
    by (auto simp: Let_def mov_word_def movn_lanes_True dest: room_Suc)
qed simp


section \<open>Executing the loops\<close>

lemma exec_mov_word:
  assumes "small 5 rd" and "l < 4" and "small 16 c"
  shows "a64_decode (mov_word OP_MOVZ b l c rd) = Some (MovZ b l c (unat rd))"
    and "a64_decode (mov_word OP_MOVN b l c rd) = Some (MovN b l c (unat rd))"
    and "a64_decode (mov_word OP_MOVK b l c rd) = Some (MovK b l c (unat rd))"
proof -
  have l: "small 2 (of_nat l)" and u: "unat (of_nat l :: u32) = l"
    using assms(2) by (auto simp: small_def unsigned_of_nat take_bit_nat_eq_self)
  show "a64_decode (mov_word OP_MOVZ b l c rd) = Some (MovZ b l c (unat rd))"
    and "a64_decode (mov_word OP_MOVN b l c rd) = Some (MovN b l c (unat rd))"
    and "a64_decode (mov_word OP_MOVK b l c rd) = Some (MovK b l c (unat rd))"
    using encodings(1-3) [OF assms(1) l assms(3) small_sf_of(1) [of b]] u
    by (simp_all add: mov_word_def small_sf_of)
qed

text \<open>
  After the first instruction the register holds \<open>r\<close>; the remaining lanes of \<open>r\<close> are what a
  skipped chunk has (all ones for the \<open>movn\<close> loop, zero for the \<open>movz\<close> loop). The loop then
  leaves the lanes it covers equal to the value and the others as they were.
\<close>

definition reg_is :: "bool \<Rightarrow> nat \<Rightarrow> u64 \<Rightarrow> machine \<Rightarrow> machine \<Rightarrow> bool" where
  "reg_is b n r m m' \<longleftrightarrow> m' = wr_zr b n r m \<and> take_bit (width b) r = r"

lemma rd_wr_zr [simp]: "n \<noteq> 31 \<Longrightarrow> rd_zr (wr_zr b n v m) n = take_bit (width b) v"
  by (simp add: rd_zr_def wr_zr_def)

lemma wr_wr_zr [simp]: "wr_zr b n v (wr_zr b n w m) = wr_zr b n v m"
  by (simp add: wr_zr_def)

lemma wr_zr_take [simp]: "wr_zr b n (take_bit (width b) v) m = wr_zr b n v m"
  by (simp add: wr_zr_def)

lemma run_movk:
  assumes rd: "small 5 rd" "unat rd \<noteq> 31"
    and ls: "\<forall>l \<in> set ls. 16 * l < width b"
    and skip: "\<And>l i. l \<in> set ls \<Longrightarrow> chunk16 uv l = skip \<Longrightarrow> in_lane l i \<Longrightarrow> i < 64 \<Longrightarrow> bit r i = bit uv i"
    and dist: "distinct ls"
  shows "\<exists>r'. a64_run (movk_words skip b rd uv ls) (wr_zr b (unat rd) r m) = Some (wr_zr b (unat rd) r' m)
            \<and> (\<forall>i<width b. bit r' i = (if i div 16 \<in> set ls then bit uv i else bit r i))"
  using ls skip dist
proof (induction ls arbitrary: r)
  case (Cons l ls)
  have l4: "l < 4" using Cons.prems(1) by (auto simp: width_def split: if_splits)
  define r1 where "r1 = (if chunk16 uv l = skip then r else put_lane (take_bit (width b) r) l (chunk16 uv l))"
  have r1: "bit r1 i = (if in_lane l i then bit uv i else bit r i)" if "i < width b" for i
  proof -
    have "i < 64" using that by (simp add: width_def split: if_splits)
    then show ?thesis
      using that Cons.prems(2) [of l i] by (auto simp: r1_def bit_put_lane bit_take_bit_iff)
  qed
  have step: "a64_run (movk_words skip b rd uv (l # ls)) (wr_zr b (unat rd) r m)
      = a64_run (movk_words skip b rd uv ls) (wr_zr b (unat rd) r1 m)"
    using rd l4 small_chunk16 [of uv l]
    by (simp add: r1_def exec_mov_word put_lane_def)
  obtain r' where "a64_run (movk_words skip b rd uv ls) (wr_zr b (unat rd) r1 m) = Some (wr_zr b (unat rd) r' m)
      \<and> (\<forall>i<width b. bit r' i = (if i div 16 \<in> set ls then bit uv i else bit r1 i))"
  proof (atomize_elim, rule Cons.IH)
    fix k i assume k: "k \<in> set ls" "chunk16 uv k = skip" "in_lane k i" "i < 64"
    then have "16 * k < width b" using Cons.prems(1) by auto
    then have "i < width b" using k(3) by (auto simp: in_lane_def width_def split: if_splits)
    moreover have "k \<noteq> l" using Cons.prems(3) k(1) by auto
    ultimately show "bit r1 i = bit uv i"
      using r1 [of i] Cons.prems(2) [of k i] k by (simp add: in_lane_div)
  qed (use Cons.prems in auto)
  then show ?case
    by (intro exI [of _ r'] conjI) (simp_all only: step, simp_all add: r1 in_lane_div)
qed auto


lemma run_movn:
  assumes rd: "small 5 rd" "unat rd \<noteq> 31"
    and ls: "\<forall>l \<in> set ls. 16 * l < width b" and dist: "distinct ls"
    and some: "\<exists>l \<in> set ls. chunk16 uv l \<noteq> 0xffff"
  shows "\<exists>r'. a64_run (movn_words b rd uv ls) m = Some (wr_zr b (unat rd) r' m)
            \<and> (\<forall>i<width b. bit r' i = (if i div 16 \<in> set ls then bit uv i else True))"
  using ls dist some
proof (induction ls)
  case (Cons l ls)
  have l4: "l < 4" using Cons.prems(1) by (auto simp: width_def split: if_splits)
  show ?case
  proof (cases "chunk16 uv l = 0xffff")
    case True
    then obtain r' where "a64_run (movn_words b rd uv ls) m = Some (wr_zr b (unat rd) r' m)"
      and "\<forall>i<width b. bit r' i = (if i div 16 \<in> set ls then bit uv i else True)"
      using Cons by auto
    then show ?thesis
      using True chunk_ones [OF True] by (intro exI [of _ r']) (auto simp: in_lane_div)
  next
    case False
    define inv where "inv = NOT (chunk16 uv l) AND 0xffff"
    define r1 where "r1 = NOT (push_bit (16 * l) (ucast inv :: u64))"
    have r1: "bit r1 i = (if in_lane l i then bit uv i else True)" if "i < width b" for i
      using that bit_put_lane_inv [of i l uv]
      by (simp add: r1_def inv_def width_def split: if_splits)
    have "small 16 inv" by (simp add: inv_def and_hex_mask fields)
    then have step: "a64_run (movn_words b rd uv (l # ls)) m
        = a64_run (movk_words 0xffff b rd uv ls) (wr_zr b (unat rd) r1 m)"
      using False rd l4 by (simp add: r1_def inv_def [symmetric] exec_mov_word)
    obtain r' where "a64_run (movk_words 0xffff b rd uv ls) (wr_zr b (unat rd) r1 m)
          = Some (wr_zr b (unat rd) r' m)"
      and "\<forall>i<width b. bit r' i = (if i div 16 \<in> set ls then bit uv i else bit r1 i)"
    proof (atomize_elim, rule run_movk [OF rd])
      fix k i assume k: "k \<in> set ls" "chunk16 uv k = 0xffff" "in_lane k i" "i < 64"
      then have "16 * k < width b" using Cons.prems(1) by auto
      then have "i < width b" using k(3) by (auto simp: in_lane_def width_def split: if_splits)
      moreover have "k \<noteq> l" using Cons.prems(2) k(1) by auto
      ultimately show "bit r1 i = bit uv i"
        using r1 [of i] chunk_ones [OF k(2,3)] k(3) by (simp add: in_lane_div)
    qed (use Cons.prems in auto)
    then show ?thesis
      by (intro exI [of _ r'] conjI) (simp_all only: step, simp_all add: r1 in_lane_div)
  qed
qed simp

text \<open>The whole routine, over the words it appends.\<close>

definition mov_wide :: "reg \<Rightarrow> i64 \<Rightarrow> bool" where
  "mov_wide dst v \<longleftrightarrow> 0xffffffff <s v \<or> v <s 0 \<or> is64 dst \<noteq> 0"

definition mov_words :: "bool \<Rightarrow> u32 \<Rightarrow> i64 \<Rightarrow> u32 list" where
  "mov_words b rd v =
    (let ls = [0 ..< (if b then 4 else 2)] in
     if length (filter (\<lambda>l. chunk16 v l \<noteq> 0xffff) ls) < length (filter (\<lambda>l. chunk16 v l \<noteq> 0) ls) then
       movn_words b rd v ls
       @ (if \<exists>l \<in> set ls. chunk16 v l \<noteq> 0xffff then [] else [push_bit 31 (sf_of b) OR OP_MOVN OR rd])
     else mov_word OP_MOVZ b 0 (chunk16 v 0) rd # movk_words 0 b rd v [1 ..< (if b then 4 else 2)])"

lemma length_movn_words: "length (movn_words b rd uv ls) \<le> length ls"
  by (induction ls) (auto intro: le_SucI length_movk_words)

lemma emit_mov_words:
  assumes "room 5 st"
  shows "emit_mov dst v st = emits st (mov_words (mov_wide dst v) (reg_no dst) v)"
proof -
  define b where "b = mov_wide dst v"
  define rd where "rd = reg_no dst"
  have sf: "(if 0xffffffff <s v \<or> v <s 0 then 1 else is64 dst) = sf_of b"
    using is64_cases [of dst] by (auto simp: b_def mov_wide_def sf_of_def)
  have nz: "sf_of b \<noteq> 0 \<longleftrightarrow> b" by (simp add: sf_of_def)
  define n :: nat where "n = (if b then 4 else 2)"
  have n: "n \<le> 4" "0 < n" "n = Suc (n - 1)" by (simp_all add: n_def)
  have up: "[0 ..< n] = 0 # [1 ..< n]" using n(2) by (simp add: upt_conv_Cons)
  have r: "room n st" and r1: "room (Suc (n - 1)) st" "room (n - 1) (emits st [w])" for w
    using assms n by (auto intro: room_less simp: room_def emits_def)
  have movn: "movn_lanes (sf_of b) rd v [0 ..< n] False st
      = (\<exists>l \<in> set [0 ..< n]. chunk16 v l \<noteq> 0xffff, emits st (movn_words b rd v [0 ..< n]))"
    using r by (intro movn_lanes_False) simp
  have movz: "movz_lanes (sf_of b) rd v [0 ..< n] False st
      = (True, emits st (mov_word OP_MOVZ b 0 (chunk16 v 0) rd # movk_words 0 b rd v [1 ..< n]))"
    using movz_lanes_True [of "[1 ..< n]" "emits st [w]" b rd v for w] r1
    by (simp add: up mov_word_def Let_def)
  have fin: "room 1 (emits st (movn_words b rd v [0 ..< n]))"
    using assms n(1) length_movn_words [of b rd v "[0 ..< n]"] by (simp add: room_def emits_def)
  show ?thesis
    using fin
    by (simp only: emit_mov_def Let_def sf nz n_def [symmetric] movn movz prod.case
          b_def [symmetric] rd_def [symmetric] mov_words_def)
       (simp add: room_def emits_def put_word_def del: upt_Suc)
qed


lemma set_lanes: "i < width b \<Longrightarrow> i div 16 \<in> set [0 ..< (if b then 4 else 2)]"
  by (auto simp: width_def split: if_splits)

lemma mov_value_fits:
  assumes "\<not> mov_wide dst v"
  shows "take_bit 32 v = v"
proof -
  have "0 \<le> sint v" "sint v \<le> 0xffffffff"
    using assms by (auto simp: mov_wide_def word_sless_alt)
  then have "take_bit LENGTH(64) (sint v) = sint v"
    by (intro take_bit_int_eq_self) simp_all
  then have "uint v = sint v" by (metis uint_sint)
  with \<open>sint v \<le> 0xffffffff\<close> have "uint v < 2 ^ 32" by simp
  then have "int (unat v) < 2 ^ 32" by (simp only: uint_nat)
  then have "unat v < 2 ^ 32" by (metis of_nat_less_iff of_nat_numeral of_nat_power)
  then show ?thesis by (rule take_bit_word_small)
qed

lemma run_mov_words:
  assumes rd: "small 5 rd" "unat rd \<noteq> 31" and v: "take_bit (width b) v = v"
  shows "a64_run (mov_words b rd v) m = Some (wr_zr True (unat rd) v m)"
proof -
  define ls where "ls = [0 ..< (if b then 4 else 2 :: nat)]"
  have ls: "\<forall>l \<in> set ls. 16 * l < width b" "distinct ls" by (auto simp: ls_def width_def)
  have up: "ls = 0 # [1 ..< (if b then 4 else 2)]" by (simp add: ls_def upt_conv_Cons)
  have fin: "wr_zr b (unat rd) r m = wr_zr True (unat rd) v m"
    if "\<forall>i<width b. bit r i = bit v i" for r
  proof -
    have "take_bit (width b) r = take_bit (width b) v"
      using that by (intro word_eq_by_bits) (auto simp: bit_take_bit_iff)
    moreover have "take_bit (width True) v = v" by (intro word_eq_by_bits) (simp add: width_def bit_take_bit_iff)
    ultimately show ?thesis using v by (simp add: wr_zr_def)
  qed
  have mem: "i div 16 \<in> set ls" if "i < width b" for i
    using set_lanes [OF that] by (simp add: ls_def)
  show ?thesis
  proof (cases "length (filter (\<lambda>l. chunk16 v l \<noteq> 0xffff) ls) < length (filter (\<lambda>l. chunk16 v l \<noteq> 0) ls)")
    case movn: True
    show ?thesis
    proof (cases "\<exists>l \<in> set ls. chunk16 v l \<noteq> 0xffff")
      case True
      from run_movn [OF rd ls True, of m] obtain r where
        "a64_run (movn_words b rd v ls) m = Some (wr_zr b (unat rd) r m)"
        "\<forall>i<width b. bit r i = (if i div 16 \<in> set ls then bit v i else True)" by blast
      then show ?thesis
        using movn True mem fin [of r] by (simp add: mov_words_def ls_def [symmetric])
    next
      case False
      then have ones: "bit v i" if "i < width b" for i
        using chunk_ones [of v "i div 16" i] mem [OF that] by (simp add: in_lane_div)
      have "movn_words b rd v ls = []"
        using False by (induction ls) auto
      moreover have "a64_decode (push_bit 31 (sf_of b) OR OP_MOVN OR rd) = Some (MovN b 0 0 (unat rd))"
        using encodings(2) [OF rd(1), of 0 0 "sf_of b"] small_sf_of(1) [of b]
        by (simp add: small_const small_sf_of(2))
      moreover have "wr_zr b (unat rd) (- 1) m = wr_zr True (unat rd) v m"
        using ones by (intro fin) (auto simp: width_def)
      ultimately show ?thesis
        using movn False by (simp add: mov_words_def ls_def [symmetric] Let_def)
    qed
  next
    case False
    define r0 :: u64 where "r0 = ucast (chunk16 v 0)"
    have r0: "bit r0 i = (if in_lane 0 i then bit v i else False)" if "i < 64" for i
      using that by (auto simp: r0_def in_lane_def bit_simps bit_chunk16)
    have "\<exists>r. a64_run (movk_words 0 b rd v [1 ..< (if b then 4 else 2)]) (wr_zr b (unat rd) r0 m)
          = Some (wr_zr b (unat rd) r m)
       \<and> (\<forall>i<width b. bit r i = (if i div 16 \<in> set [1 ..< (if b then 4 else 2)] then bit v i else bit r0 i))"
    proof (rule run_movk [OF rd])
      fix l i assume "l \<in> set [1 ..< (if b then 4 else 2 :: nat)]" "chunk16 v l = 0" "in_lane l i" "i < 64"
      then show "bit r0 i = bit v i" using chunk_zero [of v l i] r0 [of i] by (auto simp: in_lane_div)
    qed (auto simp: width_def)
    then obtain r where r: "a64_run (movk_words 0 b rd v [1 ..< (if b then 4 else 2)]) (wr_zr b (unat rd) r0 m)
          = Some (wr_zr b (unat rd) r m)"
      "\<forall>i<width b. bit r i = (if i div 16 \<in> set [1 ..< (if b then 4 else 2)] then bit v i else bit r0 i)"
      by blast
    have "bit r i = bit v i" if "i < width b" for i
      using r(2) that mem [OF that] r0 [of i] by (auto simp: up in_lane_div width_def split: if_splits)
    then show ?thesis
      using False r(1) rd fin [of r]
      by (simp add: mov_words_def ls_def [symmetric] exec_mov_word small_chunk16 r0_def)
  qed
qed


section \<open>The property\<close>

text \<open>
  C4. Whatever the value and the destination register, and whichever of the two strategies the
  routine takes, executing the words it appends leaves the 64-bit value in the register and
  changes nothing else.
\<close>

theorem emit_mov_correct:
  assumes "room 5 st" and "small 5 (reg_no dst)" and "unat (reg_no dst) \<noteq> 31"
  shows "a64_run (emitted (emit_mov dst v) st) m
    = Some (m\<lparr>xr := (xr m)(unat (reg_no dst) := v)\<rparr>)"
proof -
  have "take_bit (width (mov_wide dst v)) v = v"
  proof (cases "mov_wide dst v")
    case True
    then show ?thesis by (intro word_eq_by_bits) (simp add: width_def bit_take_bit_iff)
  next
    case False
    then show ?thesis by (simp add: width_def mov_value_fits)
  qed
  moreover have "take_bit (width True) v = v"
    by (intro word_eq_by_bits) (simp add: width_def bit_take_bit_iff)
  ultimately show ?thesis
    using assms by (simp add: emitted_emits [OF emit_mov_words] run_mov_words wr_zr_def)
qed

theorem emit_mov_correct_witness:
  "a64_run (emitted (emit_mov (ex_reg NREG 2 4) (- 2)) ex_st) ex_mach
    = Some (ex_mach\<lparr>xr := (xr ex_mach)(21 := - 2)\<rparr>)"
  using emit_mov_correct [of ex_st "ex_reg NREG 2 4" "- 2" ex_mach] by simp

end
