(* ===== verification/A64_Arith.thy ===== *)
theory A64_Arith
  imports A64_Mov
begin

text \<open>
  What the words of the arithmetic, comparison, shift and move emitters compute: the exact
  value for every operand, and the range of immediates for which it is the intended one.
\<close>

section \<open>Operands\<close>

abbreviation rno :: "reg \<Rightarrow> nat" where
  "rno r \<equiv> unat (reg_no r)"

definition enc :: "reg \<Rightarrow> bool" where
  "enc r \<longleftrightarrow> small 5 (reg_no r)"

definition wide :: "reg \<Rightarrow> bool" where
  "wide r \<longleftrightarrow> is64 r = 1"

lemma is64_wide: "is64 r = sf_of (wide r)"
  using is64_cases [of r] by (auto simp: wide_def sf_of_def)

lemma is64_nz: "is64 r \<noteq> 0 \<longleftrightarrow> wide r"
  using is64_cases [of r] by (auto simp: wide_def)

lemma enc_zr_of [simp]: "enc (zr_of n)" "reg_no (zr_of n) = 31"
  by (simp_all add: enc_def zr_of_def reg0_def fields)

lemma wide_zr_of [simp]: "wide (zr_of n) \<longleftrightarrow> 4 < n"
  by (simp add: wide_def is64_def zr_of_def reg0_def dtype0_def dtype_tryget_addr_def)

lemma take_bit_width_True [simp]: "take_bit (width True) (v :: u64) = v"
  by (intro word_eq_by_bits) (simp add: width_def bit_take_bit_iff)

lemma wr_zr_cong: "take_bit (width b) v = take_bit (width b) w \<Longrightarrow> wr_zr b n v m = wr_zr b n w m"
  by (simp add: wr_zr_def)

lemma wr_sp_cong: "take_bit (width b) v = take_bit (width b) w \<Longrightarrow> wr_sp b n v m = wr_sp b n w m"
  by (simp add: wr_sp_def wr_zr_def)

section \<open>Immediates\<close>

text \<open>
  The immediate the hardware sees: twelve bits, or twelve bits shifted by twelve. Bits of the
  requested value outside that window are dropped by the encoder.
\<close>

definition imm_mag :: "i64 \<Rightarrow> u64" where
  "imm_mag r = (if r <s 0 then - r else r)"

definition imm_window :: "u64 \<Rightarrow> u64" where
  "imm_window k = (if 0xfff < k then push_bit 12 (take_bit 12 (drop_bit 12 k)) else k)"

definition imm_seen :: "i64 \<Rightarrow> i64" where
  "imm_seen r = (if r <s 0 then - imm_window (- r) else imm_window r)"

definition imm_exact :: "i64 \<Rightarrow> bool" where
  "imm_exact r \<longleftrightarrow> unat (imm_mag r) < 0x1000 \<or> (unat (imm_mag r) < 0x1000000 \<and> 0x1000 dvd unat (imm_mag r))"

lemma unat_imm_window:
  "unat (imm_window k) = (if unat k < 0x1000 then unat k else 0x1000 * (unat k div 0x1000 mod 0x1000))"
proof (cases "0xfff < k")
  case True
  have "unat (drop_bit 12 k) = unat k div 0x1000"
    by (simp add: drop_bit_eq_div unat_div_distrib)
  then have "unat (take_bit 12 (drop_bit 12 k)) = unat k div 0x1000 mod 0x1000"
    by (simp add: take_bit_eq_mod unat_mod_distrib)
  moreover have "unat (push_bit 12 (take_bit 12 (drop_bit 12 k)))
      = 0x1000 * unat (take_bit 12 (drop_bit 12 k))"
  proof -
    have "unat (take_bit 12 (drop_bit 12 k)) < 0x1000"
      using unat_take_bit_less [of 12 "drop_bit 12 k"] by simp
    then show ?thesis
      by (simp add: push_bit_eq_mult unat_word_ariths)
  qed
  ultimately show ?thesis using True by (simp add: imm_window_def word_less_nat_alt)
next
  case False
  then show ?thesis by (simp add: imm_window_def word_less_nat_alt not_less)
qed

lemma window_exact_nat:
  "4096 * (n div 4096 mod 4096) = (n :: nat) \<longleftrightarrow> n < 16777216 \<and> 4096 dvd n"
proof
  assume n: "4096 * (n div 4096 mod 4096) = n"
  define k where "k = n div 4096 mod 4096"
  have "k < 4096" and "n = 4096 * k" using n by (simp_all add: k_def)
  then show "n < 16777216 \<and> 4096 dvd n" by simp
next
  assume "n < 16777216 \<and> 4096 dvd n"
  then obtain k where "n = 4096 * k" "k < 4096" by (auto elim!: dvdE)
  then show "4096 * (n div 4096 mod 4096) = n" by simp
qed

lemma imm_window_exact:
  "imm_window k = k \<longleftrightarrow> unat k < 0x1000 \<or> (unat k < 0x1000000 \<and> 0x1000 dvd unat k)"
proof -
  have "imm_window k = k \<longleftrightarrow> unat (imm_window k) = unat k"
    by (simp add: word_unat_eq_iff)
  then show ?thesis
    using window_exact_nat [of "unat k"] by (auto simp: unat_imm_window)
qed

text \<open>
  The immediate the processor adds is the requested one exactly when its magnitude is below
  4096, or a multiple of 4096 below \<open>2 ^ 24\<close>; every other immediate is silently changed.
\<close>

lemma imm_seen_exact_iff: "imm_seen r = r \<longleftrightarrow> imm_exact r"
  using imm_window_exact [of "imm_mag r"]
  by (auto simp: imm_seen_def imm_mag_def imm_exact_def neg_equal_iff_equal minus_equation_iff
      split: if_splits)

definition imm_field :: "i64 \<Rightarrow> u32" where
  "imm_field r = (let k = imm_mag r in ucast ((if 0xfff < k then drop_bit 12 k else k) AND 0xfff))"

definition imm_shifted :: "i64 \<Rightarrow> bool" where
  "imm_shifted r \<longleftrightarrow> 0xfff < imm_mag r"

lemma small_imm_field [fields]: "small 12 (imm_field r)"
  by (auto simp: imm_field_def Let_def and_hex_mask small_iff_bits bit_simps)

lemma imm_field_value:
  "push_bit (if imm_shifted r then 12 else 0) (ucast (imm_field r)) = imm_window (imm_mag r)"
proof -
  have u: "ucast (ucast (x AND 0xfff :: u64) :: u32) = take_bit 12 x" for x :: u64
    by (auto simp: and_hex_mask bit_simps intro!: bit_word_eqI)
  have "take_bit 12 (imm_mag r) = imm_mag r" if "\<not> 0xfff < imm_mag r"
    using that by (intro take_bit_word_small) (simp add: word_less_nat_alt)
  then show ?thesis
    by (simp add: imm_field_def imm_shifted_def imm_window_def Let_def u)
qed

lemma addsub_imm_word:
  "addsub_imm base dst lhs r = put_word
    (push_bit 31 (sf_of (wide dst)) OR (if r <s 0 then base XOR ADDSUB_NEG_BIT else base)
     OR push_bit 22 (sf_of (imm_shifted r)) OR push_bit 10 (imm_field r)
     OR push_bit 5 (reg_no lhs) OR reg_no dst)"
  by (rule ext) (simp add: addsub_imm_def Let_def is64_wide imm_field_def imm_shifted_def imm_mag_def sf_of_def)

lemma neg_bit [simp]:
  "OP_ADD_IMM XOR ADDSUB_NEG_BIT = OP_SUB_IMM" "OP_SUB_IMM XOR ADDSUB_NEG_BIT = OP_ADD_IMM"
  by (simp_all add: a64_ops)

lemma addsub_imm_decode:
  assumes "enc dst" and "enc lhs"
  shows "a64_decode (push_bit 31 (sf_of b) OR OP_ADD_IMM OR push_bit 22 (sf_of (imm_shifted r))
        OR push_bit 10 (imm_field r) OR push_bit 5 (reg_no lhs) OR reg_no dst)
      = Some (AddSubImm b False False (imm_shifted r) (imm_field r) (rno lhs) (rno dst))"
    and "a64_decode (push_bit 31 (sf_of b) OR OP_SUB_IMM OR push_bit 22 (sf_of (imm_shifted r))
        OR push_bit 10 (imm_field r) OR push_bit 5 (reg_no lhs) OR reg_no dst)
      = Some (AddSubImm b True False (imm_shifted r) (imm_field r) (rno lhs) (rno dst))"
    and "a64_decode (push_bit 31 (sf_of b) OR OP_SUBS_IMM OR push_bit 22 (sf_of (imm_shifted r))
        OR push_bit 10 (imm_field r) OR push_bit 5 (reg_no lhs) OR reg_no dst)
      = Some (AddSubImm b True True (imm_shifted r) (imm_field r) (rno lhs) (rno dst))"
    and "a64_decode (push_bit 31 (sf_of b) OR (OP_SUBS_IMM XOR ADDSUB_NEG_BIT)
        OR push_bit 22 (sf_of (imm_shifted r))
        OR push_bit 10 (imm_field r) OR push_bit 5 (reg_no lhs) OR reg_no dst)
      = Some (AddSubImm b False True (imm_shifted r) (imm_field r) (rno lhs) (rno dst))"
  using encodings(4-7) [of "reg_no dst" "reg_no lhs" "sf_of (imm_shifted r)" "imm_field r" "sf_of b"]
    assms [unfolded enc_def] small_sf_of small_imm_field [of r] by auto

lemma addsub_wr:
  "wr_sp b n (addsub sub (take_bit (width b) x) y) m = wr_sp b n (addsub sub x y) m"
  "wr_zr b n (addsub sub (take_bit (width b) x) y) m = wr_zr b n (addsub sub x y) m"
  by (auto intro!: wr_sp_cong wr_zr_cong simp: addsub_def take_bit_word_add)

lemma add_imm_run:
  assumes "length (body st) < CODE_CAP" and "enc dst" and "enc lhs"
  shows "a64_run (emitted (addsub_imm OP_ADD_IMM dst lhs r) st) m
      = Some (wr_sp (wide dst) (rno dst) (rd_sp m (rno lhs) + imm_seen r) m)"
  using imm_field_value [of r] assms
  by (cases "r <s 0")
     (simp_all add: addsub_imm_word addsub_imm_decode addsub_wr imm_seen_def imm_mag_def addsub_def [of _ "rd_sp m (rno lhs)"])

lemma sub_imm_run:
  assumes "length (body st) < CODE_CAP" and "enc dst" and "enc lhs"
  shows "a64_run (emitted (addsub_imm OP_SUB_IMM dst lhs r) st) m
      = Some (wr_sp (wide dst) (rno dst) (rd_sp m (rno lhs) - imm_seen r) m)"
  using imm_field_value [of r] assms
  by (cases "r <s 0")
     (simp_all add: addsub_imm_word addsub_imm_decode addsub_wr imm_seen_def imm_mag_def addsub_def [of _ "rd_sp m (rno lhs)"])

section \<open>Comparisons\<close>

lemma sint_neg_of_small:
  fixes k :: "'a::len word"
  assumes "unat k < 2 ^ (LENGTH('a) - 1)"
  shows "sint (- k) = - sint k"
proof -
  define p :: int where "p = 2 ^ (LENGTH('a) - 1)"
  have pos: "0 \<le> uint k" "0 < p" by (simp_all add: p_def)
  have "int (unat k) < int (2 ^ (LENGTH('a) - 1))"
    using assms by (simp only: of_nat_less_iff)
  then have "uint k < p" by (simp add: p_def)
  then have r: "- p \<le> uint k" "uint k < p" "- p \<le> - uint k" "- uint k < p"
    using pos by linarith+
  then have k: "sint k = uint k"
    by (simp add: sint_uint signed_take_bit_int_eq_self_iff p_def)
  have "signed_take_bit (LENGTH('a) - 1) (- sint k) = - sint k"
    using k r by (simp add: signed_take_bit_int_eq_self_iff p_def)
  then show ?thesis by (simp add: sint_word_ariths(4))
qed

lemma unat_neg: "k \<noteq> 0 \<Longrightarrow> unat (- k) = 2 ^ LENGTH('a) - unat (k :: 'a::len word)"
  using unat_sub_if_size [of 0 k] by (simp add: word_size word_le_nat_alt unat_eq_0)

lemma add_flags_neg:
  fixes a k :: "'a::len word"
  assumes "k \<noteq> 0" and "unat k < 2 ^ (LENGTH('a) - 1)"
  shows "add_flags a k = sub_flags a (- k)"
proof -
  have "2 ^ LENGTH('a) \<le> unat a + unat k \<longleftrightarrow> - k \<le> a"
    using unsigned_less [of k] assms(1) by (auto simp: word_le_nat_alt unat_neg)
  moreover have "a + k = 0 \<longleftrightarrow> a = - k" by (simp add: eq_neg_iff_add_eq_0)
  moreover have "sint (- k) = - sint k" using assms(2) by (rule sint_neg_of_small)
  ultimately show ?thesis
    by (simp add: add_flags_def sub_flags_def)
qed


text \<open>
  C17. Adding or subtracting a non-zero immediate the encoding can hold writes exactly the sum
  or the difference, at the width of the destination, for either sign of the immediate.
\<close>

theorem emit_add_sub_exact:
  assumes "length (body st) < CODE_CAP" and "enc dst" and "enc lhs"
    and "r \<noteq> 0" and "imm_exact r"
  shows "a64_run (emitted (emit_add ts dst lhs r) st) m
      = Some (wr_sp (wide dst) (rno dst) (rd_sp m (rno lhs) + r) m)
    \<and> a64_run (emitted (emit_sub ts dst lhs r) st) m
      = Some (wr_sp (wide dst) (rno dst) (rd_sp m (rno lhs) - r) m)"
proof -
  have "imm_seen r = r" using assms(5) by (simp add: imm_seen_exact_iff)
  then show ?thesis
    using add_imm_run [OF assms(1-3), of r m] sub_imm_run [OF assms(1-3), of r m] assms(4)
    by (simp add: emit_add_def emit_sub_def emitted_def)
qed

lemma emit_add_sub_exact_witness:
  "a64_run (emitted (emit_add ex_ts (ex_reg RET 0 8) (ex_reg PARAM 1 8) (- 8192)) ex_st) ex_mach
      = Some (wr_sp True 0 (rd_sp ex_mach 1 - 8192) ex_mach)"
  using emit_add_sub_exact [of ex_st "ex_reg RET 0 8" "ex_reg PARAM 1 8" "- 8192" ex_ts ex_mach]
  by (simp add: imm_exact_def imm_mag_def word_sless_alt enc_def wide_def)

section \<open>The flags of a comparison with an immediate\<close>

lemma imm_window_bound: "unat (imm_window k) < 0x1000000"
proof -
  have "unat k div 0x1000 mod 0x1000 < (0x1000 :: nat)" by (rule mod_less_divisor) simp
  then show ?thesis unfolding unat_imm_window by (split if_split) linarith
qed

lemma ucast_uminus:
  fixes k :: "'a::len word"
  assumes "LENGTH('b) \<le> LENGTH('a)"
  shows "(ucast (- k) :: 'b::len word) = - ucast k"
  using assms
proof transfer
  fix k :: int
  assume "LENGTH('b) \<le> LENGTH('a)"
  then have m: "min LENGTH('b) LENGTH('a) = LENGTH('b)" by simp
  have "take_bit LENGTH('b) (- take_bit LENGTH('a) k)
      = take_bit LENGTH('b) (- take_bit LENGTH('b) (take_bit LENGTH('a) k))"
    by (rule take_bit_minus [symmetric])
  then show "take_bit LENGTH('b) (take_bit LENGTH('a) (- k)) = take_bit LENGTH('b) (- take_bit LENGTH('a) k)"
    by (simp only: take_bit_take_bit m take_bit_minus)
qed

lemma arith_flags_neg:
  assumes "k \<noteq> 0" and "unat k < 0x1000000"
  shows "arith_flags b False a k = arith_flags b True a (- k)"
proof -
  have u: "unat (ucast k :: u32) = unat k"
    using assms(2) by (simp add: unsigned_ucast_eq take_bit_nat_eq_self)
  then have nz: "(ucast k :: u32) \<noteq> 0"
    using assms(1) by (metis unat_0 word_unat_eq_iff)
  have "(ucast (- k) :: u32) = - ucast k" by (rule ucast_uminus) simp
  then show ?thesis
    using add_flags_neg [of k a] add_flags_neg [OF nz, of "ucast a"] assms u
    by (simp add: arith_flags_def)
qed

lemma arith_flags_narrow:
  "arith_flags b sub (take_bit (width b) x) y = arith_flags b sub x y"
  "arith_flags b sub x (take_bit (width b) y) = arith_flags b sub x y"
proof -
  have "(ucast (take_bit 32 v) :: u32) = ucast v" for v :: u64
    by (intro word_eq_by_bits) (simp add: bit_simps)
  then show "arith_flags b sub (take_bit (width b) x) y = arith_flags b sub x y"
    and "arith_flags b sub x (take_bit (width b) y) = arith_flags b sub x y"
    by (cases b; simp add: arith_flags_def; simp add: width_def)+
qed

lemma wr_zr_31 [simp]: "wr_zr b 31 v m = m"
  by (simp add: wr_zr_def)

lemma emit_cmp_word: "emit_cmp lhs r = addsub_imm OP_SUBS_IMM (zr_of (r_rsize lhs)) lhs r"
  by (rule ext) (simp add: emit_cmp_def)

text \<open>
  Comparing a register with an immediate the encoding can hold, of either sign, leaves
  exactly the flags of the subtraction at the width of the register, and no other register.
\<close>

lemma emit_cmp_flags:
  assumes "length (body st) < CODE_CAP" and "enc lhs" and "imm_exact r"
  shows "a64_run (emitted (emit_cmp lhs r) st) m
      = Some (m\<lparr>nzcv := arith_flags (4 < r_rsize lhs) True (rd_sp m (rno lhs)) r\<rparr>)"
proof -
  have r: "imm_seen r = r" using assms(3) by (simp add: imm_seen_exact_iff)
  note d = addsub_imm_decode(3,4) [OF enc_zr_of(1) assms(2), unfolded enc_zr_of(2) unsigned_numeral]
  have "a64_run (emitted (emit_cmp lhs r) st) m
      = Some (m\<lparr>nzcv := arith_flags (4 < r_rsize lhs) True (rd_sp m (rno lhs)) (imm_seen r)\<rparr>)"
  proof (cases "r <s 0")
    case True
    then have "imm_window (imm_mag r) \<noteq> 0" using r by (auto simp: imm_seen_def imm_mag_def)
    then show ?thesis
      using imm_field_value [of r] assms True imm_window_bound [of "imm_mag r"]
      by (simp add: emit_cmp_word addsub_imm_word d arith_flags_narrow
          arith_flags_neg imm_seen_def imm_mag_def)
  next
    case False
    then show ?thesis
      using imm_field_value [of r] assms
      by (simp add: emit_cmp_word addsub_imm_word d arith_flags_narrow
          imm_seen_def imm_mag_def)
  qed
  then show ?thesis by (simp add: r)
qed

lemma emit_cmp_flags_example:
  "a64_run (emitted (emit_cmp (ex_reg PARAM 1 4) (- 7)) ex_st) ex_mach
      = Some (ex_mach\<lparr>nzcv := arith_flags False True 1 (- 7)\<rparr>)"
  using emit_cmp_flags [of ex_st "ex_reg PARAM 1 4" "- 7" ex_mach]
  by (simp add: imm_exact_def imm_mag_def word_sless_alt enc_def rd_sp_def ex_mach_def)

section \<open>Registers with registers\<close>

lemma addsub_reg_run:
  assumes "length (body st) < CODE_CAP" and "enc dst" and "enc lhs" and "enc rhs"
  shows "a64_run (emitted (addsub_reg OP_ADD_REG dst lhs rhs) st) m
      = Some (wr_zr (wide dst) (rno dst) (rd_zr m (rno lhs) + rd_zr m (rno rhs)) m)"
    and "a64_run (emitted (addsub_reg OP_SUB_REG dst lhs rhs) st) m
      = Some (wr_zr (wide dst) (rno dst) (rd_zr m (rno lhs) - rd_zr m (rno rhs)) m)"
    and "a64_run (emitted (addsub_reg OP_SUBS_REG dst lhs rhs) st) m
      = Some ((wr_zr (wide dst) (rno dst) (rd_zr m (rno lhs) - rd_zr m (rno rhs)) m)
          \<lparr>nzcv := arith_flags (wide dst) True (rd_zr m (rno lhs)) (rd_zr m (rno rhs))\<rparr>)"
proof -
  have w: "addsub_reg base dst lhs rhs = put_word (push_bit 31 (sf_of (wide dst)) OR base
      OR push_bit 16 (reg_no rhs) OR push_bit 5 (reg_no lhs) OR reg_no dst)" for base
    by (rule ext) (simp add: addsub_reg_def is64_wide)
  note d = decode_addsub_reg [OF assms(2-4) [unfolded enc_def] small_sf_of(1) [of "wide dst"]]
  show "a64_run (emitted (addsub_reg OP_ADD_REG dst lhs rhs) st) m
      = Some (wr_zr (wide dst) (rno dst) (rd_zr m (rno lhs) + rd_zr m (rno rhs)) m)"
    using assms(1) by (auto simp: w d small_sf_of addsub_def take_bit_word_add intro!: wr_zr_cong)
  show "a64_run (emitted (addsub_reg OP_SUB_REG dst lhs rhs) st) m
      = Some (wr_zr (wide dst) (rno dst) (rd_zr m (rno lhs) - rd_zr m (rno rhs)) m)"
    using assms(1) by (auto simp: w d small_sf_of addsub_def take_bit_word_add intro!: wr_zr_cong)
  show "a64_run (emitted (addsub_reg OP_SUBS_REG dst lhs rhs) st) m
      = Some ((wr_zr (wide dst) (rno dst) (rd_zr m (rno lhs) - rd_zr m (rno rhs)) m)
          \<lparr>nzcv := arith_flags (wide dst) True (rd_zr m (rno lhs)) (rd_zr m (rno rhs))\<rparr>)"
    using assms(1)
    by (auto simp: w d small_sf_of addsub_def take_bit_word_add arith_flags_narrow intro!: arg_cong [of _ _ "nzcv_update _"] wr_zr_cong)
qed

end
