(* ===== verification/A64_Shift.thy ===== *)
theory A64_Shift
  imports A64_Arith
begin

text \<open>
  Shifts by an immediate, bit fields, condition results and the widening move of the AArch64
  back end: the exact value the emitted word leaves in the destination.
\<close>

section \<open>Fields that hold a bit count\<close>

lemma of_nat_and_mask:
  "(of_nat k :: 'a::len word) AND mask n = of_nat (k mod 2 ^ n)"
proof -
  have "take_bit n (of_nat k :: 'a word) = of_nat (take_bit n k)"
    by (simp add: take_bit_of_nat)
  then show ?thesis by (simp add: and_mask_take_bit take_bit_eq_mod)
qed

lemma ucast_of_nat_unat: "(ucast (r :: 'a::len word) :: 'b::len word) = of_nat (unat r)"
  by simp

lemma shift_field:
  fixes r :: i64
  assumes "wd = (2 :: u32) ^ n" and "n = 5 \<or> n = 6" and "s = unat r mod 2 ^ n"
  shows "ucast r AND (wd - 1) = of_nat s"
    and "(wd - of_nat s) AND (wd - 1) = of_nat ((2 ^ n - s) mod 2 ^ n)"
    and "wd - 1 - of_nat s = of_nat (2 ^ n - 1 - s)"
proof -
  have m: "wd - 1 = mask n" by (simp add: assms(1) mask_eq_exp_minus_1)
  have s: "s < 2 ^ n" by (simp add: assms(3))
  have "(ucast r :: u32) = of_nat (unat r)" by simp
  then show "ucast r AND (wd - 1) = of_nat s"
    by (simp only: m of_nat_and_mask assms(3))
  have w: "wd = of_nat (2 ^ n)" by (simp add: assms(1))
  have "wd - of_nat s = of_nat (2 ^ n - s)" using s by (simp add: w of_nat_diff)
  then show "(wd - of_nat s) AND (wd - 1) = of_nat ((2 ^ n - s) mod 2 ^ n)"
    by (simp only: m of_nat_and_mask)
  have "wd - 1 - of_nat s = of_nat (2 ^ n - 1 - s)"
    using s by (simp add: w of_nat_diff)
  then show "wd - 1 - of_nat s = of_nat (2 ^ n - 1 - s)" .
qed

lemma of_nat_field:
  assumes "k < 64"
  shows "unat (of_nat k :: u32) = k" and "small 6 (of_nat k)"
proof -
  show "unat (of_nat k :: u32) = k" using assms by (simp add: unsigned_of_nat take_bit_nat_eq_self)
  then show "small 6 (of_nat k)" using assms by (simp add: small_def)
qed

definition wd_bits :: "bool \<Rightarrow> nat" where
  "wd_bits b = (if b then 6 else 5)"

lemma width_pow: "width b = 2 ^ wd_bits b"
  by (simp add: width_def wd_bits_def)

lemma bitfield_run:
  assumes "length (body st) < CODE_CAP" and "enc dst" and "enc src" and "r < 64" and "s < 64"
  shows "a64_run (emitted (put_word ((if wide dst then OP_UBFM64 else OP_UBFM32)
        OR push_bit 16 (of_nat r) OR push_bit 10 (of_nat s) OR push_bit 5 (reg_no src) OR reg_no dst)) st) m
      = a64_exec (Bitfield 2 (wide dst) (wide dst) r s (rno src) (rno dst)) m"
    and "a64_run (emitted (put_word ((if wide dst then OP_BFM64 else OP_BFM32)
        OR push_bit 16 (of_nat r) OR push_bit 10 (of_nat s) OR push_bit 5 (reg_no src) OR reg_no dst)) st) m
      = a64_exec (Bitfield 1 (wide dst) (wide dst) r s (rno src) (rno dst)) m"
  using decode_bitfield [OF assms(2,3) [unfolded enc_def] of_nat_field(2) of_nat_field(2), of r s] assms
    of_nat_field(1) [of r] of_nat_field(1) [of s]
  by (simp_all del: a64_exec.simps split: option.split)

lemma bfm_src_lsl:
  assumes "s < width b"
  shows "bfm_src b ((width b - s) mod width b) (width b - 1 - s) (take_bit (width b) v)
    = take_bit (width b) (push_bit s v)"
proof (cases "s = 0")
  case True
  then show ?thesis using assms
    by (intro word_eq_by_bits) (auto simp: bfm_src_def bit_simps)
next
  case False
  then have m: "(width b - s) mod width b = width b - s" using assms by simp
  have w: "width b \<le> 64" by (simp add: width_def)
  show ?thesis unfolding m using False assms w
    by (intro word_eq_by_bits) (auto simp: bfm_src_def bit_simps)
qed

lemma bfm_src_lsr:
  assumes "s < width b"
  shows "bfm_src b s (width b - 1 - 0) (take_bit (width b) v) = drop_bit s (take_bit (width b) v)"
  using assms by (intro word_eq_by_bits) (auto simp: bfm_src_def bit_simps)

lemma shift_run:
  assumes "length (body st) < CODE_CAP" and "enc dst" and "enc src"
    and "s = unat r mod width (wide dst)"
  shows "a64_run (emitted (emit_lsl dst src r) st) m
      = Some (wr_zr (wide dst) (rno dst) (push_bit s (rd_zr m (rno src))) m)
    \<and> a64_run (emitted (emit_lsr_imm dst src r) st) m
      = Some (wr_zr (wide dst) (rno dst)
          (drop_bit s (take_bit (width (wide dst)) (rd_zr m (rno src)))) m)"
proof -
  define W where "W = width (wide dst)"
  have W: "W = 2 ^ wd_bits (wide dst)" "s < W" "W \<le> 64" "0 < W"
    using assms(4) by (simp_all add: W_def width_pow [symmetric]) (simp_all add: width_def)
  have sf: "(if is64 dst \<noteq> 0 then 64 else 32) = (2 :: u32) ^ wd_bits (wide dst)"
    by (simp add: is64_nz wd_bits_def)
  have b: "wd_bits (wide dst) = 5 \<or> wd_bits (wide dst) = 6" by (simp add: wd_bits_def)
  note f = shift_field [OF sf b assms(4) [unfolded width_pow], folded W(1)]
  have l: "emit_lsl dst src r = put_word ((if wide dst then OP_UBFM64 else OP_UBFM32)
        OR push_bit 16 (of_nat ((W - s) mod W)) OR push_bit 10 (of_nat (W - 1 - s))
        OR push_bit 5 (reg_no src) OR reg_no dst)"
    by (rule ext) (simp only: emit_lsl_def Let_def f is64_nz [symmetric])
  have w1: "(if is64 dst \<noteq> 0 then 64 else 32 :: u32) - 1 = of_nat (W - 1 - 0)"
    by (simp add: is64_nz W_def width_def)
  have k: "emit_lsr_imm dst src r = put_word ((if wide dst then OP_UBFM64 else OP_UBFM32)
        OR push_bit 16 (of_nat s) OR push_bit 10 (of_nat (W - 1 - 0))
        OR push_bit 5 (reg_no src) OR reg_no dst)"
    unfolding emit_lsr_imm_def Let_def f(1) fun_eq_iff
    unfolding w1 unfolding is64_nz by blast
  have "(W - s) mod W < 64" "W - 1 - s < 64" "s < 64" "W - 1 - 0 < 64"
    using W less_le_trans [OF mod_less_divisor [OF W(4)] W(3)] by auto
  note run = bitfield_run(1) [OF assms(1-3) this(1,2), of m, folded l]
    bitfield_run(1) [OF assms(1-3) this(3,4), of m, folded k]
  then show ?thesis
    using W(2-4) mod_less_divisor [OF W(4), of "W - s"] bfm_src_lsl [OF W(2) [unfolded W_def]] bfm_src_lsr [OF W(2) [unfolded W_def]]
    by (simp add: W_def [symmetric] wr_zr_def not_le Let_def)
qed

text \<open>
  A left shift by an immediate writes the operand shifted left by the immediate modulo the
  register width, and a right shift writes the operand of that width shifted right.
\<close>

lemma emit_shift_value:
  assumes "length (body st) < CODE_CAP" and "enc dst" and "enc src"
    and "s = unat r mod width (wide dst)"
  shows "a64_run (emitted (emit_lsl dst src r) st) m
      = Some (wr_zr (wide dst) (rno dst) (push_bit s (rd_zr m (rno src))) m)
    \<and> a64_run (emitted (emit_lsr_imm dst src r) st) m
      = Some (wr_zr (wide dst) (rno dst)
          (drop_bit s (take_bit (width (wide dst)) (rd_zr m (rno src)))) m)"
  using assms by (rule shift_run)

lemma emit_shift_value_example:
  "a64_run (emitted (emit_lsl (ex_reg RET 0 4) (ex_reg PARAM 1 4) 35) ex_st) ex_mach
      = Some (wr_zr False 0 (push_bit 3 (rd_zr ex_mach 1)) ex_mach)"
  using emit_shift_value [of ex_st "ex_reg RET 0 4" "ex_reg PARAM 1 4" 3 35 ex_mach]
  by (simp add: enc_def wide_def width_def)

section \<open>Condition results\<close>

lemma cond_aarch64_nth: "cond_aarch64 ! cond_no c = of_nat (cond_no c)"
  by (cases c) (simp_all add: cond_aarch64_def)

lemma cond_inverse:
  assumes "cond_no c < 14"
  shows "cond_holds (unat (cond_aarch64 ! cond_no c XOR 1)) f \<longleftrightarrow> \<not> cond_holds (cond_no c) f"
  using assms by (cases c; cases f) (simp_all add: cond_aarch64_def)

lemma small_cond: "small 4 (cond_aarch64 ! cond_no c XOR 1)"
  by (cases c) (simp_all add: cond_aarch64_def small_def)

lemma cond_set_run:
  assumes "length (body st) < CODE_CAP" and "enc dst" and "cond_no c < 14"
  shows "a64_run (emitted (emit_cond_set dst c) st) m
      = Some (wr_zr False (rno dst) (if cond_holds (cond_no c) (nzcv m) then 1 else 0) m)"
proof -
  have w: "emit_cond_set dst c
      = put_word (OP_CSINC OR push_bit 12 (cond_aarch64 ! cond_no c XOR 1) OR reg_no dst)"
    by (rule ext) (simp add: emit_cond_set_def Let_def)
  show ?thesis
    using assms decode_misc(1) [OF assms(2) [unfolded enc_def] small_cond small_const(1) small_const(1), of c]
    by (simp add: w cond_inverse rd_zr_def)
qed

text \<open>
  After any flag-setting instruction, materialising a condition writes 1 when the condition
  holds of the flags and 0 when it does not, for each of the fourteen real conditions.
\<close>

lemma emit_cond_set_value:
  assumes "length (body st) < CODE_CAP" and "enc dst" and "cond_no c < 14"
  shows "a64_run (emitted (emit_cond_set dst c) st) m
      = Some (wr_zr False (rno dst) (if cond_holds (cond_no c) (nzcv m) then 1 else 0) m)"
  using assms by (rule cond_set_run)

lemma emit_cond_set_value_example:
  "a64_run (emitted (emit_cond_set (ex_reg RET 0 4) COND_LO) ex_st) ex_mach
      = Some (wr_zr False 0 1 ex_mach)"
  using emit_cond_set_value [of ex_st "ex_reg RET 0 4" COND_LO ex_mach]
  by (simp add: enc_def ex_mach_def)

section \<open>The widening move\<close>

definition widened :: "type_t \<Rightarrow> u64 \<Rightarrow> u64" where
  "widened t v = (if ty_sign t then signed_take_bit (8 * unat (ty_size t) - 1) v
                  else take_bit (8 * unat (ty_size t)) v)"

lemma wide_dsize:
  "wide r \<longleftrightarrow> (4 :: u32) < (if dtype_tryget_addr (r_dtype r) \<noteq> 0 then 8 else ucast (r_rsize r))"
proof -
  have "(4 :: u32) < ucast (n :: u8) \<longleftrightarrow> 4 < n" for n
    by (simp add: word_less_nat_alt unsigned_ucast_eq take_bit_nat_eq_self
        order.strict_trans [OF unsigned_less])
  then show ?thesis by (simp add: wide_def is64_def)
qed

lemma emit_mov_reg_cases:
  assumes "\<not> reg_eq dst src"
  shows "emit_mov_reg ts dst src = (case base_type ts (r_dtype src) of
      None \<Rightarrow> put_word (push_bit 31 (sf_of (wide dst)) OR OP_MOV_REG OR push_bit 16 (reg_no src) OR reg_no dst)
    | Some t \<Rightarrow> if wide dst \<and> r_rsize src \<le> 4 then
        (if ty_sign t then put_word (OP_SBFM64 OR push_bit 10 (ucast (ty_size t * 8 - 1))
           OR push_bit 5 (reg_no src) OR reg_no dst)
         else if ty_size t < 4 then put_word (OP_AND_IMM64 OR push_bit 10 (ucast (ty_size t * 8) - 1)
           OR push_bit 5 (reg_no src) OR reg_no dst)
         else put_word (OP_ORR_REG OR push_bit 16 (reg_no src) OR 0x3e0 OR reg_no dst))
      else put_word (push_bit 31 (sf_of (wide dst)) OR OP_MOV_REG OR push_bit 16 (reg_no src) OR reg_no dst))"
  using assms is64_nz [of dst]
  unfolding emit_mov_reg_def emit_and_lowbits_def Let_def wide_dsize [symmetric] fun_eq_iff
  by (simp add: sf_of_def split: option.split)

lemma ORR_nat: "rd_zr m 31 OR v = v"
  by (simp add: rd_zr_def)

lemma widen_fields:
  assumes "ty_size t = 1 \<or> ty_size t = 2 \<or> ty_size t = 4"
  shows "unat (ucast (ty_size t * 8 - 1) :: u32) = 8 * unat (ty_size t) - 1"
    and "small 6 (ucast (ty_size t * 8 - 1))"
    and "ucast (ty_size t * 8) - 1 = (ucast (ty_size t * 8 - 1) :: u32)"
  using assms by (auto simp: small_def)

lemma sext_of_src:
  "k < 64 \<Longrightarrow> signed_take_bit k (bfm_src True 0 k (take_bit 64 v)) = signed_take_bit k v"
  by (intro word_eq_by_bits) (auto simp: bfm_src_def bit_simps min_def)

text \<open>
  C22. Moving a register of at most four bytes into an eight-byte one sign- or zero-extends it
  according to the size and signedness of the source type; every other move copies the register
  at the width of the destination.
\<close>

theorem emit_mov_reg_value:
  assumes "length (body st) < CODE_CAP" and "enc dst" and "enc src" and "rno dst \<noteq> 31"
    and "\<not> reg_eq dst src" and "base_type ts (r_dtype src) = Some t"
    and "ty_size t = 1 \<or> ty_size t = 2 \<or> ty_size t = 4"
  shows "a64_run (emitted (emit_mov_reg ts dst src) st) m
    = Some (if wide dst \<and> r_rsize src \<le> 4
            then wr_zr True (rno dst) (widened t (rd_zr m (rno src))) m
            else wr_zr (wide dst) (rno dst) (rd_zr m (rno src)) m)"
proof -
  note f = widen_fields [OF assms(7)]
  note d = decode_bitfield(5) [OF assms(2,3) [unfolded enc_def] small_const(1) f(2)]
    decode_and(1) [OF assms(2,3) [unfolded enc_def] f(2)]
    decode_orr(2) [OF assms(2) [unfolded enc_def] small_const(1) assms(3) [unfolded enc_def] small_sf_of(1)]
    decode_orr(3) [OF assms(2) [unfolded enc_def] small_const(1) assms(3) [unfolded enc_def] small_const(1)]
  have 1: "8 * unat (ty_size t) - 1 < 64" "0 < unat (ty_size t)" "\<not> ty_size t < 4 \<Longrightarrow> ty_size t = 4"
    "ty_size t < 4 \<Longrightarrow> 8 * unat (ty_size t) - 1 < 63"
    using assms(7) by auto
  show ?thesis
    unfolding emit_mov_reg_cases [OF assms(5)] assms(6)
    using assms(1,4) d f(1) 1
    by (auto simp: f(3) widened_def sext_of_src width_def rd_zr_def [of _ 31] and_mask_take_bit wr_sp_def
        small_sf_of wr_zr_def)
qed

lemma emit_mov_reg_value_witness:
  "a64_run (emitted (emit_mov_reg ex_ts (ex_reg RET 0 8) (ex_typed 1 (ex_reg PARAM 1 4))) ex_st) ex_mach
      = Some (wr_zr True 0 (signed_take_bit 31 1) ex_mach)"
  using emit_mov_reg_value [of ex_st "ex_reg RET 0 8" "ex_typed 1 (ex_reg PARAM 1 4)" ex_ts "ex_ts 1" ex_mach]
  by (simp add: enc_def wide_def widened_def reg_eq_def ex_mach_def rd_zr_def)

section \<open>Operands of different sizes\<close>

lemma extend_reg_widened:
  assumes "base_type ts (r_dtype r) = Some t"
    and "ty_size t = 1 \<or> ty_size t = 2 \<or> ty_size t = 4 \<or> ty_size t = 8"
  shows "extend_reg (ext_option ts r) v = widened t v" and "small 3 (ext_option ts r)"
  using assms by (auto simp: extend_reg_def ext_option_def widened_def Let_def small_def word_le_nat_alt)

lemma addsub_ext_run:
  assumes "length (body st) < CODE_CAP" and "enc dst" and "enc w" and "enc n" and "rno dst \<noteq> 31"
    and "base_type ts (r_dtype n) = Some t"
    and "ty_size t = 1 \<or> ty_size t = 2 \<or> ty_size t = 4 \<or> ty_size t = 8"
  shows "a64_run (emitted (addsub_ext ts OP_ADD_REG dst w n 0) st) m
      = Some (wr_zr (wide w) (rno dst) (rd_sp m (rno w) + widened t (rd_zr m (rno n))) m)"
    and "a64_run (emitted (addsub_ext ts OP_SUB_REG dst w n 0) st) m
      = Some (wr_zr (wide w) (rno dst) (rd_sp m (rno w) - widened t (rd_zr m (rno n))) m)"
proof -
  note x = extend_reg_widened [OF assms(6,7)]
  have word: "addsub_ext ts op dst w n 0 = put_word ((op OR ADDSUB_EXT_BIT OR push_bit 31 (sf_of (wide w)))
      OR push_bit 16 (reg_no n) OR push_bit 13 (ext_option ts n) OR push_bit 10 0
      OR push_bit 5 (reg_no w) OR reg_no dst)" for op
    by (rule ext) (simp only: addsub_ext_def Let_def is64_wide)
  note d = decode_addsub_ext(1,2) [OF assms(2-4) [unfolded enc_def] small_sf_of(1) x(2) small_const(1)]
  show "a64_run (emitted (addsub_ext ts OP_ADD_REG dst w n 0) st) m
      = Some (wr_zr (wide w) (rno dst) (rd_sp m (rno w) + widened t (rd_zr m (rno n))) m)"
    and "a64_run (emitted (addsub_ext ts OP_SUB_REG dst w n 0) st) m
      = Some (wr_zr (wide w) (rno dst) (rd_sp m (rno w) - widened t (rd_zr m (rno n))) m)"
    unfolding word using assms(1,5) d
    by (auto simp: x(1) small_sf_of addsub_def take_bit_word_add wr_sp_def intro!: wr_zr_cong
        simp del: push_bit_of_0)
qed

text \<open>
  Adding two registers of different sizes extends the narrower one by its own type and adds
  at the width of the wider one, whichever side it is on.
\<close>

lemma emit_add_reg_mixed:
  assumes "length (body st) < CODE_CAP" and "enc dst" and "enc lhs" and "enc rhs"
    and "rno dst \<noteq> 31" and "rno lhs \<noteq> 31" and "rno rhs \<noteq> 31"
    and "base_type ts (r_dtype lhs) = Some t" and "base_type ts (r_dtype rhs) = Some u"
    and "ty_size t \<in> {1, 2, 4, 8}" and "ty_size u \<in> {1, 2, 4, 8}"
  shows "a64_run (emitted (emit_add_reg ts dst lhs rhs) st) m =
    Some (if r_rsize rhs < r_rsize lhs
          then wr_zr (wide lhs) (rno dst) (xr m (rno lhs) + widened u (xr m (rno rhs))) m
          else if r_rsize lhs < r_rsize rhs
          then wr_zr (wide rhs) (rno dst) (widened t (xr m (rno lhs)) + xr m (rno rhs)) m
          else wr_zr (wide dst) (rno dst) (xr m (rno lhs) + xr m (rno rhs)) m)"
proof -
  have e: "emit_add_reg ts dst lhs rhs =
      (if r_rsize rhs < r_rsize lhs then addsub_ext ts OP_ADD_REG dst lhs rhs 0
       else if r_rsize lhs < r_rsize rhs then addsub_ext ts OP_ADD_REG dst rhs lhs 0
       else addsub_reg OP_ADD_REG dst lhs rhs)"
    by (rule ext) (auto simp: emit_add_reg_def Let_def)
  have l: "a64_run (emitted (addsub_ext ts OP_ADD_REG dst lhs rhs 0) st) m
      = Some (wr_zr (wide lhs) (rno dst) (rd_sp m (rno lhs) + widened u (rd_zr m (rno rhs))) m)"
    using assms by (intro addsub_ext_run(1)) auto
  have r: "a64_run (emitted (addsub_ext ts OP_ADD_REG dst rhs lhs 0) st) m
      = Some (wr_zr (wide rhs) (rno dst) (rd_sp m (rno rhs) + widened t (rd_zr m (rno lhs))) m)"
    using assms by (intro addsub_ext_run(1)) auto
  have "rd_sp m k = xr m k" "rd_zr m k = xr m k" if "k \<noteq> 31" for k
    using that by (simp_all add: rd_sp_def rd_zr_def)
  then show ?thesis
    using l r addsub_reg_run(1) [OF assms(1-4), of m] assms(6,7) by (simp add: e add.commute)
qed

lemma emit_add_reg_mixed_example:
  "a64_run (emitted (emit_add_reg ex_ts (ex_reg RET 0 8) (ex_typed 0 (ex_reg PARAM 1 1))
        (ex_typed 1 (ex_reg NREG 2 8))) ex_st) ex_mach
      = Some (wr_zr True 0 (take_bit 8 1 + 21) ex_mach)"
  using emit_add_reg_mixed [of ex_st "ex_reg RET 0 8" "ex_typed 0 (ex_reg PARAM 1 1)"
      "ex_typed 1 (ex_reg NREG 2 8)" ex_ts "ex_ts 0" "ex_ts 1" ex_mach]
  by (simp add: enc_def wide_def widened_def ex_mach_def)

end
