(* ===== verification/A64_Mem.thy ===== *)
theory A64_Mem
  imports A64_Shift
begin

text \<open>
  Loads and stores of the AArch64 back end: which address an emitted access touches for every
  requested offset, when that is the requested one, and the round trip of a value through memory.
\<close>

section \<open>The size of an access\<close>

definition size_log :: "reg \<Rightarrow> u32" where
  "size_log r = (let sz = ldst_size r in
     if 8 \<le> sz then 3 else if 4 \<le> sz then 2 else if 2 \<le> sz then 1 else 0)"

lemma size_log_cases: "size_log r = 0 \<or> size_log r = 1 \<or> size_log r = 2 \<or> size_log r = 3"
  by (simp add: size_log_def Let_def)

lemma size_log_small [fields]: "small 2 (size_log r)" "unat (size_log r) \<le> 3"
  using size_log_cases [of r] by (auto simp: small_def)

lemma ldst_size_bits_ok: "ldst_size r \<noteq> 0 \<Longrightarrow> ldst_size_bits r st = (size_log r, st)"
  by (simp add: ldst_size_bits_def size_log_def Let_def)

definition access_bytes :: "reg \<Rightarrow> nat" where
  "access_bytes r = 2 ^ unat (size_log r)"

definition load_kind :: "tstore \<Rightarrow> bool \<Rightarrow> reg \<Rightarrow> u32" where
  "load_kind ts is_load r =
    (if \<not> is_load then 0
     else if (case base_type ts (r_dtype r) of None \<Rightarrow> False | Some t \<Rightarrow> ty_sign t) \<and> size_log r < 3
     then 2 else 1)"

lemma load_kind_opc: "ldst_load_opc ts is_load r (size_log r) = push_bit 22 (load_kind ts is_load r)"
  by (simp add: ldst_load_opc_def load_kind_def LDST_LOAD_def LDST_LOAD_SIGNED_def)

lemma small_load_kind: "small 2 (load_kind ts is_load r)"
  by (simp add: load_kind_def small_def)

section \<open>The address of an access\<close>

definition scaled_ok :: "reg \<Rightarrow> i64 \<Rightarrow> bool" where
  "scaled_ok r off \<longleftrightarrow> 0 \<le>s off \<and> off mod push_bit (unat (size_log r)) 1 = 0
     \<and> off div push_bit (unat (size_log r)) 1 \<le> 0xfff"

definition offset_seen :: "reg \<Rightarrow> i64 \<Rightarrow> u64" where
  "offset_seen r off = (if scaled_ok r off then off else signed_take_bit 8 off)"

definition offset_reach :: "reg \<Rightarrow> i64 \<Rightarrow> bool" where
  "offset_reach r off \<longleftrightarrow> scaled_ok r off \<or> (- 256 \<le> sint off \<and> sint off \<le> 255)"

lemma signed_take_bit_word_iff:
  "signed_take_bit 8 (w :: u64) = w \<longleftrightarrow> - 256 \<le> sint w \<and> sint w \<le> 255"
proof -
  have "sint (signed_take_bit 8 w) = signed_take_bit 8 (sint w)"
    by (rule bit_eqI) (auto simp: bit_simps min_def)
  then have "signed_take_bit 8 w = w \<longleftrightarrow> signed_take_bit 8 (sint w) = sint w"
    by (metis signed_word_eqI)
  then show ?thesis by (auto simp: signed_take_bit_int_eq_self_iff)
qed

lemma offset_seen_exact: "offset_seen r off = off \<longleftrightarrow> offset_reach r off"
  by (simp add: offset_seen_def offset_reach_def signed_take_bit_word_iff)

lemma and_511: "(x :: u64) AND 0x1ff = take_bit 9 x"
proof -
  have "(0x1ff :: u64) = mask 9" by (simp add: mask_eq_exp_minus_1)
  then show ?thesis by (simp only: and_mask_take_bit)
qed

lemma imm9_sext: "sext 9 (ucast (off AND 0x1ff :: u64)) = signed_take_bit 8 off"
  unfolding and_511 by (intro word_eq_by_bits) (auto simp: sext_def bit_simps min_def)

lemma imm9_small: "small 9 (ucast (off AND 0x1ff :: u64))"
  unfolding and_511 by (auto simp: small_iff_bits bit_simps)

lemma scaled_imm:
  assumes "scaled_ok r off"
  shows "push_bit (unat (size_log r)) (ucast (ucast (off div push_bit (unat (size_log r)) 1) :: u32)) = off"
    and "small 12 (ucast (off div push_bit (unat (size_log r)) 1))"
proof -
  define p :: u64 where "p = push_bit (unat (size_log r)) 1"
  have "unat (off div p) \<le> 0xfff"
    using assms by (simp add: scaled_ok_def p_def word_le_nat_alt)
  then have "take_bit 32 (off div p) = off div p" by (intro take_bit_word_small) simp
  moreover have "ucast (ucast x :: u32) = take_bit 32 x" for x :: u64
    by (intro word_eq_by_bits) (auto simp: bit_simps)
  moreover have "push_bit (unat (size_log r)) x = x * p" for x :: u64
    by (simp add: push_bit_eq_mult p_def)
  moreover have "off div p * p = off"
    using assms div_mult_mod_eq [of off p] by (simp add: scaled_ok_def p_def)
  ultimately show "push_bit (unat (size_log r)) (ucast (ucast (off div push_bit (unat (size_log r)) 1) :: u32)) = off"
    unfolding p_def [symmetric] by simp
  show "small 12 (ucast (off div push_bit (unat (size_log r)) 1))"
    using \<open>unat (off div p) \<le> 0xfff\<close>
    unfolding p_def [symmetric] by (simp add: small_def unsigned_ucast_eq take_bit_nat_eq_self)
qed

lemma mem_op_word:
  assumes "ldst_size value \<noteq> 0"
  shows "mem_op ts is_load value base off = put_word
    (if scaled_ok value off
     then push_bit 30 (size_log value) OR OP_LDST_USCALED OR push_bit 22 (load_kind ts is_load value)
       OR push_bit 10 (ucast (off div push_bit (unat (size_log value)) 1)) OR push_bit 5 (reg_no base) OR reg_no value
     else push_bit 30 (size_log value) OR OP_LDST_UNSCALED OR push_bit 22 (load_kind ts is_load value)
       OR push_bit 12 (ucast (off AND 0x1ff)) OR push_bit 5 (reg_no base) OR reg_no value)"
  by (rule ext) (simp add: mem_op_def ldst_size_bits_ok [OF assms] scaled_ok_def load_kind_opc Let_def)

lemma mem_op_run:
  assumes "length (body st) < CODE_CAP" and "enc value" and "enc base" and "ldst_size value \<noteq> 0"
  shows "a64_run (emitted (mem_op ts is_load value base off) st) m
      = ldst (unat (size_log value)) (load_kind ts is_load value) (rno value)
          (rd_sp m (rno base) + offset_seen value off) m
    \<and> (offset_seen value off = off \<longleftrightarrow> offset_reach value off)"
proof -
  note d = decode_ldst_imm [OF assms(2,3) [unfolded enc_def] size_log_small(1) _ _ small_load_kind]
  have o: "mode_addr Offset b x = b + x" "mode_back Offset n b x = id" for b n x
    by (simp_all add: mode_addr_def mode_back_def fun_eq_iff)
  show ?thesis
  proof (cases "scaled_ok value off")
    case True
    then show ?thesis
      using assms(1) d(1) [OF scaled_imm(2) [OF True] small_const(1)] scaled_imm(1) [OF True]
      by (simp add: mem_op_word [OF assms(4)] offset_seen_exact)
         (simp add: offset_seen_def split: option.split)
  next
    case False
    then show ?thesis
      using assms(1) d(2) [OF small_const(1) imm9_small]
      by (simp add: mem_op_word [OF assms(4)] offset_seen_exact)
         (simp add: offset_seen_def imm9_sext o option.map_id split: option.split)
  qed
qed

text \<open>
  C9. An emitted load or store of a register touches memory at the base plus the requested
  offset whenever the offset fits the encoding (a scaled twelve-bit or a signed nine-bit one),
  and only then: for every other offset the address is the base plus the low nine bits of it.
\<close>

theorem mem_op_address:
  assumes "length (body st) < CODE_CAP" and "enc value" and "enc base" and "ldst_size value \<noteq> 0"
  shows "a64_run (emitted (mem_op ts is_load value base off) st) m
      = ldst (unat (size_log value)) (load_kind ts is_load value) (rno value)
          (rd_sp m (rno base) + offset_seen value off) m
    \<and> (offset_seen value off = off \<longleftrightarrow> offset_reach value off)"
  using assms by (rule mem_op_run)

lemma mem_op_address_witness:
  "a64_run (emitted (mem_op ex_ts False (ex_reg PARAM 1 8) (ex_reg NREG 2 8) (- 264)) ex_st) ex_mach
    = ldst 3 0 1 (rd_sp ex_mach 21 + 248) ex_mach"
proof -
  have "size_log (ex_reg PARAM 1 8) = 3" "ldst_size (ex_reg PARAM 1 8) \<noteq> 0"
    by (simp_all add: size_log_def ldst_size_def dtype0_def dtype_tryget_addr_def)
  then show ?thesis
    using mem_op_address [of ex_st "ex_reg PARAM 1 8" "ex_reg NREG 2 8" ex_ts False "- 264" ex_mach]
    by (simp add: enc_def load_kind_def offset_seen_def scaled_ok_def word_sle_eq)
qed

section \<open>Through memory and back\<close>

definition reloaded :: "tstore \<Rightarrow> reg \<Rightarrow> u64 \<Rightarrow> u64" where
  "reloaded ts r v = (if load_kind ts True r = 2 then signed_take_bit (8 * access_bytes r - 1) v
                      else take_bit (8 * access_bytes r) v)"

lemma load_kind_values: "load_kind ts True r = 1 \<or> load_kind ts True r = 2"
  "load_kind ts True r = 2 \<Longrightarrow> unat (size_log r) < 3" "load_kind ts False r = 0"
  using size_log_cases [of r] by (auto simp: load_kind_def word_less_nat_alt split: if_splits)

lemma access_bytes_le: "access_bytes r \<le> 8" "0 < access_bytes r"
  using size_log_cases [of r] by (auto simp: access_bytes_def)

lemma signed_take_take: "0 < n \<Longrightarrow> signed_take_bit (n - 1) (take_bit n v) = signed_take_bit (n - 1) (v :: u64)"
  by (intro word_eq_by_bits) (auto simp: bit_simps min_def)

lemma wr_zr_True: "n \<noteq> 31 \<Longrightarrow> wr_zr True n v m = m\<lparr>xr := (xr m)(n := v)\<rparr>"
  by (simp add: wr_zr_def)

text \<open>
  C8. Storing a register and loading it back from the same base and offset, whatever the offset,
  gives the register its own value, truncated to the bytes of its size and extended by its type,
  and leaves the rest of the registers alone.
\<close>

theorem store_load_roundtrip:
  assumes "length (body st) < CODE_CAP" and "enc v" and "enc base" and "ldst_size v \<noteq> 0"
    and "rno v \<noteq> 31"
  shows "\<exists>mem. a64_run (emitted (emit_str_reg ts base v off) st @ emitted (emit_ldr ts v base off) st) m
    = Some (m\<lparr>xr := (xr m)(rno v := reloaded ts v (xr m (rno v))), memory := mem\<rparr>)"
proof -
  define a where "a = rd_sp m (rno base) + offset_seen v (scast off)"
  have s: "a64_run (emitted (emit_str_reg ts base v off) st) m
      = Some (m\<lparr>memory := mem_write (memory m) a (access_bytes v) (xr m (rno v))\<rparr>)"
    using mem_op_run [OF assms(1-4), of ts False "scast off" m] assms(5)
    by (simp add: emit_str_reg_def emitted_def a_def ldst_def load_kind_values access_bytes_def rd_zr_def)
  have l: "a64_run (emitted (emit_ldr ts v base off) st) (m\<lparr>memory := mm\<rparr>)
      = ldst (unat (size_log v)) (load_kind ts True v) (rno v) a (m\<lparr>memory := mm\<rparr>)" for mm
    using mem_op_run [OF assms(1-4), of ts True "scast off" "m\<lparr>memory := mm\<rparr>"]
    by (simp add: emit_ldr_def emitted_def a_def rd_sp_def)
  have "ldst (unat (size_log v)) (load_kind ts True v) (rno v) a
        (m\<lparr>memory := mem_write (memory m) a (access_bytes v) (xr m (rno v))\<rparr>)
      = Some (m\<lparr>xr := (xr m)(rno v := reloaded ts v (xr m (rno v))),
          memory := mem_write (memory m) a (access_bytes v) (xr m (rno v))\<rparr>)"
    using load_kind_values [of ts v] access_bytes_le [of v] assms(5)
      signed_take_take [of "8 * access_bytes v" "xr m (rno v)"]
    by (auto simp: ldst_def Let_def access_bytes_def [symmetric] mem_read_write_same reloaded_def
          wr_zr_True)
  then show ?thesis by (auto simp: a64_run_append s l)
qed

lemma store_load_roundtrip_witness:
  "\<exists>mem. a64_run (emitted (emit_str_reg ex_ts (ex_reg NREG 2 8) (ex_typed 1 (ex_reg PARAM 1 4)) (- 20)) ex_st
      @ emitted (emit_ldr ex_ts (ex_typed 1 (ex_reg PARAM 1 4)) (ex_reg NREG 2 8) (- 20)) ex_st) ex_mach
    = Some (ex_mach\<lparr>xr := (xr ex_mach)(1 := reloaded ex_ts (ex_typed 1 (ex_reg PARAM 1 4)) 1), memory := mem\<rparr>)"
proof -
  have "ldst_size (ex_typed 1 (ex_reg PARAM 1 4)) \<noteq> 0"
    by (simp add: ldst_size_def ex_typed_def dtype0_def dtype_tryget_addr_def)
  then show ?thesis
    using store_load_roundtrip [of ex_st "ex_typed 1 (ex_reg PARAM 1 4)" "ex_reg NREG 2 8" ex_ts "- 20" ex_mach]
    by (simp add: enc_def) (simp add: ex_mach_def)
qed

end
