(* ===== verification/A64_Frame.thy ===== *)
theory A64_Frame
  imports A64_Mem "HOL-Library.Signed_Division"
begin

text \<open>
  The stack frame of the AArch64 back end (\<open>emit_fn_prologue_epilogue\<close> of
  \<open>src/alc/bin-aarch64.c\<close> and the word builders it uses), and the proof that the epilogue gives
  back every callee-saved register and the stack pointer.
\<close>

section \<open>Word builders\<close>

text \<open>Signed division of machine words, which truncates towards zero.\<close>

definition c_sdiv :: "'a::len word \<Rightarrow> 'a word \<Rightarrow> 'a word" where
  "c_sdiv a b = word_of_int (sint a sdiv sint b)"

definition addsub_imm64 :: "u32 \<Rightarrow> u32 \<Rightarrow> u32 \<Rightarrow> i32 \<Rightarrow> u32" where
  "addsub_imm64 base rd rn imm = (base OR push_bit 10 (imm AND 0xfff) OR push_bit 5 rn OR rd)"

definition stp_word :: "u32 \<Rightarrow> u32 \<Rightarrow> u32 \<Rightarrow> u32 \<Rightarrow> i32 \<Rightarrow> u32" where
  "stp_word base rt rt2 rn imm_bytes =
    (let imm7 = (c_sdiv imm_bytes 8) AND 0x7f in
     base OR push_bit 15 imm7 OR push_bit 10 rt2 OR push_bit 5 rn OR rt)"

definition str_imm9_word :: "u32 \<Rightarrow> u32 \<Rightarrow> u32 \<Rightarrow> i32 \<Rightarrow> u32" where
  "str_imm9_word base rt rn imm_bytes =
    (base OR push_bit 12 (imm_bytes AND 0x1ff) OR push_bit 5 rn OR rt)"

definition str_off64_word :: "u32 \<Rightarrow> u32 \<Rightarrow> u32 \<Rightarrow> i32 \<Rightarrow> u32" where
  "str_off64_word base rt rn imm_bytes =
    (base OR push_bit 10 ((c_sdiv imm_bytes 8) AND 0xfff) OR push_bit 5 rn OR rt)"

section \<open>Prologue and epilogue\<close>

text \<open>The loop that saves and restores the registers two by two, the highest first.\<close>

fun save_pairs :: "nat \<Rightarrow> i32 \<Rightarrow> a64 \<Rightarrow> nat \<times> i32 \<times> a64" where
  "save_pairs remaining off st =
    (if 1 < remaining then
       (let r0 = of_nat (CALLEE_START + remaining - 1); r1 = r0 - 1;
            st1 = put_prologue (stp_word OP_STP_OFF r0 r1 31 off) st;
            st2 = put_word (stp_word OP_LDP_OFF r0 r1 31 off) st1 in
        save_pairs (remaining - 2) (off + 16) st2)
     else (remaining, off, st))"

declare save_pairs.simps [simp del]

text \<open>The odd register left over by the loop.\<close>

definition save_last :: "i32 \<Rightarrow> nat \<times> i32 \<times> a64 \<Rightarrow> a64" where
  "save_last stack_size = (\<lambda>(remaining, off, st).
    if remaining = 1 then
      (if off = 0 then
         put_word (str_imm9_word OP_LDR_POST (of_nat CALLEE_START) 31 stack_size)
           (put_prologue (str_imm9_word OP_STR_PRE (of_nat CALLEE_START) 31 (- stack_size)) st)
       else
         put_word (str_off64_word OP_LDR_OFF64 (of_nat CALLEE_START) 31 off)
           (put_prologue (str_off64_word OP_STR_OFF64 (of_nat CALLEE_START) 31 off) st))
    else st)"

definition emit_fn_prologue_epilogue :: "parser_context \<Rightarrow> a64 \<Rightarrow> a64" where
  "emit_fn_prologue_epilogue pc st0 =
    (let st = st0\<lparr>prol := []\<rparr> in
     if \<not> pc_calls_fn pc \<and> pc_max_nreg_count pc = 0 \<and> pc_stack_size pc = 0 then st
     else if 28 \<le> unat (pc_max_nreg_count pc) + CALLEE_START then report_err OutOfCalleeRegs st
     else
      let needs_fp = (pc_calls_fn pc \<or> 0 <s pc_stack_size pc);
          regs_to_save = unat (pc_max_nreg_count pc) + (if needs_fp then 2 else 0);
          objs = ALIGN_TO (pc_stack_size pc) 16;
          stack_size = ALIGN_TO (of_nat (regs_to_save * 8)) 16 + objs;
          st1 = (if 0 <s objs then put_prologue (addsub_imm64 OP_SUB_SP_IMM 31 31 stack_size) st
                 else st);
          r0 = (if needs_fp then 29 else of_nat (CALLEE_START + regs_to_save - 1));
          r1 = (if needs_fp then 30 else r0 - 1);
          defer = (1 < regs_to_save \<and> objs = 0);
          st2 = (if 1 < regs_to_save then
                   (if objs = 0 then put_prologue (stp_word OP_STP_PRE r0 r1 31 (- stack_size)) st1
                    else put_word (stp_word OP_LDP_OFF r0 r1 31 objs)
                           (put_prologue (stp_word OP_STP_OFF r0 r1 31 objs) st1))
                 else st1);
          st4 = save_last stack_size
            (if 1 < regs_to_save then save_pairs (regs_to_save - 2) (objs + 16) st2
             else save_pairs regs_to_save objs st2);
          st5 = (if needs_fp then put_prologue (addsub_imm64 OP_ADD_SP_IMM 29 31 objs) st4 else st4);
          st6 = (if defer then put_word (stp_word OP_LDP_POST r0 r1 31 stack_size) st5 else st5) in
      if 0 <s objs then put_word (addsub_imm64 OP_ADD_SP_IMM 31 31 stack_size) st6 else st6)"

section \<open>The words on the machine\<close>

lemma sint_small_int: "- (2 ^ 31) \<le> i \<Longrightarrow> i < 2 ^ 31 \<Longrightarrow> sint (word_of_int i :: i32) = i"
  by (simp add: sint_sbintrunc' signed_take_bit_int_eq_self)

lemma c_sdiv_8:
  assumes "- 1000 \<le> i" and "i \<le> 1000"
  shows "c_sdiv (word_of_int (8 * i) :: i32) 8 = word_of_int i"
proof -
  have "sint (word_of_int (8 * i) :: i32) = 8 * i" using assms by (intro sint_small_int) auto
  moreover have "sint (8 :: i32) = 8" by simp
  moreover have "(8 * i) sdiv 8 = i" by (simp add: signed_divide_int_def sgn_mult abs_mult sgn_mult_abs)
  ultimately show ?thesis by (simp add: c_sdiv_def)
qed

lemma and_7f: "(x :: u32) AND 0x7f = take_bit 7 x" and and_fff: "(x :: u32) AND 0xfff = take_bit 12 x"
  and and_1ff: "(x :: u32) AND 0x1ff = take_bit 9 x"
proof -
  have "(0x7f :: u32) = mask 7" "(0xfff :: u32) = mask 12" "(0x1ff :: u32) = mask 9"
    by (simp_all add: mask_eq_exp_minus_1)
  then show "x AND 0x7f = take_bit 7 x" "x AND 0xfff = take_bit 12 x" "x AND 0x1ff = take_bit 9 x"
    by (simp_all only: and_mask_take_bit)
qed

lemma sext_field:
  assumes "0 < n" and "n \<le> 31" and "- (2 ^ (n - 1)) \<le> i" and "i < 2 ^ (n - 1)"
  shows "sext n (take_bit n (word_of_int i)) = word_of_int i"
proof -
  have "signed_take_bit (n - 1) i = i" using assms(3,4) by (rule signed_take_bit_int_eq_self)
  then have b: "bit i k = bit i (min k (n - 1))" for k
    using bit_signed_take_bit_iff [of "n - 1" i k] by (simp add: min.commute)
  show ?thesis
  proof (rule word_eq_by_bits)
    fix k :: nat
    assume k: "k < LENGTH(64)"
    define j where "j = min (n - Suc 0) k"
    have j: "j < n" "j < 32" using assms(1,2) by (auto simp: j_def)
    have "bit (sext n (take_bit n (word_of_int i))) k \<longleftrightarrow> bit i j"
      using k j by (simp add: sext_def bit_signed_take_bit_iff j_def [symmetric] bit_simps)
    then show "bit (sext n (take_bit n (word_of_int i))) k = bit (word_of_int i :: u64) k"
      using k b [of k] by (simp add: j_def min.commute bit_simps)
  qed
qed

definition slot :: "u64 \<Rightarrow> int \<Rightarrow> u64" where
  "slot sp i = sp + word_of_int (8 * i)"

lemma slot_0 [simp]: "slot sp 0 = sp"
  by (simp add: slot_def)

lemma slot_Suc: "slot sp i + 8 = slot sp (i + 1)"
  by (simp add: slot_def algebra_simps)

lemma slot_shift: "slot sp i = sp + push_bit 3 (word_of_int i)"
  by (simp add: slot_def push_bit_eq_mult)

lemma slot_slot: "slot (slot sp i) j = slot sp (i + j)"
  by (simp add: slot_def algebra_simps)

lemma rd_31 [simp]: "rd_sp m 31 = spr m"
  by (simp add: rd_sp_def)

definition off8 :: "int \<Rightarrow> i32" where
  "off8 i = word_of_int (8 * i)"

lemma c_sdiv_off8: "- 1000 \<le> i \<Longrightarrow> i \<le> 1000 \<Longrightarrow> c_sdiv (off8 i) 8 = word_of_int i"
  unfolding off8_def by (rule c_sdiv_8)

definition imm7 :: "int \<Rightarrow> u32" where
  "imm7 i = take_bit 7 (word_of_int i)"

lemma imm7 [simp]: "- 64 \<le> i \<Longrightarrow> i < 64 \<Longrightarrow> sext 7 (imm7 i) = word_of_int i" "small 7 (imm7 i)"
  using sext_field [of 7 i] by (simp_all add: imm7_def small_take_bit)

lemma stp_word_imm7:
  "- 64 \<le> i \<Longrightarrow> i < 64 \<Longrightarrow>
    stp_word op a b rn (off8 i) = (op OR push_bit 15 (imm7 i) OR push_bit 10 b OR push_bit 5 rn OR a)"
  by (simp add: stp_word_def and_7f c_sdiv_off8 imm7_def)

lemma small_31: "small 5 31" and unat_31: "unat (31 :: u32) = 31"
  by (simp_all add: small_def)

text \<open>The effect of the four pair words on the memory and the registers.\<close>

lemma pair_run:
  assumes "- 64 \<le> i" and "i < 64" and "small 5 a" and "small 5 b"
  shows "a64_run (stp_word OP_STP_OFF a b 31 (off8 i) # ws) m
      = a64_run ws (ldst_pair False (unat a) (unat b) (slot (spr m) i) m)"
    and "a64_run (stp_word OP_LDP_OFF a b 31 (off8 i) # ws) m
      = a64_run ws (ldst_pair True (unat a) (unat b) (slot (spr m) i) m)"
    and "a64_run (stp_word OP_STP_PRE a b 31 (off8 i) # ws) m
      = a64_run ws ((ldst_pair False (unat a) (unat b) (slot (spr m) i) m)\<lparr>spr := slot (spr m) i\<rparr>)"
    and "a64_run (stp_word OP_LDP_POST a b 31 (off8 i) # ws) m
      = a64_run ws ((ldst_pair True (unat a) (unat b) (spr m) m)\<lparr>spr := slot (spr m) i\<rparr>)"
  using decode_pair [OF assms(3,4) small_31 imm7(2), of i, unfolded unat_31] assms(1,2)
  by (simp_all add: stp_word_imm7 slot_shift mode_addr_def mode_back_def wr_sp_def Let_def)

lemma uext_field:
  assumes "n \<le> 31" and "0 \<le> i" and "i < 2 ^ n"
  shows "ucast (take_bit n (word_of_int i :: u32)) = (word_of_int i :: u64)"
proof -
  have "take_bit n i = i" using assms(2,3) by (rule take_bit_int_eq_self)
  then have b: "bit i k \<longleftrightarrow> bit i k \<and> k < n" for k by (metis bit_take_bit_iff)
  show ?thesis
  proof (rule word_eq_by_bits)
    fix k :: nat
    assume "k < LENGTH(64)"
    then show "bit (ucast (take_bit n (word_of_int i :: u32)) :: u64) k = bit (word_of_int i :: u64) k"
      using assms(1) b [of k] by (auto simp: bit_simps)
  qed
qed

lemma sp_run:
  assumes "0 \<le> i" and "i < 512" and "small 5 a"
  shows "a64_run (addsub_imm64 OP_SUB_SP_IMM a 31 (off8 i) # ws) m
      = a64_run ws (wr_sp True (unat a) (slot (spr m) (- i)) m)"
    and "a64_run (addsub_imm64 OP_ADD_SP_IMM a 31 (off8 i) # ws) m
      = a64_run ws (wr_sp True (unat a) (slot (spr m) i) m)"
proof -
  have u: "ucast (take_bit 12 (off8 i)) = (word_of_int (8 * i) :: u64)"
    unfolding off8_def using assms(1,2) by (intro uext_field) auto
  have s: "slot (spr m) i = spr m + word_of_int (8 * i)" "slot (spr m) (- i) = spr m - word_of_int (8 * i)"
    by (simp_all add: slot_def)
  show "a64_run (addsub_imm64 OP_SUB_SP_IMM a 31 (off8 i) # ws) m
      = a64_run ws (wr_sp True (unat a) (slot (spr m) (- i)) m)"
    and "a64_run (addsub_imm64 OP_ADD_SP_IMM a 31 (off8 i) # ws) m
      = a64_run ws (wr_sp True (unat a) (slot (spr m) i) m)"
    using decode_frame_sp [OF assms(3) small_31 small_take_bit, of "off8 i", unfolded unat_31]
    unfolding addsub_imm64_def and_fff s u [symmetric]
    by (simp_all add: addsub_def)
qed

lemma one_run:
  assumes "small 5 a"
  shows "- 32 \<le> i \<Longrightarrow> i < 32 \<Longrightarrow> a64_run (str_imm9_word OP_STR_PRE a 31 (off8 i) # ws) m
      = a64_run ws (m\<lparr>memory := mem_write (memory m) (slot (spr m) i) 8 (rd_zr m (unat a)), spr := slot (spr m) i\<rparr>)"
    and "- 32 \<le> i \<Longrightarrow> i < 32 \<Longrightarrow> a64_run (str_imm9_word OP_LDR_POST a 31 (off8 i) # ws) m
      = a64_run ws ((wr_zr True (unat a) (mem_read (memory m) (spr m) 8) m)\<lparr>spr := slot (spr m) i\<rparr>)"
    and "0 \<le> i \<Longrightarrow> i < 512 \<Longrightarrow> a64_run (str_off64_word OP_STR_OFF64 a 31 (off8 i) # ws) m
      = a64_run ws (m\<lparr>memory := mem_write (memory m) (slot (spr m) i) 8 (rd_zr m (unat a))\<rparr>)"
    and "0 \<le> i \<Longrightarrow> i < 512 \<Longrightarrow> a64_run (str_off64_word OP_LDR_OFF64 a 31 (off8 i) # ws) m
      = a64_run ws (wr_zr True (unat a) (mem_read (memory m) (slot (spr m) i) 8) m)"
proof -
  note d = decode_frame_one [OF assms small_31
    small_take_bit [of 9 "off8 i"] small_take_bit [of 12 "word_of_int i"], unfolded unat_31]
  have x: "slot (spr m) i = spr m + sext 9 (take_bit 9 (off8 i))" if "- 32 \<le> i" "i < 32"
    unfolding off8_def slot_def using that by (subst sext_field) auto
  have y: "c_sdiv (off8 i) 8 = word_of_int i"
    "slot (spr m) i = spr m + push_bit 3 (ucast (take_bit 12 (word_of_int i :: u32)))" if "0 \<le> i" "i < 512"
    using that uext_field [of 12 i] by (simp_all add: slot_shift c_sdiv_off8)
  show "- 32 \<le> i \<Longrightarrow> i < 32 \<Longrightarrow> a64_run (str_imm9_word OP_STR_PRE a 31 (off8 i) # ws) m
      = a64_run ws (m\<lparr>memory := mem_write (memory m) (slot (spr m) i) 8 (rd_zr m (unat a)), spr := slot (spr m) i\<rparr>)"
    and "- 32 \<le> i \<Longrightarrow> i < 32 \<Longrightarrow> a64_run (str_imm9_word OP_LDR_POST a 31 (off8 i) # ws) m
      = a64_run ws ((wr_zr True (unat a) (mem_read (memory m) (spr m) 8) m)\<lparr>spr := slot (spr m) i\<rparr>)"
    using d(1,2)
    unfolding str_imm9_word_def and_1ff
    by (simp_all add: x mode_addr_def mode_back_def Let_def ldst_def wr_sp_def)
  show "0 \<le> i \<Longrightarrow> i < 512 \<Longrightarrow> a64_run (str_off64_word OP_STR_OFF64 a 31 (off8 i) # ws) m
      = a64_run ws (m\<lparr>memory := mem_write (memory m) (slot (spr m) i) 8 (rd_zr m (unat a))\<rparr>)"
    and "0 \<le> i \<Longrightarrow> i < 512 \<Longrightarrow> a64_run (str_off64_word OP_LDR_OFF64 a 31 (off8 i) # ws) m
      = a64_run ws (wr_zr True (unat a) (mem_read (memory m) (slot (spr m) i) 8) m)"
    using d(3,4)
    unfolding str_off64_word_def and_fff
    by (simp_all add: y ldst_def Let_def)
qed

section \<open>Spilling and refilling slots\<close>

text \<open>A plan says which register is kept in which eight-byte slot above the stack pointer.\<close>

type_synonym plan = "(nat \<times> int) list"

definition spill :: "(nat \<Rightarrow> u64) \<Rightarrow> u64 \<Rightarrow> plan \<Rightarrow> (u64 \<Rightarrow> u8) \<Rightarrow> (u64 \<Rightarrow> u8)" where
  "spill x sp = fold (\<lambda>(r, i) mem. mem_write mem (slot sp i) 8 (x r))"

definition refill :: "(u64 \<Rightarrow> u8) \<Rightarrow> u64 \<Rightarrow> plan \<Rightarrow> (nat \<Rightarrow> u64) \<Rightarrow> (nat \<Rightarrow> u64)" where
  "refill mem sp = fold (\<lambda>(r, i) x. x(r := mem_read mem (slot sp i) 8))"

lemma spill_simps [simp]:
  "spill x sp [] mem = mem"
  "spill x sp ((r, i) # ps) mem = spill x sp ps (mem_write mem (slot sp i) 8 (x r))"
  "spill x sp (ps @ qs) mem = spill x sp qs (spill x sp ps mem)"
  by (simp_all add: spill_def)

lemma refill_simps [simp]:
  "refill mem sp [] x = x"
  "refill mem sp ((r, i) # ps) x = refill mem sp ps (x(r := mem_read mem (slot sp i) 8))"
  "refill mem sp (ps @ qs) x = refill mem sp qs (refill mem sp ps x)"
  by (simp_all add: refill_def)

definition good_plan :: "plan \<Rightarrow> bool" where
  "good_plan ps \<longleftrightarrow> distinct (map fst ps) \<and> distinct (map snd ps)
     \<and> (\<forall>(r, i)\<in>set ps. 0 \<le> i \<and> i < 64)"

lemma unat_word_of_int: "0 \<le> i \<Longrightarrow> i < 2 ^ 64 \<Longrightarrow> unat (word_of_int i :: u64) = nat i"
  by (simp add: unat_eq_nat_uint take_bit_int_eq_self uint_word_of_int_eq)

lemma slot_apart:
  assumes "i \<noteq> j" and "0 \<le> i" "i < 64" "0 \<le> j" "j < 64"
  shows "apart (slot sp i) 8 (slot sp j) 8"
  unfolding apart_def
proof (intro allI impI)
  fix k :: nat
  assume k: "k < 8"
  have e: "slot sp i + of_nat k - slot sp j = word_of_int (8 * i + int k - 8 * j)"
    by (simp add: slot_def)
  show "8 \<le> unat (slot sp i + of_nat k - slot sp j)"
  proof (cases "j < i")
    case True
    then show ?thesis
      unfolding e using assms k by (subst unat_word_of_int) auto
  next
    case False
    have "word_of_int (8 * i + int k - 8 * j) = (word_of_int (8 * i + int k - 8 * j + 2 ^ 64) :: u64)"
      by (simp add: word_of_int_2p_len [where 'a = 64, simplified])
    then show ?thesis
      unfolding e using False assms k by (simp only:) (subst unat_word_of_int, auto)
  qed
qed

lemma spill_other:
  assumes "\<And>r j. (r, j) \<in> set ps \<Longrightarrow> j \<noteq> i \<and> 0 \<le> j \<and> j < 64" and "0 \<le> i" "i < 64"
  shows "mem_read (spill x sp ps mem) (slot sp i) 8 = mem_read mem (slot sp i) 8"
  using assms
proof (induction ps arbitrary: mem)
  case (Cons p ps)
  obtain r j where p: "p = (r, j)" by (cases p)
  then have "j \<noteq> i" "0 \<le> j" "j < 64" using Cons.prems(1) [of r j] by auto
  then have "apart (slot sp i) 8 (slot sp j) 8" using Cons.prems(2,3) by (intro slot_apart) auto
  moreover have "mem_read (spill x sp ps (mem_write mem (slot sp j) 8 (x r))) (slot sp i) 8
      = mem_read (mem_write mem (slot sp j) 8 (x r)) (slot sp i) 8"
    using Cons.prems by (intro Cons.IH) auto
  ultimately show ?case by (simp add: p mem_read_write_apart)
qed simp

lemma take_64 [simp]: "take_bit 64 (v :: u64) = v"
  by (intro word_eq_by_bits) (simp add: bit_take_bit_iff)

lemma spill_read:
  assumes "good_plan ps" and "(r, i) \<in> set ps"
  shows "mem_read (spill x sp ps mem) (slot sp i) 8 = x r"
  using assms
proof (induction ps arbitrary: mem)
  case (Cons p ps)
  obtain q j where p: "p = (q, j)" by (cases p)
  have g: "good_plan ps" and j: "0 \<le> j" "j < 64" "j \<notin> snd ` set ps"
    using Cons.prems(1) by (auto simp: good_plan_def p)
  show ?case
  proof (cases "(r, i) \<in> set ps")
    case True
    then show ?thesis using Cons.IH [OF g] by (simp add: p)
  next
    case False
    then have "(r, i) = (q, j)" using Cons.prems(2) by (auto simp: p)
    moreover have "mem_read (spill x sp ps (mem_write mem (slot sp j) 8 (x q))) (slot sp j) 8
        = mem_read (mem_write mem (slot sp j) 8 (x q)) (slot sp j) 8"
      using j g by (intro spill_other) (force simp: good_plan_def)+
    ultimately show ?thesis by (simp add: p mem_read_write_same)
  qed
qed simp

lemma refill_other: "r \<notin> fst ` set ps \<Longrightarrow> refill mem sp ps x r = x r"
  by (induction ps arbitrary: x) auto

lemma refill_read:
  assumes "good_plan ps" and "(r, i) \<in> set ps"
  shows "refill mem sp ps x r = mem_read mem (slot sp i) 8"
  using assms
proof (induction ps arbitrary: x)
  case (Cons p ps)
  obtain q j where p: "p = (q, j)" by (cases p)
  have g: "good_plan ps" and q: "q \<notin> fst ` set ps"
    using Cons.prems(1) by (auto simp: good_plan_def p)
  show ?case
  proof (cases "(r, i) \<in> set ps")
    case True
    then show ?thesis using Cons.IH [OF g] by (simp add: p)
  next
    case False
    then have "(r, i) = (q, j)" using Cons.prems(2) by (auto simp: p)
    then show ?thesis using q by (simp add: p refill_other)
  qed
qed simp

text \<open>
  What a frame gives back, for any memory that agrees on the slots of the plan, when the slots
  are read in any order.
\<close>

lemma refill_spill:
  assumes "good_plan ps" and "good_plan qs" and "set qs = set ps"
    and "\<And>r i. (r, i) \<in> set ps \<Longrightarrow> mem_read mem' (slot sp i) 8 = mem_read (spill x sp ps mem) (slot sp i) 8"
  shows "refill mem' sp qs y r = (if r \<in> fst ` set ps then x r else y r)"
proof (cases "r \<in> fst ` set ps")
  case True
  then obtain i where i: "(r, i) \<in> set ps" by auto
  then have "refill mem' sp qs y r = mem_read mem' (slot sp i) 8"
    using refill_read [OF assms(2)] assms(3) by blast
  then show ?thesis using True by (simp add: assms(4) [OF i] spill_read [OF assms(1) i])
qed (simp add: refill_other assms(3))

section \<open>The words of a frame\<close>

fun pairs_plan :: "nat \<Rightarrow> int \<Rightarrow> plan" where
  "pairs_plan n i = (if 1 < n then (18 + n, i) # (17 + n, i + 1) # pairs_plan (n - 2) (i + 2) else [])"

fun pair_words :: "u32 \<Rightarrow> nat \<Rightarrow> int \<Rightarrow> u32 list" where
  "pair_words op n i =
    (if 1 < n then stp_word op (of_nat (CALLEE_START + n - 1)) (of_nat (CALLEE_START + n - 1) - 1) 31 (off8 i)
                   # pair_words op (n - 2) (i + 2)
     else [])"

declare pairs_plan.simps [simp del] pair_words.simps [simp del]

lemma off8_add: "off8 i + 16 = off8 (i + 2)"
  by (simp add: off8_def)

lemma off8_uminus: "- off8 i = off8 (- i)"
  by (simp add: off8_def)

lemma save_pairs_words:
  assumes "length (prol st) + n div 2 \<le> PROL_CAP" and "length (body st) + n div 2 \<le> CODE_CAP"
  shows "save_pairs n (off8 i) st = (n mod 2, off8 (i + 2 * int (n div 2)),
    st\<lparr>prol := prol st @ pair_words OP_STP_OFF n i, body := body st @ pair_words OP_LDP_OFF n i\<rparr>)"
  using assms
proof (induction n i arbitrary: st rule: pairs_plan.induct)
  case (1 n i)
  show ?case
  proof (cases "1 < n")
    case True
    then have d: "n div 2 = Suc ((n - 2) div 2)" "(n - 2) mod 2 = n mod 2"
      by (simp_all add: le_div_geq le_mod_geq)
    then have i: "i + 2 + 2 * int ((n - 2) div 2) = i + 2 * int (n div 2)" by simp
    define st' where "st' = st\<lparr>prol := prol st @ [stp_word OP_STP_OFF (of_nat (CALLEE_START + n - 1))
        (of_nat (CALLEE_START + n - 1) - 1) 31 (off8 i)],
      body := body st @ [stp_word OP_LDP_OFF (of_nat (CALLEE_START + n - 1))
        (of_nat (CALLEE_START + n - 1) - 1) 31 (off8 i)]\<rparr>"
    have l: "length (prol st) < PROL_CAP" "length (body st) < CODE_CAP"
      using "1.prems" d(1) by linarith+
    have "save_pairs n (off8 i) st = save_pairs (n - 2) (off8 (i + 2)) st'"
      using True l
      by (subst save_pairs.simps) (simp add: Let_def put_prologue_def put_word_def off8_add st'_def)
    moreover have "length (prol st') + (n - 2) div 2 \<le> PROL_CAP" "length (body st') + (n - 2) div 2 \<le> CODE_CAP"
      using "1.prems" d(1) by (simp_all add: st'_def del: div_diff)
    ultimately have "save_pairs n (off8 i) st = (n mod 2, off8 (i + 2 * int (n div 2)),
        st'\<lparr>prol := prol st' @ pair_words OP_STP_OFF (n - 2) (i + 2),
          body := body st' @ pair_words OP_LDP_OFF (n - 2) (i + 2)\<rparr>)"
      using "1.IH" [OF True, of st'] unfolding i d(2) by presburger
    then show ?thesis
      using True by (simp add: pair_words.simps [of _ n] st'_def)
  next
    case False
    then have "n = 0 \<or> n = 1" by auto
    then show ?thesis by (auto simp: save_pairs.simps [of 0] save_pairs.simps [of 1] save_pairs.simps [of "Suc 0"]
        pair_words.simps [of _ 0] pair_words.simps [of _ 1] pair_words.simps [of _ "Suc 0"])
  qed
qed

lemma callee_reg:
  assumes "k < 31"
  shows "small 5 (of_nat k)" and "unat (of_nat k :: u32) = k"
proof -
  show "unat (of_nat k :: u32) = k" using assms by (simp add: unsigned_of_nat take_bit_nat_eq_self)
  then show "small 5 (of_nat k)" using assms by (simp add: small_def)
qed

lemma ldst_pair_xr:
  assumes "a < 31" and "b < 31"
  shows "ldst_pair False a b (slot sp i) m
      = m\<lparr>memory := spill (xr m) sp [(a, i), (b, i + 1)] (memory m)\<rparr>"
    and "ldst_pair True a b (slot sp i) m
      = m\<lparr>xr := refill (memory m) sp [(a, i), (b, i + 1)] (xr m)\<rparr>"
  using assms by (simp_all add: ldst_pair_def rd_zr_def wr_zr_def slot_Suc)

lemma pair_words_run:
  assumes "n \<le> 8" and "0 \<le> i" and "i + int n \<le> 64"
  shows "a64_run (pair_words OP_STP_OFF n i @ ws) m
        = a64_run ws (m\<lparr>memory := spill (xr m) (spr m) (pairs_plan n i) (memory m)\<rparr>)
      \<and> a64_run (pair_words OP_LDP_OFF n i @ ws) m
        = a64_run ws (m\<lparr>xr := refill (memory m) (spr m) (pairs_plan n i) (xr m)\<rparr>)"
  using assms
proof (induction n i arbitrary: m rule: pairs_plan.induct)
  case (1 n i)
  show ?case
  proof (cases "1 < n")
    case True
    have e: "of_nat (CALLEE_START + n - 1) = (of_nat (18 + n) :: u32)"
      "of_nat (18 + n) - 1 = (of_nat (17 + n) :: u32)"
      by (simp_all add: CALLEE_START_def)
    have k: "18 + n < 31" "17 + n < 31" and b: "- 64 \<le> i" "i < 64" using "1.prems" True by auto
    note r = callee_reg [OF k(1)] callee_reg [OF k(2)]
    note w = pair_run(1,2) [OF b r(1,3), unfolded r(2,4) ldst_pair_xr [OF k]]
    have p: "n - 2 \<le> 8" "0 \<le> i + 2" "i + 2 + int (n - 2) \<le> 64" using "1.prems" True by auto
    show ?thesis
      unfolding pair_words.simps [of _ n] pairs_plan.simps [of n] e if_P [OF True] append_Cons w
      by (simp add: "1.IH" [OF True p] fun_upd_def)
  next
    case False
    then show ?thesis by (simp add: pair_words.simps [of _ n] pairs_plan.simps [of n])
  qed
qed

text \<open>The registers below the first pair: the pairs, then the odd one.\<close>

definition rest_words :: "u32 \<Rightarrow> u32 \<Rightarrow> nat \<Rightarrow> int \<Rightarrow> u32 list" where
  "rest_words op2 op1 n i = pair_words op2 n i
     @ (if n mod 2 = 1 then [str_off64_word op1 (of_nat CALLEE_START) 31 (off8 (i + 2 * int (n div 2)))] else [])"

definition rest_plan :: "nat \<Rightarrow> int \<Rightarrow> plan" where
  "rest_plan n i = pairs_plan n i @ (if n mod 2 = 1 then [(19, i + 2 * int (n div 2))] else [])"

lemma rest_run:
  assumes "n \<le> 8" and "0 \<le> i" and "i + int n < 64"
  shows "a64_run (rest_words OP_STP_OFF OP_STR_OFF64 n i @ ws) m
        = a64_run ws (m\<lparr>memory := spill (xr m) (spr m) (rest_plan n i) (memory m)\<rparr>)"
    and "a64_run (rest_words OP_LDP_OFF OP_LDR_OFF64 n i @ ws) m
        = a64_run ws (m\<lparr>xr := refill (memory m) (spr m) (rest_plan n i) (xr m)\<rparr>)"
proof -
  have b: "i + int n \<le> 64" and o: "0 \<le> i + 2 * int (n div 2)" "i + 2 * int (n div 2) < 512"
    using assms by auto
  note r = callee_reg [of CALLEE_START, unfolded CALLEE_START_def, simplified]
  note one = one_run(3,4) [OF _ o, of 19, simplified]
  show "a64_run (rest_words OP_STP_OFF OP_STR_OFF64 n i @ ws) m
        = a64_run ws (m\<lparr>memory := spill (xr m) (spr m) (rest_plan n i) (memory m)\<rparr>)"
    and "a64_run (rest_words OP_LDP_OFF OP_LDR_OFF64 n i @ ws) m
        = a64_run ws (m\<lparr>xr := refill (memory m) (spr m) (rest_plan n i) (xr m)\<rparr>)"
    using r by (simp_all add: rest_words_def rest_plan_def pair_words_run [OF assms(1,2) b] one
        CALLEE_START_def rd_zr_def wr_zr_def)
qed

lemma rest_plan_rec:
  "rest_plan n i = (if 1 < n then (18 + n, i) # (17 + n, i + 1) # rest_plan (n - 2) (i + 2)
                    else if n = 1 then [(19, i)] else [])"
proof (cases "1 < n")
  case True
  then have d: "n div 2 = Suc ((n - 2) div 2)" "(n - 2) mod 2 = n mod 2"
    by (simp_all add: le_div_geq le_mod_geq)
  then have "i + 2 + 2 * int ((n - 2) div 2) = i + 2 * int (n div 2)" by simp
  then show ?thesis
    using True by (simp add: rest_plan_def pairs_plan.simps [of n] d(2))
next
  case False
  then have "n = 0 \<or> n = 1" by auto
  then show ?thesis by (auto simp: rest_plan_def pairs_plan.simps [of 0] pairs_plan.simps [of "Suc 0"])
qed

lemma rest_plan_fst: "map fst (rest_plan n i) = rev [19 ..< 19 + n]"
proof (induction n i rule: pairs_plan.induct)
  case (1 n i)
  show ?case
  proof (cases "1 < n")
    case True
    then obtain k where k: "n = Suc (Suc k)" by (metis One_nat_def Suc_lessE less_imp_Suc_add)
    have u: "[19 ..< 19 + n] = [19 ..< 19 + k] @ [19 + k, 20 + k]"
      using k upt_Suc [of 19 "19 + k"] upt_Suc [of 19 "Suc (19 + k)"] by simp
    show ?thesis using "1.IH" [OF True] unfolding u by (subst rest_plan_rec) (simp add: k)
  next
    case False
    then have "n = 0 \<or> n = 1" by auto
    then show ?thesis by (subst rest_plan_rec) auto
  qed
qed

lemma rest_plan_snd: "map snd (rest_plan n i) = map (\<lambda>k. i + int k) [0 ..< n]"
proof (induction n i rule: pairs_plan.induct)
  case (1 n i)
  show ?case
  proof (cases "1 < n")
    case True
    then obtain k where k: "n = Suc (Suc k)" by (metis One_nat_def Suc_lessE less_imp_Suc_add)
    have "map (\<lambda>k. i + 2 + int k) [0 ..< k] = map (\<lambda>k. i + int k) [2 ..< Suc (Suc k)]"
      by (intro nth_equalityI) (auto simp del: upt_Suc)
    moreover have "[0 ..< Suc (Suc k)] = 0 # 1 # [2 ..< Suc (Suc k)]"
      by (simp add: upt_conv_Cons numeral_2_eq_2 del: upt_Suc)
    ultimately show ?thesis
      using "1.IH" [OF True] by (subst rest_plan_rec) (simp add: k del: upt_Suc)
  next
    case False
    then have "n = 0 \<or> n = 1" by auto
    then show ?thesis by (subst rest_plan_rec) auto
  qed
qed

lemma rest_plan_bounds:
  assumes "(r, j) \<in> set (rest_plan n i)"
  shows "19 \<le> r \<and> r < 19 + n \<and> i \<le> j \<and> j < i + int n"
proof -
  have "r \<in> set (map fst (rest_plan n i))" "j \<in> set (map snd (rest_plan n i))"
    using assms by force+
  then show ?thesis
    unfolding rest_plan_fst rest_plan_snd by auto
qed

lemma rest_plan_distinct:
  "distinct (map fst (rest_plan n i))" "distinct (map snd (rest_plan n i))"
  unfolding rest_plan_fst rest_plan_snd by (simp_all add: distinct_map inj_on_def)

lemma fst_rest_plan: "fst ` set (rest_plan n i) = {19 ..< 19 + n}"
proof -
  have "fst ` set (rest_plan n i) = set (map fst (rest_plan n i))" by simp
  then show ?thesis by (simp only: rest_plan_fst set_rev set_upt)
qed

section \<open>The shape of the emitted code\<close>

lemma ALIGN_TO_16:
  assumes "unat w + 15 < 2 ^ 32"
  shows "ALIGN_TO (w :: i32) 16 = of_nat (16 * ((unat w + 15) div 16))"
proof -
  define x where "x = w + 15"
  have u: "unat x = unat w + 15"
    using assms by (simp add: x_def unat_word_ariths)
  have m: "(16 - 1 :: i32) = mask 4" by (simp add: mask_eq_exp_minus_1)
  have "ALIGN_TO w 16 = x AND NOT (mask 4)" unfolding ALIGN_TO_def m by (simp add: x_def algebra_simps)
  also have "\<dots> = push_bit 4 (drop_bit 4 x)"
    by (intro word_eq_by_bits) (auto simp: bit_simps)
  also have "\<dots> = of_nat (16 * (unat x div 16))"
    by (simp add: push_bit_eq_mult drop_bit_eq_div word_arith_nat_div)
  finally show ?thesis by (simp only: u)
qed

text \<open>
  The frame in eight-byte slots: whether it has a frame pointer, the slots of the local objects,
  and all its slots.
\<close>

definition has_fp :: "parser_context \<Rightarrow> bool" where
  "has_fp pc \<longleftrightarrow> pc_calls_fn pc \<or> 0 <s pc_stack_size pc"

definition nregs :: "parser_context \<Rightarrow> nat" where
  "nregs pc = unat (pc_max_nreg_count pc)"

definition obj_slots :: "parser_context \<Rightarrow> int" where
  "obj_slots pc = 2 * int ((unat (pc_stack_size pc) + 15) div 16)"

definition frame_slots :: "parser_context \<Rightarrow> int" where
  "frame_slots pc = 2 * int ((nregs pc + (if has_fp pc then 2 else 0) + 1) div 2) + obj_slots pc"

definition saved_regs :: "parser_context \<Rightarrow> nat set" where
  "saved_regs pc = {19 ..< 19 + nregs pc} \<union> (if has_fp pc then {29, 30} else {})"

text \<open>The frames the encodings can hold: at most eight registers and 496 bytes.\<close>

definition frame_fits :: "parser_context \<Rightarrow> bool" where
  "frame_fits pc \<longleftrightarrow> nregs pc \<le> 8 \<and> 0 \<le>s pc_stack_size pc \<and> unat (pc_stack_size pc) < 1024
     \<and> frame_slots pc \<le> 62"

definition frame_prol :: "parser_context \<Rightarrow> u32 list" where
  "frame_prol pc = (let n = nregs pc; o' = obj_slots pc; T = frame_slots pc in
    if has_fp pc then
      (if o' = 0 then [stp_word OP_STP_PRE 29 30 31 (off8 (- T))]
       else [addsub_imm64 OP_SUB_SP_IMM 31 31 (off8 T), stp_word OP_STP_OFF 29 30 31 (off8 o')])
      @ rest_words OP_STP_OFF OP_STR_OFF64 n (o' + 2) @ [addsub_imm64 OP_ADD_SP_IMM 29 31 (off8 o')]
    else if n = 0 then []
    else if n = 1 then [str_imm9_word OP_STR_PRE (of_nat CALLEE_START) 31 (off8 (- T))]
    else stp_word OP_STP_PRE (of_nat (CALLEE_START + n - 1)) (of_nat (CALLEE_START + n - 1) - 1) 31 (off8 (- T))
      # rest_words OP_STP_OFF OP_STR_OFF64 (n - 2) 2)"

definition frame_epil :: "parser_context \<Rightarrow> u32 list" where
  "frame_epil pc = (let n = nregs pc; o' = obj_slots pc; T = frame_slots pc in
    if has_fp pc then
      (if o' = 0 then rest_words OP_LDP_OFF OP_LDR_OFF64 n 2 @ [stp_word OP_LDP_POST 29 30 31 (off8 T)]
       else stp_word OP_LDP_OFF 29 30 31 (off8 o') # rest_words OP_LDP_OFF OP_LDR_OFF64 n (o' + 2)
         @ [addsub_imm64 OP_ADD_SP_IMM 31 31 (off8 T)])
    else if n = 0 then []
    else if n = 1 then [str_imm9_word OP_LDR_POST (of_nat CALLEE_START) 31 (off8 T)]
    else rest_words OP_LDP_OFF OP_LDR_OFF64 (n - 2) 2
      @ [stp_word OP_LDP_POST (of_nat (CALLEE_START + n - 1)) (of_nat (CALLEE_START + n - 1) - 1) 31 (off8 T)])"

lemma unat_of_nat32: "k < 2 ^ 32 \<Longrightarrow> unat (of_nat k :: u32) = k"
  by (simp add: unsigned_of_nat take_bit_nat_eq_self)

lemma sless_small:
  assumes "unat (w :: i32) < 0x80000000"
  shows "0 <s w \<longleftrightarrow> w \<noteq> 0"
proof -
  have "int (unat w) < int 0x80000000" using assms by (simp only: of_nat_less_iff)
  then have "uint w < 2 ^ 31" by simp
  moreover have "0 \<le> uint w" by simp
  ultimately have "sint (word_of_int (uint w) :: i32) = uint w" by (intro sint_small_int) linarith+
  then have "sint w = uint w" by simp
  then show ?thesis by (auto simp: word_sless_alt uint_0_iff order_less_le)
qed

lemma objs_off8:
  assumes "frame_fits pc"
  shows "ALIGN_TO (pc_stack_size pc) 16 = off8 (obj_slots pc)"
    and "ALIGN_TO (of_nat ((nregs pc + (if has_fp pc then 2 else 0)) * 8)) 16 + ALIGN_TO (pc_stack_size pc) 16
       = off8 (frame_slots pc)"
    and "off8 (obj_slots pc) = 0 \<longleftrightarrow> obj_slots pc = 0"
    and "0 <s off8 (obj_slots pc) \<longleftrightarrow> obj_slots pc \<noteq> 0"
    and "obj_slots pc \<noteq> 0 \<longleftrightarrow> 0 <s pc_stack_size pc"
proof -
  define k where "k = (unat (pc_stack_size pc) + 15) div 16"
  define r where "r = nregs pc + (if has_fp pc then 2 else 0)"
  have k: "k < 65" and r: "r \<le> 10" "unat (pc_stack_size pc) < 1024"
    using assms by (auto simp: frame_fits_def k_def r_def)
  have w: "(of_nat (16 * j) :: i32) = off8 (2 * int j)" for j by (simp add: off8_def)
  have ob: "obj_slots pc = 2 * int k" by (simp add: obj_slots_def k_def)
  show a: "ALIGN_TO (pc_stack_size pc) 16 = off8 (obj_slots pc)"
    using r(2) by (subst ALIGN_TO_16) (simp_all only: w ob k_def, simp)
  have u: "unat (of_nat (r * 8) :: i32) = r * 8"
    using r(1) by (intro unat_of_nat32) simp
  have "ALIGN_TO (of_nat (r * 8) :: i32) 16 = off8 (2 * int ((r + 1) div 2))"
  proof -
    have "(r * 8 + 15) div 16 = (r + 1) div 2" by presburger
    then show ?thesis using r(1) by (subst ALIGN_TO_16) (simp_all only: u w, simp)
  qed
  moreover have "off8 i + off8 j = off8 (i + j)" for i j by (simp add: off8_def)
  ultimately show "ALIGN_TO (of_nat ((nregs pc + (if has_fp pc then 2 else 0)) * 8)) 16
      + ALIGN_TO (pc_stack_size pc) 16 = off8 (frame_slots pc)"
    by (simp add: a frame_slots_def r_def [symmetric])
  have b: "off8 (2 * int k) = of_nat (16 * k)" by (simp only: w)
  have bu: "unat (of_nat (16 * k) :: i32) = 16 * k"
    using k by (intro unat_of_nat32) simp
  show z: "off8 (obj_slots pc) = 0 \<longleftrightarrow> obj_slots pc = 0"
    unfolding ob b using bu by (metis mult_eq_0_iff of_nat_0_eq_iff unat_0 of_nat_0 zero_neq_numeral)
  show "0 <s off8 (obj_slots pc) \<longleftrightarrow> obj_slots pc \<noteq> 0"
    using sless_small [of "off8 (obj_slots pc)"] z k unfolding ob b bu by simp
  show "obj_slots pc \<noteq> 0 \<longleftrightarrow> 0 <s pc_stack_size pc"
    using sless_small [of "pc_stack_size pc"] r(2) by (auto simp: obj_slots_def unat_eq_0 div_eq_0_iff not_less)
qed

lemma put_prologue_room [simp]:
  "length (prol st) < PROL_CAP \<Longrightarrow> put_prologue w st = st\<lparr>prol := prol st @ [w]\<rparr>"
  by (simp add: put_prologue_def)

lemma put_word_upd:
  "length (body st) < CODE_CAP \<Longrightarrow> put_word w st = st\<lparr>body := body st @ [w]\<rparr>"
  by (simp add: put_word_def)

lemma off8_eq_0: "0 \<le> i \<Longrightarrow> i < 1000 \<Longrightarrow> off8 i = 0 \<longleftrightarrow> i = 0"
  using c_sdiv_off8 [of i] sint_small_int [of "8 * i"] by (auto simp: off8_def)

lemma rest_emit:
  assumes "n \<le> 10" and "0 \<le> i" and "i < 500" and "n = 1 \<longrightarrow> i \<noteq> 0"
    and "length (prol st) + 6 \<le> PROL_CAP" and "length (body st) + 6 \<le> CODE_CAP"
  shows "save_last ss (save_pairs n (off8 i) st)
    = st\<lparr>prol := prol st @ rest_words OP_STP_OFF OP_STR_OFF64 n i,
         body := body st @ rest_words OP_LDP_OFF OP_LDR_OFF64 n i\<rparr>"
proof -
  have d: "n div 2 \<le> 5" using assms(1) by simp
  have l: "length (pair_words op n i) = n div 2" for op
    by (induction n i rule: pairs_plan.induct)
       (subst pair_words.simps, auto simp: le_div_geq)
  have z: "off8 (i + 2 * int (n div 2)) \<noteq> 0" if "n mod 2 = 1"
  proof -
    have "i + 2 * int (n div 2) \<noteq> 0" using that assms(2,4) d by (cases "n = 1") presburger+
    then show ?thesis using assms(2,3) d by (subst off8_eq_0) auto
  qed
  have "save_pairs n (off8 i) st = (n mod 2, off8 (i + 2 * int (n div 2)),
    st\<lparr>prol := prol st @ pair_words OP_STP_OFF n i, body := body st @ pair_words OP_LDP_OFF n i\<rparr>)"
    using assms(5,6) d by (intro save_pairs_words) linarith+
  then show ?thesis
    using z assms(5,6) d by (auto simp: save_last_def rest_words_def put_word_upd l)
qed

lemma one_emit:
  assumes "length (prol st) < PROL_CAP" and "length (body st) < CODE_CAP"
  shows "save_last (off8 T) (save_pairs 1 (off8 0) st)
    = st\<lparr>prol := prol st @ [str_imm9_word OP_STR_PRE (of_nat CALLEE_START) 31 (off8 (- T))],
         body := body st @ [str_imm9_word OP_LDR_POST (of_nat CALLEE_START) 31 (off8 T)]\<rparr>"
  using assms by (subst save_pairs.simps) (simp add: save_last_def off8_def put_word_upd)

lemma rest_length:
  "n \<le> 10 \<Longrightarrow> length (rest_words op2 op1 n i) \<le> 6"
proof -
  have "length (pair_words op n i) = n div 2" for op
    by (induction n i rule: pairs_plan.induct)
       (subst pair_words.simps, auto simp: le_div_geq)
  moreover have "n div 2 \<le> 5" if "n \<le> 10" using that by simp
  ultimately show "n \<le> 10 \<Longrightarrow> length (rest_words op2 op1 n i) \<le> 6"
    by (fastforce simp: rest_words_def)
qed

lemma frame_emit:
  assumes "frame_fits pc" and "length (body st) + 10 \<le> CODE_CAP"
  shows "emit_fn_prologue_epilogue pc st
    = st\<lparr>prol := frame_prol pc, body := body st @ frame_epil pc\<rparr>"
proof -
  note o = objs_off8 [OF assms(1)]
  have n: "nregs pc \<le> 8" "\<not> 28 \<le> nregs pc + CALLEE_START"
    using assms(1) by (auto simp: frame_fits_def CALLEE_START_def)
  have ob: "0 \<le> obj_slots pc" "obj_slots pc < 200"
    using assms(1) by (auto simp: frame_fits_def obj_slots_def)
  note l = rest_length [of "nregs pc", OF order.trans [OF n(1)]]
  have early: "\<not> pc_calls_fn pc \<and> pc_max_nreg_count pc = 0 \<and> pc_stack_size pc = 0
      \<longleftrightarrow> \<not> has_fp pc \<and> nregs pc = 0"
    using sless_small [of "pc_stack_size pc"] assms(1)
    by (auto simp: has_fp_def nregs_def unat_eq_0 frame_fits_def)
  note unf = emit_fn_prologue_epilogue_def Let_def has_fp_def [symmetric] nregs_def [symmetric] early
  show ?thesis
  proof (cases "has_fp pc")
    case True
    have l: "length (rest_words op2 op1 (nregs pc) i) \<le> 6" for op2 op1 i
      using n(1) by (intro rest_length) simp
    have c: "Suc (length (rest_words op2 op1 (nregs pc) i)) < 64"
      "Suc (Suc (length (rest_words op2 op1 (nregs pc) i))) < 64"
      "length (body st) + length (rest_words op2 op1 (nregs pc) i) < CODE_CAP"
      "Suc (length (body st) + length (rest_words op2 op1 (nregs pc) i)) < CODE_CAP" for op2 op1 i
      using assms(2) l [of op2 op1 i] by linarith+
    have r: "1 < nregs pc + 2" "nregs pc + 2 - 2 = nregs pc" "\<not> nregs pc + 2 \<le> 1" by auto
    have a2: "ALIGN_TO (of_nat ((nregs pc + 2) * 8)) 16 + off8 (obj_slots pc) = off8 (frame_slots pc)"
      using o(1,2) True by simp
    note base = unf True n simp_thms if_True if_False r o(1) a2 off8_add off8_uminus
    show ?thesis
    proof (cases "obj_slots pc = 0")
      case z: True
      then have h: "(off8 (obj_slots pc) = 0) = True" "(0 <s off8 (obj_slots pc)) = False"
        using o(3,4) by auto
      have "emit_fn_prologue_epilogue pc st = put_word (stp_word OP_LDP_POST 29 30 31 (off8 (frame_slots pc)))
          (put_prologue (addsub_imm64 OP_ADD_SP_IMM 29 31 (off8 (obj_slots pc)))
            (save_last (off8 (frame_slots pc)) (save_pairs (nregs pc) (off8 (obj_slots pc + 2))
              (put_prologue (stp_word OP_STP_PRE 29 30 31 (off8 (- frame_slots pc))) (st\<lparr>prol := []\<rparr>)))))"
        by (simp only: base h)
      then show ?thesis
        using c n(1) ob assms(2) z True
        by (simp add: rest_emit put_word_upd PROL_CAP_def frame_prol_def frame_epil_def)
    next
      case z: False
      then have h: "(off8 (obj_slots pc) = 0) = False" "(0 <s off8 (obj_slots pc)) = True"
        using o(3,4) by auto
      have "emit_fn_prologue_epilogue pc st = put_word (addsub_imm64 OP_ADD_SP_IMM 31 31 (off8 (frame_slots pc)))
          (put_prologue (addsub_imm64 OP_ADD_SP_IMM 29 31 (off8 (obj_slots pc)))
            (save_last (off8 (frame_slots pc)) (save_pairs (nregs pc) (off8 (obj_slots pc + 2))
              (put_word (stp_word OP_LDP_OFF 29 30 31 (off8 (obj_slots pc)))
                (put_prologue (stp_word OP_STP_OFF 29 30 31 (off8 (obj_slots pc)))
                  (put_prologue (addsub_imm64 OP_SUB_SP_IMM 31 31 (off8 (frame_slots pc))) (st\<lparr>prol := []\<rparr>)))))))"
        by (simp only: base h)
      then show ?thesis
        using c n(1) ob assms(2) z True
        by (simp add: rest_emit put_word_upd PROL_CAP_def frame_prol_def frame_epil_def Let_def)
    qed
  next
    case False
    then have s0: "pc_stack_size pc = 0"
      using sless_small [of "pc_stack_size pc"] assms(1) by (auto simp: has_fp_def frame_fits_def)
    then have z: "obj_slots pc = 0" by (simp add: obj_slots_def)
    then have h: "(off8 (obj_slots pc) = 0) = True" "(0 <s off8 (obj_slots pc)) = False"
      using o(3,4) by auto
    have a2: "ALIGN_TO (of_nat (nregs pc * 8)) 16 + off8 (obj_slots pc) = off8 (frame_slots pc)"
      using o(1,2) False by simp
    have l: "length (rest_words op2 op1 (nregs pc - 2) i) \<le> 6" for op2 op1 i
      using n(1) by (intro rest_length) simp
    have c: "Suc (Suc (length (rest_words op2 op1 (nregs pc - 2) i))) < 64"
      "Suc (length (body st) + length (rest_words op2 op1 (nregs pc - 2) i)) < CODE_CAP"
      "length (body st) + length (rest_words op2 op1 (nregs pc - 2) i) < CODE_CAP" for op2 op1 i
      using assms(2) l [of op2 op1 i] by linarith+
    note base = unf False n simp_thms if_True if_False o(1) a2 h off8_add off8_uminus add_0_right
    consider "nregs pc = 0" | "nregs pc = 1" | "1 < nregs pc" by linarith
    then show ?thesis
    proof cases
      case 1
      then show ?thesis
        using False unfolding unf by (simp add: frame_prol_def frame_epil_def)
    next
      case 2
      then have t: "nregs pc \<noteq> 0" "\<not> 1 < nregs pc" by auto
      have "emit_fn_prologue_epilogue pc st
          = save_last (off8 (frame_slots pc)) (save_pairs (nregs pc) (off8 (obj_slots pc)) (st\<lparr>prol := []\<rparr>))"
        by (simp only: base t)
      then show ?thesis
        using 2 z False assms(2) one_emit [of "st\<lparr>prol := []\<rparr>" "frame_slots pc"]
        by (simp add: PROL_CAP_def frame_prol_def frame_epil_def)
    next
      case 3
      then have t: "(nregs pc = 0) = False" "(1 < nregs pc) = True" by auto
      have "emit_fn_prologue_epilogue pc st = put_word (stp_word OP_LDP_POST (of_nat (CALLEE_START + nregs pc - 1))
            (of_nat (CALLEE_START + nregs pc - 1) - 1) 31 (off8 (frame_slots pc)))
          (save_last (off8 (frame_slots pc)) (save_pairs (nregs pc - 2) (off8 (obj_slots pc + 2))
            (put_prologue (stp_word OP_STP_PRE (of_nat (CALLEE_START + nregs pc - 1))
              (of_nat (CALLEE_START + nregs pc - 1) - 1) 31 (off8 (- frame_slots pc))) (st\<lparr>prol := []\<rparr>))))"
        by (simp only: base t)
      then show ?thesis
        using 3 z False assms(2) c n(1)
        by (simp add: rest_emit put_word_upd PROL_CAP_def frame_prol_def frame_epil_def Let_def)
    qed
  qed
qed

section \<open>The frame on the machine\<close>

definition frame_plan :: "parser_context \<Rightarrow> plan" where
  "frame_plan pc =
    (if has_fp pc then [(29, obj_slots pc), (30, obj_slots pc + 1)] @ rest_plan (nregs pc) (obj_slots pc + 2)
     else rest_plan (nregs pc) 0)"

text \<open>The order in which the epilogue reads the slots back.\<close>

definition unwind_plan :: "parser_context \<Rightarrow> plan" where
  "unwind_plan pc =
    (if obj_slots pc \<noteq> 0 then frame_plan pc else drop 2 (frame_plan pc) @ take 2 (frame_plan pc))"

lemma frame_slots_bounds:
  assumes "frame_fits pc"
  shows "0 \<le> obj_slots pc" "nregs pc \<le> 8" "frame_slots pc \<le> 62"
    "obj_slots pc + int (nregs pc) + (if has_fp pc then 2 else 0) \<le> frame_slots pc"
    "\<not> has_fp pc \<Longrightarrow> obj_slots pc = 0"
proof -
  show "0 \<le> obj_slots pc" "nregs pc \<le> 8" "frame_slots pc \<le> 62"
    using assms by (simp_all add: frame_fits_def obj_slots_def)
  have "k \<le> 2 * ((k + 1) div 2)" for k :: nat by presburger
  from this [of "nregs pc + (if has_fp pc then 2 else 0)"]
  show "obj_slots pc + int (nregs pc) + (if has_fp pc then 2 else 0) \<le> frame_slots pc"
    by (auto simp: frame_slots_def)
  show "\<not> has_fp pc \<Longrightarrow> obj_slots pc = 0"
    using objs_off8(5) [OF assms] by (auto simp: has_fp_def)
qed

lemma distinct_rotate: "distinct (drop k ys @ take k ys) \<longleftrightarrow> distinct ys"
proof -
  have "distinct (drop k ys @ take k ys) \<longleftrightarrow> distinct (take k ys @ drop k ys)"
    by (simp only: distinct_append inf_commute conj_ac)
  then show ?thesis by simp
qed

lemma good_frame_plan:
  assumes "frame_fits pc"
  shows "good_plan (frame_plan pc)" "good_plan (unwind_plan pc)"
    "set (unwind_plan pc) = set (frame_plan pc)" "fst ` set (frame_plan pc) = saved_regs pc"
    "\<And>r i. (r, i) \<in> set (frame_plan pc) \<Longrightarrow> obj_slots pc \<le> i \<and> i < frame_slots pc"
proof -
  note b = frame_slots_bounds [OF assms]
  show bd: "\<And>r i. (r, i) \<in> set (frame_plan pc) \<Longrightarrow> obj_slots pc \<le> i \<and> i < frame_slots pc"
    using b by (auto simp: frame_plan_def dest!: rest_plan_bounds split: if_splits)
  have "29 \<notin> fst ` set (rest_plan (nregs pc) i)" "30 \<notin> fst ` set (rest_plan (nregs pc) i)" for i
    using b(2) by (auto simp: fst_rest_plan)
  moreover have "obj_slots pc \<notin> snd ` set (rest_plan (nregs pc) (obj_slots pc + 2))"
    "obj_slots pc + 1 \<notin> snd ` set (rest_plan (nregs pc) (obj_slots pc + 2))"
    using rest_plan_bounds by fastforce+
  ultimately have d: "distinct (map fst (frame_plan pc))" "distinct (map snd (frame_plan pc))"
    using rest_plan_distinct by (auto simp: frame_plan_def)
  then show "good_plan (frame_plan pc)"
    using bd b(1,3) by (fastforce simp: good_plan_def)
  show s: "set (unwind_plan pc) = set (frame_plan pc)"
  proof -
    have "set (drop 2 xs @ take 2 xs) = set xs" for xs :: plan
      by (metis append_take_drop_id set_append sup_commute)
    then show ?thesis by (simp only: unwind_plan_def split: if_split) auto
  qed
  have "distinct (map fst (unwind_plan pc))" "distinct (map snd (unwind_plan pc))"
    using d distinct_rotate [of 2 "map fst (frame_plan pc)"] distinct_rotate [of 2 "map snd (frame_plan pc)"]
    by (simp_all only: unwind_plan_def map_append drop_map [symmetric] take_map [symmetric] split: if_split)
       (simp_all only: simp_thms)
  then show "good_plan (unwind_plan pc)"
    using bd b(1,3) s by (fastforce simp: good_plan_def)
  show "fst ` set (frame_plan pc) = saved_regs pc"
    using b(2) by (auto simp: frame_plan_def saved_regs_def image_Un fst_rest_plan)
qed

text \<open>The words for register pairs 29 and 30, and for the registers from 19 up.\<close>

lemma small_regs: "small 5 (29 :: u32)" "small 5 (30 :: u32)" "small 5 (19 :: u32)"
    "unat (29 :: u32) = 29" "unat (30 :: u32) = 30" "unat (19 :: u32) = 19"
  by (simp_all add: small_def)

lemma upper_pair:
  assumes "1 < n" and "n \<le> 8"
  shows "of_nat (CALLEE_START + n - 1) = (of_nat (18 + n) :: u32)"
    "of_nat (18 + n) - 1 = (of_nat (17 + n) :: u32)"
    "small 5 (of_nat (18 + n))" "small 5 (of_nat (17 + n))"
    "unat (of_nat (18 + n) :: u32) = 18 + n" "unat (of_nat (17 + n) :: u32) = 17 + n"
    "18 + n < 31" "17 + n < 31"
  using assms callee_reg [of "18 + n"] callee_reg [of "17 + n"]
  by (simp_all only: CALLEE_START_def) simp_all

lemma frame_prol_run:
  assumes "frame_fits pc"
  shows "a64_run (frame_prol pc) m = Some (m\<lparr>
      xr := if has_fp pc then (xr m)(29 := slot (spr m) (obj_slots pc - frame_slots pc)) else xr m,
      spr := slot (spr m) (- frame_slots pc),
      memory := spill (xr m) (slot (spr m) (- frame_slots pc)) (frame_plan pc) (memory m)\<rparr>)"
proof -
  note b = frame_slots_bounds [OF assms]
  define n o' T where "n = nregs pc" and "o' = obj_slots pc" and "T = frame_slots pc"
  note f = n_def [symmetric] o'_def [symmetric] T_def [symmetric]
  have T: "- 64 \<le> - T" "- T < 64" "0 \<le> T" "T < 512" "n \<le> 8" "0 \<le> o'"
    using b by (auto simp: f split: if_splits)
  note p = ldst_pair_xr(1) [of 29 30] ldst_pair_xr(1) [of 29 30 _ 0, unfolded slot_0] small_regs
    wr_sp_def wr_zr_True slot_slot
  show ?thesis
  proof (cases "has_fp pc")
    case True
    have bd: "- 64 \<le> o'" "o' < 64" "o' < 512" "0 \<le> o' + 2" "o' + 2 + int n < 64"
      using b True by (auto simp: f)
    show ?thesis
    proof (cases "o' = 0")
      case z: True
      show ?thesis
        using True z bd T(5) unfolding frame_prol_def frame_plan_def f Let_def
        by (simp add: pair_run(3) [OF T(1,2) small_regs(1,2)] rest_run(1) [of n 2] sp_run(2) [of 0 29] p
            del: a64_run.simps(2))
    next
      case z: False
      show ?thesis
        using True z unfolding frame_prol_def frame_plan_def f Let_def
        by (simp add: pair_run(1) [OF bd(1,2) small_regs(1,2)] rest_run(1) [OF T(5) bd(4,5)]
            sp_run(1) [OF T(3,4) small_31] sp_run(2) [OF T(6) bd(3) small_regs(1)] p diff_add_eq
            del: a64_run.simps(2))
    qed
  next
    case False
    then have z: "o' = 0" using b(5) by (simp add: f)
    consider "n = 0" | "n = 1" | "1 < n" by linarith
    then show ?thesis
    proof cases
      case 1
      then have "T = 0" using False z by (simp add: T_def frame_slots_def n_def o'_def)
      then show ?thesis
        using False 1 z unfolding frame_prol_def frame_plan_def f Let_def
        by (simp add: rest_plan_rec [of 0])
    next
      case 2
      then have "T = 2" using False z by (simp add: T_def frame_slots_def n_def o'_def)
      then show ?thesis
        using False 2 z unfolding frame_prol_def frame_plan_def f Let_def
        by (simp add: rest_plan_rec [of "Suc 0"] CALLEE_START_def one_run(1) small_regs rd_zr_def
            del: a64_run.simps(2))
    next
      case 3
      note u = upper_pair [OF 3 T(5)]
      have "n - 2 \<le> 8" "2 + int (n - 2) < 64" using T(5) by auto
      then show ?thesis
        using False 3 z unfolding frame_prol_def frame_plan_def f Let_def rest_plan_rec [of n] u(1,2)
        by (simp add: pair_run(3) [OF T(1,2) u(3,4)] u(5,6) ldst_pair_xr(1) [OF u(7,8), of _ 0, unfolded slot_0]
            rest_run(1) [of "n - 2" 2, where ws = "[]", simplified] slot_slot del: a64_run.simps(2) of_nat_add)
    qed
  qed
qed

lemma frame_epil_run:
  assumes "frame_fits pc"
  shows "a64_run (frame_epil pc) m = Some (m\<lparr>
      xr := refill (memory m) (spr m) (unwind_plan pc) (xr m), spr := slot (spr m) (frame_slots pc)\<rparr>)"
proof -
  note b = frame_slots_bounds [OF assms]
  define n o' T where "n = nregs pc" and "o' = obj_slots pc" and "T = frame_slots pc"
  note f = n_def [symmetric] o'_def [symmetric] T_def [symmetric]
  have T: "- 64 \<le> T" "T < 64" "0 \<le> T" "T < 512" "n \<le> 8" "0 \<le> o'"
    using b by (auto simp: f split: if_splits)
  note p = ldst_pair_xr(2) [of 29 30] ldst_pair_xr(2) [of 29 30 _ 0, unfolded slot_0] small_regs
    wr_sp_def wr_zr_True slot_slot
  show ?thesis
  proof (cases "has_fp pc")
    case True
    have bd: "- 64 \<le> o'" "o' < 64" "o' < 512" "0 \<le> o' + 2" "o' + 2 + int n < 64"
      using b True by (auto simp: f)
    show ?thesis
    proof (cases "o' = 0")
      case z: True
      show ?thesis
        using True z bd T(5) unfolding frame_epil_def unwind_plan_def frame_plan_def f Let_def
        by (simp add: pair_run(4) [OF T(1,2) small_regs(1,2)] rest_run(2) [of n 2] p
            del: a64_run.simps(2))
    next
      case z: False
      show ?thesis
        using True z unfolding frame_epil_def unwind_plan_def frame_plan_def f Let_def
        by (simp add: pair_run(2) [OF bd(1,2) small_regs(1,2)] rest_run(2) [OF T(5) bd(4,5)]
            sp_run(2) [OF T(3,4) small_31] p del: a64_run.simps(2))
    qed
  next
    case False
    then have z: "o' = 0" using b(5) by (simp add: f)
    consider "n = 0" | "n = 1" | "1 < n" by linarith
    then show ?thesis
    proof cases
      case 1
      then have "T = 0" using False z by (simp add: T_def frame_slots_def n_def o'_def)
      then show ?thesis
        using False 1 z unfolding frame_epil_def unwind_plan_def frame_plan_def f Let_def
        by (simp add: rest_plan_rec [of 0])
    next
      case 2
      then have "T = 2" using False z by (simp add: T_def frame_slots_def n_def o'_def)
      then show ?thesis
        using False 2 z unfolding frame_epil_def unwind_plan_def frame_plan_def f Let_def
        by (simp add: rest_plan_rec [of "Suc 0"] CALLEE_START_def one_run(2) small_regs wr_zr_True
            del: a64_run.simps(2))
    next
      case 3
      note u = upper_pair [OF 3 T(5)]
      have "n - 2 \<le> 8" "2 + int (n - 2) < 64" using T(5) by auto
      then show ?thesis
        using False 3 z unfolding frame_epil_def unwind_plan_def frame_plan_def f Let_def rest_plan_rec [of n] u(1,2)
        by (simp add: pair_run(4) [OF T(1,2) u(3,4)] u(5,6) ldst_pair_xr(2) [OF u(7,8), of _ 0, unfolded slot_0]
            rest_run(2) [of "n - 2" 2] slot_slot del: a64_run.simps(2) of_nat_add)
    qed
  qed
qed

text \<open>
  C2. A frame that fits the encodings is undone exactly: at most eight callee-saved registers, and at most 496 bytes for
  them, the frame record and the objects together. (Larger frames are not: their offsets are cut to the field
  of the instruction.) The prologue lowers the stack pointer by
  the frame, points the frame pointer (when there is one) above the local objects and changes no
  other register. From any later state with that stack pointer in which the save area still holds
  what the prologue stored, the epilogue restores the stack pointer and every callee-saved register
  it used to its value on entry, and changes no other register and no memory.
\<close>

theorem frame_restores:
  assumes "frame_fits pc" and "length (body st) + 10 \<le> CODE_CAP"
  shows "\<exists>m1. a64_run (prol (emit_fn_prologue_epilogue pc st)) m = Some m1
    \<and> spr m1 = slot (spr m) (- frame_slots pc)
    \<and> (has_fp pc \<longrightarrow> xr m1 29 = slot (spr m1) (obj_slots pc))
    \<and> (\<forall>r. r \<noteq> 29 \<or> \<not> has_fp pc \<longrightarrow> xr m1 r = xr m r)
    \<and> (\<forall>m2. spr m2 = spr m1
        \<and> (\<forall>i. obj_slots pc \<le> i \<and> i < frame_slots pc \<longrightarrow>
             mem_read (memory m2) (slot (spr m1) i) 8 = mem_read (memory m1) (slot (spr m1) i) 8)
      \<longrightarrow> a64_run (emitted (emit_fn_prologue_epilogue pc) st) m2
          = Some (m2\<lparr>xr := (\<lambda>r. if r \<in> saved_regs pc then xr m r else xr m2 r), spr := spr m\<rparr>))"
proof -
  note e = frame_emit [OF assms]
  note g = good_frame_plan [OF assms(1)]
  let ?sp = "slot (spr m) (- frame_slots pc)"
  let ?m1 = "m\<lparr>xr := if has_fp pc then (xr m)(29 := slot (spr m) (obj_slots pc - frame_slots pc)) else xr m,
      spr := ?sp, memory := spill (xr m) ?sp (frame_plan pc) (memory m)\<rparr>"
  have R: "a64_run (frame_epil pc) m2
        = Some (m2\<lparr>xr := (\<lambda>r. if r \<in> saved_regs pc then xr m r else xr m2 r), spr := spr m\<rparr>)"
    if "spr m2 = ?sp \<and> (\<forall>i. obj_slots pc \<le> i \<and> i < frame_slots pc \<longrightarrow>
      mem_read (memory m2) (slot ?sp i) 8 = mem_read (spill (xr m) ?sp (frame_plan pc) (memory m)) (slot ?sp i) 8)" for m2
  proof -
    have "refill (memory m2) ?sp (unwind_plan pc) (xr m2) = (\<lambda>r. if r \<in> saved_regs pc then xr m r else xr m2 r)"
      using that refill_spill [OF g(1,2,3), of "memory m2" ?sp "xr m" "memory m" "xr m2"] g(5)
      unfolding g(4) fun_eq_iff by blast
    then show ?thesis using that by (simp add: frame_epil_run [OF assms(1)] slot_slot)
  qed
  have "prol (emit_fn_prologue_epilogue pc st) = frame_prol pc"
    "emitted (emit_fn_prologue_epilogue pc) st = frame_epil pc"
    by (simp_all add: e emitted_def)
  moreover have "spr ?m1 = ?sp" "memory ?m1 = spill (xr m) ?sp (frame_plan pc) (memory m)"
    "has_fp pc \<longrightarrow> xr ?m1 29 = slot ?sp (obj_slots pc)" "\<forall>r. r \<noteq> 29 \<or> \<not> has_fp pc \<longrightarrow> xr ?m1 r = xr m r"
    by (simp_all add: slot_slot algebra_simps)
  ultimately show ?thesis
    using frame_prol_run [OF assms(1), of m] R by (intro exI [of _ ?m1]) (simp only: simp_thms, blast)
qed

definition ex_pc :: parser_context where
  "ex_pc = parser_context0\<lparr>pc_stack_size := 40, pc_calls_fn := True, pc_max_nreg_count := 3, pc_name := ''f''\<rparr>"

lemma ex_pc_fits: "frame_fits ex_pc" "length (body ex_st) + 10 \<le> CODE_CAP" "frame_slots ex_pc = 12"
  by (simp_all add: frame_fits_def ex_pc_def parser_context0_def nregs_def frame_slots_def obj_slots_def has_fp_def
      word_sle_eq ex_st_def a64_init_def CODE_CAP_def)

lemma frame_restores_witness:
  "\<exists>m1. a64_run (prol (emit_fn_prologue_epilogue ex_pc ex_st)) ex_mach = Some m1
    \<and> spr m1 = slot (spr ex_mach) (- 12)"
  using frame_restores [OF ex_pc_fits(1,2), of ex_mach] ex_pc_fits(3) by auto

end
