(* ===== verification/A64_Agg.thy ===== *)
theory A64_Agg
  imports A64_Frame
begin

text \<open>
  Aggregates in the AArch64 back end (\<open>src/alc/bin-aarch64.c\<close>): packing the members of a small
  structure into a register, storing register pieces, and filling memory with zeros.

  An aggregate argument list is the list of its members; the cursor \<open>*i\<close> is a natural number
  and \<open>None\<close> stands for reading through a null base type or past the end of the members.
\<close>

section \<open>Members of an eight-byte structure\<close>

definition emit_stp :: "reg \<Rightarrow> reg \<Rightarrow> reg \<Rightarrow> i64 \<Rightarrow> a64 \<Rightarrow> a64" where
  "emit_stp src1 src2 base offset st =
    put_word (stp_word OP_STP_OFF (reg_no src1) (reg_no src2) (reg_no base) (ucast offset)) st"

function pack_small_values ::
    "tstore \<Rightarrow> member list option \<Rightarrow> agg_member list \<Rightarrow> nat \<Rightarrow> usize \<Rightarrow> usize \<Rightarrow> i64
     \<Rightarrow> (usize \<times> nat \<times> i64) option" where
  "pack_small_values ts members args i first_size packed value =
    (if 2 \<le> packed then Some (packed, i, value)
     else if length args \<le> i + 1 then Some (packed, i + 1, value)
     else case args ! (i + 1) of
         A_VALUE v \<Rightarrow>
          (case (case members of None \<Rightarrow> Some first_size
                 | Some ms \<Rightarrow> if length ms \<le> i + 1 then None
                             else dtype_size ts (m_dtype (ms ! (i + 1)))) of
             None \<Rightarrow> None
           | Some next_size \<Rightarrow>
              if 2 < packed + next_size then Some (packed, i, value)
              else pack_small_values ts members args (i + 1) first_size (packed + next_size)
                     (value OR push_bit (unat (next_size * 8)) v))
       | _ \<Rightarrow> Some (packed, i, value))"
  by pat_completeness auto
termination by (relation "measure (\<lambda>(_, _, args, i, _). length args - i)") auto

declare pack_small_values.simps [simp del]

definition emit_mov_lane :: "reg \<Rightarrow> i64 \<Rightarrow> i64 \<Rightarrow> bool \<Rightarrow> a64 \<Rightarrow> a64" where
  "emit_mov_lane dst chunk offset_bits initialized st =
    (let sf = is64 dst;
         lane = ucast (c_sdiv offset_bits 16);
         base = (if initialized then OP_MOVK else OP_MOVZ) in
     put_word (push_bit 31 sf OR base OR push_bit 21 lane OR push_bit 5 (ucast chunk AND 0xffff)
               OR reg_no dst) st)"

definition emit_member_value ::
    "tstore \<Rightarrow> reg \<Rightarrow> member list option \<Rightarrow> agg_member list \<Rightarrow> nat \<Rightarrow> i64 \<Rightarrow> usize \<Rightarrow> usize \<Rightarrow> bool
     \<Rightarrow> a64 \<Rightarrow> (usize \<times> nat \<times> bool \<times> a64) option" where
  "emit_member_value ts dst0 members args i value0 memb_size offset_bits initialized st =
    (let dst = (if 32 \<le> offset_bits \<and> r_rsize dst0 < 8 then dst0\<lparr>r_rsize := 8\<rparr> else dst0) in
     case (if offset_bits mod 16 = 0
           then pack_small_values ts members args i memb_size memb_size value0
           else Some (memb_size, i, value0)) of
       None \<Rightarrow> None
     | Some (packed, i', value) \<Rightarrow>
        if value = 0 then Some (packed, i', initialized, st)
        else if offset_bits mod 16 \<noteq> 0 then
          (let tmp = reg0\<lparr>r_type := SCRATCH, r_offset := 8, r_rsize := r_rsize dst\<rparr>;
               st1 = emit_mov tmp (push_bit (unat offset_bits) value) st;
               st2 = (if \<not> initialized then emit_mov_reg ts dst tmp st1
                      else emit_orr_reg dst dst tmp st1) in
           Some (packed, i', True, st2))
        else Some (packed, i', True, emit_mov_lane dst value offset_bits initialized st))"

definition emit_member_reg ::
    "tstore \<Rightarrow> reg \<Rightarrow> reg \<Rightarrow> usize \<Rightarrow> usize \<Rightarrow> bool \<Rightarrow> a64 \<Rightarrow> a64" where
  "emit_member_reg ts dst r memb_size offset_bits dst_initialized st =
    (if r_type r = STACK then emit_sub ts dst FP (scast (r_offset r)) st
     else
      let grown = (if r_rsize r < r_rsize dst then r\<lparr>r_rsize := r_rsize dst\<rparr> else r) in
      if offset_bits = 0 then
        (if memb_size < 4 then emit_and_lowbits dst grown (ucast (memb_size * 8)) st
         else emit_mov_reg ts (dst\<lparr>r_rsize := ucast memb_size\<rparr>) r st)
      else
        (let w = memb_size * 8 in
         if dst_initialized then emit_bitfield OP_BFM32 OP_BFM64 dst grown offset_bits w st
         else emit_bitfield OP_UBFM32 OP_UBFM64 dst grown offset_bits w st))"

text \<open>
  The member of the aggregate at position \<open>i\<close>: its size and its offset. For an array the
  member is the element, for a structure the declared one.
\<close>

definition memb_at :: "tstore \<Rightarrow> dtype \<Rightarrow> type_t \<Rightarrow> nat \<Rightarrow> (usize \<times> usize) option" where
  "memb_at ts dt t i =
    (if dk_tag (dtype_outer dt) = DK_ARRAY then Some (ty_size t, of_nat i * ty_size t)
     else if length (ty_members t) \<le> i then None
     else map_option (\<lambda>s. (s, m_offset (ty_members t ! i)))
            (dtype_size ts (m_dtype (ty_members t ! i))))"

record eightbyte =
  eb_index :: nat
  eb_size :: usize
  eb_init :: bool
  eb_st :: a64

text \<open>The loop over the members; \<open>fuel\<close> bounds it by the number of members that are left.\<close>

fun eightbyte_loop ::
    "nat \<Rightarrow> tstore \<Rightarrow> reg \<Rightarrow> dtype \<Rightarrow> type_t \<Rightarrow> agg_member list \<Rightarrow> usize \<Rightarrow> nat \<Rightarrow> usize \<Rightarrow> eightbyte
     \<Rightarrow> eightbyte option" where
  "eightbyte_loop 0 ts dst dt t args limit i base_bits e = Some e"
| "eightbyte_loop (Suc fuel) ts dst dt t args limit i base_bits e =
    (if length args \<le> i then Some e
     else
      let members = (if dk_tag (dtype_outer dt) = DK_ARRAY then None else Some (ty_members t)) in
      case memb_at ts dt t i of None \<Rightarrow> None | Some (memb_size, memb_offset) \<Rightarrow>
      let base_bits' = (if eb_size e = 0 then memb_offset * 8 else base_bits);
          offset_bits = memb_offset * 8 - base_bits' in
      if limit < eb_size e + memb_size then Some e
      else case args ! i of
          A_VALUE v \<Rightarrow>
           (case emit_member_value ts dst members args i v memb_size offset_bits (eb_init e) (eb_st e) of
              None \<Rightarrow> None
            | Some (packed, i', ini, st') \<Rightarrow>
               eightbyte_loop fuel ts dst dt t args limit (i' + 1) base_bits'
                 \<lparr>eb_index = i' + 1, eb_size = eb_size e + packed, eb_init = ini, eb_st = st'\<rparr>)
        | A_REG r \<Rightarrow>
            eightbyte_loop fuel ts dst dt t args limit (i + 1) base_bits'
              \<lparr>eb_index = i + 1, eb_size = eb_size e + memb_size, eb_init = True,
               eb_st = emit_member_reg ts dst r memb_size offset_bits (eb_init e) (eb_st e)\<rparr>
        | _ \<Rightarrow> Some (e\<lparr>eb_st := report_err UnexpectedTag (eb_st e)\<rparr>))"

text \<open>The result: whether \<open>dst\<close> was written, and the new \<open>*index\<close> and \<open>*size\<close>.\<close>

definition emit_eightbyte_struct ::
    "tstore \<Rightarrow> reg \<Rightarrow> dtype \<Rightarrow> agg_member list \<Rightarrow> nat \<Rightarrow> usize \<Rightarrow> usize \<Rightarrow> a64
     \<Rightarrow> (bool \<times> nat \<times> usize \<times> a64) option" where
  "emit_eightbyte_struct ts dst0 dt args index sz limit st =
    (case base_type ts dt of None \<Rightarrow> None | Some t \<Rightarrow>
      let dst = dst0\<lparr>r_rsize := (if 8 < ty_size t then 8 else ucast (ty_size t))\<rparr> in
      map_option (\<lambda>e. (eb_init e, eb_index e, sz + eb_size e, eb_st e))
        (eightbyte_loop (length args - index) ts dst dt t args limit index 0
           \<lparr>eb_index = index, eb_size = 0, eb_init = False, eb_st = st\<rparr>))"

section \<open>Storing pieces of registers\<close>

definition emit_store_eightbytes ::
    "tstore \<Rightarrow> reg \<Rightarrow> i64 \<Rightarrow> reg \<Rightarrow> bool \<Rightarrow> reg \<Rightarrow> bool \<Rightarrow> bool \<Rightarrow> a64 \<Rightarrow> a64" where
  "emit_store_eightbytes ts base offset lo lo_written hi hi_written has_hi st =
    (if has_hi then
       emit_stp (if lo_written then lo\<lparr>r_rsize := 8\<rparr> else XZR)
                (if hi_written then hi\<lparr>r_rsize := 8\<rparr> else XZR) base offset st
     else
       emit_str_reg ts base (if lo_written then lo else lo\<lparr>r_type := RD_NONE\<rparr>) (ucast offset) st)"

definition store_chunk :: "usize \<Rightarrow> u8" where
  "store_chunk n = (if 8 \<le> n then 8 else if 4 \<le> n then 4 else if 2 \<le> n then 2 else 1)"

lemma store_chunk_le: "n \<noteq> 0 \<Longrightarrow> 0 < unat (store_chunk n) \<and> unat (store_chunk n) \<le> unat n"
  by (auto simp: store_chunk_def word_le_nat_alt unat_gt_0 Suc_le_eq)

function store_packed_loop :: "tstore \<Rightarrow> reg \<Rightarrow> i64 \<Rightarrow> reg \<Rightarrow> usize \<Rightarrow> usize \<Rightarrow> a64 \<Rightarrow> a64" where
  "store_packed_loop ts base offset src nbytes pos st =
    (if nbytes = 0 then st
     else
      let chunk = store_chunk nbytes;
          st1 = emit_str_reg ts base (src\<lparr>r_rsize := chunk\<rparr>) (ucast (offset + pos)) st;
          left = nbytes - ucast chunk;
          full = src\<lparr>r_rsize := 8\<rparr>;
          st2 = (if left \<noteq> 0 then emit_lsr_imm full full (ucast chunk * 8) st1 else st1) in
      store_packed_loop ts base offset src left (pos + ucast chunk) st2)"
  by pat_completeness auto
termination
proof (relation "measure (\<lambda>(_, _, _, _, nbytes, _). unat nbytes)")
  fix nbytes :: usize and chunk left
  assume "nbytes \<noteq> 0" and "chunk = store_chunk nbytes" and "left = nbytes - ucast chunk"
  moreover have "unat (ucast (store_chunk nbytes) :: usize) = unat (store_chunk nbytes)"
    by (auto simp: store_chunk_def)
  ultimately have "unat left < unat nbytes"
    using store_chunk_le [of nbytes] by (simp add: unat_sub word_le_nat_alt)
  then show "((ts, base, offset, src, left, p, q), (ts', base', offset', src', nbytes, p', q'))
      \<in> measure (\<lambda>(_, _, _, _, nbytes, _). unat nbytes)" for ts base offset src p q ts' base' offset' src' p' q'
    by simp
qed simp

declare store_packed_loop.simps [simp del]

definition emit_store_packed :: "tstore \<Rightarrow> reg \<Rightarrow> i64 \<Rightarrow> reg \<Rightarrow> usize \<Rightarrow> a64 \<Rightarrow> a64" where
  "emit_store_packed ts base offset src nbytes st = store_packed_loop ts base offset src nbytes 0 st"

section \<open>Filling with zeros\<close>

text \<open>
  The three loops of \<open>emit_zerofill\<close>. The last one runs until the size is used up, whatever the
  access size has become; \<open>None\<close> stands for running for ever.
\<close>

function zero_pairs :: "reg \<Rightarrow> i64 \<Rightarrow> usize \<Rightarrow> a64 \<Rightarrow> i64 \<times> usize \<times> a64" where
  "zero_pairs dst offset sz st =
    (if 16 \<le> sz then zero_pairs dst (offset + 16) (sz - 16) (emit_stp XZR XZR dst offset st)
     else (offset, sz, st))"
  by pat_completeness auto
termination
  by (relation "measure (\<lambda>(_, _, sz, _). unat sz)") (auto simp: unat_sub word_le_nat_alt)

function zero_words :: "tstore \<Rightarrow> reg \<Rightarrow> i64 \<Rightarrow> usize \<Rightarrow> a64 \<Rightarrow> i64 \<times> usize \<times> a64" where
  "zero_words ts dst offset sz st =
    (if 8 \<le> sz then zero_words ts dst (offset + 8) (sz - 8) (emit_str_reg ts dst XZR (ucast offset) st)
     else (offset, sz, st))"
  by pat_completeness auto
termination
  by (relation "measure (\<lambda>(_, _, _, sz, _). unat sz)") (auto simp: unat_sub word_le_nat_alt)

declare zero_pairs.simps [simp del] zero_words.simps [simp del]

function zero_tail :: "tstore \<Rightarrow> reg \<Rightarrow> i64 \<Rightarrow> usize \<Rightarrow> u8 \<Rightarrow> a64 \<Rightarrow> a64 option" where
  "zero_tail ts dst offset sz rsize st =
    (if sz = 0 then Some st
     else if rsize = 0 then None
     else if ucast rsize \<le> sz then
       zero_tail ts dst (offset + ucast rsize) (sz - ucast rsize) (rsize div 2)
         (emit_str_reg ts dst (WZR\<lparr>r_rsize := rsize\<rparr>) (ucast offset) st)
     else zero_tail ts dst offset sz (rsize div 2) st)"
  by pat_completeness auto
termination
  by (relation "measure (\<lambda>(_, _, _, _, rsize, _). unat rsize)")
     (auto simp: unat_div unat_gt_0)

declare zero_tail.simps [simp del]

definition emit_zerofill :: "tstore \<Rightarrow> reg \<Rightarrow> i64 \<Rightarrow> dtype \<Rightarrow> a64 \<Rightarrow> a64 option" where
  "emit_zerofill ts dst offset dt st =
    (case dtype_size ts dt of None \<Rightarrow> None | Some sz \<Rightarrow>
      let (off1, size1, st1) = zero_pairs dst offset sz st;
          (off2, size2, st2) = zero_words ts dst off1 size1 st1 in
      zero_tail ts dst off2 size2 4 st2)"

section \<open>Emitted code as machine steps\<close>

text \<open>
  \<open>runs_to n st st' m m'\<close>: the step from \<open>st\<close> to \<open>st'\<close> appends at most \<open>n\<close> words to the body
  and changes nothing else, and these words take the machine from \<open>m\<close> to \<open>m'\<close>.
\<close>

definition runs_to :: "nat \<Rightarrow> a64 \<Rightarrow> a64 \<Rightarrow> machine \<Rightarrow> machine \<Rightarrow> bool" where
  "runs_to n st st' m m' \<longleftrightarrow> (\<exists>ws. st' = emits st ws \<and> length ws \<le> n \<and> a64_run ws m = Some m')"

lemma runs_to_refl [simp]: "runs_to n st st m m"
  unfolding runs_to_def by (rule exI [of _ "[]"]) simp

lemma runs_to_trans:
  "runs_to n st st1 m m1 \<Longrightarrow> runs_to k st1 st2 m1 m2 \<Longrightarrow> runs_to (n + k) st st2 m m2"
proof -
  assume "runs_to n st st1 m m1" and "runs_to k st1 st2 m1 m2"
  then obtain ws vs where "st1 = emits st ws" "length ws \<le> n" "a64_run ws m = Some m1"
    and "st2 = emits st1 vs" "length vs \<le> k" "a64_run vs m1 = Some m2"
    by (auto simp: runs_to_def)
  then show "runs_to (n + k) st st2 m m2"
    unfolding runs_to_def by (intro exI [of _ "ws @ vs"]) (simp add: a64_run_append)
qed

lemma runs_to_mono: "runs_to n st st' m m' \<Longrightarrow> n \<le> k \<Longrightarrow> runs_to k st st' m m'"
  unfolding runs_to_def using le_trans by metis

lemma runs_to_room: "runs_to n st st' m m' \<Longrightarrow> room (n + k) st \<Longrightarrow> room k st'"
  by (auto simp: runs_to_def room_def)

lemma runs_to_word:
  assumes "room 1 st" and "a64_run (emitted (put_word w) st) m = Some m'"
  shows "runs_to 1 st (put_word w st) m m'"
proof -
  have l: "length (body st) < CODE_CAP" using assms(1) by (simp add: room_def)
  then have "put_word w st = emits st [w]" by (simp add: put_word_def emits_def)
  then show ?thesis
    using assms(2) l unfolding runs_to_def emitted_put_word [OF l] by (intro exI [of _ "[w]"]) simp
qed

lemma runs_to_emitted: "runs_to n st (f st) m m' \<Longrightarrow> a64_run (emitted f st) m = Some m'"
  by (auto simp: runs_to_def emitted_def)

section \<open>Zeros in memory\<close>

definition zero_range :: "u64 \<Rightarrow> nat \<Rightarrow> (u64 \<Rightarrow> u8) \<Rightarrow> (u64 \<Rightarrow> u8)" where
  "zero_range a n mem = (\<lambda>x. if unat (x - a) < n then 0 else mem x)"

lemma mem_write_zero: "mem_write mem a n 0 = zero_range a n mem"
  by (auto simp: mem_write_def zero_range_def)

lemma range_split:
  fixes x a :: u64
  assumes "k + n < 2 ^ 64"
  shows "unat (x - a) < k + n \<longleftrightarrow> unat (x - a) < k \<or> unat (x - (a + of_nat k)) < n"
    and "unat (x - a) < k \<Longrightarrow> \<not> unat (x - (a + of_nat k)) < n"
proof -
  define y where "y = x - a"
  have u: "unat (of_nat k :: u64) = k"
    using assms by (simp add: unsigned_of_nat take_bit_nat_eq_self)
  have f: "unat (y - of_nat k) = (if k \<le> unat y then unat y - k else unat y + 2 ^ 64 - k)"
    unfolding unat_sub_if_size u word_size by simp
  have e: "x - (a + of_nat k) = y - of_nat k" by (simp add: y_def)
  have "unat (y - of_nat k) < n \<and> k \<le> unat y \<longleftrightarrow> k \<le> unat y \<and> unat y < k + n"
    and "\<not> k \<le> unat y \<Longrightarrow> \<not> unat (y - of_nat k) < n"
    unfolding f using assms by auto
  then show "unat (x - a) < k + n \<longleftrightarrow> unat (x - a) < k \<or> unat (x - (a + of_nat k)) < n"
    and "unat (x - a) < k \<Longrightarrow> \<not> unat (x - (a + of_nat k)) < n"
    unfolding e y_def [symmetric] by linarith+
qed

lemma zero_range_join:
  "k + n < 2 ^ 64 \<Longrightarrow> zero_range (a + of_nat k) n (zero_range a k mem) = zero_range a (k + n) mem"
  using range_split(1) [of k n] by (auto simp: zero_range_def fun_eq_iff)

lemma zero_range_0 [simp]: "zero_range a 0 mem = mem"
  by (simp add: zero_range_def)

text \<open>The machine after a range above the base register has been cleared.\<close>

definition cleared :: "reg \<Rightarrow> int \<Rightarrow> nat \<Rightarrow> machine \<Rightarrow> machine" where
  "cleared dst i n m = m\<lparr>memory := zero_range (rd_sp m (rno dst) + word_of_int i) n (memory m)\<rparr>"

lemma cleared_0 [simp]: "cleared dst i 0 m = m"
  by (simp add: cleared_def)

lemma rd_sp_mem [simp]: "rd_sp (m\<lparr>memory := mm\<rparr>) k = rd_sp m k"
  by (simp add: rd_sp_def)

lemma cleared_join:
  "k + n < 2 ^ 64 \<Longrightarrow> cleared dst (i + int k) n (cleared dst i k m) = cleared dst i (k + n) m"
  using zero_range_join [of k n "rd_sp m (rno dst) + word_of_int i" "memory m"]
  by (simp add: cleared_def rd_sp_mem add.assoc)

lemma sint_64: "- (2 ^ 63) \<le> i \<Longrightarrow> i < 2 ^ 63 \<Longrightarrow> sint (word_of_int i :: u64) = i"
  by (simp add: sint_sbintrunc' signed_take_bit_int_eq_self)

lemma ucast_word_of_int: "(ucast (word_of_int i :: u64) :: i32) = word_of_int i"
  by (intro word_eq_by_bits) (simp add: bit_simps)

lemma offset_small:
  assumes "- 256 \<le> i" and "i \<le> 255"
  shows "scast (ucast (word_of_int i :: u64) :: i32) = (word_of_int i :: u64)"
    and "offset_reach r (word_of_int i)"
proof -
  have "sint (word_of_int i :: i32) = i" using assms by (intro sint_small_int) auto
  then show "scast (ucast (word_of_int i :: u64) :: i32) = (word_of_int i :: u64)"
    by (simp add: scast_eq ucast_word_of_int)
  have "sint (word_of_int i :: u64) = i" using assms by (intro sint_64) auto
  then show "offset_reach r (word_of_int i)" using assms by (simp add: offset_reach_def)
qed

lemma str_zero_run:
  assumes "room 1 st" and "enc dst" and "- 256 \<le> i" and "i \<le> 255" and "enc z" and "rno z = 31"
    and "ldst_size z \<noteq> 0"
  shows "runs_to 1 st (emit_str_reg ts dst z (ucast (word_of_int i :: u64)) st) m
      (cleared dst i (access_bytes z) m)"
proof -
  have l: "length (body st) < CODE_CAP" using assms(1) by (simp add: room_def)
  have e: "offset_seen z (word_of_int i) = word_of_int i"
    using offset_small(2) [OF assms(3,4)] by (simp add: offset_seen_exact)
  have "a64_run (emitted (mem_op ts False z dst (word_of_int i)) st) m = Some (cleared dst i (access_bytes z) m)"
    using mem_op_run [OF l assms(5,2,7), of ts False "word_of_int i" m] assms(6) e
    by (simp add: load_kind_values ldst_def rd_zr_def mem_write_zero cleared_def access_bytes_def Let_def)
  then show ?thesis
    unfolding emit_str_reg_def offset_small(1) [OF assms(3,4)]
    unfolding mem_op_word [OF assms(7)] by (rule runs_to_word [OF assms(1)])
qed

lemma xzr_regs: "rno XZR = 31" "enc XZR" "rno (WZR\<lparr>r_rsize := n\<rparr>) = 31" "enc (WZR\<lparr>r_rsize := n\<rparr>)"
    "ldst_size XZR = 8" "access_bytes XZR = 8" "ldst_size (WZR\<lparr>r_rsize := n\<rparr>) = ucast n"
  by (simp_all add: XZR_def WZR_def enc_def small_def reg_no_def ldst_size_def reg0_def
      dtype0_def dtype_tryget_addr_def access_bytes_def size_log_def Let_def)

lemma wzr_access: "access_bytes (WZR\<lparr>r_rsize := 4\<rparr>) = 4" "access_bytes (WZR\<lparr>r_rsize := 2\<rparr>) = 2"
    "access_bytes (WZR\<lparr>r_rsize := 1\<rparr>) = 1"
  by (simp_all add: access_bytes_def size_log_def xzr_regs word_le_nat_alt)

lemma stp_zero_run:
  assumes "room 1 st" and "enc dst" and "- 64 \<le> j" and "j < 32"
  shows "runs_to 1 st (emit_stp XZR XZR dst (word_of_int (8 * j)) st) m (cleared dst (8 * j) 16 m)"
proof -
  have l: "length (body st) < CODE_CAP" using assms(1) by (simp add: room_def)
  have o: "(ucast (word_of_int (8 * j) :: u64) :: i32) = off8 j"
    unfolding off8_def by (rule ucast_word_of_int)
  have j: "j < 64" using assms(4) by simp
  note d = decode_pair(1) [OF xzr_regs(2) [unfolded enc_def] xzr_regs(2) [unfolded enc_def]
      assms(2) [unfolded enc_def] imm7(2), of j]
  have a: "rd_sp m (rno dst) + push_bit 3 (word_of_int j) = rd_sp m (rno dst) + word_of_int (8 * j)"
    by (simp add: push_bit_eq_mult)
  have z: "mem_write (mem_write mem a 8 0) (a + 8) 8 0 = zero_range a 16 mem" for mem and a :: u64
    using zero_range_join [of 8 8 a mem] by (simp add: mem_write_zero)
  have "a64_run (emitted (put_word (stp_word OP_STP_OFF (reg_no XZR) (reg_no XZR) (reg_no dst) (off8 j))) st) m
      = Some (cleared dst (8 * j) 16 m)"
    unfolding stp_word_imm7 [OF assms(3) j] emitted_put_word [OF l]
    using d imm7(1) [OF assms(3) j]
    by (simp add: xzr_regs mode_addr_def mode_back_def ldst_pair_def rd_zr_def a z cleared_def Let_def)
  then show ?thesis
    unfolding emit_stp_def o by (rule runs_to_word [OF assms(1)])
qed

text \<open>The loops, each with the part of the range it clears.\<close>

lemma of_nat_less_16:
  assumes "n < 2 ^ 63"
  shows "unat (of_nat n :: u64) = n" and "k \<le> n \<Longrightarrow> (of_nat n :: u64) - of_nat k = of_nat (n - k)"
proof -
  show "unat (of_nat n :: u64) = n" using assms by (simp add: unsigned_of_nat take_bit_nat_eq_self)
  show "k \<le> n \<Longrightarrow> (of_nat n :: u64) - of_nat k = of_nat (n - k)" by simp
qed

lemma zero_pairs_run:
  assumes "room n st" and "enc dst" and "- 64 \<le> j" and "8 * j + int n \<le> 256" and "n < 2 ^ 63"
  shows "\<exists>st'. zero_pairs dst (word_of_int (8 * j)) (of_nat n) st
        = (word_of_int (8 * j + 16 * int (n div 16)), of_nat (n mod 16), st')
      \<and> runs_to (16 * (n div 16)) st st' m (cleared dst (8 * j) (16 * (n div 16)) m)"
  using assms
proof (induction n arbitrary: j st m rule: less_induct)
  case (less n)
  have u: "16 \<le> (of_nat n :: u64) \<longleftrightarrow> 16 \<le> n"
    using of_nat_less_16(1) [OF less.prems(5)] by (simp add: word_le_nat_alt)
  show ?case
  proof (cases "16 \<le> n")
    case True
    let ?st = "emit_stp XZR XZR dst (word_of_int (8 * j)) st"
    have r: "runs_to 1 st ?st m (cleared dst (8 * j) 16 m)"
      using less.prems True by (intro stp_zero_run) (auto intro: room_less)
    have k: "n div 16 = Suc ((n - 16) div 16)" "(n - 16) mod 16 = n mod 16"
      using True by (simp_all add: le_div_geq le_mod_geq)
    have e: "word_of_int (8 * j) + 16 = (word_of_int (8 * (j + 2)) :: u64)" "(of_nat n :: u64) - 16 = of_nat (n - 16)"
      using of_nat_less_16(2) [OF less.prems(5) True] by simp_all
    have "room (1 + (n - 16)) st" by (rule room_less [OF less.prems(1)]) (use True in simp)
    then have p: "room (n - 16) ?st" by (rule runs_to_room [OF r])
    have q: "n - 16 < n" "- 64 \<le> j + 2" "8 * (j + 2) + int (n - 16) \<le> 256" "n - 16 < 2 ^ 63"
      using less.prems(3-5) True by auto
    then obtain st' where st': "zero_pairs dst (word_of_int (8 * (j + 2))) (of_nat (n - 16)) ?st
        = (word_of_int (8 * (j + 2) + 16 * int ((n - 16) div 16)), of_nat ((n - 16) mod 16), st')"
      and s: "runs_to (16 * ((n - 16) div 16)) ?st st' (cleared dst (8 * j) 16 m)
        (cleared dst (8 * (j + 2)) (16 * ((n - 16) div 16)) (cleared dst (8 * j) 16 m))"
      using less.IH [OF q(1) p less.prems(2) q(2-4)] by blast
    have "cleared dst (8 * (j + 2)) (16 * ((n - 16) div 16)) (cleared dst (8 * j) 16 m)
        = cleared dst (8 * j) (16 * (n div 16)) m"
      using cleared_join [of 16 "16 * ((n - 16) div 16)" dst "8 * j" m] less.prems(5)
      unfolding k(1) by (simp add: algebra_simps)
    then have "runs_to (16 * (n div 16)) st st' m (cleared dst (8 * j) (16 * (n div 16)) m)"
      using runs_to_trans [OF r s] unfolding k(1) by (auto elim: runs_to_mono)
    moreover have z: "zero_pairs dst (word_of_int (8 * j)) (of_nat n) st
        = zero_pairs dst (word_of_int (8 * (j + 2))) (of_nat (n - 16)) ?st"
      unfolding zero_pairs.simps [of dst "word_of_int (8 * j)"] e using True u by simp
    moreover have "8 * (j + 2) + 16 * int ((n - 16) div 16) = 8 * j + 16 * int (n div 16)"
      unfolding k(1) by simp
    then have "zero_pairs dst (word_of_int (8 * j)) (of_nat n) st
        = (word_of_int (8 * j + 16 * int (n div 16)), of_nat (n mod 16), st')"
      by (simp only: z st' k(2))
    ultimately show ?thesis by blast
  next
    case False
    then show ?thesis using u by (subst zero_pairs.simps) simp
  qed
qed

lemma zero_words_run:
  assumes "room n st" and "enc dst" and "- 256 \<le> i" and "i + int n \<le> 256" and "n < 16"
  shows "\<exists>st'. zero_words ts dst (word_of_int i) (of_nat n) st
        = (word_of_int (i + 8 * int (n div 8)), of_nat (n mod 8), st')
      \<and> runs_to (8 * (n div 8)) st st' m (cleared dst i (8 * (n div 8)) m)"
proof (cases "8 \<le> n")
  case True
  have u: "unat (of_nat n :: u64) = n" using assms(5) by (intro of_nat_less_16) simp
  have d: "n div 8 = 1" "n mod 8 = n - 8" using True assms(5) by presburger+
  have e: "word_of_int i + 8 = (word_of_int (i + 8) :: u64)" "(of_nat n :: u64) - 8 = of_nat (n - 8)"
    using of_nat_less_16(2) [of n 8] assms(5) True by simp_all
  have v: "unat (of_nat (n - 8) :: u64) = n - 8" using assms(5) by (intro of_nat_less_16) simp
  have "zero_words ts dst (word_of_int i) (of_nat n) st
      = (word_of_int (i + 8), of_nat (n - 8), emit_str_reg ts dst XZR (ucast (word_of_int i :: u64)) st)"
  proof -
    have "8 \<le> (of_nat n :: u64)" "\<not> 8 \<le> (of_nat (n - 8) :: u64)"
      using True assms(5) by (simp_all only: word_le_nat_alt u v, simp_all)
    then show ?thesis
      unfolding zero_words.simps [of ts dst "word_of_int i"] e
        zero_words.simps [of ts dst "word_of_int (i + 8)"] by (simp only: if_True if_False)
  qed
  moreover have "runs_to 1 st (emit_str_reg ts dst XZR (ucast (word_of_int i :: u64)) st) m (cleared dst i 8 m)"
  proof -
    have "room 1 st" by (rule room_less [OF assms(1)]) (use True in simp)
    then show ?thesis
      using str_zero_run [of st dst i XZR ts m] assms True by (simp add: xzr_regs)
  qed
  ultimately show ?thesis unfolding d by (auto elim: runs_to_mono)
next
  case False
  have "unat (of_nat n :: u64) = n" using assms(5) by (intro of_nat_less_16) simp
  then show ?thesis using False by (subst zero_words.simps) (simp add: word_le_nat_alt)
qed

lemma zero_tail_step:
  assumes "room n st" and "enc dst" and "- 256 \<le> i" and "i + int n \<le> 256" and "n < 8" and "n \<noteq> 0"
    and "r = 4 \<or> r = 2 \<or> r = 1" and "k = unat r"
  shows "k \<le> n \<Longrightarrow> \<exists>st'. zero_tail ts dst (word_of_int i) (of_nat n) r st
        = zero_tail ts dst (word_of_int (i + int k)) (of_nat (n - k)) (r div 2) st'
      \<and> runs_to k st st' m (cleared dst i k m) \<and> room (n - k) st'"
    and "\<not> k \<le> n \<Longrightarrow> zero_tail ts dst (word_of_int i) (of_nat n) r st
        = zero_tail ts dst (word_of_int i) (of_nat n) (r div 2) st"
proof -
  have u: "unat (of_nat n :: u64) = n" using assms(5) by (intro of_nat_less_16) simp
  have nz: "(of_nat n :: u64) \<noteq> 0" using u assms(6) by (metis unat_0)
  have rz: "r \<noteq> 0" using assms(7) by auto
  have k: "ucast r = (of_nat k :: u64)" "unat (ucast r :: u64) = k" "1 \<le> k" using assms(7,8) by auto
  have le: "ucast r \<le> (of_nat n :: u64) \<longleftrightarrow> k \<le> n" by (simp add: word_le_nat_alt u k(2))
  show "zero_tail ts dst (word_of_int i) (of_nat n) r st
        = zero_tail ts dst (word_of_int i) (of_nat n) (r div 2) st" if "\<not> k \<le> n"
    using that nz rz le unfolding zero_tail.simps [of ts dst "word_of_int i" "of_nat n" r] by simp
  show "\<exists>st'. zero_tail ts dst (word_of_int i) (of_nat n) r st
        = zero_tail ts dst (word_of_int (i + int k)) (of_nat (n - k)) (r div 2) st'
      \<and> runs_to k st st' m (cleared dst i k m) \<and> room (n - k) st'" if kn: "k \<le> n"
  proof -
    let ?st = "emit_str_reg ts dst (WZR\<lparr>r_rsize := r\<rparr>) (ucast (word_of_int i :: u64)) st"
    have "room 1 st" by (rule room_less [OF assms(1)]) (use kn k(3) in simp)
    then have "runs_to 1 st ?st m (cleared dst i (access_bytes (WZR\<lparr>r_rsize := r\<rparr>)) m)"
      using assms kn k(3) by (intro str_zero_run) (auto simp: xzr_regs)
    moreover have "access_bytes (WZR\<lparr>r_rsize := r\<rparr>) = k" using assms(7,8) wzr_access by auto
    ultimately have r: "runs_to 1 st ?st m (cleared dst i k m)" by simp
    have "room (1 + (n - k)) st" by (rule room_less [OF assms(1)]) (use kn k(3) in simp)
    then have "room (n - k) ?st" by (rule runs_to_room [OF r])
    moreover have "word_of_int i + of_nat k = (word_of_int (i + int k) :: u64)"
      "(of_nat n :: u64) - of_nat k = of_nat (n - k)" using kn by simp_all
    then have "zero_tail ts dst (word_of_int i) (of_nat n) r st
        = zero_tail ts dst (word_of_int (i + int k)) (of_nat (n - k)) (r div 2) ?st"
      using kn nz rz le unfolding zero_tail.simps [of ts dst "word_of_int i" "of_nat n" r] k(1) by simp
    ultimately show ?thesis using r k(3) by (blast intro: runs_to_mono)
  qed
qed

lemma zero_tail_run:
  assumes "room n st" and "enc dst" and "- 256 \<le> i" and "i + int n \<le> 256"
    and "n < 2 * 2 ^ t" and "t \<le> 2" and "r = of_nat (2 ^ t)"
  shows "\<exists>st'. zero_tail ts dst (word_of_int i) (of_nat n) r st = Some st'
      \<and> runs_to n st st' m (cleared dst i n m)"
  using assms
proof (induction t arbitrary: n st i m r)
  case 0
  then have r: "r = 4 \<or> r = 2 \<or> r = 1" "1 = unat r" "n = 0 \<or> n = 1" by auto
  show ?case
  proof (cases "n = 0")
    case True
    then show ?thesis by (subst zero_tail.simps) simp
  next
    case False
    then have n: "n = 1" using r(3) by simp
    obtain st' where "zero_tail ts dst (word_of_int i) (of_nat n) r st
          = zero_tail ts dst (word_of_int (i + int 1)) (of_nat (n - 1)) (r div 2) st'"
        and "runs_to 1 st st' m (cleared dst i 1 m)"
      using zero_tail_step(1) [OF "0.prems"(1-4) _ _ r(1,2)] n by fastforce
    then show ?thesis using n by (subst (asm) (2) zero_tail.simps) simp
  qed
next
  case (Suc t)
  define k where "k = unat r"
  have r: "r = 4 \<or> r = 2 \<or> r = 1" "k = unat r" "k = 2 * 2 ^ t" "r div 2 = of_nat (2 ^ t)"
  proof -
    have "t = 0 \<or> t = 1" using Suc.prems(6) by linarith
    then show "r = 4 \<or> r = 2 \<or> r = 1" "k = unat r" "k = 2 * 2 ^ t" "r div 2 = of_nat (2 ^ t)"
      using Suc.prems(7) by (auto simp: k_def)
  qed
  show ?case
  proof (cases "n = 0")
    case True
    then show ?thesis by (subst zero_tail.simps) simp
  next
    case False
    have "t = 0 \<or> t = 1" using Suc.prems(6) by linarith
    then have n: "n < 8" using Suc.prems(5) by auto
    show ?thesis
    proof (cases "k \<le> n")
      case True
      obtain st' where a: "zero_tail ts dst (word_of_int i) (of_nat n) r st
          = zero_tail ts dst (word_of_int (i + int k)) (of_nat (n - k)) (r div 2) st'"
        and b: "runs_to k st st' m (cleared dst i k m)" and c: "room (n - k) st'"
        using zero_tail_step(1) [OF Suc.prems(1-4) n False r(1,2) True] by blast
      have p: "- 256 \<le> i + int k" "i + int k + int (n - k) \<le> 256" "n - k < 2 * 2 ^ t" "t \<le> 2"
      proof -
        show "- 256 \<le> i + int k" using Suc.prems(3) by linarith
        show "i + int k + int (n - k) \<le> 256" using Suc.prems(4) True by linarith
        show "n - k < 2 * 2 ^ t" "t \<le> 2" using Suc.prems(5,6) r(3) by auto
      qed
      obtain st'' where d: "zero_tail ts dst (word_of_int (i + int k)) (of_nat (n - k)) (r div 2) st' = Some st''"
        and e: "runs_to (n - k) st' st'' (cleared dst i k m) (cleared dst (i + int k) (n - k) (cleared dst i k m))"
        using Suc.IH [OF c Suc.prems(2) p r(4)] by blast
      have "cleared dst (i + int k) (n - k) (cleared dst i k m) = cleared dst i n m"
        using cleared_join [of k "n - k" dst i m] n True by simp
      then show ?thesis using a d runs_to_trans [OF b e] True by auto
    next
      case gt: False
      have "n < 2 * 2 ^ t" "t \<le> 2" using gt r(3) Suc.prems(6) by auto
      then show ?thesis
        using Suc.IH [OF Suc.prems(1-4) _ _ r(4)] zero_tail_step(2) [OF Suc.prems(1-4) n False r(1,2) gt] by simp
    qed
  qed
qed

text \<open>
  C23. Zero-filling an object terminates and clears exactly its bytes: after the emitted code, the
  bytes from the base plus the offset up to the size of the type are zero and every other byte and
  register is unchanged. The offset and the end of the object have to be within 256 bytes of the
  base, and an object of sixteen bytes or more has to start at a multiple of eight.
\<close>

theorem emit_zerofill_clears:
  assumes "dtype_size ts dt = Some (of_nat n)" and "room n st" and "enc dst"
    and "- 256 \<le> i" and "i + int n \<le> 256" and "16 \<le> n \<Longrightarrow> 8 dvd i"
  shows "\<exists>st'. emit_zerofill ts dst (word_of_int i) dt st = Some st'
    \<and> runs_to n st st' m (m\<lparr>memory := zero_range (rd_sp m (rno dst) + word_of_int i) n (memory m)\<rparr>)"
proof -
  have n: "n < 2 ^ 63" "n mod 16 < 16" "n mod 16 mod 8 < 8" using assms(4,5) by auto
  define p w t where "p = 16 * (n div 16)" and "w = 8 * (n mod 16 div 8)" and "t = n mod 16 mod 8"
  have sum: "p + (w + t) = n" by (simp add: p_def w_def t_def)
  have b: "i + int p + int (w + t) \<le> 256" "i + int p + int w + int t \<le> 256"
    "- 256 \<le> i + int p" "- 256 \<le> i + int p + int w"
    using assms(4,5) sum by linarith+
  obtain st1 where a: "zero_pairs dst (word_of_int i) (of_nat n) st
      = (word_of_int (i + int p), of_nat (n mod 16), st1)"
    and r1: "runs_to p st st1 m (cleared dst i p m)"
  proof (cases "16 \<le> n")
    case True
    then obtain j where j: "i = 8 * j" using assms(6) by (auto elim: dvdE)
    then show ?thesis
      using zero_pairs_run [of n st dst j m] assms(2-5) n(1) that by (auto simp: p_def)
  next
    case False
    have "unat (of_nat n :: u64) = n" using n(1) by (rule of_nat_less_16)
    then show ?thesis
      using False that [of st] by (simp add: zero_pairs.simps [of dst "word_of_int i"] p_def word_le_nat_alt)
  qed
  have "room (p + (w + t)) st" using assms(2) sum by simp
  then have m1: "room (w + t) st1" by (rule runs_to_room [OF r1])
  have e: "w + t = n mod 16" by (simp add: w_def t_def)
  obtain st2 where c: "zero_words ts dst (word_of_int (i + int p)) (of_nat (n mod 16)) st1
      = (word_of_int (i + int p + int w), of_nat t, st2)"
    and r2: "runs_to w st1 st2 (cleared dst i p m) (cleared dst (i + int p) w (cleared dst i p m))"
    using zero_words_run [OF m1 assms(3) b(3,1), of ts "cleared dst i p m"] e n(2) by (auto simp: w_def t_def)
  have m2: "room t st2" using m1 by (rule runs_to_room [OF r2])
  obtain st3 where d: "zero_tail ts dst (word_of_int (i + int p + int w)) (of_nat t) 4 st2 = Some st3"
    and r3: "runs_to t st2 st3 (cleared dst (i + int p) w (cleared dst i p m))
      (cleared dst (i + int p + int w) t (cleared dst (i + int p) w (cleared dst i p m)))"
    using zero_tail_run [OF m2 assms(3) b(4,2), of 2 4 ts] n(3) by (auto simp: t_def)
  have "cleared dst (i + int p + int w) t (cleared dst (i + int p) w (cleared dst i p m)) = cleared dst i n m"
    using cleared_join [of p w dst i m] cleared_join [of "p + w" t dst i m] sum n(1)
    by (simp add: add.assoc)
  then have "runs_to n st st3 m (cleared dst i n m)"
    using runs_to_trans [OF r1 runs_to_trans [OF r2 r3]] sum by simp
  then show ?thesis
    using a c d assms(1) by (auto simp: emit_zerofill_def cleared_def)
qed

definition ex_blob :: dtype where
  "ex_blob = \<lparr>d_base = Some 1, d_decl = [\<lparr>dk_tag = DK_ARRAY, dk_amount = 7\<rparr>]\<rparr>"

lemma emit_zerofill_clears_witness:
  "\<exists>st'. emit_zerofill ex_ts FP (word_of_int (- 40)) ex_blob ex_st = Some st'
    \<and> runs_to 28 ex_st st' ex_mach
        (ex_mach\<lparr>memory := zero_range (rd_sp ex_mach 29 + word_of_int (- 40)) 28 (memory ex_mach)\<rparr>)"
proof -
  have "dtype_size ex_ts ex_blob = Some (of_nat 28)"
    by (simp add: dtype_size_def ex_blob_def base_type_def)
  moreover have "room 28 ex_st" "enc FP" "rno FP = 29"
    by (simp_all add: room_def ex_st_def a64_init_def CODE_CAP_def enc_def FP_def small_def)
  ultimately show ?thesis
    using emit_zerofill_clears [of ex_ts ex_blob 28 ex_st FP "- 40" ex_mach] by simp
qed

section \<open>Storing a register in pieces\<close>

lemma mem_write_join:
  fixes a :: u64
  assumes "k + n \<le> 8"
  shows "mem_write (mem_write mem a k v) (a + of_nat k) n (drop_bit (8 * k) v) = mem_write mem a (k + n) v"
proof
  fix x
  define y where "y = unat (x - a)"
  have b: "k + n < 2 ^ 64" "k < 2 ^ 64" using assms by simp_all
  have u: "unat (of_nat k :: u64) = k" using b(2) by (simp add: unsigned_of_nat take_bit_nat_eq_self)
  have z: "unat (x - (a + of_nat k)) = y - k" if "k \<le> y"
  proof -
    have "x - (a + of_nat k) = (x - a) - of_nat k" by simp
    moreover have "of_nat k \<le> x - a" using that u by (simp add: word_le_nat_alt y_def)
    ultimately show ?thesis using u by (simp only: unat_sub y_def)
  qed
  have r: "y < k + n \<longleftrightarrow> y < k \<or> unat (x - (a + of_nat k)) < n"
    using range_split(1) [OF b(1)] by (simp add: y_def)
  show "mem_write (mem_write mem a k v) (a + of_nat k) n (drop_bit (8 * k) v) x = mem_write mem a (k + n) v x"
  proof (cases "y < k")
    case True
    then have "\<not> unat (x - (a + of_nat k)) < n" using range_split(2) [OF b(1)] by (simp add: y_def)
    then show ?thesis using True r by (simp add: mem_write_def y_def)
  next
    case False
    then have "drop_bit (8 * unat (x - (a + of_nat k))) (drop_bit (8 * k) v) = drop_bit (8 * y) v"
      by (simp add: z drop_bit_drop_bit algebra_simps)
    then show ?thesis using False r by (auto simp: mem_write_def y_def [symmetric])
  qed
qed

definition piece_of :: "reg \<Rightarrow> bool" where
  "piece_of src \<longleftrightarrow> enc src \<and> rno src \<noteq> 31 \<and> dtype_tryget_addr (r_dtype src) = 0"

lemma sized_reg: "reg_no (src\<lparr>r_rsize := c\<rparr>) = reg_no src" "enc (src\<lparr>r_rsize := c\<rparr>) = enc src"
  by (simp_all add: reg_no_def enc_def split: register_dst.split)

lemma sized_piece:
  assumes "piece_of src" and "c \<in> {1, 2, 4, 8}"
  shows "ldst_size (src\<lparr>r_rsize := c\<rparr>) \<noteq> 0" "access_bytes (src\<lparr>r_rsize := c\<rparr>) = unat c"
    "wide (src\<lparr>r_rsize := 8\<rparr>)"
  using assms by (auto simp: piece_of_def ldst_size_def access_bytes_def size_log_def Let_def
      word_le_nat_alt wide_def is64_def)

lemma piece_run:
  assumes "room 1 st" and "enc base" and "piece_of src" and "c \<in> {1, 2, 4, 8}"
    and "- 256 \<le> i" and "i \<le> 255"
  shows "runs_to 1 st (emit_str_reg ts base (src\<lparr>r_rsize := c\<rparr>) (ucast (word_of_int i :: u64)) st) m
    (m\<lparr>memory := mem_write (memory m) (rd_sp m (rno base) + word_of_int i) (unat c) (xr m (rno src))\<rparr>)"
proof -
  let ?r = "src\<lparr>r_rsize := c\<rparr>"
  have l: "length (body st) < CODE_CAP" using assms(1) by (simp add: room_def)
  have e: "offset_seen ?r (word_of_int i) = word_of_int i"
    using offset_small(2) [OF assms(5,6)] by (simp add: offset_seen_exact)
  have r: "enc ?r" "rno ?r = rno src" using assms(3) by (simp_all add: sized_reg piece_of_def)
  note sz = sized_piece [OF assms(3,4)]
  have "a64_run (emitted (mem_op ts False ?r base (word_of_int i)) st) m = Some
      (m\<lparr>memory := mem_write (memory m) (rd_sp m (rno base) + word_of_int i) (unat c) (xr m (rno src))\<rparr>)"
    using mem_op_run [OF l r(1) assms(2) sz(1), of ts False "word_of_int i" m] assms(3) e sz(2)
    by (simp add: r(2) load_kind_values ldst_def rd_zr_def access_bytes_def Let_def piece_of_def)
  then show ?thesis
    unfolding emit_str_reg_def offset_small(1) [OF assms(5,6)]
    unfolding mem_op_word [OF sz(1)] by (rule runs_to_word [OF assms(1)])
qed

lemma lsr_run:
  assumes "room 1 st" and "piece_of src" and "s < 64"
  shows "runs_to 1 st (emit_lsr_imm (src\<lparr>r_rsize := 8\<rparr>) (src\<lparr>r_rsize := 8\<rparr>) (of_nat s) st) m
    (m\<lparr>xr := (xr m)(rno src := drop_bit s (xr m (rno src)))\<rparr>)"
proof -
  let ?r = "src\<lparr>r_rsize := 8\<rparr>"
  have l: "length (body st) < CODE_CAP" using assms(1) by (simp add: room_def)
  have r: "enc ?r" "rno ?r = rno src" "wide ?r" "rno src \<noteq> 31"
    using assms(2) sized_piece(3) [OF assms(2), of 8] by (simp_all add: sized_reg piece_of_def)
  have "unat (of_nat s :: u64) = s" using assms(3) by (simp add: unsigned_of_nat take_bit_nat_eq_self)
  then have "s = unat (of_nat s :: u64) mod width (wide ?r)" using r(3) assms(3) by (simp add: width_def)
  from shift_run [OF l r(1,1) this, of m]
  have "a64_run (emitted (emit_lsr_imm ?r ?r (of_nat s)) st) m
      = Some (m\<lparr>xr := (xr m)(rno src := drop_bit s (xr m (rno src)))\<rparr>)"
    using r(2-4) by (simp add: wr_zr_True rd_zr_def)
  note run = this
  obtain w where w: "emit_lsr_imm ?r ?r (of_nat s) = put_word w"
    unfolding emit_lsr_imm_def Let_def by blast
  show ?thesis using run unfolding w by (rule runs_to_word [OF assms(1)])
qed

lemma store_chunk_nat:
  assumes "0 < n" and "n \<le> 8"
  shows "store_chunk (of_nat n) \<in> {1, 2, 4, 8}" "unat (store_chunk (of_nat n)) \<le> n"
    "0 < unat (store_chunk (of_nat n))"
    "ucast (store_chunk (of_nat n)) = (of_nat (unat (store_chunk (of_nat n))) :: u64)"
proof -
  have u: "unat (of_nat n :: u64) = n" using assms(2) by (intro of_nat_less_16) simp
  then have nz: "(of_nat n :: u64) \<noteq> 0" using assms(1) by (metis unat_0 less_irrefl)
  show "store_chunk (of_nat n) \<in> {1, 2, 4, 8}" by (simp add: store_chunk_def)
  show "unat (store_chunk (of_nat n)) \<le> n" "0 < unat (store_chunk (of_nat n))"
    using store_chunk_le [OF nz] by (simp_all only: u)
  show "ucast (store_chunk (of_nat n)) = (of_nat (unat (store_chunk (of_nat n))) :: u64)" by simp
qed

definition packed_into :: "reg \<Rightarrow> reg \<Rightarrow> int \<Rightarrow> nat \<Rightarrow> machine \<Rightarrow> u64 \<Rightarrow> machine" where
  "packed_into base src i n m v = m\<lparr>xr := (xr m)(rno src := v),
     memory := mem_write (memory m) (rd_sp m (rno base) + word_of_int i) n (xr m (rno src))\<rparr>"

lemma store_packed_run:
  assumes "room (2 * n) st" and "enc base" and "piece_of src" and "rno src \<noteq> rno base"
    and "n \<le> 8" and "- 256 \<le> i" and "i + int n \<le> 256"
  shows "\<exists>v. runs_to (2 * n) st (store_packed_loop ts base (word_of_int i0) src (of_nat n) (word_of_int (i - i0)) st)
    m (packed_into base src i n m v)"
  using assms
proof (induction n arbitrary: i st m rule: less_induct)
  case (less n)
  show ?case
  proof (cases "n = 0")
    case True
    have "packed_into base src i 0 m (xr m (rno src)) = m"
      by (simp add: packed_into_def mem_write_def)
    moreover have "store_packed_loop ts base (word_of_int i0) src (of_nat 0) (word_of_int (i - i0)) st = st"
      by (subst store_packed_loop.simps) simp
    ultimately show ?thesis unfolding True by (metis runs_to_refl)
  next
    case False
    define c where "c = store_chunk (of_nat n)"
    define k where "k = unat c"
    have pos: "0 < n" using False by simp
    note ch = store_chunk_nat [OF pos less.prems(5), folded c_def, folded k_def]
    let ?st = "emit_str_reg ts base (src\<lparr>r_rsize := c\<rparr>) (ucast (word_of_int i :: u64)) st"
    let ?full = "src\<lparr>r_rsize := 8\<rparr>"
    let ?a = "rd_sp m (rno base) + word_of_int i"
    let ?m = "m\<lparr>memory := mem_write (memory m) ?a k (xr m (rno src))\<rparr>"
    have "room 1 st" by (rule room_less [OF less.prems(1)]) (use pos in simp)
    then have r1: "runs_to 1 st ?st m ?m"
      using piece_run [of st base src c i ts m] less.prems ch(1) pos unfolding k_def by auto
    have u: "unat (of_nat n :: u64) = n" using less.prems(5) by (intro of_nat_less_16) simp
    have nz: "(of_nat n :: u64) \<noteq> 0" using u pos by (metis less_irrefl unat_0)
    have left: "(of_nat n :: u64) - of_nat k = of_nat (n - k)" using ch(2) by simp
    have un: "unat (of_nat (n - k) :: u64) = n - k" using less.prems(5) by (intro of_nat_less_16) simp
    have adr: "word_of_int i0 + word_of_int (i - i0) = (word_of_int i :: u64)"
      "word_of_int (i - i0) + of_nat k = (word_of_int (i + int k - i0) :: u64)"
      "of_nat k * 8 = (of_nat (8 * k) :: u64)" by simp_all
    have step: "store_packed_loop ts base (word_of_int i0) src (of_nat n) (word_of_int (i - i0)) st
      = store_packed_loop ts base (word_of_int i0) src (of_nat (n - k)) (word_of_int (i + int k - i0))
          (if (of_nat (n - k) :: u64) \<noteq> 0 then emit_lsr_imm ?full ?full (of_nat (8 * k)) ?st else ?st)"
      unfolding store_packed_loop.simps [of ts base _ src "of_nat n"] Let_def c_def [symmetric] ch(4) left adr
      using nz by simp
    show ?thesis
    proof (cases "n = k")
      case True
      have "store_packed_loop ts base (word_of_int i0) src (of_nat n) (word_of_int (i - i0)) st = ?st"
      proof -
        have k0: "n - k = 0" using True by simp
        show ?thesis unfolding step k0 by (subst store_packed_loop.simps) simp
      qed
      moreover have "?m = packed_into base src i n m (xr m (rno src))"
        by (simp add: packed_into_def True)
      moreover have "runs_to (2 * n) st ?st m ?m" by (rule runs_to_mono [OF r1]) (use pos in linarith)
      ultimately have "runs_to (2 * n) st
          (store_packed_loop ts base (word_of_int i0) src (of_nat n) (word_of_int (i - i0)) st)
          m (packed_into base src i n m (xr m (rno src)))" by (simp only:)
      then show ?thesis by (rule exI)
    next
      case nk: False
      then have kn: "k < n" using ch(2) by simp
      have nz': "(of_nat (n - k) :: u64) \<noteq> 0" using un kn by (metis unat_0 zero_less_diff less_irrefl)
      let ?m2 = "?m\<lparr>xr := (xr ?m)(rno src := drop_bit (8 * k) (xr ?m (rno src)))\<rparr>"
      let ?st2 = "emit_lsr_imm ?full ?full (of_nat (8 * k)) ?st"
      have "room (1 + 1) st" by (rule room_less [OF less.prems(1)]) (use pos in simp)
      then have "room 1 ?st" by (rule runs_to_room [OF r1])
      then have "runs_to 1 ?st ?st2 ?m ?m2" using less.prems(3,5) kn by (intro lsr_run) auto
      with r1 have r2: "runs_to (1 + 1) st ?st2 m ?m2" by (rule runs_to_trans)
      have le: "1 + 1 + 2 * (n - k) \<le> 2 * n" using kn ch(3) by linarith
      have "room (1 + 1 + 2 * (n - k)) st" by (rule room_less [OF less.prems(1) le])
      then have m2: "room (2 * (n - k)) ?st2" by (rule runs_to_room [OF r2])
      have b: "n - k < n" "n - k \<le> 8" "- 256 \<le> i + int k" "i + int k + int (n - k) \<le> 256"
        using less.prems(5-7) kn ch(3) by linarith+
      obtain v where v: "runs_to (2 * (n - k)) ?st2
          (store_packed_loop ts base (word_of_int i0) src (of_nat (n - k)) (word_of_int (i + int k - i0)) ?st2)
          ?m2 (packed_into base src (i + int k) (n - k) ?m2 v)"
        using less.IH [OF b(1) m2 less.prems(2-4) b(2-4)] by blast
      have "packed_into base src (i + int k) (n - k) ?m2 v = packed_into base src i n m v"
      proof -
        have "rd_sp ?m2 (rno base) = rd_sp m (rno base)" using less.prems(4) by (simp add: rd_sp_def)
        moreover have "rd_sp m (rno base) + word_of_int (i + int k) = ?a + of_nat k"
          by (simp only: of_int_add of_int_of_nat_eq add.assoc)
        moreover have "mem_write (mem_write (memory m) ?a k (xr m (rno src))) (?a + of_nat k) (n - k)
            (drop_bit (8 * k) (xr m (rno src))) = mem_write (memory m) ?a n (xr m (rno src))"
          using mem_write_join [of k "n - k" "memory m" ?a "xr m (rno src)"] less.prems(5) kn by simp
        ultimately show ?thesis unfolding packed_into_def by (simp add: add.assoc)
      qed
      then have "runs_to (1 + 1 + 2 * (n - k)) st
          (store_packed_loop ts base (word_of_int i0) src (of_nat n) (word_of_int (i - i0)) st)
          m (packed_into base src i n m v)"
        using runs_to_trans [OF r2 v] nz' unfolding step by simp
      then show ?thesis using runs_to_mono [OF _ le] by blast
    qed
  qed
qed

text \<open>
  Storing up to eight bytes of a register in pieces writes exactly these bytes, in order, at
  the requested address, whatever the number of bytes: the halving of the pieces and the shifts
  between them lose and repeat nothing. Only the source register is used up.
\<close>

lemma emit_store_packed_writes:
  assumes "room (2 * n) st" and "enc base" and "piece_of src" and "rno src \<noteq> rno base"
    and "n \<le> 8" and "- 256 \<le> i" and "i + int n \<le> 256"
  shows "\<exists>v. runs_to (2 * n) st (emit_store_packed ts base (word_of_int i) src (of_nat n) st) m
    (m\<lparr>xr := (xr m)(rno src := v),
       memory := mem_write (memory m) (rd_sp m (rno base) + word_of_int i) n (xr m (rno src))\<rparr>)"
  using store_packed_run [OF assms, of ts i m] by (simp add: emit_store_packed_def packed_into_def)

lemma emit_store_packed_writes_example:
  "\<exists>v. runs_to 14 ex_st (emit_store_packed ex_ts FP (word_of_int (- 24)) (ex_reg NREG 2 8) (of_nat 7) ex_st) ex_mach
    (ex_mach\<lparr>xr := (xr ex_mach)(21 := v),
       memory := mem_write (memory ex_mach) (rd_sp ex_mach 29 + word_of_int (- 24)) 7 (xr ex_mach 21)\<rparr>)"
proof -
  have "room 14 ex_st" "enc FP" "rno FP = 29" "piece_of (ex_reg NREG 2 8)"
    by (simp_all add: room_def ex_st_def a64_init_def CODE_CAP_def enc_def FP_def small_def piece_of_def
        dtype0_def dtype_tryget_addr_def)
  then show ?thesis
    using emit_store_packed_writes [of 7 ex_st FP "ex_reg NREG 2 8" "- 24" ex_ts ex_mach] by simp
qed

section \<open>Packing two small members\<close>

text \<open>
  C36. Two one-byte constants of an array are packed into one sixteen-bit lane. The lane is the two
  bytes in order exactly when the bits 8 to 15 of the first value are set in the second one too:
  the first value is not cut to its byte, so a negative first value overwrites the second one.
\<close>

theorem pack_two_bytes:
  assumes "i + 1 < length args" and "args ! (i + 1) = A_VALUE w"
  shows "\<exists>r. pack_small_values ts None args i 1 1 v = Some (2, i + 1, r)
    \<and> (take_bit 16 r = take_bit 8 v OR push_bit 8 (take_bit 8 w)
        \<longleftrightarrow> (\<forall>k<8. bit v (8 + k) \<longrightarrow> bit w k))"
proof -
  have "pack_small_values ts None args i 1 1 v = Some (2, i + 1, v OR push_bit 8 w)"
    using assms by (simp add: pack_small_values.simps [of ts None args i] pack_small_values.simps [of ts None args "Suc i"]
        word_le_nat_alt word_less_nat_alt)
  moreover have "take_bit 16 (v OR push_bit 8 w) = take_bit 8 v OR push_bit 8 (take_bit 8 w)
      \<longleftrightarrow> (\<forall>k<8. bit v (8 + k) \<longrightarrow> bit w k)"
  proof
    assume "take_bit 16 (v OR push_bit 8 w) = take_bit 8 v OR push_bit 8 (take_bit 8 w)"
    then have "bit (take_bit 16 (v OR push_bit 8 w)) (8 + k) = bit (take_bit 8 v OR push_bit 8 (take_bit 8 w)) (8 + k)" for k
      by simp
    then show "\<forall>k<8. bit v (8 + k) \<longrightarrow> bit w k" by (auto simp: bit_simps)
  next
    assume "\<forall>k<8. bit v (8 + k) \<longrightarrow> bit w k"
    then have "bit v j \<Longrightarrow> 8 \<le> j \<Longrightarrow> j < 16 \<Longrightarrow> bit w (j - 8)" for j
      by (metis le_add_diff_inverse less_diff_conv2 numeral_Bit0 add.commute add_less_cancel_left)
    then show "take_bit 16 (v OR push_bit 8 w) = take_bit 8 v OR push_bit 8 (take_bit 8 w)"
      by (intro word_eq_by_bits) (auto simp: bit_simps)
  qed
  ultimately show ?thesis by blast
qed

lemma pack_two_bytes_witness:
  "\<exists>r. pack_small_values ex_ts None [A_VALUE (- 1), A_VALUE 5] 0 1 1 (- 1) = Some (2, 1, r)
    \<and> take_bit 16 r \<noteq> 0x05ff"
proof -
  have "\<exists>k<8. bit (- 1 :: u64) (8 + k) \<and> \<not> bit (5 :: u64) k"
    by (intro exI [of _ 1]) (simp add: bit_simps)
  moreover have "take_bit 8 (- 1 :: u64) OR push_bit 8 (take_bit 8 5) = 0x05ff"
    by (simp add: take_bit_minus_one_eq_mask mask_eq_exp_minus_1)
  ultimately show ?thesis
    using pack_two_bytes [of 0 "[A_VALUE (- 1), A_VALUE 5]" 5 ex_ts "- 1"] by auto
qed

end
