(* ===== verification/A64_Link.thy ===== *)
theory A64_Link
  imports A64_Agg
begin

text \<open>
  Functions, labels, fixups and the final link of \<open>src/alc/bin-aarch64.c\<close>: where a branch, a call
  or a string reference is emitted with an empty field, and \<open>bin_emit\<close>, which fills it.

  The static arrays \<open>labels\<close>, \<open>fixups\<close>, \<open>fn_syms\<close>, \<open>imports\<close> and \<open>extcalls\<close> with their counters are the
  lists of their entries in use. The image keeps the code as words; its bytes follow in the byte
  order of the host.
\<close>

section \<open>Functions\<close>

definition emit_fn_begin :: "nat \<Rightarrow> a64 \<Rightarrow> a64" where
  "emit_fn_begin c st = st\<lparr>body := [], prol := [],
     ctxs := (ctxs st)(c := (ctxs st c)\<lparr>ctx_fn_named := False\<rparr>), active_ctx := Some c\<rparr>"

definition shift_label :: "nat \<Rightarrow> label \<Rightarrow> label" where
  "shift_label delta l = (if lb_done l then l else l\<lparr>lb_word := lb_word l + delta, lb_done := True\<rparr>)"

definition shift_fixup :: "nat \<Rightarrow> fixup \<Rightarrow> fixup" where
  "shift_fixup delta f = (if fx_done f then f else f\<lparr>fx_site := fx_site f + delta, fx_done := True\<rparr>)"

definition emit_fn_end :: "nat \<Rightarrow> a64 \<Rightarrow> a64" where
  "emit_fn_end c st =
    (let base = length (code st); delta = base + length (prol st); ctx = ctxs st c in
     if CODE_CAP < length (code st) + length (prol st) + length (body st)
     then report_err CodeOverflow st
     else
       st\<lparr>code := code st @ prol st @ body st,
          labels := map (shift_label delta) (labels st),
          fixups := map (shift_fixup delta) (fixups st),
          fn_syms := (if ctx_fn_named ctx \<and> length (fn_syms st) < LABEL_CAP
                      then fn_syms st @ [\<lparr>lb_key = key_buf (ctx_fn_name ctx), lb_word = base, lb_done = False\<rparr>]
                      else fn_syms st),
          entry_off := (if ctx_fn_named ctx \<and> ctx_fn_name ctx = ''main'' then base * 4 else entry_off st),
          body := [], prol := []\<rparr>)"

definition emit_fn :: "string \<Rightarrow> a64 \<Rightarrow> a64" where
  "emit_fn fn_name st =
    (case active_ctx st of None \<Rightarrow> st
     | Some c \<Rightarrow> st\<lparr>ctxs := (ctxs st)(c := \<lparr>ctx_fn_name = fn_name, ctx_fn_named = True\<rparr>)\<rparr>)"

definition emit_ret :: "a64 \<Rightarrow> a64" where
  "emit_ret st = put_word OP_RET st"

section \<open>Labels and fixups\<close>

definition new_fixup :: "fixup_kind \<Rightarrow> string \<Rightarrow> nat \<Rightarrow> a64 \<Rightarrow> a64" where
  "new_fixup k key aux st = st\<lparr>fixups := fixups st
     @ [\<lparr>fx_key = key, fx_site = length (body st), fx_aux = aux, fx_kind = k, fx_done = False\<rparr>]\<rparr>"

lemma new_fixup_frame [simp]:
  "body (new_fixup k key aux st) = body st" "errs (new_fixup k key aux st) = errs st"
  "code (new_fixup k key aux st) = code st" "labels (new_fixup k key aux st) = labels st"
  by (simp_all add: new_fixup_def)

definition emit_branch :: "string \<Rightarrow> string \<Rightarrow> int \<Rightarrow> a64 \<Rightarrow> a64" where
  "emit_branch fn_name label index st =
    (if FIXUP_CAP \<le> length (fixups st) then report_err FixupOverflow st
     else put_word OP_B (new_fixup FX_BRANCH (make_key fn_name label index) 0 st))"

definition emit_branch_cond :: "cond \<Rightarrow> string \<Rightarrow> string \<Rightarrow> int \<Rightarrow> a64 \<Rightarrow> bool \<times> a64" where
  "emit_branch_cond condition fn_name label index st =
    (if length cond_aarch64 \<le> cond_no condition then (False, report_err UnknownCond st)
     else if FIXUP_CAP \<le> length (fixups st) then (False, report_err FixupOverflow st)
     else (True, put_word (OP_BCOND OR cond_aarch64 ! cond_no condition)
                   (new_fixup FX_COND (make_key fn_name label index) 0 st)))"

definition emit_label :: "string \<Rightarrow> string \<Rightarrow> int \<Rightarrow> a64 \<Rightarrow> a64" where
  "emit_label fn_name label index st =
    (if LABEL_CAP \<le> length (labels st) then report_err LabelOverflow st
     else st\<lparr>labels := labels st
       @ [\<lparr>lb_key = make_key fn_name label index, lb_word = length (body st), lb_done = False\<rparr>]\<rparr>)"

definition emit_fn_call :: "string \<Rightarrow> a64 \<Rightarrow> a64" where
  "emit_fn_call s st =
    (if FIXUP_CAP \<le> length (fixups st) then report_err FixupOverflow st
     else put_word OP_BL (new_fixup FX_CALL (key_buf s) 0 st))"

text \<open>The text between the quotes of a string token.\<close>

definition unquote :: "string \<Rightarrow> string" where
  "unquote s = (if 2 \<le> length s \<and> hd s = CHR 0x22 then butlast (tl s) else s)"

definition emit_string_lit :: "reg \<Rightarrow> string \<Rightarrow> a64 \<Rightarrow> a64" where
  "emit_string_lit dst s st =
    (let p = unquote s; str_off = length (cstrs st) in
     if CSTR_CAP < length (cstrs st) + length p + 1 then report_err CstringOverflow st
     else
      let st1 = st\<lparr>cstrs := cstrs st @ p @ [CHR 0x00]\<rparr> in
      if FIXUP_CAP \<le> length (fixups st1) then report_err FixupOverflow st1
      else put_word (OP_ADR OR reg_no dst) (new_fixup FX_STR [] str_off st1))"

section \<open>The link\<close>

fun find_word :: "label list \<Rightarrow> string \<Rightarrow> nat option" where
  "find_word [] key = None"
| "find_word (l # ls) key = (if lb_key l = key then Some (lb_word l) else find_word ls key)"

text \<open>The index of an import, or the number of imports when it is new.\<close>

fun import_index :: "string list \<Rightarrow> string \<Rightarrow> nat" where
  "import_index [] key = 0"
| "import_index (n # ns) key = (if n = key then 0 else Suc (import_index ns key))"

definition or_code :: "nat \<Rightarrow> u32 \<Rightarrow> a64 \<Rightarrow> a64" where
  "or_code site w st = st\<lparr>code := (code st)[site := (code st ! site) OR w]\<rparr>"

definition patch_str :: "fixup \<Rightarrow> a64 \<Rightarrow> a64" where
  "patch_str f st =
    (let rel = of_nat (length (code st) * 4 + fx_aux f) - of_nat (fx_site f * 4) :: u32 in
     or_code (fx_site f) (push_bit 29 (rel AND 3) OR push_bit 5 (drop_bit 2 rel AND 0x7ffff)) st)"

definition patch_import :: "fixup \<Rightarrow> a64 \<Rightarrow> a64" where
  "patch_import f st =
    (let imp = import_index (bin_imports st) (fx_key f) in
     if imp = length (bin_imports st) \<and> IMPORT_CAP \<le> length (bin_imports st)
     then report_err ImportOverflow st
     else st\<lparr>bin_imports := (if imp = length (bin_imports st) then bin_imports st @ [fx_key f] else bin_imports st),
             extcalls := extcalls st @ [(fx_site f * 4, imp)]\<rparr>)"

definition patch_branch :: "fixup \<Rightarrow> nat \<Rightarrow> a64 \<Rightarrow> a64" where
  "patch_branch f target st =
    (let rel = of_nat target - of_nat (fx_site f) :: u32 in
     if fx_kind f = FX_COND then or_code (fx_site f) (push_bit 5 (rel AND 0x7ffff)) st
     else or_code (fx_site f) (rel AND 0x3ffffff) st)"

definition patch :: "a64 \<Rightarrow> fixup \<Rightarrow> a64" where
  "patch st f =
    (case fx_kind f of
       FX_STR \<Rightarrow> patch_str f st
     | FX_CALL \<Rightarrow> (case find_word (fn_syms st) (fx_key f) of
                     None \<Rightarrow> patch_import f st | Some target \<Rightarrow> patch_branch f target st)
     | _ \<Rightarrow> (case find_word (labels st) (fx_key f) of
               None \<Rightarrow> report_err (UnresolvedLabel (fx_key f)) st
             | Some target \<Rightarrow> patch_branch f target st))"

record bin_image =
  im_code :: "u32 list"
  im_cstrs :: string
  im_size :: nat
  im_entry :: nat
  im_imports :: "string list"
  im_extcalls :: "(nat \<times> nat) list"

definition bin_emit :: "a64 \<Rightarrow> bin_image \<times> a64" where
  "bin_emit st =
    (let st' = foldl patch st (fixups st) in
     (\<lparr>im_code = code st', im_cstrs = cstrs st', im_size = length (code st') * 4 + length (cstrs st'),
       im_entry = entry_off st', im_imports = bin_imports st', im_extcalls = extcalls st'\<rparr>, st'))"

section \<open>What the operations keep\<close>

text \<open>A word that waits for its field to be filled in.\<close>

fun blank :: "fixup_kind \<Rightarrow> u32 \<Rightarrow> bool" where
  "blank FX_BRANCH w \<longleftrightarrow> w = OP_B"
| "blank FX_CALL w \<longleftrightarrow> w = OP_BL"
| "blank FX_COND w \<longleftrightarrow> (\<exists>c. small 4 c \<and> w = OP_BCOND OR c)"
| "blank FX_STR w \<longleftrightarrow> (\<exists>rd. small 5 rd \<and> w = OP_ADR OR rd)"

text \<open>Where a fixup or a label is, counted from the start of the code and the pending body.\<close>

definition site_of :: "a64 \<Rightarrow> fixup \<Rightarrow> nat" where
  "site_of st f = (if fx_done f then fx_site f else length (code st) + fx_site f)"

definition fixup_ok :: "a64 \<Rightarrow> fixup \<Rightarrow> bool" where
  "fixup_ok st f \<longleftrightarrow> (if fx_done f then fx_site f < length (code st) \<and> blank (fx_kind f) (code st ! fx_site f)
     else fx_site f < length (body st) \<and> blank (fx_kind f) (body st ! fx_site f))
     \<and> (fx_kind f = FX_STR \<longrightarrow> fx_aux f < length (cstrs st))"

definition label_ok :: "a64 \<Rightarrow> label \<Rightarrow> bool" where
  "label_ok st l \<longleftrightarrow> lb_word l \<le> (if lb_done l then length (code st) else length (body st))"

definition link_inv :: "a64 \<Rightarrow> bool" where
  "link_inv st \<longleftrightarrow> list_all (fixup_ok st) (fixups st) \<and> list_all (label_ok st) (labels st)
     \<and> list_all (\<lambda>l. lb_word l \<le> length (code st)) (fn_syms st)
     \<and> distinct (map (site_of st) (fixups st))
     \<and> length (code st) \<le> CODE_CAP \<and> length (body st) \<le> CODE_CAP \<and> length (prol st) \<le> PROL_CAP
     \<and> length (cstrs st) \<le> CSTR_CAP"

text \<open>No function is being emitted: everything emitted so far has its final place.\<close>

definition idle :: "a64 \<Rightarrow> bool" where
  "idle st \<longleftrightarrow> list_all fx_done (fixups st) \<and> list_all lb_done (labels st)"

section \<open>Emitters that only add words\<close>

definition grows :: "a64 \<Rightarrow> a64 \<Rightarrow> bool" where
  "grows st st' \<longleftrightarrow> (\<exists>ws ps es. st' = st\<lparr>body := body st @ ws, prol := ps, errs := errs st @ es\<rparr>)
     \<and> (length (body st) \<le> CODE_CAP \<longrightarrow> length (body st') \<le> CODE_CAP)
     \<and> (length (prol st) \<le> PROL_CAP \<longrightarrow> length (prol st') \<le> PROL_CAP)"

named_theorems grow

lemma grows_refl [grow]: "grows st st"
  unfolding grows_def by (intro conjI exI [of _ "[]"] exI [of _ "prol st"]) simp_all

lemma grows_trans:
  assumes "grows a b" and "grows b c"
  shows "grows a c"
proof -
  obtain ws ps es where b: "b = a\<lparr>body := body a @ ws, prol := ps, errs := errs a @ es\<rparr>"
    using assms(1) by (auto simp: grows_def)
  obtain ws' ps' es' where c: "c = b\<lparr>body := body b @ ws', prol := ps', errs := errs b @ es'\<rparr>"
    using assms(2) by (auto simp: grows_def)
  have "c = a\<lparr>body := body a @ ws @ ws', prol := ps', errs := errs a @ es @ es'\<rparr>"
    by (simp add: b c)
  then show ?thesis using assms unfolding grows_def by blast
qed

lemma grows_put_word [grow]: "grows st (put_word w st)"
proof (cases "CODE_CAP \<le> length (body st)")
  case True
  then show ?thesis unfolding grows_def
    by (intro conjI exI [of _ "[]"] exI [of _ "prol st"] exI [of _ "[CodeOverflow]"])
       (simp_all add: put_word_def report_err_def)
next
  case False
  then show ?thesis unfolding grows_def
    by (intro conjI exI [of _ "[w]"] exI [of _ "prol st"] exI [of _ "[]"]) (simp_all add: put_word_def)
qed

lemma grows_put_prologue [grow]: "grows st (put_prologue w st)"
proof (cases "PROL_CAP \<le> length (prol st)")
  case True
  then show ?thesis unfolding grows_def
    by (intro conjI exI [of _ "[]"] exI [of _ "prol st"] exI [of _ "[PrologueOverflow]"])
       (simp_all add: put_prologue_def report_err_def)
next
  case False
  then show ?thesis unfolding grows_def
    by (intro conjI exI [of _ "[]"] exI [of _ "prol st @ [w]"]) (simp_all add: put_prologue_def)
qed

lemma grows_report_err [grow]: "grows st (report_err e st)"
  unfolding grows_def by (intro conjI exI [of _ "[]"] exI [of _ "prol st"] exI [of _ "[e]"])
    (simp_all add: report_err_def)

lemma grows_reset_prol [grow]: "grows st (st\<lparr>prol := []\<rparr>)"
  unfolding grows_def by (intro conjI exI [of _ "[]"]) (simp_all add: PROL_CAP_def)

lemma grows_word [grow]: "grows a b \<Longrightarrow> grows a (put_word w b)"
  by (rule grows_trans [OF _ grows_put_word])

lemma grows_prologue [grow]: "grows a b \<Longrightarrow> grows a (put_prologue w b)"
  by (rule grows_trans [OF _ grows_put_prologue])

lemma grows_err [grow]: "grows a b \<Longrightarrow> grows a (report_err e b)"
  by (rule grows_trans [OF _ grows_report_err])

lemma grows_save_pairs: "grows st (snd (snd (save_pairs n off st)))"
proof (induction n off st rule: save_pairs.induct)
  case (1 n off st)
  show ?case
  proof (cases "1 < n")
    case True
    show ?thesis
      using True "1.IH" [OF True refl refl refl refl]
      by (subst save_pairs.simps) (simp add: Let_def, erule grows_trans [rotated], intro grow)
  next
    case False
    then show ?thesis by (subst save_pairs.simps) (simp add: grow)
  qed
qed

lemma grows_frame: "grows st (emit_fn_prologue_epilogue pc st)"
proof -
  have last: "grows st (save_last ss t)" if "grows st (snd (snd t))" for ss t st
    using that by (cases t) (auto simp: save_last_def intro: grow)
  have pairs: "grows st (snd (snd (save_pairs n off st')))" if "grows st st'" for n off st st'
    using that grows_save_pairs by (rule grows_trans)
  show ?thesis
    unfolding emit_fn_prologue_epilogue_def Let_def
    by (auto intro!: grow last pairs)
qed

lemma grows_lanes [grow]:
  "grows a b \<Longrightarrow> grows a (snd (movn_lanes sf rd uv ls ini b))"
  "grows a b \<Longrightarrow> grows a (snd (movz_lanes sf rd uv ls ini b))"
  by (induction ls arbitrary: ini b) (simp_all add: Let_def grow)

lemma grows_emit_mov [grow]: "grows a b \<Longrightarrow> grows a (emit_mov dst v b)"
  using grows_lanes by (auto simp: emit_mov_def Let_def case_prod_unfold intro!: grow)

lemma grows_moves [grow]:
  assumes "grows a b"
  shows "grows a (emit_and_lowbits dst src nbits b)" "grows a (emit_mov_reg ts dst src b)"
    "grows a (emit_orr_reg dst lhs rhs b)" "grows a (emit_zero_out dst b)"
  using assms by (auto simp: emit_and_lowbits_def emit_mov_reg_def emit_orr_reg_def emit_zero_out_def Let_def
      intro!: grow split: option.split)

lemma grows_arith [grow]:
  assumes "grows a b"
  shows "grows a (emit_add ts dst lhs r b)" "grows a (emit_sub ts dst lhs r b)" "grows a (emit_cmp lhs r b)"
    "grows a (emit_add_reg ts dst lhs rhs b)" "grows a (emit_sub_reg ts dst lhs rhs b)"
    "grows a (emit_cmp_reg ts lhs rhs c b)" "grows a (emit_lsl dst lhs r b)" "grows a (emit_lsr_imm dst lhs r b)"
    "grows a (emit_bitfield b32 b64 dst lhs r w b)" "grows a (emit_cond_set dst c b)"
  using assms
  by (auto simp: emit_add_def emit_sub_def emit_cmp_def addsub_imm_def emit_add_reg_def emit_sub_reg_def
      emit_cmp_reg_def addsub_reg_def addsub_ext_def emit_lsl_def emit_lsr_imm_def emit_bitfield_def
      emit_cond_set_def Let_def intro!: grow)

lemma grows_mem [grow]:
  assumes "grows a b"
  shows "grows a (mem_op ts ld v base off b)" "grows a (ldst_regoff ts ld v base r sc b)"
  using assms by (auto simp: mem_op_def ldst_regoff_def ldst_size_bits_def Let_def intro!: grow)

lemma grows_access [grow]:
  assumes "grows a b"
  shows "grows a (emit_str_reg ts dst src o' b)" "grows a (emit_ldr ts dst src o' b)"
    "grows a (emit_str_imm ts dst v o' b)" "grows a (emit_str_regoff ts dst src r b)"
    "grows a (emit_ldr_reg ts dst src r b)" "grows a (emit_str_imm_regoff ts dst v r b)"
    "grows a (emit_stp x y base k b)"
  using assms by (auto simp: emit_str_reg_def emit_ldr_def emit_str_imm_def emit_str_regoff_def
      emit_ldr_reg_def emit_str_imm_regoff_def emit_stp_def Let_def intro!: grow)

lemma grows_array_access:
  "emit_array_access ts dst src r st b = Some b' \<Longrightarrow> grows b b'"
  by (auto simp: emit_array_access_def Let_def intro!: grow split: option.splits if_splits)

lemma grows_elem_addr: "emit_elem_addr ts dst ob ix b = Some b' \<Longrightarrow> grows b b'"
  by (auto simp: emit_elem_addr_def addsub_ext_def Let_def intro!: grow split: option.splits if_splits)

lemma grows_store_packed: "grows b (store_packed_loop ts base o' src n p b)"
proof (induction ts base o' src n p b rule: store_packed_loop.induct)
  case (1 ts base o' src n p b)
  show ?case
  proof (cases "n = 0")
    case False
    note IH = 1 [OF False refl refl refl refl refl]
    show ?thesis
      by (subst store_packed_loop.simps)
         (simp only: if_not_P [OF False] Let_def, rule grows_trans [OF _ IH], auto intro!: grow)
  qed (subst store_packed_loop.simps, simp add: grow)
qed

lemma grows_zero_pairs: "grows b (snd (snd (zero_pairs dst o' n b)))"
proof (induction dst o' n b rule: zero_pairs.induct)
  case (1 dst o' n b)
  show ?case
  proof (cases "16 \<le> n")
    case True
    show ?thesis
      by (subst zero_pairs.simps) (simp only: if_P [OF True], rule grows_trans [OF _ 1 [OF True]], intro grow)
  qed (subst zero_pairs.simps, simp add: grow)
qed

lemma grows_zero_words: "grows b (snd (snd (zero_words ts dst o' n b)))"
proof (induction ts dst o' n b rule: zero_words.induct)
  case (1 ts dst o' n b)
  show ?case
  proof (cases "8 \<le> n")
    case True
    show ?thesis
      by (subst zero_words.simps) (simp only: if_P [OF True], rule grows_trans [OF _ 1 [OF True]], intro grow)
  qed (subst zero_words.simps, simp add: grow)
qed

lemma grows_zero_tail: "zero_tail ts dst o' n r b = Some b' \<Longrightarrow> grows b b'"
proof (induction ts dst o' n r b arbitrary: b' rule: zero_tail.induct)
  case (1 ts dst o' n r b)
  show ?case
  proof (cases "n = 0 \<or> r = 0")
    case True
    then show ?thesis using "1.prems" by (subst (asm) zero_tail.simps) (auto simp: grow split: if_splits)
  next
    case False
    then have nz: "n \<noteq> 0" "r \<noteq> 0" by auto
    show ?thesis
    proof (cases "ucast r \<le> n")
      case True
      have "zero_tail ts dst (o' + ucast r) (n - ucast r) (r div 2)
          (emit_str_reg ts dst (WZR\<lparr>r_rsize := r\<rparr>) (ucast o') b) = Some b'"
        using "1.prems" nz True by (subst (asm) zero_tail.simps) simp
      from "1.IH"(1) [OF nz True this] show ?thesis by (rule grows_trans [rotated]) (intro grow)
    next
      case le: False
      then show ?thesis using "1.prems" nz "1.IH"(2) [OF nz le] by (subst (asm) zero_tail.simps) simp
    qed
  qed
qed

lemma grows_zerofill: "emit_zerofill ts dst o' dt b = Some b' \<Longrightarrow> grows b b'"
  by (auto simp: emit_zerofill_def Let_def case_prod_unfold split: option.splits dest!: grows_zero_tail
      intro: grows_trans [OF grows_trans [OF grows_zero_pairs grows_zero_words]])

lemma grows_store_eightbytes: "grows a b \<Longrightarrow> grows a (emit_store_eightbytes ts base o' lo x hi y z b)"
  by (auto simp: emit_store_eightbytes_def intro!: grow)

lemma grows_member_value:
  "emit_member_value ts dst ms args i v sz ob ini b = Some (p, j, k, b') \<Longrightarrow> grows b b'"
  by (auto simp: emit_member_value_def emit_mov_lane_def Let_def intro!: grow split: option.splits if_splits)

lemma grows_member_reg: "grows b (emit_member_reg ts dst r sz ob ini b)"
  by (auto simp: emit_member_reg_def Let_def intro!: grow)

lemma grows_eightbyte_loop:
  "eightbyte_loop f ts dst dt t args lim i bb e = Some e' \<Longrightarrow> grows (eb_st e) (eb_st e')"
proof (induction f arbitrary: i bb e)
  case (Suc f)
  show ?case
  proof (cases "args ! i")
    case (A_VALUE v)
    then show ?thesis
      using Suc.prems Suc.IH grows_member_value
      by (fastforce simp: Let_def intro: grow grows_trans split: if_splits option.splits prod.splits)
  next
    case (A_REG r)
    then show ?thesis
      using Suc.prems by (auto simp: Let_def intro: grow grows_trans [OF grows_member_reg] dest!: Suc.IH
          split: if_splits option.splits prod.splits)
  qed (use Suc.prems in \<open>auto simp: Let_def intro!: grow split: if_splits option.splits\<close>)
qed (simp add: grow)

lemma grows_eightbyte_struct:
  "emit_eightbyte_struct ts dst dt args i s lim b = Some (w, j, s', b') \<Longrightarrow> grows b b'"
  by (auto simp: emit_eightbyte_struct_def Let_def dest!: grows_eightbyte_loop split: option.splits)

section \<open>The steps of a compilation\<close>

text \<open>
  One call of the interface of \<open>emit.h\<close>. The data-processing and frame emitters are the steps
  that only grow the body; a function starts when no other one is unfinished.
\<close>

inductive a64_step :: "a64 \<Rightarrow> a64 \<Rightarrow> bool" where
  step_begin: "idle st \<Longrightarrow> a64_step st (emit_fn_begin c st)"
| step_end: "a64_step st (emit_fn_end c st)"
| step_fn: "a64_step st (emit_fn name st)"
| step_data: "grows st st' \<Longrightarrow> a64_step st st'"
| step_branch: "a64_step st (emit_branch fn l i st)"
| step_cond: "a64_step st (snd (emit_branch_cond c fn l i st))"
| step_label: "a64_step st (emit_label fn l i st)"
| step_call: "a64_step st (emit_fn_call s st)"
| step_string: "small 5 (reg_no dst) \<Longrightarrow> a64_step st (emit_string_lit dst s st)"

inductive a64_reach :: "(nat \<Rightarrow> emit_context) \<Rightarrow> a64 \<Rightarrow> bool" where
  reach_init: "a64_reach cs (a64_init cs)"
| reach_step: "a64_reach cs st \<Longrightarrow> a64_step st st' \<Longrightarrow> a64_reach cs st'"

inductive_cases a64_stepE: "a64_step st st'"

text \<open>The steps that are calls of the emitters.\<close>

lemma steps_of_emitters:
  "a64_step st (emit_ret st)" "a64_step st (emit_mov dst v st)" "a64_step st (emit_add ts dst lhs r st)"
  "a64_step st (emit_cmp lhs r st)" "a64_step st (emit_str_reg ts dst src k st)"
  "a64_step st (emit_fn_prologue_epilogue pc st)"
  by (auto intro!: step_data grow grows_frame simp: emit_ret_def)

lemma step_zerofill: "emit_zerofill ts dst off dt st = Some st' \<Longrightarrow> a64_step st st'"
  by (rule step_data) (rule grows_zerofill)

lemma errs_grows: "grows st st' \<Longrightarrow> errs st' = [] \<Longrightarrow> errs st = []"
  by (auto simp: grows_def)

lemma errs_put_word: "errs (put_word w st) = [] \<longleftrightarrow> errs st = [] \<and> length (body st) < CODE_CAP"
  by (auto simp: put_word_def report_err_def)

lemma errs_step:
  assumes "a64_step st st'" and "errs st' = []"
  shows "errs st = []"
  using assms
  by (cases rule: a64_step.cases)
     (auto simp: emit_fn_begin_def emit_fn_end_def emit_fn_def emit_branch_def emit_branch_cond_def
       emit_label_def emit_fn_call_def emit_string_lit_def new_fixup_def report_err_def errs_put_word Let_def
       split: if_splits option.splits dest: errs_grows)

section \<open>The invariant\<close>

lemma link_inv_init: "link_inv (a64_init cs)"
  by (simp add: link_inv_def a64_init_def)

lemma link_inv_grows:
  assumes "link_inv st" and "grows st st'"
  shows "link_inv st'"
proof -
  obtain ws ps es where e: "st' = st\<lparr>body := body st @ ws, prol := ps, errs := errs st @ es\<rparr>"
    using assms(2) by (auto simp: grows_def)
  have b: "length (body st') \<le> CODE_CAP" "length (prol st') \<le> PROL_CAP"
    using assms by (auto simp: grows_def link_inv_def)
  have "fixup_ok st' f" if "fixup_ok st f" for f
    using that by (auto simp: fixup_ok_def e nth_append split: if_splits)
  moreover have "label_ok st' l" if "label_ok st l" for l
    using that by (auto simp: label_ok_def e split: if_splits)
  moreover have "site_of st' = site_of st" by (simp add: site_of_def e fun_eq_iff)
  ultimately show ?thesis
    using assms(1) b by (auto simp: link_inv_def e list_all_iff)
qed

lemma link_inv_new_fixup:
  assumes "link_inv st" and "length (body st) < CODE_CAP" and "blank k w"
    and "k = FX_STR \<Longrightarrow> aux < length (cstrs st)"
  shows "link_inv (put_word w (new_fixup k key aux st))"
proof -
  let ?st = "put_word w (new_fixup k key aux st)"
  have e: "?st = st\<lparr>body := body st @ [w], fixups := fixups (new_fixup k key aux st)\<rparr>"
    using assms(2) by (simp add: put_word_def new_fixup_def)
  have "fixup_ok ?st f" if "fixup_ok st f" for f
    using that by (auto simp: fixup_ok_def e nth_append split: if_splits)
  moreover have "label_ok ?st l" if "label_ok st l" for l
    using that by (auto simp: label_ok_def e split: if_splits)
  moreover have s: "site_of ?st = site_of st" by (simp add: site_of_def e fun_eq_iff)
  moreover have "site_of st f < length (code st) + length (body st)" if "fixup_ok st f" for f
    using that by (auto simp: fixup_ok_def site_of_def split: if_splits)
  then have "length (code st) + length (body st) \<notin> site_of st ` set (fixups st)"
    using assms(1) by (force simp: link_inv_def list_all_iff)
  moreover have "fixups ?st = fixups st @ [\<lparr>fx_key = key, fx_site = length (body st), fx_aux = aux,
      fx_kind = k, fx_done = False\<rparr>]" using assms(2) by (simp add: put_word_def new_fixup_def)
  moreover have "fixup_ok ?st \<lparr>fx_key = key, fx_site = length (body st), fx_aux = aux, fx_kind = k, fx_done = False\<rparr>"
    using assms(3,4) by (simp add: fixup_ok_def e)
  moreover have "site_of st \<lparr>fx_key = key, fx_site = length (body st), fx_aux = aux, fx_kind = k, fx_done = False\<rparr>
      = length (code st) + length (body st)" by (simp add: site_of_def)
  moreover have "length (body ?st) \<le> CODE_CAP" using assms(2) by (simp add: e)
  moreover have "labels ?st = labels st" "code ?st = code st" "fn_syms ?st = fn_syms st" "prol ?st = prol st"
      "cstrs ?st = cstrs st" by (simp_all add: e)
  ultimately show ?thesis
    using assms(1) unfolding link_inv_def by (simp add: list_all_iff)
qed

lemma link_inv_begin:
  assumes "link_inv st" and "idle st"
  shows "link_inv (emit_fn_begin c st)"
proof -
  let ?st = "emit_fn_begin c st"
  have "fixup_ok ?st f" if "fixup_ok st f" "fx_done f" for f
    using that by (simp add: fixup_ok_def emit_fn_begin_def)
  moreover have "label_ok ?st l" if "label_ok st l" "lb_done l" for l
    using that by (simp add: label_ok_def emit_fn_begin_def)
  moreover have "site_of ?st = site_of st" by (simp add: site_of_def emit_fn_begin_def fun_eq_iff)
  ultimately show ?thesis
    using assms by (auto simp: link_inv_def emit_fn_begin_def list_all_iff idle_def)
qed

lemma link_inv_end:
  assumes "link_inv st"
  shows "link_inv (emit_fn_end c st)"
proof (cases "CODE_CAP < length (code st) + length (prol st) + length (body st)")
  case True
  then show ?thesis
    using link_inv_grows [OF assms grows_report_err] by (simp add: emit_fn_end_def Let_def)
next
  case False
  let ?st = "emit_fn_end c st"
  let ?d = "length (code st) + length (prol st)"
  have e: "code ?st = code st @ prol st @ body st" "body ?st = []" "prol ?st = []" "cstrs ?st = cstrs st"
    "fixups ?st = map (shift_fixup ?d) (fixups st)" "labels ?st = map (shift_label ?d) (labels st)"
    using False by (simp_all add: emit_fn_end_def Let_def)
  have "fixup_ok ?st (shift_fixup ?d f)" if "fixup_ok st f" for f
    using that by (auto simp: fixup_ok_def shift_fixup_def e nth_append split: if_splits)
  moreover have "label_ok ?st (shift_label ?d l)" if "label_ok st l" for l
    using that by (auto simp: label_ok_def shift_label_def e split: if_splits)
  moreover have "distinct (map (site_of ?st) (map (shift_fixup ?d) fs))"
    if "distinct (map (site_of st) fs)" "\<forall>f\<in>set fs. fixup_ok st f" for fs
  proof -
    have "inj_on (\<lambda>x. if x < length (code st) then x else x + length (prol st)) A" for A
      by (auto simp: inj_on_def split: if_splits)
    moreover have "map (site_of ?st) (map (shift_fixup ?d) fs)
        = map (\<lambda>x. if x < length (code st) then x else x + length (prol st)) (map (site_of st) fs)"
      using that(2) by (auto simp: site_of_def shift_fixup_def fixup_ok_def split: if_splits)
    ultimately show ?thesis using that(1) by (simp only: distinct_map)
  qed
  moreover have "list_all (\<lambda>l. lb_word l \<le> length (code ?st)) (fn_syms ?st)"
    using assms False by (auto simp: e link_inv_def emit_fn_end_def Let_def list_all_iff)
  ultimately show ?thesis
    using assms False unfolding link_inv_def e by (auto simp: list_all_iff)
qed

lemma link_inv_label:
  assumes "link_inv st"
  shows "link_inv (emit_label fn l i st)"
proof -
  let ?st = "emit_label fn l i st"
  have "fixup_ok ?st = fixup_ok st" "site_of ?st = site_of st" "label_ok ?st = label_ok st"
    by (simp_all add: fun_eq_iff fixup_ok_def site_of_def label_ok_def emit_label_def report_err_def)
  then show ?thesis
    using assms by (auto simp: link_inv_def emit_label_def report_err_def label_ok_def)
qed

lemma link_inv_frame_eq:
  assumes "link_inv st" and "code st' = code st" and "body st' = body st" and "prol st' = prol st"
    and "labels st' = labels st" and "fixups st' = fixups st" and "fn_syms st' = fn_syms st"
    and "length (cstrs st) \<le> length (cstrs st')" and "length (cstrs st') \<le> CSTR_CAP"
  shows "link_inv st'"
proof -
  have "fixup_ok st f \<Longrightarrow> fixup_ok st' f" for f using assms by (auto simp: fixup_ok_def)
  moreover have "site_of st' = site_of st" "label_ok st' = label_ok st"
    using assms by (simp_all add: fun_eq_iff site_of_def label_ok_def)
  ultimately show ?thesis using assms by (auto simp: link_inv_def list_all_iff)
qed

lemma cond_aarch64_small: "small 4 (cond_aarch64 ! cond_no c)"
  by (cases c) (simp_all add: cond_aarch64_def small_def)

lemma blank_cond: "blank FX_COND (OP_BCOND OR cond_aarch64 ! cond_no c)"
  using cond_aarch64_small by auto

lemma link_inv_step:
  assumes "a64_step st st'" and "link_inv st" and "errs st' = []"
  shows "link_inv st'"
  using assms(1)
proof cases
  case step_begin
  then show ?thesis using link_inv_begin assms(2) by blast
next
  case step_end
  then show ?thesis using link_inv_end assms(2) by blast
next
  case (step_fn name)
  then have "code st' = code st" "body st' = body st" "prol st' = prol st" "labels st' = labels st"
    "fixups st' = fixups st" "fn_syms st' = fn_syms st" "cstrs st' = cstrs st"
    by (simp_all add: emit_fn_def split: option.split)
  moreover have "length (cstrs st) \<le> CSTR_CAP" using assms(2) by (simp add: link_inv_def)
  ultimately show ?thesis by (intro link_inv_frame_eq [OF assms(2)]) simp_all
next
  case step_data
  then show ?thesis using link_inv_grows assms(2) by blast
next
  case step_branch
  then show ?thesis
    using assms(2,3) by (auto intro!: link_inv_new_fixup simp: emit_branch_def report_err_def errs_put_word split: if_splits)
next
  case step_cond
  then show ?thesis
    using assms(2,3)
    by (auto intro!: link_inv_new_fixup blank_cond simp: emit_branch_cond_def report_err_def errs_put_word
        simp del: blank.simps split: if_splits)
next
  case step_label
  then show ?thesis using link_inv_label assms(2) by blast
next
  case step_call
  then show ?thesis
    using assms(2,3) by (auto intro!: link_inv_new_fixup simp: emit_fn_call_def report_err_def errs_put_word split: if_splits)
next
  case (step_string dst s)
  have "link_inv (st\<lparr>cstrs := cstrs st @ unquote s @ [CHR 0x00]\<rparr>)"
    if "length (cstrs st) + length (unquote s) + 1 \<le> CSTR_CAP"
    using that by (intro link_inv_frame_eq [OF assms(2)]) auto
  then show ?thesis
    using assms(2,3) step_string
    by (auto intro!: link_inv_new_fixup simp: emit_string_lit_def report_err_def errs_put_word Let_def
        split: if_splits)
qed

lemma reach_link_inv: "a64_reach cs st \<Longrightarrow> errs st = [] \<Longrightarrow> link_inv st"
proof (induction rule: a64_reach.induct)
  case (reach_init cs)
  show ?case by (rule link_inv_init)
next
  case (reach_step cs st st')
  then show ?case using errs_step link_inv_step by blast
qed

section \<open>Patching\<close>

text \<open>The bits that the link sets in the word of a fixup.\<close>

definition link_field :: "a64 \<Rightarrow> fixup \<Rightarrow> u32" where
  "link_field st f =
    (case fx_kind f of
       FX_STR \<Rightarrow> (let rel = of_nat (length (code st) * 4 + fx_aux f) - of_nat (fx_site f * 4) :: u32 in
                  push_bit 29 (rel AND 3) OR push_bit 5 (drop_bit 2 rel AND 0x7ffff))
     | FX_COND \<Rightarrow> (case find_word (labels st) (fx_key f) of None \<Rightarrow> 0
                   | Some t \<Rightarrow> push_bit 5 ((of_nat t - of_nat (fx_site f)) AND 0x7ffff))
     | FX_BRANCH \<Rightarrow> (case find_word (labels st) (fx_key f) of None \<Rightarrow> 0
                   | Some t \<Rightarrow> (of_nat t - of_nat (fx_site f)) AND 0x3ffffff)
     | FX_CALL \<Rightarrow> (case find_word (fn_syms st) (fx_key f) of None \<Rightarrow> 0
                   | Some t \<Rightarrow> (of_nat t - of_nat (fx_site f)) AND 0x3ffffff))"

lemma patch_code: "code (patch st f) = (code st)[fx_site f := code st ! fx_site f OR link_field st f]"
  by (cases "fx_kind f")
     (auto simp: patch_def link_field_def patch_str_def patch_branch_def patch_import_def or_code_def report_err_def
       Let_def split: option.split)

lemma patch_keeps:
  "labels (patch st f) = labels st" "fn_syms (patch st f) = fn_syms st" "fixups (patch st f) = fixups st"
  "cstrs (patch st f) = cstrs st" "length (code (patch st f)) = length (code st)"
  "entry_off (patch st f) = entry_off st"
  by (cases "fx_kind f";
      simp add: patch_def patch_str_def patch_branch_def patch_import_def or_code_def report_err_def Let_def
        split: option.split)+

lemma patch_field: "link_field (patch st f) = link_field st"
  by (auto simp: fun_eq_iff link_field_def patch_keeps split: fixup_kind.split)

lemma patches_keep:
  "labels (foldl patch st fs) = labels st" "fn_syms (foldl patch st fs) = fn_syms st"
  "cstrs (foldl patch st fs) = cstrs st" "length (code (foldl patch st fs)) = length (code st)"
  "link_field (foldl patch st fs) = link_field st"
  by (induction fs arbitrary: st) (simp_all add: patch_keeps patch_field)

lemma patches_other:
  "i \<notin> fx_site ` set fs \<Longrightarrow> code (foldl patch st fs) ! i = code st ! i"
  by (induction fs arbitrary: st) (auto simp: patch_code)

lemma patches_code:
  assumes "distinct (map fx_site fs)" and "f \<in> set fs" and "\<forall>g\<in>set fs. fx_site g < length (code st)"
  shows "code (foldl patch st fs) ! fx_site f = code st ! fx_site f OR link_field st f"
  using assms
proof (induction fs arbitrary: st)
  case (Cons g fs)
  show ?case
  proof (cases "f = g")
    case True
    then show ?thesis using Cons.prems by (simp add: patches_other patch_code)
  next
    case False
    then have f: "f \<in> set fs" using Cons.prems(2) by simp
    then have "fx_site f \<in> fx_site ` set fs" by (rule imageI)
    then have ne: "fx_site f \<noteq> fx_site g" using Cons.prems(1) by auto
    have "code (foldl patch (patch st g) fs) ! fx_site f
        = code (patch st g) ! fx_site f OR link_field (patch st g) f"
      using Cons.prems f by (intro Cons.IH) (auto simp: patch_keeps)
    then show ?thesis using ne by (simp add: patch_code patch_field)
  qed
qed simp

lemma idle_sites:
  assumes "link_inv st" and "idle st"
  shows "distinct (map fx_site (fixups st))" "\<forall>f\<in>set (fixups st). fx_site f < length (code st)"
    "\<And>f. f \<in> set (fixups st) \<Longrightarrow> blank (fx_kind f) (code st ! fx_site f)"
    "\<And>f. f \<in> set (fixups st) \<Longrightarrow> fx_kind f = FX_STR \<Longrightarrow> fx_aux f < length (cstrs st)"
proof -
  have "map fx_site (fixups st) = map (site_of st) (fixups st)"
    using assms(2) by (auto simp: idle_def list_all_iff site_of_def)
  then show "distinct (map fx_site (fixups st))" using assms(1) unfolding link_inv_def by metis
  show "\<forall>f\<in>set (fixups st). fx_site f < length (code st)"
    "\<And>f. f \<in> set (fixups st) \<Longrightarrow> blank (fx_kind f) (code st ! fx_site f)"
    "\<And>f. f \<in> set (fixups st) \<Longrightarrow> fx_kind f = FX_STR \<Longrightarrow> fx_aux f < length (cstrs st)"
    using assms by (auto simp: link_inv_def idle_def list_all_iff fixup_ok_def)
qed

lemma linked_word:
  assumes "link_inv st" and "idle st" and "f \<in> set (fixups st)"
  shows "im_code (fst (bin_emit st)) ! fx_site f = code st ! fx_site f OR link_field st f"
  using patches_code [OF idle_sites(1) [OF assms(1,2)] assms(3) idle_sites(2) [OF assms(1,2)]]
  by (simp add: bin_emit_def Let_def)

lemma length_im_code: "length (im_code (fst (bin_emit st))) = length (code st)"
  by (simp add: bin_emit_def Let_def patches_keep(4))

section \<open>Where the linked words point\<close>

lemma signed_field:
  assumes "n < 32" and "- (2 ^ n) \<le> d" and "d < 2 ^ n"
  shows "signed_take_bit n (uint (take_bit (Suc n) (word_of_int d :: u32))) = d"
proof -
  have "uint (take_bit (Suc n) (word_of_int d :: u32)) = take_bit (Suc n) d"
    using assms(1) by (simp add: unsigned_take_bit_eq uint_word_of_int_eq min_def)
  moreover have "signed_take_bit n (take_bit (Suc n) d) = signed_take_bit n d"
    by (simp add: signed_take_bit_take_bit)
  ultimately show ?thesis using assms(2,3) by (simp add: signed_take_bit_int_eq_self)
qed

lemma and_masks: "(x :: u32) AND 0x7ffff = take_bit 19 x" "(x :: u32) AND 0x3ffffff = take_bit 26 x"
    "(x :: u32) AND 3 = take_bit 2 x"
proof -
  have "(0x7ffff :: u32) = mask 19" "(0x3ffffff :: u32) = mask 26" "(3 :: u32) = mask 2"
    by (simp_all add: mask_eq_exp_minus_1)
  then show "x AND 0x7ffff = take_bit 19 x" "x AND 0x3ffffff = take_bit 26 x" "x AND 3 = take_bit 2 x"
    by (simp_all only: and_mask_take_bit)
qed

lemma adr_field:
  assumes "r < 2 ^ 20"
  shows "adr_rel (Adr (take_bit 2 (of_nat r)) (take_bit 19 (drop_bit 2 (of_nat r))) rd) = Some (int r)"
proof -
  define lo hi :: u32 where "lo = take_bit 2 (of_nat r)" and "hi = take_bit 19 (drop_bit 2 (of_nat r))"
  have w: "unat (of_nat r :: u32) = r" using assms by (simp add: unat_of_nat32)
  have "unat lo = r mod 4"
    by (simp only: lo_def unsigned_take_bit_eq w) (simp add: take_bit_eq_mod)
  moreover have "unat hi = r div 4"
    by (simp only: hi_def unsigned_take_bit_eq unsigned_drop_bit_eq w)
       (use assms in \<open>simp add: take_bit_eq_mod drop_bit_eq_div\<close>)
  ultimately have "unat hi * 4 + unat lo = r" by simp
  then have "uint hi * 4 + uint lo = int r"
    unfolding uint_nat by (metis of_nat_add of_nat_mult of_nat_numeral)
  then show ?thesis
    using assms by (simp add: lo_def [symmetric] hi_def [symmetric] signed_take_bit_int_eq_self)
qed

lemma of_nat_diff_int: "of_nat t - of_nat s = (word_of_int (int t - int s) :: u32)"
  by simp

lemma find_word_bound: "find_word ls key = Some t \<Longrightarrow> (\<And>l. l \<in> set ls \<Longrightarrow> lb_word l \<le> n) \<Longrightarrow> t \<le> n"
  by (induction ls key rule: find_word.induct) (auto split: if_splits)

lemma rel_range:
  assumes "link_inv st" and "s < length (code st)" and "t \<le> length (code st)"
  shows "- 8192 \<le> int t - int s" "int t - int s \<le> 8192"
  using assms by (auto simp: link_inv_def CODE_CAP_def)

lemma linked_words:
  assumes "small 4 c" and "- 8192 \<le> d" and "d \<le> 8192"
  shows "a64_decode (OP_B OR take_bit 26 (word_of_int d)) = Some (Branch (take_bit 26 (word_of_int d)))"
    and "a64_decode (OP_BL OR take_bit 26 (word_of_int d)) = Some (BranchLink (take_bit 26 (word_of_int d)))"
    and "a64_decode ((OP_BCOND OR c) OR push_bit 5 (take_bit 19 (word_of_int d)))
      = Some (BranchCond (unat c) (take_bit 19 (word_of_int d)))"
    and "branch_rel (Branch (take_bit 26 (word_of_int d))) = Some d"
    and "branch_rel (BranchLink (take_bit 26 (word_of_int d))) = Some d"
    and "branch_rel (BranchCond k (take_bit 19 (word_of_int d))) = Some d"
  using decode_branches(1-3) [OF small_take_bit small_take_bit assms(1) small_const(1) small_const(1)]
    signed_field [of 25 d] signed_field [of 18 d] assms(2,3)
  by simp_all

text \<open>A linked branch, call or address holds the distance to what the tables record.\<close>

lemma branch_word:
  assumes "a64_reach cs st" and "errs st = []" and "idle st"
    and "f \<in> set (fixups st)" and "fx_kind f = FX_BRANCH \<or> fx_kind f = FX_COND"
    and "find_word (labels st) (fx_key f) = Some t"
  shows "\<exists>i. a64_decode (im_code (fst (bin_emit st)) ! fx_site f) = Some i
    \<and> branch_rel i = Some (int t - int (fx_site f))
    \<and> (if fx_kind f = FX_COND then \<exists>k imm. i = BranchCond k imm else \<exists>imm. i = Branch imm)"
proof -
  note inv = reach_link_inv [OF assms(1,2)]
  have s: "fx_site f < length (code st)" using idle_sites(2) [OF inv assms(3)] assms(4) by blast
  have "\<And>l. l \<in> set (labels st) \<Longrightarrow> lb_word l \<le> length (code st)"
    using inv assms(3) by (auto simp: link_inv_def idle_def list_all_iff label_ok_def)
  then have t: "t \<le> length (code st)" using find_word_bound [OF assms(6)] by blast
  note r = rel_range [OF inv s t]
  note b = idle_sites(3) [OF inv assms(3,4)]
  note w = linked_word [OF inv assms(3,4)]
  show ?thesis
  proof (cases "fx_kind f = FX_BRANCH")
    case True
    then show ?thesis
      using b linked_words(1,4) [OF small_const(1) r] unfolding w
      by (simp add: link_field_def assms(6) and_masks of_nat_diff_int del: of_int_diff)
  next
    case False
    then have k: "fx_kind f = FX_COND" using assms(5) by simp
    then obtain c where c: "small 4 c" "code st ! fx_site f = OP_BCOND OR c" using b by auto
    show ?thesis
      unfolding w c(2) using linked_words(3,6) [OF c(1) r]
      by (simp add: link_field_def k assms(6) and_masks of_nat_diff_int del: of_int_diff)
  qed
qed

lemma call_word:
  assumes "a64_reach cs st" and "errs st = []" and "idle st"
    and "f \<in> set (fixups st)" and "fx_kind f = FX_CALL"
    and "find_word (fn_syms st) (fx_key f) = Some t"
  shows "\<exists>imm. a64_decode (im_code (fst (bin_emit st)) ! fx_site f) = Some (BranchLink imm)
    \<and> branch_rel (BranchLink imm) = Some (int t - int (fx_site f))"
proof -
  note inv = reach_link_inv [OF assms(1,2)]
  have s: "fx_site f < length (code st)" using idle_sites(2) [OF inv assms(3)] assms(4) by blast
  have "\<And>l. l \<in> set (fn_syms st) \<Longrightarrow> lb_word l \<le> length (code st)"
    using inv by (auto simp: link_inv_def list_all_iff)
  then have t: "t \<le> length (code st)" using find_word_bound [OF assms(6)] by blast
  note r = rel_range [OF inv s t]
  show ?thesis
    using idle_sites(3) [OF inv assms(3,4)] linked_words(2,5) [OF small_const(1) r]
    unfolding linked_word [OF inv assms(3,4)]
    by (simp add: link_field_def assms(5,6) and_masks of_nat_diff_int del: of_int_diff)
qed

lemma string_word:
  assumes "a64_reach cs st" and "errs st = []" and "idle st"
    and "f \<in> set (fixups st)" and "fx_kind f = FX_STR"
  shows "\<exists>i. a64_decode (im_code (fst (bin_emit st)) ! fx_site f) = Some i
    \<and> adr_rel i = Some (int (4 * length (im_code (fst (bin_emit st))) + fx_aux f) - int (4 * fx_site f))"
proof -
  note inv = reach_link_inv [OF assms(1,2)]
  note st = idle_sites [OF inv assms(3)]
  define r where "r = 4 * length (code st) + fx_aux f - 4 * fx_site f"
  have site: "fx_site f < length (code st)" using st(2) assms(4) by blast
  have aux: "fx_aux f < length (cstrs st)" using st(4) [OF assms(4,5)] .
  have cap: "length (code st) \<le> 8192" "length (cstrs st) \<le> 4096"
    using inv by (simp_all add: link_inv_def CODE_CAP_def CSTR_CAP_def)
  have r: "r < 2 ^ 20" "int r = int (4 * length (code st) + fx_aux f) - int (4 * fx_site f)"
    using site aux cap unfolding r_def by simp_all
  obtain rd where rd: "small 5 rd" "code st ! fx_site f = OP_ADR OR rd"
    using st(3) [OF assms(4)] assms(5) by auto
  have rel: "of_nat (length (code st) * 4 + fx_aux f) - of_nat (fx_site f * 4) = (of_nat r :: u32)"
    using site unfolding r_def by (subst of_nat_diff [symmetric]) (simp_all add: mult.commute)
  have field: "link_field st f = push_bit 29 (take_bit 2 (of_nat r)) OR push_bit 5 (take_bit 19 (drop_bit 2 (of_nat r)))"
    unfolding link_field_def assms(5) fixup_kind.case rel Let_def and_masks ..
  show ?thesis
    unfolding linked_word [OF inv assms(3,4)] rd(2) field length_im_code r(2) [symmetric]
    using decode_branches(4) [OF small_take_bit small_take_bit small_take_bit small_take_bit rd(1)] adr_field [OF r(1)] by simp
qed

end
