(* ===== verification/A64_Place.thy ===== *)
theory A64_Place
  imports A64_Link
begin

text \<open>
  Where the link of \<open>src/alc/bin-aarch64.c\<close> leads to. A history records what was emitted, apart from the tables of
  the back end: the finished functions with their words, the labels, branches, calls and strings, each with the
  number of its function and its word in the body. Places in the linked code are counted over the functions of
  the history, so the tables, and what \<open>emit_fn_end\<close> does to them, have to agree with it.
\<close>

section \<open>Histories\<close>

text \<open>A label is a function name, a label name and a number; a place is a function and a word of its body.\<close>

type_synonym label_id = "string \<times> string \<times> int"
type_synonym place = "nat \<times> nat"

datatype ref = Jump bool label_id | Call string | Literal string

record history =
  hs_blocks :: "(u32 list \<times> u32 list) list"
  hs_names :: "(string \<times> nat) list"
  hs_labels :: "(label_id \<times> place) list"
  hs_refs :: "(ref \<times> place) list"
  hs_named :: "nat \<Rightarrow> string option"
  hs_active :: "nat option"

fun label_key :: "label_id \<Rightarrow> string" where
  "label_key (f, l, i) = make_key f l i"

definition ctx_name :: "emit_context \<Rightarrow> string option" where
  "ctx_name c = (if ctx_fn_named c then Some (ctx_fn_name c) else None)"







section \<open>Places\<close>

definition block_words :: "(u32 list \<times> u32 list) list \<Rightarrow> u32 list" where
  "block_words bs = concat (map (\<lambda>(p, b). p @ b) bs)"

text \<open>The first word of a function, and the word at a place of its body, in the linked code.\<close>

definition fn_start :: "history \<Rightarrow> nat \<Rightarrow> nat" where
  "fn_start h k = length (block_words (take k (hs_blocks h)))"

definition word_at :: "history \<Rightarrow> place \<Rightarrow> nat" where
  "word_at h pl = fn_start h (fst pl) + length (fst (hs_blocks h ! fst pl)) + snd pl"

lemma block_words_simps [simp]:
  "block_words [] = []" "block_words (bs @ cs) = block_words bs @ block_words cs" "block_words [x] = fst x @ snd x"
  by (simp_all add: block_words_def case_prod_beta)


section \<open>The tables agree with the history\<close>

definition placed :: "history \<Rightarrow> place \<Rightarrow> bool \<Rightarrow> nat \<Rightarrow> bool" where
  "placed h pl done w \<longleftrightarrow> (if fst pl < length (hs_blocks h) then done \<and> w = word_at h pl
     else fst pl = length (hs_blocks h) \<and> \<not> done \<and> w = snd pl)"

definition label_agrees :: "history \<Rightarrow> label \<Rightarrow> label_id \<times> place \<Rightarrow> bool" where
  "label_agrees h l x \<longleftrightarrow> lb_key l = label_key (fst x) \<and> placed h (snd x) (lb_done l) (lb_word l)"

fun ref_agrees :: "string \<Rightarrow> fixup \<Rightarrow> ref \<Rightarrow> bool" where
  "ref_agrees cs f (Jump c x) \<longleftrightarrow> fx_kind f = (if c then FX_COND else FX_BRANCH) \<and> fx_key f = label_key x"
| "ref_agrees cs f (Call s) \<longleftrightarrow> fx_kind f = FX_CALL \<and> fx_key f = key_buf s"
| "ref_agrees cs f (Literal s) \<longleftrightarrow> fx_kind f = FX_STR
     \<and> take (length (unquote s) + 1) (drop (fx_aux f) cs) = unquote s @ [CHR 0x00]"

definition fixup_agrees :: "string \<Rightarrow> history \<Rightarrow> fixup \<Rightarrow> ref \<times> place \<Rightarrow> bool" where
  "fixup_agrees cs h f x \<longleftrightarrow> ref_agrees cs f (fst x) \<and> placed h (snd x) (fx_done f) (fx_site f)"

definition sym_of :: "history \<Rightarrow> string \<times> nat \<Rightarrow> label" where
  "sym_of h x = \<lparr>lb_key = key_buf (fst x), lb_word = fn_start h (snd x), lb_done = False\<rparr>"

definition agrees :: "a64 \<Rightarrow> history \<Rightarrow> bool" where
  "agrees st h \<longleftrightarrow> code st = block_words (hs_blocks h)
     \<and> list_all2 (label_agrees h) (labels st) (hs_labels h)
     \<and> list_all2 (fixup_agrees (cstrs st) h) (fixups st) (hs_refs h)
     \<and> fn_syms st = map (sym_of h) (take LABEL_CAP (hs_names h))
     \<and> list_all (\<lambda>x. snd x < length (hs_blocks h)) (hs_names h)
     \<and> hs_named h = ctx_name \<circ> ctxs st \<and> hs_active h = active_ctx st"




















section \<open>Reading the history back from the tables\<close>












lemma find_take: "length xs \<le> n \<Longrightarrow> find P (take n xs) = find P xs"
  by simp


text \<open>What stands at a place: the words of the functions one after the other, before the link fills in fields.\<close>

lemma words_in_place:
  assumes "agrees st h" and "k < length (hs_blocks h)"
  shows "drop (fn_start h k) (code st) = fst (hs_blocks h ! k) @ snd (hs_blocks h ! k) @ block_words (drop (Suc k) (hs_blocks h))"
    and "n \<le> length (snd (hs_blocks h ! k)) \<Longrightarrow> drop (word_at h (k, n)) (code st)
      = drop n (snd (hs_blocks h ! k)) @ block_words (drop (Suc k) (hs_blocks h))"
proof -
  have "code st = block_words (hs_blocks h)" using assms(1) by (simp add: agrees_def)
  also have "\<dots> = block_words (take k (hs_blocks h) @ hs_blocks h ! k # drop (Suc k) (hs_blocks h))"
    by (rule arg_cong [OF id_take_nth_drop [OF assms(2)]])
  also have "\<dots> = block_words (take k (hs_blocks h)) @ fst (hs_blocks h ! k) @ snd (hs_blocks h ! k)
      @ block_words (drop (Suc k) (hs_blocks h))" by (simp only: block_words_simps(2)) (simp add: block_words_def case_prod_beta)
  finally have c: "code st = \<dots>" .
  show "drop (fn_start h k) (code st) = fst (hs_blocks h ! k) @ snd (hs_blocks h ! k) @ block_words (drop (Suc k) (hs_blocks h))"
    by (simp only: c fn_start_def) simp
  show "drop (word_at h (k, n)) (code st) = drop n (snd (hs_blocks h ! k)) @ block_words (drop (Suc k) (hs_blocks h))"
    if "n \<le> length (snd (hs_blocks h ! k))"
    using that by (simp only: c word_at_def fn_start_def fst_conv snd_conv) simp
qed


section \<open>An example\<close>




definition ex_history :: history where
  "ex_history = \<lparr>hs_blocks = [([OP_RET], [OP_RET, OP_B, OP_BL, OP_BL, OP_ADR])], hs_names = [(''f'', 0)],
     hs_labels = [((''f'', ''l'', 0), 0, 0)],
     hs_refs = [(Jump False (''f'', ''l'', 0), 0, 1), (Call ''f'', 0, 2), (Call ''g'', 0, 3),
       (Literal [CHR 0x22, CHR ''h'', CHR 0x22], 0, 4)],
     hs_named = (\<lambda>_. None)(0 := Some ''f''), hs_active = Some 0\<rparr>"




lemma ex_history_simps [simp]:
  "hs_labels ex_history = [((''f'', ''l'', 0), 0, 0)]" "hs_names ex_history = [(''f'', 0)]"
  "hs_refs ex_history = [(Jump False (''f'', ''l'', 0), 0, 1), (Call ''f'', 0, 2), (Call ''g'', 0, 3),
     (Literal [CHR 0x22, CHR ''h'', CHR 0x22], 0, 4)]"
  "word_at ex_history (0, n) = n + 1" "fn_start ex_history 0 = 0"
  by (simp_all add: ex_history_def word_at_def fn_start_def)

section \<open>Properties\<close>







end
