(* ===== verification/X64_State.thy ===== *)
theory X64_State
  imports A64_State
begin

text \<open>
  The static state of \<open>src/alc/bin-x86_64.c\<close> and the encoders every emitter goes through. The label
  records and keys are those of the AArch64 back end, whose declarations the code repeats; \<open>lb_word\<close> is
  the byte position \<open>at\<close>.

  The register tables are external to the back end; each executable writer defines them, for the
  System V and the Windows conventions. An emitter takes the table it is linked with. A function that
  puts several bytes in a row is \<open>puts\<close> of the list of these bytes.
\<close>

section \<open>Constants\<close>

definition X_CODE_CAP :: nat where "X_CODE_CAP = 0x20000"
definition X_PROL_CAP :: nat where "X_PROL_CAP = 256"
definition X_CSTR_CAP :: nat where "X_CSTR_CAP = 0x2000"

definition REX_BASE :: u8 where "REX_BASE = 0x40"
definition REX_W :: u8 where "REX_W = 0x08"
definition REX_R :: u8 where "REX_R = 0x04"
definition REX_X :: u8 where "REX_X = 0x02"
definition REX_B :: u8 where "REX_B = 0x01"

definition OP_ADD_RM_R :: u8 where "OP_ADD_RM_R = 0x01"
definition OP_OR_RM_R :: u8 where "OP_OR_RM_R = 0x09"
definition OP_AND_RM_R :: u8 where "OP_AND_RM_R = 0x21"
definition OP_SUB_RM_R :: u8 where "OP_SUB_RM_R = 0x29"
definition OP_XOR_RM_R :: u8 where "OP_XOR_RM_R = 0x31"
definition OP_CMP_RM_R :: u8 where "OP_CMP_RM_R = 0x39"
definition OP_MOV_RM_R :: u8 where "OP_MOV_RM_R = 0x89"
definition OP_MOV_R_RM :: u8 where "OP_MOV_R_RM = 0x8b"
definition OP_LEA :: u8 where "OP_LEA = 0x8d"
definition OP_MOVSXD :: u8 where "OP_MOVSXD = 0x63"
definition ALU_ADD :: u8 where "ALU_ADD = 0"
definition ALU_OR :: u8 where "ALU_OR = 1"
definition ALU_AND :: u8 where "ALU_AND = 4"
definition ALU_SUB :: u8 where "ALU_SUB = 5"
definition ALU_XOR :: u8 where "ALU_XOR = 6"
definition ALU_CMP :: u8 where "ALU_CMP = 7"
definition SH_SHL :: u8 where "SH_SHL = 4"
definition SH_SHR :: u8 where "SH_SHR = 5"
definition SH_SAR :: u8 where "SH_SAR = 7"
definition OP_GRP1_IMM8 :: u8 where "OP_GRP1_IMM8 = 0x83"
definition OP_GRP1_IMM32 :: u8 where "OP_GRP1_IMM32 = 0x81"
definition OP_GRP1_IMM8B :: u8 where "OP_GRP1_IMM8B = 0x80"
definition OP_GRP_SHIFT :: u8 where "OP_GRP_SHIFT = 0xc1"
definition OP_GRP3 :: u8 where "OP_GRP3 = 0xf7"
definition GRP3_NEG :: u8 where "GRP3_NEG = 3"
definition OP_MOV_IMM_RM :: u8 where "OP_MOV_IMM_RM = 0xc7"
definition OP_MOV_IMM_R :: u8 where "OP_MOV_IMM_R = 0xb8"
definition OP_MOV_IMM_R8 :: u8 where "OP_MOV_IMM_R8 = 0xb0"
definition OP_PUSH_R :: u8 where "OP_PUSH_R = 0x50"
definition OP_POP_R :: u8 where "OP_POP_R = 0x58"
definition OP_JMP_REL32 :: u8 where "OP_JMP_REL32 = 0xe9"
definition OP_CALL_REL32 :: u8 where "OP_CALL_REL32 = 0xe8"
definition X_OP_RET :: u8 where "X_OP_RET = 0xc3"
definition OP_0F :: u8 where "OP_0F = 0x0f"
definition OP_JCC_REL32 :: u8 where "OP_JCC_REL32 = 0x80"
definition OP_SETCC :: u8 where "OP_SETCC = 0x90"
definition OP_MOVZX_8 :: u8 where "OP_MOVZX_8 = 0xb6"
definition OP_MOVZX_16 :: u8 where "OP_MOVZX_16 = 0xb7"
definition OP_MOVSX_8 :: u8 where "OP_MOVSX_8 = 0xbe"
definition OP_MOVSX_16 :: u8 where "OP_MOVSX_16 = 0xbf"
definition OP_IMUL_IMM8 :: u8 where "OP_IMUL_IMM8 = 0x6b"
definition OP_IMUL_IMM32 :: u8 where "OP_IMUL_IMM32 = 0x69"

lemmas x64_ops =
  REX_BASE_def REX_W_def REX_R_def REX_X_def REX_B_def OP_ADD_RM_R_def OP_OR_RM_R_def OP_AND_RM_R_def
  OP_SUB_RM_R_def OP_XOR_RM_R_def OP_CMP_RM_R_def OP_MOV_RM_R_def OP_MOV_R_RM_def OP_LEA_def OP_MOVSXD_def
  ALU_ADD_def ALU_OR_def ALU_AND_def ALU_SUB_def ALU_XOR_def ALU_CMP_def SH_SHL_def SH_SHR_def SH_SAR_def
  OP_GRP1_IMM8_def OP_GRP1_IMM32_def OP_GRP1_IMM8B_def OP_GRP_SHIFT_def OP_GRP3_def GRP3_NEG_def
  OP_MOV_IMM_RM_def OP_MOV_IMM_R_def OP_MOV_IMM_R8_def OP_PUSH_R_def OP_POP_R_def OP_JMP_REL32_def
  OP_CALL_REL32_def X_OP_RET_def OP_0F_def OP_JCC_REL32_def OP_SETCC_def OP_MOVZX_8_def OP_MOVZX_16_def
  OP_MOVSX_8_def OP_MOVSX_16_def OP_IMUL_IMM8_def OP_IMUL_IMM32_def

definition RAX :: u32 where "RAX = 0"
definition RBP :: u32 where "RBP = 5"
definition RSP :: u32 where "RSP = 4"

definition cond_cc :: "u8 list" where
  "cond_cc = [0x4, 0x5, 0x3, 0x2, 0x8, 0x9, 0x0, 0x1, 0x7, 0x6, 0xd, 0xc, 0xf, 0xe]"

section \<open>State\<close>

datatype xfixup_kind = FX_JMP | FX_JCC | FX_XCALL | FX_XSTR

record xfixup =
  xf_key :: string
  xf_site :: nat
  xf_aux :: nat
  xf_kind :: xfixup_kind
  xf_done :: bool

record x64 =
  xcode :: "u8 list"
  xentry_off :: nat
  xbody :: "u8 list"
  xprol :: "u8 list"
  emit_to_prol :: bool
  xlabels :: "label list"
  xfixups :: "xfixup list"
  xfn_syms :: "label list"
  xctxs :: "nat \<Rightarrow> emit_context"
  xactive_ctx :: "nat option"
  xcstrs :: string
  ximports :: "string list"
  xextcalls :: "(nat \<times> nat) list"
  xerrs :: "a64_error list"

definition x64_init :: "(nat \<Rightarrow> emit_context) \<Rightarrow> x64" where
  "x64_init cs = \<lparr>xcode = [], xentry_off = 0, xbody = [], xprol = [], emit_to_prol = False, xlabels = [],
     xfixups = [], xfn_syms = [], xctxs = cs, xactive_ctx = None, xcstrs = [], ximports = [], xextcalls = [],
     xerrs = []\<rparr>"

definition xreport_err :: "a64_error \<Rightarrow> x64 \<Rightarrow> x64" where
  "xreport_err e st = st\<lparr>xerrs := xerrs st @ [e]\<rparr>"

section \<open>Registers\<close>

record abi =
  scratch_regs :: "u8 list"
  callee_regs :: "u8 list"
  param_regs :: "u8 list"
  ret_regs :: "u8 list"

definition elf_abi :: abi where
  "elf_abi = \<lparr>scratch_regs = [0, 1, 2, 6, 7, 8, 9], callee_regs = [3, 12, 13, 14, 15, 10, 11],
     param_regs = [7, 6, 2, 1, 8, 9], ret_regs = [0, 2]\<rparr>"

definition pe_abi :: abi where
  "pe_abi = \<lparr>scratch_regs = [0, 1, 2, 8, 9, 10, 11], callee_regs = [3, 6, 7, 12, 13, 14, 15],
     param_regs = [1, 2, 8, 9, 10, 11], ret_regs = [0, 2]\<rparr>"

definition xreg_no :: "abi \<Rightarrow> reg \<Rightarrow> u32" where
  "xreg_no a r = (case r_type r of
      SCRATCH \<Rightarrow> ucast (scratch_regs a ! unat (r_offset r))
    | NREG \<Rightarrow> ucast (callee_regs a ! unat (r_offset r))
    | PARAM \<Rightarrow> ucast (param_regs a ! unat (r_offset r))
    | RET \<Rightarrow> ucast (ret_regs a ! unat (r_offset r))
    | FRAME \<Rightarrow> RBP
    | STACK \<Rightarrow> RSP
    | RD_NONE \<Rightarrow> RAX)"

definition rsz :: "reg \<Rightarrow> u8" where
  "rsz r = (if r_rsize r \<noteq> 0 then r_rsize r else 4)"

section \<open>Bytes\<close>

definition put8 :: "u8 \<Rightarrow> x64 \<Rightarrow> x64" where
  "put8 b st =
    (if emit_to_prol st then
       (if X_PROL_CAP \<le> length (xprol st) then xreport_err PrologueOverflow st
        else st\<lparr>xprol := xprol st @ [b]\<rparr>)
     else if X_CODE_CAP \<le> length (xbody st) then xreport_err CodeOverflow st
     else st\<lparr>xbody := xbody st @ [b]\<rparr>)"

primrec puts :: "u8 list \<Rightarrow> x64 \<Rightarrow> x64" where
  "puts [] st = st"
| "puts (b # bs) st = puts bs (put8 b st)"

definition le32 :: "u32 \<Rightarrow> u8 list" where
  "le32 v = [ucast (v AND 0xff), ucast (drop_bit 8 v AND 0xff), ucast (drop_bit 16 v AND 0xff),
             ucast (drop_bit 24 v AND 0xff)]"

definition put32 :: "u32 \<Rightarrow> x64 \<Rightarrow> x64" where
  "put32 v st = puts (le32 v) st"

definition le64 :: "u64 \<Rightarrow> u8 list" where
  "le64 v = le32 (ucast (v AND 0xffffffff)) @ le32 (ucast (drop_bit 32 v))"

definition put64 :: "u64 \<Rightarrow> x64 \<Rightarrow> x64" where
  "put64 v st = puts (le64 v) st"

definition cur_off :: "x64 \<Rightarrow> nat" where
  "cur_off st = (if emit_to_prol st then length (xprol st) else length (xbody st))"

section \<open>Encoders\<close>

definition p66 :: "u8 \<Rightarrow> u8 list" where
  "p66 sz = (if sz = 2 then [0x66] else [])"

definition rex_bits :: "bool \<Rightarrow> bool \<Rightarrow> bool \<Rightarrow> bool \<Rightarrow> u8" where
  "rex_bits w r x b = (if w then REX_W else 0) OR (if r then REX_R else 0) OR (if x then REX_X else 0)
     OR (if b then REX_B else 0)"

definition rex_bytes :: "u8 \<Rightarrow> bool \<Rightarrow> u8 list" where
  "rex_bytes rex force = (if rex \<noteq> 0 \<or> force then [REX_BASE OR rex] else [])"

definition modrm :: "u32 \<Rightarrow> u32 \<Rightarrow> u8" where
  "modrm reg rm = ucast (0xc0 OR push_bit 3 (reg AND 7) OR (rm AND 7))"

definition legacy8 :: "u32 \<Rightarrow> bool" where
  "legacy8 r \<longleftrightarrow> 4 \<le> r \<and> r \<le> 7"

definition byte_opc :: "bool \<Rightarrow> u8 \<Rightarrow> u8" where
  "byte_opc byte_op opcode = (if byte_op then opcode AND 0xfe else opcode)"

definition rr_bytes :: "u8 \<Rightarrow> u8 \<Rightarrow> u32 \<Rightarrow> u32 \<Rightarrow> u8 list" where
  "rr_bytes opcode sz reg rm =
    p66 sz @ rex_bytes (rex_bits (sz = 8) (8 \<le> reg) False (8 \<le> rm)) (sz = 1 \<and> (legacy8 reg \<or> legacy8 rm))
    @ [byte_opc (sz = 1) opcode, modrm reg rm]"

definition encode_rr :: "u8 \<Rightarrow> u8 \<Rightarrow> u32 \<Rightarrow> u32 \<Rightarrow> x64 \<Rightarrow> x64" where
  "encode_rr opcode sz reg rm st = puts (rr_bytes opcode sz reg rm) st"

definition choose_mod :: "i32 \<Rightarrow> u32 \<Rightarrow> u8" where
  "choose_mod disp base_low3 =
    (if disp = 0 \<and> base_low3 \<noteq> 5 then 0 else if - 128 \<le>s disp \<and> disp \<le>s 127 then 1 else 2)"

definition disp_bytes :: "i32 \<Rightarrow> u8 \<Rightarrow> u8 list" where
  "disp_bytes disp md = (if md = 1 then [ucast disp] else if md = 2 then le32 disp else [])"

definition put_disp :: "i32 \<Rightarrow> u8 \<Rightarrow> x64 \<Rightarrow> x64" where
  "put_disp disp md st = puts (disp_bytes disp md) st"

definition scale_bits :: "u32 \<Rightarrow> u32" where
  "scale_bits scale = (if scale = 8 then 3 else if scale = 4 then 2 else if scale = 2 then 1 else 0)"

text \<open>The operand bytes of a memory access: mode, optional scale-index-base, displacement.\<close>

definition mem_bytes :: "u32 \<Rightarrow> u32 \<Rightarrow> u32 option \<Rightarrow> u32 \<Rightarrow> i32 \<Rightarrow> u8 list" where
  "mem_bytes reg_field base index scale disp =
    (let base_low3 = base AND 7; md = choose_mod disp base_low3 in
     (if index \<noteq> None \<or> base_low3 = 4 then
        [ucast (push_bit 6 (ucast md :: u32) OR push_bit 3 (reg_field AND 7) OR 4),
         ucast (push_bit 6 (scale_bits scale)
                OR push_bit 3 (case index of None \<Rightarrow> 4 | Some i \<Rightarrow> i AND 7) OR base_low3)]
      else [ucast (push_bit 6 (ucast md :: u32) OR push_bit 3 (reg_field AND 7) OR base_low3)])
     @ disp_bytes disp md)"

definition enc_mem_bytes :: "u8 \<Rightarrow> u8 \<Rightarrow> u32 \<Rightarrow> u32 \<Rightarrow> u32 option \<Rightarrow> u32 \<Rightarrow> i32 \<Rightarrow> u8 list" where
  "enc_mem_bytes opcode sz reg_field base index scale disp =
    p66 sz @ rex_bytes (rex_bits (sz = 8) (8 \<le> reg_field) (case index of None \<Rightarrow> False | Some i \<Rightarrow> 8 \<le> i) (8 \<le> base))
               (sz = 1 \<and> legacy8 reg_field)
    @ [byte_opc (sz = 1) opcode] @ mem_bytes reg_field base index scale disp"

definition encode_mem :: "u8 \<Rightarrow> u8 \<Rightarrow> u32 \<Rightarrow> u32 \<Rightarrow> u32 option \<Rightarrow> u32 \<Rightarrow> i32 \<Rightarrow> x64 \<Rightarrow> x64" where
  "encode_mem opcode sz reg_field base index scale disp st =
    puts (enc_mem_bytes opcode sz reg_field base index scale disp) st"

text \<open>A digit in the register field and a register operand.\<close>

definition modrm_digit :: "u8 \<Rightarrow> u32 \<Rightarrow> u8" where
  "modrm_digit digit rm = ucast (0xc0 OR push_bit 3 (ucast digit) OR (rm AND 7))"

definition alu_ri_bytes :: "u8 \<Rightarrow> u8 \<Rightarrow> u32 \<Rightarrow> i64 \<Rightarrow> u8 list" where
  "alu_ri_bytes digit sz rm imm =
    p66 sz @ rex_bytes (rex_bits (sz = 8) False False (8 \<le> rm)) (sz = 1 \<and> legacy8 rm)
    @ (if sz = 1 then [OP_GRP1_IMM8B, modrm_digit digit rm, ucast imm]
       else if - 128 \<le>s imm \<and> imm \<le>s 127 then [OP_GRP1_IMM8, modrm_digit digit rm, ucast imm]
       else [OP_GRP1_IMM32, modrm_digit digit rm] @ le32 (ucast imm))"

definition shift_ri_bytes :: "u8 \<Rightarrow> u8 \<Rightarrow> u32 \<Rightarrow> i64 \<Rightarrow> u8 list" where
  "shift_ri_bytes digit sz rm amount =
    p66 sz @ rex_bytes (rex_bits (sz = 8) False False (8 \<le> rm)) False
    @ [OP_GRP_SHIFT, modrm_digit digit rm, ucast amount]"

definition neg_bytes :: "u8 \<Rightarrow> u32 \<Rightarrow> u8 list" where
  "neg_bytes sz rm =
    p66 sz @ rex_bytes (rex_bits (sz = 8) False False (8 \<le> rm)) False
    @ [byte_opc (sz = 1) OP_GRP3, modrm_digit GRP3_NEG rm]"

section \<open>Instructions on registers\<close>

definition alu_rr :: "abi \<Rightarrow> u8 \<Rightarrow> reg \<Rightarrow> reg \<Rightarrow> x64 \<Rightarrow> x64" where
  "alu_rr a opcode dst src st = encode_rr opcode (rsz dst) (xreg_no a src) (xreg_no a dst) st"

definition alu_ri :: "abi \<Rightarrow> u8 \<Rightarrow> reg \<Rightarrow> i64 \<Rightarrow> x64 \<Rightarrow> x64" where
  "alu_ri a digit dst imm st = puts (alu_ri_bytes digit (rsz dst) (xreg_no a dst) imm) st"

definition shift_ri :: "abi \<Rightarrow> u8 \<Rightarrow> reg \<Rightarrow> i64 \<Rightarrow> x64 \<Rightarrow> x64" where
  "shift_ri a digit dst amount st = puts (shift_ri_bytes digit (rsz dst) (xreg_no a dst) amount) st"

definition emit_neg :: "abi \<Rightarrow> reg \<Rightarrow> x64 \<Rightarrow> x64" where
  "emit_neg a dst st = puts (neg_bytes (rsz dst) (xreg_no a dst)) st"

section \<open>What putting bytes changes\<close>

definition xroom :: "nat \<Rightarrow> x64 \<Rightarrow> bool" where
  "xroom n st \<longleftrightarrow> \<not> emit_to_prol st \<and> length (xbody st) + n \<le> X_CODE_CAP"

definition xemits :: "x64 \<Rightarrow> u8 list \<Rightarrow> x64" where
  "xemits st bs = st\<lparr>xbody := xbody st @ bs\<rparr>"

lemma xemits_simps [simp]:
  "xemits st [] = st" "xemits (xemits st xs) ys = xemits st (xs @ ys)" "xbody (xemits st bs) = xbody st @ bs"
  "emit_to_prol (xemits st bs) = emit_to_prol st"
  by (simp_all add: xemits_def)

lemma xroom_emits [simp]: "xroom n (xemits st bs) \<longleftrightarrow> xroom (n + length bs) st"
  by (auto simp: xroom_def)

lemma xroom_less: "xroom n st \<Longrightarrow> k \<le> n \<Longrightarrow> xroom k st"
  by (simp add: xroom_def)

lemma puts_append: "puts (xs @ ys) st = puts ys (puts xs st)"
  by (induction xs arbitrary: st) simp_all

lemma puts_room: "xroom (length bs) st \<Longrightarrow> puts bs st = xemits st bs"
proof (induction bs arbitrary: st)
  case (Cons b bs)
  then have "put8 b st = xemits st [b]" by (simp add: put8_def xroom_def xemits_def)
  moreover have "xroom (length bs) (xemits st [b])" using Cons.prems by simp
  ultimately show ?case using Cons.IH by simp
qed simp

text \<open>The bytes an emitter appends to the body.\<close>

definition xemitted :: "(x64 \<Rightarrow> x64) \<Rightarrow> x64 \<Rightarrow> u8 list" where
  "xemitted f st = drop (length (xbody st)) (xbody (f st))"

lemma xemitted_puts: "xroom (length bs) st \<Longrightarrow> xemitted (puts bs) st = bs"
  by (simp add: xemitted_def puts_room)

lemma puts_puts: "(\<lambda>st. puts ys (puts xs st)) = puts (xs @ ys)"
  by (simp add: puts_append fun_eq_iff)

end
