(* ===== verification/X64_Emit.thy ===== *)
theory X64_Emit
  imports X64_State A64_Link
begin

text \<open>
  The emitters of \<open>src/alc/bin-x86_64.c\<close>. They have the names of the code with the suffix \<open>_x64\<close>, because
  the AArch64 back end defines the same interface. The aggregates' member lists are those of
  \<open>A64_Agg\<close>; \<open>None\<close> stands for following a null base type or reading past the end of the members.
\<close>

section \<open>Moves\<close>

definition mov_bytes :: "u8 \<Rightarrow> u32 \<Rightarrow> i64 \<Rightarrow> u8 list" where
  "mov_bytes sz r value =
    (if sz \<le> 4 then
       p66 sz @ (if 8 \<le> r then [REX_BASE OR REX_B] else [])
       @ (if sz = 1 then (if legacy8 r then [REX_BASE] else []) @ [OP_MOV_IMM_R8 + ucast (r AND 7), ucast value]
          else [OP_MOV_IMM_R + ucast (r AND 7)]
               @ (if sz = 2 then [ucast value, ucast (drop_bit 8 value)] else le32 (ucast value)))
     else if - 0x80000000 \<le>s value \<and> value \<le>s 0x7fffffff then
       [REX_BASE OR REX_W OR (if 8 \<le> r then REX_B else 0), OP_MOV_IMM_RM, ucast (0xc0 OR (r AND 7))]
       @ le32 (ucast value)
     else if 0 <s value \<and> value \<le>s 0xffffffff then
       (if 8 \<le> r then [REX_BASE OR REX_B] else []) @ [OP_MOV_IMM_R + ucast (r AND 7)] @ le32 (ucast value)
     else
       [REX_BASE OR REX_W OR (if 8 \<le> r then REX_B else 0), OP_MOV_IMM_R + ucast (r AND 7)] @ le64 value)"

definition emit_mov_x64 :: "abi \<Rightarrow> reg \<Rightarrow> i64 \<Rightarrow> x64 \<Rightarrow> x64" where
  "emit_mov_x64 a dst value st =
    (if value = 0 then
       (let sz = (if 4 < rsz dst then 4 else rsz dst) in
        encode_rr OP_XOR_RM_R sz (xreg_no a dst) (xreg_no a dst) st)
     else puts (mov_bytes (rsz dst) (xreg_no a dst) value) st)"

definition emit_zero_out_x64 :: "abi \<Rightarrow> reg \<Rightarrow> x64 \<Rightarrow> x64" where
  "emit_zero_out_x64 a dst st = emit_mov_x64 a dst 0 st"

text \<open>A two-byte opcode that widens a register, and the widening of four bytes with the sign.\<close>

definition extend_bytes :: "u8 \<Rightarrow> u8 \<Rightarrow> u8 \<Rightarrow> u8 \<Rightarrow> u32 \<Rightarrow> u32 \<Rightarrow> u8 list" where
  "extend_bytes op8 op16 dsz ssz d s =
    p66 dsz @ rex_bytes (rex_bits (dsz = 8) (8 \<le> d) False (8 \<le> s)) (ssz = 1 \<and> legacy8 s)
    @ [OP_0F, if ssz = 1 then op8 else op16, modrm d s]"

definition movsxd_bytes :: "u32 \<Rightarrow> u32 \<Rightarrow> u8 list" where
  "movsxd_bytes d s = [REX_BASE OR rex_bits True (8 \<le> d) False (8 \<le> s), OP_MOVSXD, modrm d s]"

definition emit_mov_reg_x64 :: "abi \<Rightarrow> tstore \<Rightarrow> reg \<Rightarrow> reg \<Rightarrow> x64 \<Rightarrow> x64" where
  "emit_mov_reg_x64 a ts dst src st =
    (let d = xreg_no a dst; s = xreg_no a src in
     if r_rsize dst \<noteq> 0 \<and> r_rsize src \<noteq> 0 \<and> r_rsize src < r_rsize dst then
       (if (case base_type ts (r_dtype src) of None \<Rightarrow> False | Some t \<Rightarrow> ty_sign t) then
          (if r_rsize dst = 8 \<and> r_rsize src = 4 then puts (movsxd_bytes d s) st
           else puts (extend_bytes OP_MOVSX_8 OP_MOVSX_16 (r_rsize dst) (r_rsize src) d s) st)
        else if r_rsize dst = 8 \<and> r_rsize src = 4 then encode_rr OP_MOV_RM_R 4 s d st
        else puts (extend_bytes OP_MOVZX_8 OP_MOVZX_16 (r_rsize dst) (r_rsize src) d s) st)
     else
       (let d' = (if r_rsize dst < r_rsize src then dst\<lparr>r_rsize := r_rsize src\<rparr> else dst) in
        encode_rr OP_MOV_RM_R (rsz d') s d st))"

section \<open>Arithmetic\<close>

definition emit_add_x64 :: "abi \<Rightarrow> reg \<Rightarrow> reg \<Rightarrow> i64 \<Rightarrow> x64 \<Rightarrow> x64" where
  "emit_add_x64 a dst lhs rhs st =
    encode_mem OP_LEA (rsz dst) (xreg_no a dst) (xreg_no a lhs) None 1 (ucast rhs) st"

definition emit_add_reg_x64 :: "abi \<Rightarrow> tstore \<Rightarrow> reg \<Rightarrow> reg \<Rightarrow> reg \<Rightarrow> x64 \<Rightarrow> x64" where
  "emit_add_reg_x64 a ts dst lhs rhs st =
    (if r_rsize lhs \<noteq> r_rsize rhs then
       (let wd = (if r_rsize rhs < r_rsize lhs then lhs else rhs)\<lparr>r_rsize := r_rsize dst\<rparr>;
            narrow = (if r_rsize rhs < r_rsize lhs then rhs else lhs) in
        alu_rr a OP_ADD_RM_R dst wd (emit_mov_reg_x64 a ts dst narrow st))
     else encode_mem OP_LEA (rsz dst) (xreg_no a dst) (xreg_no a lhs) (Some (xreg_no a rhs)) 1 0 st)"

definition emit_sub_x64 :: "abi \<Rightarrow> reg \<Rightarrow> reg \<Rightarrow> i64 \<Rightarrow> x64 \<Rightarrow> x64" where
  "emit_sub_x64 a dst lhs rhs st =
    encode_mem OP_LEA (rsz dst) (xreg_no a dst) (xreg_no a lhs) None 1 (ucast (- rhs)) st"

definition emit_sub_reg_x64 :: "abi \<Rightarrow> tstore \<Rightarrow> reg \<Rightarrow> reg \<Rightarrow> reg \<Rightarrow> x64 \<Rightarrow> x64" where
  "emit_sub_reg_x64 a ts dst lhs rhs st =
    (if r_rsize lhs = r_rsize rhs then
       alu_rr a OP_SUB_RM_R dst rhs (encode_rr OP_MOV_RM_R (rsz dst) (xreg_no a lhs) (xreg_no a dst) st)
     else
       (let wlhs = lhs\<lparr>r_rsize := r_rsize dst\<rparr>; wrhs = rhs\<lparr>r_rsize := r_rsize dst\<rparr> in
        if r_rsize rhs < r_rsize lhs then
          emit_neg a dst (alu_rr a OP_SUB_RM_R dst wlhs (emit_mov_reg_x64 a ts dst rhs st))
        else alu_rr a OP_SUB_RM_R dst wrhs (emit_mov_reg_x64 a ts dst lhs st)))"

definition emit_cmp_x64 :: "abi \<Rightarrow> reg \<Rightarrow> i64 \<Rightarrow> x64 \<Rightarrow> x64" where
  "emit_cmp_x64 a lhs rhs st = alu_ri a ALU_CMP lhs rhs st"

definition emit_cmp_reg_x64 :: "abi \<Rightarrow> tstore \<Rightarrow> reg \<Rightarrow> reg \<Rightarrow> cond \<Rightarrow> x64 \<Rightarrow> x64" where
  "emit_cmp_reg_x64 a ts lhs rhs c st =
    (if r_rsize lhs = r_rsize rhs then alu_rr a OP_CMP_RM_R lhs rhs st
     else
       (let n = (if r_rsize rhs < r_rsize lhs then r_rsize lhs else r_rsize rhs);
            tmp = reg0\<lparr>r_type := SCRATCH, r_offset := 0, r_rsize := n\<rparr>;
            wlhs = lhs\<lparr>r_rsize := n\<rparr>; wrhs = rhs\<lparr>r_rsize := n\<rparr> in
        if r_rsize rhs < r_rsize lhs then
          alu_rr a OP_CMP_RM_R wlhs tmp (emit_mov_reg_x64 a ts tmp rhs st)
        else if c = COND_EQ \<or> c = COND_NE then alu_rr a OP_CMP_RM_R wlhs wrhs st
        else alu_rr a OP_CMP_RM_R tmp wrhs (emit_mov_reg_x64 a ts tmp lhs st)))"

definition emit_lsl_x64 :: "abi \<Rightarrow> tstore \<Rightarrow> reg \<Rightarrow> reg \<Rightarrow> i64 \<Rightarrow> x64 \<Rightarrow> x64" where
  "emit_lsl_x64 a ts dst lhs rhs st =
    (if 4 \<le>s rhs then
       shift_ri a SH_SHL dst rhs (encode_rr OP_MOV_RM_R (rsz dst) (xreg_no a lhs) (xreg_no a dst) st)
     else if rhs = 0 then emit_mov_reg_x64 a ts dst lhs st
     else if rhs = 1 then emit_add_reg_x64 a ts dst lhs lhs st
     else encode_mem OP_LEA (rsz dst) (xreg_no a dst) (xreg_no a lhs) (Some (xreg_no a lhs))
            (push_bit (unat rhs) 1) 0 st)"

definition emit_cond_set_x64 :: "abi \<Rightarrow> tstore \<Rightarrow> reg \<Rightarrow> cond \<Rightarrow> x64 \<Rightarrow> x64" where
  "emit_cond_set_x64 a ts dst c st =
    (if length cond_cc \<le> cond_no c then xreport_err UnknownCond st
     else
       (let r = xreg_no a dst;
            st1 = puts (rex_bytes (rex_bits False False False (8 \<le> r)) (legacy8 r)
                    @ [OP_0F, OP_SETCC + cond_cc ! cond_no c, ucast (0xc0 OR (r AND 7))]) st;
            wd = (if r_rsize dst \<le> 1 then dst\<lparr>r_rsize := 4\<rparr> else dst);
            byted = dst\<lparr>r_rsize := 1, r_dtype := dtype0\<rparr> in
        emit_mov_reg_x64 a ts wd byted st1))"

section \<open>Memory\<close>

definition emit_str_reg_x64 :: "abi \<Rightarrow> reg \<Rightarrow> reg \<Rightarrow> i32 \<Rightarrow> x64 \<Rightarrow> x64" where
  "emit_str_reg_x64 a dst src offset st =
    encode_mem OP_MOV_RM_R (rsz src) (xreg_no a src) (xreg_no a dst) None 1 offset st"

definition mem_imm_bytes :: "u8 \<Rightarrow> u32 \<Rightarrow> i32 \<Rightarrow> i64 \<Rightarrow> u8 list" where
  "mem_imm_bytes sz base offset value =
    p66 sz @ rex_bytes (rex_bits (sz = 8) False False (8 \<le> base)) False
    @ [byte_opc (sz = 1) OP_MOV_IMM_RM] @ mem_bytes 0 base None 1 offset
    @ (if sz = 1 then [ucast value] else if sz = 2 then [ucast value, ucast (drop_bit 8 value)]
       else le32 (ucast value))"

definition emit_mem_imm :: "abi \<Rightarrow> u8 \<Rightarrow> reg \<Rightarrow> i32 \<Rightarrow> i64 \<Rightarrow> x64 \<Rightarrow> x64" where
  "emit_mem_imm a sz dst offset value st = puts (mem_imm_bytes sz (xreg_no a dst) offset value) st"

definition emit_str_imm_x64 :: "abi \<Rightarrow> tstore \<Rightarrow> reg \<Rightarrow> i64 \<Rightarrow> i32 \<Rightarrow> x64 \<Rightarrow> x64 option" where
  "emit_str_imm_x64 a ts dst value offset st =
    (case base_type ts (r_dtype dst) of None \<Rightarrow> None | Some t \<Rightarrow>
      (let sz = ucast (ty_size t) :: u8 in
       if 8 \<le> sz \<and> (value <s - 0x80000000 \<or> 0x7fffffff <s value) then
         Some (emit_mem_imm a 4 dst (offset + 4) (scast (ucast (drop_bit 32 value) :: i32))
                (emit_mem_imm a 4 dst offset (scast (ucast value :: i32)) st))
       else Some (emit_mem_imm a sz dst offset value st)))"

definition emit_ldr_x64 :: "abi \<Rightarrow> reg \<Rightarrow> reg \<Rightarrow> i32 \<Rightarrow> x64 \<Rightarrow> x64" where
  "emit_ldr_x64 a dst src offset st =
    encode_mem OP_MOV_R_RM (rsz dst) (xreg_no a dst) (xreg_no a src) None 1 offset st"

definition rax :: reg where
  "rax = reg0\<lparr>r_rsize := 8, r_type := SCRATCH, r_offset := 0,
     r_dtype := dtype0\<lparr>d_decl := [\<lparr>dk_tag = DK_ADDR, dk_amount = 1\<rparr>]\<rparr>\<rparr>"

definition emit_str_regoff_x64 :: "abi \<Rightarrow> reg \<Rightarrow> reg \<Rightarrow> reg \<Rightarrow> x64 \<Rightarrow> x64" where
  "emit_str_regoff_x64 a dst src offset st =
    (let addr = (if xreg_no a src = RAX then rax\<lparr>r_offset := r_offset rax + 1\<rparr> else rax) in
     emit_str_reg_x64 a addr src 0
       (encode_mem OP_LEA 8 (xreg_no a addr) (xreg_no a dst) (Some (xreg_no a offset)) 1 0 st))"

definition emit_str_imm_regoff_x64 :: "abi \<Rightarrow> tstore \<Rightarrow> reg \<Rightarrow> i64 \<Rightarrow> reg \<Rightarrow> x64 \<Rightarrow> x64 option" where
  "emit_str_imm_regoff_x64 a ts dst value offset st =
    (let st1 = encode_mem OP_LEA 8 RAX (xreg_no a dst) (Some (xreg_no a offset)) 1 0 st;
         addr = rax\<lparr>r_dtype := (r_dtype rax)\<lparr>d_base := d_base (r_dtype dst)\<rparr>\<rparr> in
     emit_str_imm_x64 a ts addr value 0 st1)"

definition emit_ldr_reg_x64 :: "abi \<Rightarrow> reg \<Rightarrow> reg \<Rightarrow> reg \<Rightarrow> x64 \<Rightarrow> x64" where
  "emit_ldr_reg_x64 a dst src offset st =
    emit_ldr_x64 a dst dst 0
      (encode_mem OP_LEA 8 (xreg_no a dst) (xreg_no a src) (Some (xreg_no a offset)) 1 0 st)"

end
