(* ===== verification/X64_Link.thy ===== *)
theory X64_Link
  imports X64_Emit
begin

text \<open>
  Functions, labels, fixups, aggregates and the final link of \<open>src/alc/bin-x86_64.c\<close>.
\<close>

section \<open>Functions\<close>

definition emit_fn_begin_x64 :: "nat \<Rightarrow> x64 \<Rightarrow> x64" where
  "emit_fn_begin_x64 c st = st\<lparr>xbody := [], xprol := [], emit_to_prol := False,
     xctxs := (xctxs st)(c := (xctxs st c)\<lparr>ctx_fn_named := False\<rparr>), xactive_ctx := Some c\<rparr>"

definition shift_xfixup :: "nat \<Rightarrow> xfixup \<Rightarrow> xfixup" where
  "shift_xfixup delta f = (if xf_done f then f else f\<lparr>xf_site := xf_site f + delta, xf_done := True\<rparr>)"

definition emit_fn_end_x64 :: "nat \<Rightarrow> x64 \<Rightarrow> x64" where
  "emit_fn_end_x64 c st =
    (let base = length (xcode st); delta = base + length (xprol st); ctx = xctxs st c in
     if X_CODE_CAP < length (xcode st) + length (xprol st) + length (xbody st)
     then xreport_err CodeOverflow st
     else
       st\<lparr>xcode := xcode st @ xprol st @ xbody st,
          xlabels := map (shift_label delta) (xlabels st),
          xfixups := map (shift_xfixup delta) (xfixups st),
          xfn_syms := (if ctx_fn_named ctx \<and> length (xfn_syms st) < LABEL_CAP
                       then xfn_syms st @ [\<lparr>lb_key = key_buf (ctx_fn_name ctx), lb_word = base, lb_done = False\<rparr>]
                       else xfn_syms st),
          xentry_off := (if ctx_fn_named ctx \<and> ctx_fn_name ctx = ''main'' then base else xentry_off st),
          xbody := [], xprol := [], emit_to_prol := False\<rparr>)"

definition emit_fn_x64 :: "string \<Rightarrow> x64 \<Rightarrow> x64" where
  "emit_fn_x64 fn_name st =
    (case xactive_ctx st of None \<Rightarrow> st
     | Some c \<Rightarrow> st\<lparr>xctxs := (xctxs st)(c := \<lparr>ctx_fn_name = fn_name, ctx_fn_named = True\<rparr>)\<rparr>)"

definition emit_ret_x64 :: "x64 \<Rightarrow> x64" where
  "emit_ret_x64 st = put8 X_OP_RET st"

section \<open>Labels and fixups\<close>

definition new_xfixup :: "xfixup_kind \<Rightarrow> string \<Rightarrow> nat \<Rightarrow> x64 \<Rightarrow> x64" where
  "new_xfixup k key aux st = st\<lparr>xfixups := xfixups st
     @ [\<lparr>xf_key = key, xf_site = cur_off st, xf_aux = aux, xf_kind = k, xf_done = False\<rparr>]\<rparr>"

definition emit_branch_x64 :: "string \<Rightarrow> string \<Rightarrow> int \<Rightarrow> x64 \<Rightarrow> x64" where
  "emit_branch_x64 fn_name label index st =
    (if FIXUP_CAP \<le> length (xfixups st) then xreport_err FixupOverflow st
     else put32 0 (new_xfixup FX_JMP (make_key fn_name label index) 0 (put8 OP_JMP_REL32 st)))"

definition emit_branch_cond_x64 :: "cond \<Rightarrow> string \<Rightarrow> string \<Rightarrow> int \<Rightarrow> x64 \<Rightarrow> bool \<times> x64" where
  "emit_branch_cond_x64 condition fn_name label index st =
    (if length cond_cc \<le> cond_no condition then (False, xreport_err UnknownCond st)
     else if FIXUP_CAP \<le> length (xfixups st) then (False, xreport_err FixupOverflow st)
     else (True, put32 0 (new_xfixup FX_JCC (make_key fn_name label index) 0
                   (put8 (OP_JCC_REL32 + cond_cc ! cond_no condition) (put8 OP_0F st)))))"

definition emit_label_x64 :: "string \<Rightarrow> string \<Rightarrow> int \<Rightarrow> x64 \<Rightarrow> x64" where
  "emit_label_x64 fn_name label index st =
    (if LABEL_CAP \<le> length (xlabels st) then xreport_err LabelOverflow st
     else st\<lparr>xlabels := xlabels st
       @ [\<lparr>lb_key = make_key fn_name label index, lb_word = cur_off st, lb_done = False\<rparr>]\<rparr>)"

definition emit_fn_call_x64 :: "string \<Rightarrow> x64 \<Rightarrow> x64" where
  "emit_fn_call_x64 s st =
    (if FIXUP_CAP \<le> length (xfixups st) then xreport_err FixupOverflow st
     else put32 0 (new_xfixup FX_XCALL (key_buf s) 0 (put8 OP_CALL_REL32 st)))"

definition emit_string_lit_x64 :: "abi \<Rightarrow> reg \<Rightarrow> string \<Rightarrow> x64 \<Rightarrow> x64" where
  "emit_string_lit_x64 a dst s st =
    (let p = unquote s; str_off = length (xcstrs st) in
     if X_CSTR_CAP < length (xcstrs st) + length p + 1 then xreport_err CstringOverflow st
     else
      let r = xreg_no a dst;
          st1 = puts (rex_bytes (rex_bits (rsz dst = 8) (8 \<le> r) False False) False
                  @ [OP_LEA, ucast (0x00 OR push_bit 3 (r AND 7) OR 5)]) (st\<lparr>xcstrs := xcstrs st @ p @ [CHR 0x00]\<rparr>) in
      if FIXUP_CAP \<le> length (xfixups st1) then xreport_err FixupOverflow st1
      else put32 0 (new_xfixup FX_XSTR [] str_off st1))"

section \<open>The link\<close>

definition patch32 :: "nat \<Rightarrow> u32 \<Rightarrow> x64 \<Rightarrow> x64" where
  "patch32 site v st = st\<lparr>xcode := take site (xcode st) @ le32 v @ drop (site + 4) (xcode st)\<rparr>"

definition rel32 :: "nat \<Rightarrow> nat \<Rightarrow> u32" where
  "rel32 target site = of_nat target - of_nat (site + 4)"

definition patch_import_x64 :: "xfixup \<Rightarrow> x64 \<Rightarrow> x64" where
  "patch_import_x64 f st =
    (let imp = import_index (ximports st) (xf_key f) in
     if imp = length (ximports st) \<and> IMPORT_CAP \<le> length (ximports st)
     then xreport_err ImportOverflow st
     else st\<lparr>ximports := (if imp = length (ximports st) then ximports st @ [xf_key f] else ximports st),
             xextcalls := xextcalls st @ [(xf_site f, imp)]\<rparr>)"

definition patch_x64 :: "x64 \<Rightarrow> xfixup \<Rightarrow> x64" where
  "patch_x64 st f =
    (case xf_kind f of
       FX_XSTR \<Rightarrow> patch32 (xf_site f) (rel32 (length (xcode st) + xf_aux f) (xf_site f)) st
     | FX_XCALL \<Rightarrow> (case find_word (xfn_syms st) (xf_key f) of
                     None \<Rightarrow> patch_import_x64 f st
                   | Some target \<Rightarrow> patch32 (xf_site f) (rel32 target (xf_site f)) st)
     | _ \<Rightarrow> (case find_word (xlabels st) (xf_key f) of
               None \<Rightarrow> xreport_err (UnresolvedLabel (xf_key f)) st
             | Some target \<Rightarrow> patch32 (xf_site f) (rel32 target (xf_site f)) st))"

record x64_image =
  xi_text :: "u8 list"
  xi_entry :: nat
  xi_imports :: "string list"
  xi_extcalls :: "(nat \<times> nat) list"

definition char_byte :: "char \<Rightarrow> u8" where
  "char_byte c = of_nat (of_char c)"

definition bin_emit_x64 :: "x64 \<Rightarrow> x64_image \<times> x64" where
  "bin_emit_x64 st =
    (let st' = foldl patch_x64 st (xfixups st) in
     (\<lparr>xi_text = xcode st' @ map char_byte (xcstrs st'), xi_entry = xentry_off st', xi_imports = ximports st',
       xi_extcalls = xextcalls st'\<rparr>, st'))"

section \<open>Frames\<close>

definition push_bytes :: "u8 \<Rightarrow> u32 \<Rightarrow> u8 list" where
  "push_bytes opcode r = (if 8 \<le> r then [REX_BASE OR REX_B] else []) @ [opcode + ucast (r AND 7)]"

definition saved :: "abi \<Rightarrow> nat \<Rightarrow> u32 list" where
  "saved a n = map (\<lambda>i. ucast (callee_regs a ! i)) [0 ..< n]"

definition rsp_reg :: reg where
  "rsp_reg = reg0\<lparr>r_type := STACK, r_rsize := 8\<rparr>"

text \<open>The size of the shadow area, of the locals, and of the whole frame below the saved registers.\<close>

definition shadow_size :: "parser_context \<Rightarrow> usize" where
  "shadow_size pc = (if pc_calls_fn pc then 32 else 0)"

definition locals_size :: "parser_context \<Rightarrow> usize" where
  "locals_size pc = scast (pc_stack_size pc)"

definition frame_size :: "parser_context \<Rightarrow> usize" where
  "frame_size pc =
    (let sz = ALIGN_TO (shadow_size pc + locals_size pc) 0x10;
         tmp = unat (pc_nreg_count pc) + (if locals_size pc \<noteq> 0 then 1 else 0) + (if pc_calls_fn pc then 1 else 0) in
     if tmp mod 2 = 1 then sz + 8 else sz)"

definition emit_fn_prologue_epilogue_x64 :: "abi \<Rightarrow> parser_context \<Rightarrow> x64 \<Rightarrow> x64" where
  "emit_fn_prologue_epilogue_x64 a pc st =
    (let n = unat (pc_nreg_count pc); sz = frame_size pc; locals = (locals_size pc \<noteq> 0);
         st1 = puts ((if locals then [OP_PUSH_R + ucast RBP] else [])
                 @ concat (map (push_bytes OP_PUSH_R) (saved a n))) (st\<lparr>emit_to_prol := True\<rparr>);
         st2 = (if locals then
                  (if shadow_size pc \<noteq> 0
                   then encode_mem OP_LEA 8 RBP RSP None 1 (- ucast (shadow_size pc)) st1
                   else encode_rr OP_MOV_RM_R 8 RSP RBP st1)
                else st1);
         st3 = (if sz \<noteq> 0 then alu_ri a ALU_SUB rsp_reg sz st2 else st2);
         st4 = st3\<lparr>emit_to_prol := False\<rparr>;
         st5 = (if sz \<noteq> 0 then alu_ri a ALU_ADD rsp_reg sz st4 else st4) in
     puts (concat (map (push_bytes OP_POP_R) (rev (saved a n)))
           @ (if locals then [OP_POP_R + ucast RBP] else [])) st5)"

section \<open>Aggregates\<close>

definition shift_tmp_for :: "reg \<Rightarrow> reg" where
  "shift_tmp_for dst = reg0\<lparr>r_type := SCRATCH, r_rsize := 8,
     r_offset := (if r_type dst = SCRATCH \<and> 1 \<le>s r_offset dst then r_offset dst + 1 else 1)\<rparr>"

definition struct_value :: "abi \<Rightarrow> reg \<Rightarrow> reg \<Rightarrow> i64 \<Rightarrow> bool \<Rightarrow> x64 \<Rightarrow> bool \<times> x64" where
  "struct_value a dst tmp shifted clrd st =
    (if \<not> clrd then (True, emit_mov_x64 a dst shifted st)
     else if shifted \<noteq> 0 then
       (True, if shifted = scast (ucast shifted :: i32) then alu_ri a ALU_OR dst shifted st
              else alu_rr a OP_OR_RM_R dst tmp (emit_mov_x64 a tmp shifted st))
     else (True, st))"

definition struct_reg :: "abi \<Rightarrow> tstore \<Rightarrow> reg \<Rightarrow> reg \<Rightarrow> reg \<Rightarrow> usize \<Rightarrow> usize \<Rightarrow> bool \<Rightarrow> x64 \<Rightarrow> x64" where
  "struct_reg a ts dst tmp arg memb_size bits clrd st =
    (let frame = reg0\<lparr>r_type := FRAME, r_rsize := 8\<rparr>;
         (r, st1) = (if r_type arg = STACK then (tmp, emit_sub_x64 a tmp frame (scast (r_offset arg)) st)
                     else (arg, st));
         r' = r\<lparr>r_rsize := (if memb_size < 4 then ucast memb_size else if memb_size \<le> 4 then 4 else 8)\<rparr>;
         op = (if clrd then OP_OR_RM_R else OP_MOV_RM_R) in
     if bits = 0 \<and> r_rsize r' = r_rsize dst then alu_rr a op dst r' st1
     else
      (let st2 = (if r_rsize r' < 8 then emit_mov_reg_x64 a ts tmp r' st1 else alu_rr a OP_MOV_RM_R tmp r' st1);
           st3 = (if bits \<noteq> 0 then shift_ri a SH_SHL tmp bits st2 else st2) in
       alu_rr a op dst tmp st3))"

text \<open>The loop over the members: the index reached, the bytes taken, whether \<open>dst\<close> was written.\<close>

fun struct_loop ::
    "nat \<Rightarrow> abi \<Rightarrow> tstore \<Rightarrow> reg \<Rightarrow> reg \<Rightarrow> dtype \<Rightarrow> type_t \<Rightarrow> agg_member list \<Rightarrow> nat \<Rightarrow> usize \<Rightarrow> bool \<Rightarrow> x64
     \<Rightarrow> (nat \<times> usize \<times> bool \<times> x64) option" where
  "struct_loop 0 a ts dst tmp dt t args i acc clrd st = Some (i, acc, clrd, st)"
| "struct_loop (Suc fuel) a ts dst tmp dt t args i acc clrd st =
    (if length args \<le> i then Some (i, acc, clrd, st)
     else case memb_at ts dt t i of None \<Rightarrow> None | Some (memb_size, memb_offset) \<Rightarrow>
      let bits = (memb_offset * 8) mod 64 in
      if 8 < acc + memb_size then Some (i, acc, clrd, st)
      else
       (let (clrd', st') =
          (case args ! i of
             A_VALUE v \<Rightarrow> struct_value a dst tmp (push_bit (unat bits) v) clrd st
           | A_REG r \<Rightarrow> (True, struct_reg a ts dst tmp r memb_size bits clrd st)
           | _ \<Rightarrow> (clrd, st)) in
        struct_loop fuel a ts dst tmp dt t args (i + 1) (acc + memb_size) clrd' st'))"

definition emit_eightbyte_struct_x64 ::
    "abi \<Rightarrow> tstore \<Rightarrow> reg \<Rightarrow> dtype \<Rightarrow> agg_member list \<Rightarrow> nat \<Rightarrow> usize \<Rightarrow> x64 \<Rightarrow> (bool \<times> nat \<times> usize \<times> x64) option" where
  "emit_eightbyte_struct_x64 a ts dst0 dt args index sz st =
    (case base_type ts dt of None \<Rightarrow> None | Some t \<Rightarrow>
      let remaining = of_nat (length args - index) * ty_size t;
          span = (if 8 < remaining then 8 else remaining);
          dst = (if \<not> dtype_empty dt \<and> dk_tag (dtype_outer dt) = DK_ARRAY
                 then dst0\<lparr>r_rsize := (if 4 < span then 8 else if 2 < span then 4 else if 1 < span then 2 else 1)\<rparr>
                 else dst0) in
      map_option (\<lambda>(i, acc, clrd, st'). (clrd, i, sz + acc, st'))
        (struct_loop (length args - index) a ts dst (shift_tmp_for dst) dt t args index 0 False st))"

definition emit_store_eightbytes_x64 ::
    "abi \<Rightarrow> reg \<Rightarrow> i64 \<Rightarrow> reg \<Rightarrow> bool \<Rightarrow> reg \<Rightarrow> bool \<Rightarrow> bool \<Rightarrow> x64 \<Rightarrow> x64" where
  "emit_store_eightbytes_x64 a base offset lo0 lo_written hi0 hi_written has_hi st =
    (let lo = (if has_hi then lo0\<lparr>r_rsize := 8\<rparr> else lo0); hi = (if has_hi then hi0\<lparr>r_rsize := 8\<rparr> else hi0);
         st1 = (if \<not> lo_written then encode_rr OP_XOR_RM_R (rsz lo) (xreg_no a lo) (xreg_no a lo) st else st);
         st2 = emit_str_reg_x64 a base lo (ucast offset) st1 in
     if has_hi then
       (let st3 = (if \<not> hi_written then encode_rr OP_XOR_RM_R (rsz hi) (xreg_no a hi) (xreg_no a hi) st2 else st2) in
        emit_str_reg_x64 a base hi (ucast offset + 8) st3)
     else st2)"

function store_packed_x64 :: "abi \<Rightarrow> reg \<Rightarrow> i64 \<Rightarrow> reg \<Rightarrow> usize \<Rightarrow> usize \<Rightarrow> x64 \<Rightarrow> x64" where
  "store_packed_x64 a base offset src nbytes pos st =
    (if nbytes = 0 then st
     else
      let chunk = store_chunk nbytes;
          st1 = emit_str_reg_x64 a base (src\<lparr>r_rsize := chunk\<rparr>) (ucast (offset + pos)) st;
          left = nbytes - ucast chunk;
          st2 = (if left \<noteq> 0 then shift_ri a SH_SHR (src\<lparr>r_rsize := 8\<rparr>) (ucast chunk * 8) st1 else st1) in
      store_packed_x64 a base offset src left (pos + ucast chunk) st2)"
  by pat_completeness auto
termination
proof (relation "measure (\<lambda>(_, _, _, _, nbytes, _). unat nbytes)")
  fix nbytes :: usize and chunk left
  assume "nbytes \<noteq> 0" and "chunk = store_chunk nbytes" and "left = nbytes - ucast chunk"
  moreover have "unat (ucast (store_chunk nbytes) :: usize) = unat (store_chunk nbytes)"
    by (auto simp: store_chunk_def)
  ultimately have "unat left < unat nbytes"
    using store_chunk_le [of nbytes] by (simp add: unat_sub word_le_nat_alt)
  then show "((a, base, offset, src, left, p, q), (a', base', offset', src', nbytes, p', q'))
      \<in> measure (\<lambda>(_, _, _, _, nbytes, _). unat nbytes)" for a base offset src p q a' base' offset' src' p' q'
    by simp
qed simp

declare store_packed_x64.simps [simp del]

definition emit_store_packed_x64 :: "abi \<Rightarrow> reg \<Rightarrow> i64 \<Rightarrow> reg \<Rightarrow> usize \<Rightarrow> x64 \<Rightarrow> x64" where
  "emit_store_packed_x64 a base offset src nbytes st = store_packed_x64 a base offset src nbytes 0 st"

text \<open>
  The two nested loops as one: the size of the access is halved when it is larger than what is left.
\<close>

function zero_loop :: "abi \<Rightarrow> reg \<Rightarrow> reg \<Rightarrow> i64 \<Rightarrow> usize \<Rightarrow> u8 \<Rightarrow> x64 \<Rightarrow> x64" where
  "zero_loop a base zero offset sz rsize st =
    (if sz = 0 then st
     else if ucast rsize \<le> sz \<and> rsize \<noteq> 0 then
       zero_loop a base zero (offset + ucast rsize) (sz - ucast rsize) rsize
         (emit_str_reg_x64 a base (zero\<lparr>r_rsize := rsize\<rparr>) (ucast offset) st)
     else if rsize \<le> 1 then st
     else zero_loop a base zero offset sz (rsize div 2) st)"
  by pat_completeness auto
termination
proof (relation "measures [\<lambda>(_, _, _, _, sz, rsize, _). unat sz, \<lambda>(_, _, _, _, sz, rsize, _). unat rsize]", goal_cases)
  case (2 a base zero offset sz rsize st)
  have "unat rsize < 2 ^ LENGTH(8)" by (rule unsigned_less)
  then have u: "unat (ucast rsize :: usize) = unat rsize"
    by (simp add: unsigned_ucast_eq take_bit_nat_eq_self)
  have "0 < unat rsize" using 2(2) by (auto simp: unat_gt_0)
  then have "unat (sz - ucast rsize) < unat sz"
    using 2(2) u by (simp add: unat_sub word_le_nat_alt)
  then show ?case by simp
next
  case (3 a base zero offset sz rsize st)
  then have "1 < unat rsize" by (simp add: word_le_nat_alt not_le)
  then show ?case by (simp add: unat_div)
qed simp

declare zero_loop.simps [simp del]

definition emit_zerofill_x64 :: "abi \<Rightarrow> tstore \<Rightarrow> reg \<Rightarrow> i64 \<Rightarrow> dtype \<Rightarrow> x64 \<Rightarrow> x64 option" where
  "emit_zerofill_x64 a ts base offset dt st =
    (case dtype_size ts dt of None \<Rightarrow> None | Some sz \<Rightarrow>
      let zero = reg0\<lparr>r_type := SCRATCH, r_offset := 1, r_rsize := 8, r_dtype := dtype0\<lparr>d_base := d_base dt\<rparr>\<rparr> in
      Some (zero_loop a base zero offset sz 8
        (encode_rr OP_XOR_RM_R 4 (xreg_no a zero) (xreg_no a zero) st)))"

section \<open>Elements of arrays\<close>

definition imul_idx :: "abi \<Rightarrow> reg \<Rightarrow> usize \<Rightarrow> x64 \<Rightarrow> x64" where
  "imul_idx a idx elem_size st =
    (let r = xreg_no a idx;
         pre = REX_BASE OR REX_W OR (if 8 \<le> r then REX_R OR REX_B else 0);
         m = ucast (0xc0 OR push_bit 3 (r AND 7) OR (r AND 7)) :: u8 in
     if elem_size \<le> 127 then puts [pre, OP_IMUL_IMM8, m, ucast elem_size] st
     else puts ([pre, OP_IMUL_IMM32, m] @ le32 (ucast elem_size)) st)"

text \<open>A one- or two-byte index is widened in place.\<close>

definition widen_index :: "abi \<Rightarrow> tstore \<Rightarrow> reg \<Rightarrow> x64 \<Rightarrow> reg \<times> x64" where
  "widen_index a ts index st =
    (if r_rsize index = 1 \<or> r_rsize index = 2
     then (index\<lparr>r_rsize := 8\<rparr>, emit_mov_reg_x64 a ts (index\<lparr>r_rsize := 8\<rparr>) index st)
     else (index\<lparr>r_rsize := 8\<rparr>, st))"

definition emit_array_access_x64 :: "abi \<Rightarrow> tstore \<Rightarrow> reg \<Rightarrow> reg \<Rightarrow> reg \<Rightarrow> bool \<Rightarrow> x64 \<Rightarrow> x64 option" where
  "emit_array_access_x64 a ts dst src offset0 is_store st =
    (let mem0 = (if is_store then dst else src); val = (if is_store then src else dst) in
     case base_type ts (r_dtype mem0) of None \<Rightarrow> None | Some t \<Rightarrow>
      (let elem_size = ty_size t;
           frame = reg0\<lparr>r_type := FRAME, r_rsize := 8\<rparr>;
           (mem1, st1) =
             (if r_type mem0 = STACK \<and> r_offset mem0 \<noteq> 0 then
                (let tmp = mem0\<lparr>r_type := SCRATCH, r_offset := 2, r_rsize := 8\<rparr> in
                 (tmp, emit_sub_x64 a tmp frame (scast (r_offset mem0)) st))
              else (mem0, st)) in
       if elem_size = 0 then Some (xreport_err ElementSizeZero st1)
       else
        (let (offset, st2) = widen_index a ts offset0 st1; mem = mem1\<lparr>r_rsize := 8\<rparr> in
         if elem_size = 1 then
           Some (if is_store then emit_str_regoff_x64 a mem val offset st2
                 else emit_ldr_reg_x64 a val mem offset st2)
         else if elem_size \<le> 8 \<and> power_of_two_exponent elem_size \<noteq> 0 then
           Some (encode_mem (if is_store then OP_MOV_RM_R else OP_MOV_R_RM) (rsz val) (xreg_no a val)
                   (xreg_no a mem) (Some (xreg_no a offset)) (ucast elem_size) 0 st2)
         else
          (let idx = reg0\<lparr>r_type := SCRATCH, r_offset := 1, r_rsize := 8\<rparr>;
               st3 = emit_add_reg_x64 a ts idx mem idx (imul_idx a idx elem_size (emit_mov_reg_x64 a ts idx offset st2)) in
           Some (if is_store then emit_str_reg_x64 a idx val 0 st3 else emit_ldr_x64 a val idx 0 st3)))))"

definition emit_elem_addr_x64 :: "abi \<Rightarrow> tstore \<Rightarrow> reg \<Rightarrow> reg \<Rightarrow> reg \<Rightarrow> x64 \<Rightarrow> x64 option" where
  "emit_elem_addr_x64 a ts dst object index0 st =
    (let base = reg0\<lparr>r_type := SCRATCH, r_offset := 0, r_rsize := 8\<rparr>;
         frame = reg0\<lparr>r_type := FRAME, r_rsize := 8\<rparr>;
         st1 = (if r_type object = STACK then emit_sub_x64 a base frame (scast (r_offset object)) st
                else emit_mov_reg_x64 a ts base object st) in
     case base_type ts (r_dtype object) of None \<Rightarrow> None | Some t \<Rightarrow>
      (let elem_size = ty_size t; (index, st2) = widen_index a ts index0 st1 in
       if elem_size \<le> 8 \<and> (elem_size = 1 \<or> power_of_two_exponent elem_size \<noteq> 0) then
         Some (encode_mem OP_LEA (rsz dst) (xreg_no a dst) (xreg_no a base) (Some (xreg_no a index)) (ucast elem_size) 0 st2)
       else
        (let idx = reg0\<lparr>r_type := SCRATCH, r_offset := 1, r_rsize := 8\<rparr> in
         Some (emit_add_reg_x64 a ts dst base idx (imul_idx a idx elem_size (emit_mov_reg_x64 a ts idx index st2))))))"

end
