(* ===== verification/X64_Isa.thy ===== *)
theory X64_Isa
  imports A64_Isa
begin

text \<open>
  The specification side of the x86-64 back end: a reading of the instruction bytes that the
  architecture documents, limited to the encodings the compiler emits, and what each instruction
  does to the registers, the flags and the memory. Nothing here models code of the repository.

  A byte register 4 to 7 without a REX prefix is one of the high-byte registers, which the
  compiler never means: it does not decode.
\<close>

section \<open>Instructions\<close>

datatype rm = RReg nat | RMem nat "(nat \<times> nat) option" int

datatype x64_instr =
    AluRmR nat nat rm nat
  | AluRmI nat nat rm int
  | MovRmR nat rm nat
  | MovRRm nat nat rm
  | MovRI nat nat u64
  | MovRmI nat rm int
  | Lea nat nat rm
  | MovZx nat nat nat rm
  | MovSx nat nat nat rm
  | ShiftRmI nat nat rm nat
  | Neg nat rm
  | ImulI nat nat rm int
  | MovRmS rm nat
  | SetCc nat rm
  | Push nat
  | Pop nat
  | Jmp int
  | Jcc nat int
  | Call int
  | Ret

section \<open>Decoding\<close>

text \<open>A little-endian number of \<open>n\<close> bytes, and the bytes that follow.\<close>

fun le_take :: "nat \<Rightarrow> u8 list \<Rightarrow> (nat \<times> u8 list) option" where
  "le_take 0 bs = Some (0, bs)"
| "le_take (Suc n) [] = None"
| "le_take (Suc n) (b # bs) = map_option (\<lambda>(k, r). (unat b + 256 * k, r)) (le_take n bs)"

definition sle_take :: "nat \<Rightarrow> u8 list \<Rightarrow> (int \<times> u8 list) option" where
  "sle_take n bs = map_option (\<lambda>(k, r). (signed_take_bit (8 * n - 1) (int k), r)) (le_take n bs)"

record rex =
  rex_on :: bool
  rex_w :: bool
  rex_r :: bool
  rex_x :: bool
  rex_b :: bool

definition no_rex :: rex where
  "no_rex = \<lparr>rex_on = False, rex_w = False, rex_r = False, rex_x = False, rex_b = False\<rparr>"

definition rex_of :: "u8 \<Rightarrow> rex" where
  "rex_of p = \<lparr>rex_on = True, rex_w = bit p 3, rex_r = bit p 2, rex_x = bit p 1, rex_b = bit p 0\<rparr>"

definition ext :: "bool \<Rightarrow> nat \<Rightarrow> nat" where
  "ext e k = (if e then 8 + k else k)"

definition low3 :: "u8 \<Rightarrow> nat" where "low3 b = unat (take_bit 3 b)"
definition mid3 :: "u8 \<Rightarrow> nat" where "mid3 b = unat (take_bit 3 (drop_bit 3 b))"
definition top2 :: "u8 \<Rightarrow> nat" where "top2 b = unat (drop_bit 6 b)"

definition take_disp :: "nat \<Rightarrow> u8 list \<Rightarrow> (int \<times> u8 list) option" where
  "take_disp md bs = (if md = 0 then Some (0, bs) else if md = 1 then sle_take 1 bs else sle_take 4 bs)"

text \<open>
  The operands: the register field and the register or memory operand. The forms of mode 0 without a
  base and relative to the instruction pointer, the latter used for strings only, do not decode.
\<close>

definition decode_rm :: "rex \<Rightarrow> u8 list \<Rightarrow> (nat \<times> rm \<times> u8 list) option" where
  "decode_rm p bs =
    (case bs of [] \<Rightarrow> None | b # r \<Rightarrow>
      (let reg = ext (rex_r p) (mid3 b); md = top2 b in
       if md = 3 then Some (reg, RReg (ext (rex_b p) (low3 b)), r)
       else if low3 b = 4 then
         (case r of [] \<Rightarrow> None | s # r' \<Rightarrow>
           (if low3 s = 5 \<and> md = 0 then None
            else map_option (\<lambda>(d, r''). (reg, RMem (ext (rex_b p) (low3 s))
                   (if ext (rex_x p) (mid3 s) = 4 then None
                    else Some (ext (rex_x p) (mid3 s), 2 ^ top2 s)) d, r''))
                 (take_disp md r')))
       else if low3 b = 5 \<and> md = 0 then None
       else map_option (\<lambda>(d, r'). (reg, RMem (ext (rex_b p) (low3 b)) None d, r')) (take_disp md r)))"

definition byte_ok :: "rex \<Rightarrow> nat \<Rightarrow> bool" where
  "byte_ok p k \<longleftrightarrow> rex_on p \<or> k < 4 \<or> 8 \<le> k"

fun rm_ok :: "rex \<Rightarrow> rm \<Rightarrow> bool" where
  "rm_ok p (RReg k) \<longleftrightarrow> byte_ok p k"
| "rm_ok p (RMem b i d) \<longleftrightarrow> True"

fun is_mem :: "rm \<Rightarrow> bool" where
  "is_mem (RMem b i d) = True"
| "is_mem (RReg k) = False"

definition op_size :: "bool \<Rightarrow> rex \<Rightarrow> u8 \<Rightarrow> nat" where
  "op_size p66 p opc = (if \<not> bit opc 0 then 1 else if rex_w p then 8 else if p66 then 2 else 4)"

definition alu_no :: "u8 \<Rightarrow> nat" where
  "alu_no opc = unat (drop_bit 3 opc)"

text \<open>The one-byte opcodes with an operand byte, after the prefixes.\<close>

definition decode_modrm :: "bool \<Rightarrow> rex \<Rightarrow> u8 \<Rightarrow> u8 list \<Rightarrow> (x64_instr \<times> u8 list) option" where
  "decode_modrm p66 p opc bs =
    (case decode_rm p bs of None \<Rightarrow> None | Some (reg, m, r) \<Rightarrow>
      (let sz = op_size p66 p opc; rok = (sz = 1 \<longrightarrow> byte_ok p reg \<and> rm_ok p m); mok = (sz = 1 \<longrightarrow> rm_ok p m);
           dig = reg mod 8 in
       if opc AND 0xc6 = 0 then (if rok then Some (AluRmR (alu_no opc) sz m reg, r) else None)
       else if opc = 0x88 \<or> opc = 0x89 then (if rok then Some (MovRmR sz m reg, r) else None)
       else if opc = 0x8a \<or> opc = 0x8b then (if rok then Some (MovRRm sz reg m, r) else None)
       else if opc = 0x8c then Some (MovRmS m dig, r)
       else if opc = 0x8d then (if is_mem m then Some (Lea sz reg m, r) else None)
       else if opc = 0x63 then Some (MovSx (if rex_w p then 8 else if p66 then 2 else 4) 4 reg m, r)
       else if opc = 0x80 \<or> opc = 0x83 then
         (if mok then map_option (\<lambda>(i, r'). (AluRmI dig sz m i, r')) (sle_take 1 r) else None)
       else if opc = 0x81 then
         map_option (\<lambda>(i, r'). (AluRmI dig sz m i, r')) (sle_take (if sz = 2 then 2 else 4) r)
       else if opc = 0xc0 \<or> opc = 0xc1 then
         (if mok then map_option (\<lambda>(i, r'). (ShiftRmI dig sz m i, r')) (le_take 1 r) else None)
       else if opc = 0xf6 \<or> opc = 0xf7 then (if dig = 3 \<and> mok then Some (Neg sz m, r) else None)
       else if opc = 0xc6 then (if dig = 0 \<and> mok then map_option (\<lambda>(i, r'). (MovRmI sz m i, r')) (sle_take 1 r) else None)
       else if opc = 0xc7 then
         (if dig = 0 then map_option (\<lambda>(i, r'). (MovRmI sz m i, r')) (sle_take (if sz = 2 then 2 else 4) r) else None)
       else if opc = 0x6b then map_option (\<lambda>(i, r'). (ImulI sz reg m i, r')) (sle_take 1 r)
       else if opc = 0x69 then
         map_option (\<lambda>(i, r'). (ImulI sz reg m i, r')) (sle_take (if sz = 2 then 2 else 4) r)
       else None))"

definition decode_0f :: "bool \<Rightarrow> rex \<Rightarrow> u8 list \<Rightarrow> (x64_instr \<times> u8 list) option" where
  "decode_0f p66 p bs =
    (case bs of [] \<Rightarrow> None | opc # r \<Rightarrow>
      (let dsz = (if rex_w p then 8 else if p66 then 2 else 4) in
       if drop_bit 4 opc = 8 then map_option (\<lambda>(i, r'). (Jcc (unat (opc AND 0xf)) i, r')) (sle_take 4 r)
       else if drop_bit 4 opc = 9 then
         (case decode_rm p r of None \<Rightarrow> None
          | Some (reg, m, r') \<Rightarrow> if rm_ok p m then Some (SetCc (unat (opc AND 0xf)) m, r') else None)
       else if opc \<in> {0xb6, 0xb7, 0xbe, 0xbf} then
         (case decode_rm p r of None \<Rightarrow> None
          | Some (reg, m, r') \<Rightarrow>
             (let ssz = (if bit opc 0 then 2 else 1) in
              if ssz = 1 \<and> \<not> rm_ok p m then None
              else if bit opc 3 then Some (MovSx dsz ssz reg m, r') else Some (MovZx dsz ssz reg m, r')))
       else None))"

definition decode_op :: "bool \<Rightarrow> rex \<Rightarrow> u8 list \<Rightarrow> (x64_instr \<times> u8 list) option" where
  "decode_op p66 p bs =
    (case bs of [] \<Rightarrow> None | opc # r \<Rightarrow>
      (if opc = 0x0f then decode_0f p66 p r
       else if drop_bit 3 opc = 0xa then Some (Push (ext (rex_b p) (low3 opc)), r)
       else if drop_bit 3 opc = 0xb then Some (Pop (ext (rex_b p) (low3 opc)), r)
       else if drop_bit 3 opc = 0x16 then
         (let k = ext (rex_b p) (low3 opc) in
          if byte_ok p k then map_option (\<lambda>(i, r'). (MovRI 1 k (of_nat i), r')) (le_take 1 r) else None)
       else if drop_bit 3 opc = 0x17 then
         (let n = (if rex_w p then 8 else if p66 then 2 else 4) in
          map_option (\<lambda>(i, r'). (MovRI n (ext (rex_b p) (low3 opc)) (of_nat i), r')) (le_take n r))
       else if opc = 0xe9 then map_option (\<lambda>(i, r'). (Jmp i, r')) (sle_take 4 r)
       else if opc = 0xe8 then map_option (\<lambda>(i, r'). (Call i, r')) (sle_take 4 r)
       else if opc = 0xc3 then Some (Ret, r)
       else decode_modrm p66 p opc r))"

definition x64_decode :: "u8 list \<Rightarrow> (x64_instr \<times> u8 list) option" where
  "x64_decode bs =
    (let p66 = (bs \<noteq> [] \<and> hd bs = 0x66); r = (if p66 then tl bs else bs) in
     case r of [] \<Rightarrow> None
     | b # r' \<Rightarrow> if drop_bit 4 b = 4 then decode_op p66 (rex_of b) r' else decode_op p66 no_rex r)"

section \<open>The machine\<close>

record xmachine =
  gpr :: "nat \<Rightarrow> u64"
  xmem :: "u64 \<Rightarrow> u8"
  zf :: bool
  sf :: bool
  cf :: bool
  ovf :: bool

definition rd_size :: "nat \<Rightarrow> xmachine \<Rightarrow> nat \<Rightarrow> u64" where
  "rd_size n m k = take_bit (8 * n) (gpr m k)"

text \<open>A four-byte result clears the upper half of its register; a shorter one keeps the rest.\<close>

definition merge_size :: "nat \<Rightarrow> u64 \<Rightarrow> u64 \<Rightarrow> u64" where
  "merge_size n old v =
    (if 4 \<le> n then take_bit (8 * n) v else (old AND NOT (mask (8 * n))) OR take_bit (8 * n) v)"

definition wr_size :: "nat \<Rightarrow> nat \<Rightarrow> u64 \<Rightarrow> xmachine \<Rightarrow> xmachine" where
  "wr_size n k v m = m\<lparr>gpr := (gpr m)(k := merge_size n (gpr m k) v)\<rparr>"

fun rm_addr :: "xmachine \<Rightarrow> rm \<Rightarrow> u64" where
  "rm_addr m (RMem b None d) = gpr m b + word_of_int d"
| "rm_addr m (RMem b (Some (i, s)) d) = gpr m b + of_nat s * gpr m i + word_of_int d"
| "rm_addr m (RReg k) = 0"

fun rd_rm :: "nat \<Rightarrow> xmachine \<Rightarrow> rm \<Rightarrow> u64" where
  "rd_rm n m (RReg k) = rd_size n m k"
| "rd_rm n m a = mem_read (xmem m) (rm_addr m a) n"

fun wr_rm :: "nat \<Rightarrow> rm \<Rightarrow> u64 \<Rightarrow> xmachine \<Rightarrow> xmachine" where
  "wr_rm n (RReg k) v m = wr_size n k v m"
| "wr_rm n a v m = m\<lparr>xmem := mem_write (xmem m) (rm_addr m a) n v\<rparr>"

text \<open>Flags of a result of \<open>n\<close> bytes; those of a subtraction are those of the comparison.\<close>

definition res_flags :: "nat \<Rightarrow> u64 \<Rightarrow> bool \<Rightarrow> bool \<Rightarrow> xmachine \<Rightarrow> xmachine" where
  "res_flags n v c ov m = m\<lparr>zf := (take_bit (8 * n) v = 0), sf := bit v (8 * n - 1), cf := c, ovf := ov\<rparr>"

definition sgn_of :: "nat \<Rightarrow> u64 \<Rightarrow> int" where
  "sgn_of n v = sint (signed_take_bit (8 * n - 1) v)"

definition sub_flags_of :: "nat \<Rightarrow> u64 \<Rightarrow> u64 \<Rightarrow> xmachine \<Rightarrow> xmachine" where
  "sub_flags_of n a b = res_flags n (a - b) (take_bit (8 * n) a < take_bit (8 * n) b)
     (sgn_of n (a - b) \<noteq> sgn_of n a - sgn_of n b)"

definition alu :: "nat \<Rightarrow> nat \<Rightarrow> rm \<Rightarrow> u64 \<Rightarrow> xmachine \<Rightarrow> xmachine option" where
  "alu op n d b m =
    (let a = rd_rm n m d in
     if op = 0 then Some (wr_rm n d (a + b) (res_flags n (a + b)
         (2 ^ (8 * n) \<le> unat a + unat (take_bit (8 * n) b)) (sgn_of n (a + b) \<noteq> sgn_of n a + sgn_of n b) m))
     else if op = 1 then Some (wr_rm n d (a OR b) (res_flags n (a OR b) False False m))
     else if op = 4 then Some (wr_rm n d (a AND b) (res_flags n (a AND b) False False m))
     else if op = 5 then Some (wr_rm n d (a - b) (sub_flags_of n a b m))
     else if op = 6 then Some (wr_rm n d (a XOR b) (res_flags n (a XOR b) False False m))
     else if op = 7 then Some (sub_flags_of n a b m)
     else None)"

definition cc_base :: "xmachine \<Rightarrow> bool list" where
  "cc_base m = [ovf m, cf m, zf m, cf m \<or> zf m, sf m, False, sf m \<noteq> ovf m, zf m \<or> sf m \<noteq> ovf m]"

definition cc_holds :: "nat \<Rightarrow> xmachine \<Rightarrow> bool" where
  "cc_holds k m = (let b = cc_base m ! (k div 2) in if odd k then \<not> b else b)"

text \<open>Shifts leave the flags that no emitted code reads as they were.\<close>

definition shift :: "nat \<Rightarrow> nat \<Rightarrow> u64 \<Rightarrow> nat \<Rightarrow> u64 option" where
  "shift op n a k =
    (let c = k mod (if n = 8 then 64 else 32) in
     if op = 4 then Some (push_bit c a)
     else if op = 5 then Some (drop_bit c (take_bit (8 * n) a))
     else if op = 7 then Some (signed_drop_bit c (signed_take_bit (8 * n - 1) a))
     else None)"

fun x64_exec :: "x64_instr \<Rightarrow> xmachine \<Rightarrow> xmachine option" where
  "x64_exec (AluRmR op n d r) m = alu op n d (rd_size n m r) m"
| "x64_exec (AluRmI op n d i) m = alu op n d (take_bit (8 * n) (word_of_int i)) m"
| "x64_exec (MovRmR n d r) m = Some (wr_rm n d (rd_size n m r) m)"
| "x64_exec (MovRRm n r s) m = Some (wr_size n r (rd_rm n m s) m)"
| "x64_exec (MovRI n r v) m = Some (wr_size n r v m)"
| "x64_exec (MovRmI n d i) m = Some (wr_rm n d (word_of_int i) m)"
| "x64_exec (Lea n r s) m = Some (wr_size n r (rm_addr m s) m)"
| "x64_exec (MovZx n k r s) m = Some (wr_size n r (rd_rm k m s) m)"
| "x64_exec (MovSx n k r s) m = Some (wr_size n r (signed_take_bit (8 * k - 1) (rd_rm k m s)) m)"
| "x64_exec (ShiftRmI op n d k) m =
     map_option (\<lambda>v. wr_rm n d v m) (shift op n (rd_rm n m d) k)"
| "x64_exec (Neg n d) m = Some (wr_rm n d (- rd_rm n m d) (sub_flags_of n 0 (rd_rm n m d) m))"
| "x64_exec (ImulI n r s i) m = Some (wr_size n r (rd_rm n m s * word_of_int i) m)"
| "x64_exec (SetCc k d) m = Some (wr_rm 1 d (if cc_holds k m then 1 else 0) m)"
| "x64_exec (Push r) m =
     (let a = gpr m 4 - 8 in
      Some (m\<lparr>xmem := mem_write (xmem m) a 8 (gpr m r), gpr := (gpr m)(4 := a)\<rparr>))"
| "x64_exec (Pop r) m =
     Some (m\<lparr>gpr := ((gpr m)(4 := gpr m 4 + 8))(r := mem_read (xmem m) (gpr m 4) 8)\<rparr>)"
| "x64_exec _ m = None"

text \<open>Straight-line code: the bytes must split into instructions that execute.\<close>

fun x64_run_n :: "nat \<Rightarrow> u8 list \<Rightarrow> xmachine \<Rightarrow> xmachine option" where
  "x64_run_n n [] m = Some m"
| "x64_run_n 0 bs m = None"
| "x64_run_n (Suc n) bs m =
     (case x64_decode bs of None \<Rightarrow> None
      | Some (i, r) \<Rightarrow> (case x64_exec i m of None \<Rightarrow> None | Some m' \<Rightarrow> x64_run_n n r m'))"

definition x64_run :: "u8 list \<Rightarrow> xmachine \<Rightarrow> xmachine option" where
  "x64_run bs m = x64_run_n (length bs) bs m"

end
