(* ===== verification/X64_Decode.thy ===== *)
theory X64_Decode
  imports X64_Isa X64_State
begin

text \<open>
  The bytes that the encoders of \<open>X64_State\<close> put decode to the instructions they mean: prefixes, operand
  bytes with the special cases of the base registers, displacements and immediates.
\<close>

section \<open>Numbers\<close>

lemma unat_take_mod: "unat (take_bit n (w :: 'a::len word)) = unat w mod 2 ^ n"
  unfolding unsigned_take_bit_eq by (rule take_bit_eq_mod)

lemma unat_drop_div: "unat (drop_bit n (w :: 'a::len word)) = unat w div 2 ^ n"
proof -
  have "unat w < 2 ^ LENGTH('a)" by (rule unsigned_less)
  then show ?thesis unfolding unsigned_drop_bit_eq by (simp add: drop_bit_eq_div take_bit_nat_eq_self)
qed

lemma unat_ucast_mod: "unat (ucast (w :: 'a::len word) :: 'b::len word) = unat w mod 2 ^ LENGTH('b)"
  unfolding unsigned_ucast_eq by (rule take_bit_eq_mod)

lemma byte_mask: "(w :: u32) AND 0xff = take_bit 8 w"
  using and_mask_take_bit [of w 8] by (simp add: mask_eq_exp_minus_1)

lemma low_word_mask: "(w :: u64) AND 0xffffffff = take_bit 32 w"
  using and_mask_take_bit [of w 32] by (simp add: mask_eq_exp_minus_1)

lemma unat_byte: "unat (ucast (v AND 0xff) :: u8) = unat (v :: u32) mod 256"
  unfolding byte_mask unat_ucast_mod unat_take_mod by simp

lemma le_take_4: "le_take 4 bs = le_take (Suc (Suc (Suc (Suc 0)))) bs"
  by (simp add: eval_nat_numeral)

lemma le_take_le32: "le_take 4 (le32 v @ rest) = Some (unat v, rest)"
proof -
  define n where "n = unat v"
  have "n < 2 ^ LENGTH(32)" unfolding n_def by (rule unsigned_less)
  then have n: "n < 4294967296" by simp
  have b: "unat (ucast (v AND 0xff) :: u8) = n mod 256"
    "unat (ucast (drop_bit 8 v AND 0xff) :: u8) = n div 256 mod 256"
    "unat (ucast (drop_bit 16 v AND 0xff) :: u8) = n div 65536 mod 256"
    "unat (ucast (drop_bit 24 v AND 0xff) :: u8) = n div 16777216 mod 256"
    unfolding unat_byte unat_drop_div n_def by simp_all
  have "n mod 256 + 256 * (n div 256 mod 256 + 256 * (n div 65536 mod 256 + 256 * (n div 16777216 mod 256))) = n"
  proof -
    have d: "n div 65536 = n div 256 div 256" "n div 16777216 = n div 256 div 256 div 256"
      by (simp_all add: div_mult2_eq [symmetric])
    have l: "n div 256 div 256 div 256 mod 256 = n div 256 div 256 div 256"
      using n by (simp add: div_mult2_eq [symmetric] div_less_iff_less_mult)
    show ?thesis unfolding d by (simp only: l mod_mult_div_eq)
  qed
  then show ?thesis
    unfolding le_take_4 le32_def n_def [symmetric] append_Cons append_Nil le_take.simps option.map prod.case b
      mult_0_right add_0_right by (simp only:)
qed

lemma sle_take_le32: "sle_take 4 (le32 v @ rest) = Some (sint v, rest)"
  by (simp add: sle_take_def le_take_le32 sint_uint)

lemma le_take_append:
  "le_take n bs = Some (k, []) \<Longrightarrow> length bs = n
    \<Longrightarrow> le_take (n + m) (bs @ cs) = map_option (\<lambda>(j, r). (k + 256 ^ n * j, r)) (le_take m cs)"
proof (induction n bs arbitrary: k rule: le_take.induct)
  case (1 bs)
  then show ?case by (simp add: option.map_ident)
next
  case (3 n b bs)
  then obtain k' where k': "le_take n bs = Some (k', [])" "k = unat b + 256 * k'" by auto
  then show ?case
    using 3 by (simp add: option.map_comp comp_def case_prod_beta' algebra_simps)
qed simp

lemma le_take_le64: "le_take 8 (le64 v @ rest) = Some (unat v, rest)"
proof -
  define lo hi :: u32 where "lo = ucast (v AND 0xffffffff)" and "hi = ucast (drop_bit 32 v)"
  have "unat lo = unat v mod 2 ^ 32"
    unfolding lo_def low_word_mask unat_ucast_mod unat_take_mod by simp
  moreover have "unat hi = unat v div 2 ^ 32"
  proof -
    have "unat v < 2 ^ LENGTH(64)" by (rule unsigned_less)
    then have "unat v div 2 ^ 32 < 2 ^ 32" by (simp add: div_less_iff_less_mult)
    then show ?thesis unfolding hi_def unat_ucast_mod unat_drop_div by simp
  qed
  ultimately have n: "unat lo + 256 ^ 4 * unat hi = unat v" by simp
  have "le_take (4 + 4) (le32 lo @ (le32 hi @ rest)) = Some (unat lo + 256 ^ 4 * unat hi, rest)"
  proof -
    have "le_take 4 (le32 lo) = Some (unat lo, [])" using le_take_le32 [of lo "[]"] by simp
    then show ?thesis
      by (subst le_take_append) (simp_all add: le_take_le32, simp add: le32_def)
  qed
  then show ?thesis unfolding n by (simp add: le64_def lo_def hi_def)
qed

lemma sle_take_byte:
  fixes v :: "'a::len word"
  assumes "- 128 \<le> sint v" and "sint v \<le> 127" and "8 \<le> LENGTH('a)"
  shows "sle_take 1 ((ucast v :: u8) # rest) = Some (sint v, rest)"
proof -
  have "sint (ucast v :: u8) = signed_take_bit 7 (sint v)"
    using assms(3) by (intro bit_eqI) (auto simp: bit_simps)
  also have "\<dots> = sint v" using assms(1,2) by (intro signed_take_bit_int_eq_self) simp_all
  finally have "sint (ucast v :: u8) = sint v" .
  then show ?thesis by (simp add: sle_take_def sint_uint)
qed

section \<open>Register fields\<close>

lemma and7_take: "(w :: u32) AND 7 = take_bit 3 w"
  using and_mask_take_bit [of w 3] by (simp add: mask_eq_exp_minus_1)

lemma operand_byte:
  fixes reg rm md :: u32
  assumes "unat md < 4"
  defines "b \<equiv> (ucast (push_bit 6 md OR push_bit 3 (reg AND 7) OR (rm AND 7)) :: u8)"
  shows "low3 b = unat (rm AND 7)" and "mid3 b = unat (reg AND 7)" and "top2 b = unat md"
proof -
  have md: "\<not> bit md i" if "2 \<le> i" for i using assms(1) that bit_word_small [of md 2 i] by simp
  have "take_bit 3 b = ucast (rm AND 7)"
    unfolding b_def and7_take by (intro bit_word_eqI) (auto simp: bit_simps)
  then have "low3 b = unat (ucast (rm AND 7) :: u8)" by (simp add: low3_def)
  also have "\<dots> = unat (rm AND 7)" unfolding and7_take unat_ucast_mod unat_take_mod by (simp add: mod_mod_cancel)
  finally show "low3 b = unat (rm AND 7)" .
  have "take_bit 3 (drop_bit 3 b) = ucast (reg AND 7)"
    unfolding b_def and7_take by (intro bit_word_eqI) (auto simp: bit_simps)
  then have "mid3 b = unat (ucast (reg AND 7) :: u8)" by (simp add: mid3_def)
  also have "\<dots> = unat (reg AND 7)" unfolding and7_take unat_ucast_mod unat_take_mod by (simp add: mod_mod_cancel)
  finally show "mid3 b = unat (reg AND 7)" .
  have "drop_bit 6 b = ucast md"
    unfolding b_def and7_take using md by (intro bit_word_eqI) (auto simp: bit_simps not_le [symmetric])
  then show "top2 b = unat md" using assms(1) by (simp add: top2_def unat_ucast_mod)
qed

lemma modrm_fields:
  "low3 (modrm reg rm) = unat (rm AND 7)" "mid3 (modrm reg rm) = unat (reg AND 7)" "top2 (modrm reg rm) = 3"
proof -
  have m: "modrm reg rm = ucast (push_bit 6 3 OR push_bit 3 (reg AND 7) OR (rm AND 7))"
    by (simp add: modrm_def)
  show "low3 (modrm reg rm) = unat (rm AND 7)" "mid3 (modrm reg rm) = unat (reg AND 7)" "top2 (modrm reg rm) = 3"
    unfolding m by (subst operand_byte; simp)+
qed

lemma digit_modrm:
  assumes "unat digit < 8"
  shows "modrm_digit digit rm = modrm (ucast digit) rm"
proof -
  have "take_bit 3 (ucast digit :: u32) = ucast digit"
    using assms by (intro take_bit_word_small) (simp add: unat_ucast_mod)
  then show ?thesis by (simp add: modrm_digit_def modrm_def and7_take)
qed

definition gp :: "u32 \<Rightarrow> bool" where
  "gp r \<longleftrightarrow> unat r < 16"

lemma ext_gp: "gp r \<Longrightarrow> ext (8 \<le> r) (unat (r AND 7)) = unat r"
proof -
  assume "gp r"
  then have "unat r < 16" by (simp add: gp_def)
  moreover have "unat (r AND 7) = unat r mod 8"
    unfolding and7_take unat_take_mod by simp
  moreover have "8 + unat r mod 8 = unat r" if "8 \<le> unat r" using calculation(1) that by presburger
  ultimately show ?thesis by (auto simp: ext_def word_le_nat_alt)
qed

lemma and7_4: "gp r \<Longrightarrow> r AND 7 = 4 \<longleftrightarrow> unat r = 4 \<or> unat r = 12"
  and and7_5: "gp r \<Longrightarrow> r AND 7 = 5 \<longleftrightarrow> unat r = 5 \<or> unat r = 13"
proof -
  assume "gp r"
  then have r: "unat r < 16" by (simp add: gp_def)
  have m: "unat (r AND 7) = unat r mod 8"
    unfolding and7_take unat_take_mod by simp
  show "r AND 7 = 4 \<longleftrightarrow> unat r = 4 \<or> unat r = 12" "r AND 7 = 5 \<longleftrightarrow> unat r = 5 \<or> unat r = 13"
    unfolding word_unat_eq_iff m using r by (simp_all, presburger+)
qed

lemma legacy_unat: "legacy8 r \<longleftrightarrow> 4 \<le> unat r \<and> unat r \<le> 7"
  by (simp add: legacy8_def word_le_nat_alt)

section \<open>Prefixes\<close>

lemma rex_fields:
  "rex_of (REX_BASE OR rex_bits w r x b) = \<lparr>rex_on = True, rex_w = w, rex_r = r, rex_x = x, rex_b = b\<rparr>"
  "drop_bit 4 (REX_BASE OR rex_bits w r x b) = 4" "REX_BASE OR rex_bits w r x b \<noteq> 0x66"
  "rex_bits w r x b = 0 \<longleftrightarrow> \<not> w \<and> \<not> r \<and> \<not> x \<and> \<not> b"
  by (cases w; cases r; cases x; cases b; simp add: rex_of_def rex_bits_def x64_ops)+

definition rex_rec :: "bool \<Rightarrow> bool \<Rightarrow> bool \<Rightarrow> bool \<Rightarrow> bool \<Rightarrow> rex" where
  "rex_rec force w r x b = \<lparr>rex_on = force \<or> w \<or> r \<or> x \<or> b, rex_w = w, rex_r = r, rex_x = x, rex_b = b\<rparr>"

lemma rex_rec_simps [simp]:
  "rex_on (rex_rec f w r x b) \<longleftrightarrow> f \<or> w \<or> r \<or> x \<or> b" "rex_w (rex_rec f w r x b) = w"
  "rex_r (rex_rec f w r x b) = r" "rex_x (rex_rec f w r x b) = x" "rex_b (rex_rec f w r x b) = b"
  by (simp_all add: rex_rec_def)

lemma decode_prefix:
  assumes "opc \<noteq> 0x66" and "drop_bit 4 opc \<noteq> 4"
  shows "x64_decode (p66 sz @ rex_bytes (rex_bits w r x b) force @ opc # rest)
    = decode_op (sz = 2) (rex_rec force w r x b) (opc # rest)"
proof (cases "rex_bits w r x b = 0 \<and> \<not> force")
  case True
  then have "\<not> w \<and> \<not> r \<and> \<not> x \<and> \<not> b" using rex_fields(4) by blast
  then show ?thesis
    using True assms by (simp add: x64_decode_def p66_def rex_bytes_def rex_rec_def no_rex_def)
next
  case False
  then have on: "force \<or> w \<or> r \<or> x \<or> b" using rex_fields(4) by blast
  have "rex_of (REX_BASE OR rex_bits w r x b) = rex_rec force w r x b"
    using on by (simp add: rex_fields rex_rec_def)
  then show ?thesis
    using False rex_fields(2,3) [of w r x b]
    by (auto simp: x64_decode_def p66_def rex_bytes_def)
qed

section \<open>Operands\<close>

lemma decode_rm_reg:
  assumes "gp reg" and "gp rm" and "rex_r p = (8 \<le> reg)" and "rex_b p = (8 \<le> rm)"
  shows "decode_rm p (modrm reg rm # rest) = Some (unat reg, RReg (unat rm), rest)"
  using assms by (simp add: decode_rm_def modrm_fields ext_gp)

lemma decode_rm_digit:
  assumes "unat digit < 8" and "gp rm" and "\<not> rex_r p" and "rex_b p = (8 \<le> rm)"
  shows "decode_rm p (modrm_digit digit rm # rest) = Some (unat digit, RReg (unat rm), rest)"
proof -
  have u: "unat (ucast digit :: u32) = unat digit"
    using assms(1) by (simp add: unat_ucast_mod)
  then have "gp (ucast digit)" "\<not> 8 \<le> (ucast digit :: u32)"
    using assms(1) by (simp_all add: gp_def word_le_nat_alt)
  then show ?thesis
    using assms decode_rm_reg [of "ucast digit" rm p rest] by (simp add: digit_modrm u)
qed

lemma choose_mod_range: "unat (choose_mod disp b) < 3"
  by (simp add: choose_mod_def)

lemma take_disp_bytes:
  assumes "md = choose_mod disp b"
  shows "take_disp (unat md) (disp_bytes disp md @ rest) = Some (sint disp, rest)"
proof -
  consider "md = 0" "disp = 0" | "md = 1" "- 128 \<le> sint disp" "sint disp \<le> 127" | "md = 2"
    using assms by (auto simp: choose_mod_def word_sle_eq split: if_splits)
  then show ?thesis
  proof cases
    case 2
    then show ?thesis using sle_take_byte [of disp rest] by (simp add: take_disp_def disp_bytes_def)
  qed (simp_all add: take_disp_def disp_bytes_def sle_take_le32)
qed

lemma scale_bits_pow:
  assumes "scale \<in> {1, 2, 4, 8}"
  shows "2 ^ unat (scale_bits scale) = unat scale" and "unat (scale_bits scale) < 4"
  using assms by (auto simp: scale_bits_def)

text \<open>Every base register but the two special ones, and these too: 4 and 12 force the index byte, 5 and 13 a displacement.\<close>

lemma decode_rm_mem:
  assumes "gp reg" and "gp base" and "\<forall>i. index = Some i \<longrightarrow> gp i \<and> i \<noteq> 4" and "scale \<in> {1, 2, 4, 8}"
    and "rex_r p = (8 \<le> reg)" and "rex_b p = (8 \<le> base)"
    and "rex_x p = (case index of None \<Rightarrow> False | Some i \<Rightarrow> 8 \<le> i)"
  shows "decode_rm p (mem_bytes reg base index scale disp @ rest)
    = Some (unat reg, RMem (unat base) (map_option (\<lambda>i. (unat i, unat scale)) index) (sint disp), rest)"
proof -
  define md where "md = choose_mod disp (base AND 7)"
  have md: "unat md < 3" unfolding md_def by (rule choose_mod_range)
  have u: "unat (ucast md :: u32) = unat md" using md by (simp add: unat_ucast_mod)
  have md4: "unat (ucast md :: u32) < 4" using md u by simp
  note disp = take_disp_bytes [OF md_def, of rest]
  have base5: "unat md \<noteq> 0" if "base AND 7 = 5"
    using that by (auto simp: md_def choose_mod_def)
  have low: "unat (base AND 7) = 5 \<longleftrightarrow> base AND 7 = 5" "unat (base AND 7) = 4 \<longleftrightarrow> base AND 7 = 4"
    by (simp_all add: word_unat_eq_iff)
  have c4: "(4 :: u32) AND 7 = 4" by simp
  note f = operand_byte [OF md4, of reg] 
  show ?thesis
  proof (cases "index \<noteq> None \<or> base AND 7 = 4")
    case False
    then have b: "mem_bytes reg base index scale disp
        = ucast (push_bit 6 (ucast md :: u32) OR push_bit 3 (reg AND 7) OR (base AND 7)) # disp_bytes disp md"
      by (simp add: mem_bytes_def Let_def md_def)
    show ?thesis
      unfolding b append_Cons decode_rm_def list.case Let_def f u
      using False md base5 assms(1,2,5,6) by (simp add: disp low ext_gp)
  next
    case True
    define ix where "ix = (case index of None \<Rightarrow> 4 | Some i \<Rightarrow> i AND 7)"
    have ix7: "ix AND 7 = ix" unfolding ix_def and7_take by (simp split: option.split)
    have b: "mem_bytes reg base index scale disp
        = ucast (push_bit 6 (ucast md :: u32) OR push_bit 3 (reg AND 7) OR (4 AND 7))
          # ucast (push_bit 6 (scale_bits scale) OR push_bit 3 (ix AND 7) OR (base AND 7)) # disp_bytes disp md"
      unfolding c4 ix7 using True by (simp add: mem_bytes_def Let_def md_def ix_def)
    note g = operand_byte [OF scale_bits_pow(2) [OF assms(4)], of ix base]
    have idx: "(if ext (rex_x p) (unat ix) = 4 then None else Some (ext (rex_x p) (unat ix), unat scale))
        = map_option (\<lambda>i. (unat i, unat scale)) index"
    proof (cases index)
      case None
      then show ?thesis using assms(7) by (simp add: ix_def ext_def)
    next
      case (Some i)
      then have i: "gp i" "unat i \<noteq> 4" using assms(3) by (auto simp: word_unat_eq_iff)
      have "ext (rex_x p) (unat ix) = unat i" using Some assms(7) ext_gp [OF i(1)] by (simp add: ix_def)
      then show ?thesis using Some i(2) by simp
    qed
    show ?thesis
      unfolding b append_Cons decode_rm_def list.case Let_def f u g
      unfolding ix7 c4 scale_bits_pow(1) [OF assms(4)] idx
      using md base5 assms(1,2,5,6) by (simp add: disp low ext_gp)
  qed
qed

section \<open>Instructions\<close>

definition size_ok :: "u8 \<Rightarrow> bool" where
  "size_ok sz \<longleftrightarrow> sz \<in> {1, 2, 4, 8}"

definition rr_instr :: "u8 \<Rightarrow> nat \<Rightarrow> rm \<Rightarrow> nat \<Rightarrow> x64_instr" where
  "rr_instr opcode n d r = (if opcode = OP_MOV_RM_R then MovRmR n d r else AluRmR (alu_no opcode) n d r)"

definition rr_opcodes :: "u8 set" where
  "rr_opcodes = {OP_ADD_RM_R, OP_OR_RM_R, OP_AND_RM_R, OP_SUB_RM_R, OP_XOR_RM_R, OP_CMP_RM_R, OP_MOV_RM_R}"

definition sized_rex :: "u8 \<Rightarrow> bool \<Rightarrow> bool \<Rightarrow> bool \<Rightarrow> bool \<Rightarrow> rex" where
  "sized_rex sz force r x b = rex_rec force (sz = 8) r x b"

lemma op_size_sized:
  "size_ok sz \<Longrightarrow> bit opc 0 \<longleftrightarrow> sz \<noteq> 1 \<Longrightarrow> op_size (sz = 2) (sized_rex sz f r x b) opc = unat sz"
  by (auto simp: op_size_def sized_rex_def size_ok_def)

lemma byte_opc_cases:
  assumes "opcode \<in> rr_opcodes"
  shows "byte_opc one opcode \<in> (if one then {0x00, 0x08, 0x20, 0x28, 0x30, 0x38, 0x88} else {0x01, 0x09, 0x21, 0x29, 0x31, 0x39, 0x89})"
  using assms by (cases one) (auto simp: byte_opc_def rr_opcodes_def x64_ops)

text \<open>The opcodes whose operand byte \<open>decode_modrm\<close> reads.\<close>

definition modrm_opc :: "u8 \<Rightarrow> bool" where
  "modrm_opc opc \<longleftrightarrow> opc \<noteq> 0x66 \<and> drop_bit 4 opc \<noteq> 4 \<and> opc \<noteq> 0x0f \<and> drop_bit 3 opc \<notin> {0xa, 0xb, 0x16, 0x17}
     \<and> opc \<notin> {0xe9, 0xe8, 0xc3}"

lemma decode_modrm_opc:
  assumes "modrm_opc opc"
  shows "x64_decode (p66 sz @ rex_bytes (rex_bits w r x b) force @ opc # rest)
    = decode_modrm (sz = 2) (rex_rec force w r x b) opc rest"
proof -
  have "opc \<noteq> 0x66" "drop_bit 4 opc \<noteq> 4" using assms by (auto simp: modrm_opc_def)
  then show ?thesis
    using assms by (simp add: decode_prefix decode_op_def modrm_opc_def)
qed

lemma rr_opc_modrm:
  assumes "opcode \<in> rr_opcodes"
  shows "modrm_opc (byte_opc one opcode)" and "bit (byte_opc one opcode) 0 \<longleftrightarrow> \<not> one"
    and "byte_opc one opcode \<in> {0x88, 0x89} \<longleftrightarrow> opcode = OP_MOV_RM_R"
    and "byte_opc one opcode AND 0xc6 = 0 \<longleftrightarrow> opcode \<noteq> OP_MOV_RM_R"
    and "alu_no (byte_opc one opcode) = alu_no opcode"
  using assms unfolding rr_opcodes_def
  by (cases one; elim insertE emptyE; simp add: modrm_opc_def byte_opc_def alu_no_def x64_ops)+

lemma encode_rr_decodes:
  assumes "opcode \<in> rr_opcodes" and "size_ok sz" and "gp reg" and "gp rm"
  shows "x64_decode (rr_bytes opcode sz reg rm @ rest)
    = Some (rr_instr opcode (unat sz) (RReg (unat rm)) (unat reg), rest)"
proof -
  define force where "force = (sz = 1 \<and> (legacy8 reg \<or> legacy8 rm))"
  define p where "p = sized_rex sz force (8 \<le> reg) False (8 \<le> rm)"
  define opc where "opc = byte_opc (sz = 1) opcode"
  note o' = rr_opc_modrm [OF assms(1), of "sz = 1", folded opc_def]
  have ok: "byte_ok p (unat reg)" "byte_ok p (unat rm)" if "sz = 1"
    using that by (auto simp: p_def sized_rex_def byte_ok_def force_def legacy_unat word_le_nat_alt)
  have rm: "decode_rm p (modrm reg rm # rest) = Some (unat reg, RReg (unat rm), rest)"
    using assms(3,4) by (rule decode_rm_reg) (simp_all add: p_def sized_rex_def)
  have sz: "op_size (sz = 2) p opc = unat sz"
    unfolding p_def by (rule op_size_sized [OF assms(2) o'(2)])
  have s1: "unat sz = 1 \<longleftrightarrow> sz = 1" by (simp add: word_unat_eq_iff)
  have "x64_decode (rr_bytes opcode sz reg rm @ rest) = decode_modrm (sz = 2) p opc (modrm reg rm # rest)"
    unfolding rr_bytes_def p_def sized_rex_def force_def
    using decode_modrm_opc [OF o'(1)] by (simp add: opc_def)
  also have "\<dots> = Some (rr_instr opcode (unat sz) (RReg (unat rm)) (unat reg), rest)"
    using o'(3-5) ok s1 unfolding decode_modrm_def rm option.case prod.case Let_def sz rr_instr_def
    by (cases "opcode = OP_MOV_RM_R") auto
  finally show ?thesis .
qed

end
