(* ===== verification/X64_Instr.thy ===== *)
theory X64_Instr
  imports X64_Decode
begin

text \<open>
  The remaining encoders of \<open>src/alc/bin-x86_64.c\<close>: memory operands, immediates, shifts, negation.
\<close>

definition mem_instr :: "u8 \<Rightarrow> nat \<Rightarrow> nat \<Rightarrow> rm \<Rightarrow> x64_instr" where
  "mem_instr opcode n r m =
    (if opcode = OP_MOV_RM_R then MovRmR n m r else if opcode = OP_MOV_R_RM then MovRRm n r m else Lea n r m)"

definition mem_opcodes :: "u8 set" where
  "mem_opcodes = {OP_MOV_RM_R, OP_MOV_R_RM, OP_LEA}"

lemma mem_opc_modrm:
  assumes "opcode \<in> mem_opcodes"
  shows "modrm_opc (byte_opc one opcode)" and "bit (byte_opc one opcode) 0 \<longleftrightarrow> \<not> one"
    and "byte_opc one opcode AND 0xc6 \<noteq> 0"
    and "byte_opc one opcode \<in> {0x88, 0x89} \<longleftrightarrow> opcode = OP_MOV_RM_R"
    and "byte_opc one opcode \<in> {0x8a, 0x8b} \<longleftrightarrow> opcode = OP_MOV_R_RM"
    and "byte_opc one opcode = 0x8d \<longleftrightarrow> opcode = OP_LEA \<and> \<not> one"
    and "byte_opc one opcode = 0x8c \<longleftrightarrow> opcode = OP_LEA \<and> one"
  using assms unfolding mem_opcodes_def
  by (cases one; elim insertE emptyE; simp add: modrm_opc_def byte_opc_def x64_ops)+

definition mem_rm :: "u32 \<Rightarrow> u32 option \<Rightarrow> u32 \<Rightarrow> i32 \<Rightarrow> rm" where
  "mem_rm base index scale disp = RMem (unat base) (map_option (\<lambda>i. (unat i, unat scale)) index) (sint disp)"

definition mem_ok :: "u32 \<Rightarrow> u32 \<Rightarrow> u32 option \<Rightarrow> u32 \<Rightarrow> bool" where
  "mem_ok reg base index scale \<longleftrightarrow> gp reg \<and> gp base \<and> (\<forall>i. index = Some i \<longrightarrow> gp i \<and> i \<noteq> 4) \<and> scale \<in> {1, 2, 4, 8}"

lemma encode_mem_decodes:
  assumes "opcode \<in> mem_opcodes" and "size_ok sz" and "mem_ok reg base index scale"
  shows "x64_decode (enc_mem_bytes opcode sz reg base index scale disp @ rest)
    = Some (if opcode = OP_LEA \<and> sz = 1 then MovRmS (mem_rm base index scale disp) (unat reg mod 8)
            else mem_instr opcode (unat sz) (unat reg) (mem_rm base index scale disp), rest)"
proof -
  define force where "force = (sz = 1 \<and> legacy8 reg)"
  define p where "p = sized_rex sz force (8 \<le> reg) (case index of None \<Rightarrow> False | Some i \<Rightarrow> 8 \<le> i) (8 \<le> base)"
  define opc where "opc = byte_opc (sz = 1) opcode"
  note o' = mem_opc_modrm [OF assms(1), of "sz = 1", folded opc_def]
  have ok: "byte_ok p (unat reg)" if "sz = 1"
    using that by (auto simp: p_def sized_rex_def byte_ok_def force_def legacy_unat word_le_nat_alt)
  have rm: "decode_rm p (mem_bytes reg base index scale disp @ rest)
      = Some (unat reg, mem_rm base index scale disp, rest)"
    unfolding mem_rm_def using assms(3)
    by (intro decode_rm_mem) (auto simp: p_def sized_rex_def mem_ok_def)
  have sz: "op_size (sz = 2) p opc = unat sz"
    unfolding p_def by (rule op_size_sized [OF assms(2) o'(2)])
  have s1: "unat sz = 1 \<longleftrightarrow> sz = 1" by (simp add: word_unat_eq_iff)
  have "x64_decode (enc_mem_bytes opcode sz reg base index scale disp @ rest)
      = decode_modrm (sz = 2) p opc (mem_bytes reg base index scale disp @ rest)"
    unfolding enc_mem_bytes_def p_def sized_rex_def force_def
    using decode_modrm_opc [OF o'(1)] by (simp add: opc_def)
  also have "\<dots> = Some (if opcode = OP_LEA \<and> sz = 1 then MovRmS (mem_rm base index scale disp) (unat reg mod 8)
            else mem_instr opcode (unat sz) (unat reg) (mem_rm base index scale disp), rest)"
  proof -
    have "opcode = OP_MOV_RM_R \<or> opcode = OP_MOV_R_RM \<or> opcode = OP_LEA"
      using assms(1) by (auto simp: mem_opcodes_def)
    moreover have "OP_MOV_RM_R \<noteq> OP_LEA" "OP_MOV_R_RM \<noteq> OP_LEA" "OP_MOV_R_RM \<noteq> OP_MOV_RM_R"
      by (simp_all add: x64_ops)
    moreover have "rm_ok p (mem_rm base index scale disp)" "is_mem (mem_rm base index scale disp)"
      by (simp_all add: mem_rm_def)
    ultimately show ?thesis
      using o'(3-7) ok s1 unfolding decode_modrm_def rm option.case prod.case Let_def sz mem_instr_def
      by (cases "sz = 1") auto
  qed
  finally show ?thesis .
qed

section \<open>Immediates\<close>

lemma grp_opc:
  "modrm_opc OP_GRP1_IMM8B" "modrm_opc OP_GRP1_IMM8" "modrm_opc OP_GRP1_IMM32" "modrm_opc OP_GRP_SHIFT"
  "modrm_opc (byte_opc one OP_GRP3)" "modrm_opc (byte_opc one OP_MOV_IMM_RM)"
  by (cases one; simp add: modrm_opc_def byte_opc_def x64_ops)+

lemma digit_decodes:
  assumes "unat digit < 8" and "size_ok sz" and "gp rm" and "modrm_opc opc" and "sz = 1 \<and> legacy8 rm \<longrightarrow> force"
    and "bit opc 0 \<longleftrightarrow> sz \<noteq> 1"
  shows "x64_decode (p66 sz @ rex_bytes (rex_bits (sz = 8) False False (8 \<le> rm)) force
      @ opc # modrm_digit digit rm # rest)
    = (let m = RReg (unat rm); n = unat sz; dig = unat digit in
       if opc AND 0xc6 = 0 \<or> opc \<in> {0x88, 0x89, 0x8a, 0x8b, 0x8c, 0x8d, 0x63, 0x6b, 0x69}
       then x64_decode (p66 sz @ rex_bytes (rex_bits (sz = 8) False False (8 \<le> rm)) force
              @ opc # modrm_digit digit rm # rest)
       else if opc = 0x80 \<or> opc = 0x83 then map_option (\<lambda>(i, r'). (AluRmI dig n m i, r')) (sle_take 1 rest)
       else if opc = 0x81 then map_option (\<lambda>(i, r'). (AluRmI dig n m i, r')) (sle_take (if n = 2 then 2 else 4) rest)
       else if opc = 0xc0 \<or> opc = 0xc1 then map_option (\<lambda>(i, r'). (ShiftRmI dig n m i, r')) (le_take 1 rest)
       else if opc = 0xf6 \<or> opc = 0xf7 then (if dig = 3 then Some (Neg n m, rest) else None)
       else if opc = 0xc6 then (if dig = 0 then map_option (\<lambda>(i, r'). (MovRmI n m i, r')) (sle_take 1 rest) else None)
       else if opc = 0xc7 then
         (if dig = 0 then map_option (\<lambda>(i, r'). (MovRmI n m i, r')) (sle_take (if n = 2 then 2 else 4) rest) else None)
       else None)"
proof -
  define p where "p = sized_rex sz force False False (8 \<le> rm)"
  have ok: "rm_ok p (RReg (unat rm))" if "sz = 1"
    using that assms(5) by (auto simp: p_def sized_rex_def byte_ok_def legacy_unat word_le_nat_alt)
  have rm: "decode_rm p (modrm_digit digit rm # rest) = Some (unat digit, RReg (unat rm), rest)"
    using assms(1,3) by (rule decode_rm_digit) (simp_all add: p_def sized_rex_def)
  have sz: "op_size (sz = 2) p opc = unat sz"
    unfolding p_def by (rule op_size_sized [OF assms(2,6)])
  have s1: "unat sz = 1 \<longleftrightarrow> sz = 1" by (simp add: word_unat_eq_iff)
  have "x64_decode (p66 sz @ rex_bytes (rex_bits (sz = 8) False False (8 \<le> rm)) force
      @ opc # modrm_digit digit rm # rest) = decode_modrm (sz = 2) p opc (modrm_digit digit rm # rest)"
    unfolding p_def sized_rex_def using decode_modrm_opc [OF assms(4)] by simp
  then show ?thesis
    using ok s1 assms(1)
    by (simp only: decode_modrm_def rm option.case prod.case Let_def sz) auto
qed

text \<open>
  An arithmetic immediate decodes to the instruction meant, except for a two-byte operand with an
  immediate that does not fit a byte: there the immediate field is two bytes and four are put.
\<close>

definition imm_value :: "u8 \<Rightarrow> i64 \<Rightarrow> int" where
  "imm_value sz imm = (if sz = 1 then sint (ucast imm :: u8)
     else if - 128 \<le> sint imm \<and> sint imm \<le> 127 then sint imm else sint (ucast imm :: i32))"

lemma alu_ri_decodes:
  assumes "unat digit < 8" and "size_ok sz" and "gp rm"
    and "sz = 2 \<longrightarrow> - 128 \<le> sint imm \<and> sint imm \<le> 127"
  shows "x64_decode (alu_ri_bytes digit sz rm imm @ rest)
    = Some (AluRmI (unat digit) (unat sz) (RReg (unat rm)) (imm_value sz imm), rest)"
proof -
  consider "sz = 1" | "sz \<noteq> 1" "- 128 \<le> sint imm" "sint imm \<le> 127" | "sz \<noteq> 1" "sz \<noteq> 2" "\<not> (- 128 \<le> sint imm \<and> sint imm \<le> 127)"
    using assms(4) by blast
  then show ?thesis
  proof cases
    case 1
    have "sle_take 1 ((ucast imm :: u8) # rest) = Some (sint (ucast imm :: u8), rest)"
      by (simp add: sle_take_def sint_uint)
    then show ?thesis
      using 1 digit_decodes [OF assms(1-3) grp_opc(1), of "legacy8 rm" "ucast imm # rest"]
      by (simp add: alu_ri_bytes_def imm_value_def x64_ops Let_def)
  next
    case 2
    then show ?thesis
      using digit_decodes [OF assms(1-3) grp_opc(2), of False "ucast imm # rest"] sle_take_byte [of imm rest]
      by (simp add: alu_ri_bytes_def imm_value_def x64_ops Let_def word_sle_eq)
  next
    case 3
    have "unat sz \<noteq> 2" using 3(2) by (simp add: word_unat_eq_iff)
    then show ?thesis
      using 3 digit_decodes [OF assms(1-3) grp_opc(3), of False "le32 (ucast imm) @ rest"]
      by (auto simp: alu_ri_bytes_def imm_value_def x64_ops Let_def word_sle_eq sle_take_le32)
  qed
qed

lemma shift_ri_decodes:
  assumes "unat digit < 8" and "size_ok sz" and "sz \<noteq> 1" and "gp rm"
  shows "x64_decode (shift_ri_bytes digit sz rm amount @ rest)
    = Some (ShiftRmI (unat digit) (unat sz) (RReg (unat rm)) (unat (ucast amount :: u8)), rest)"
  using digit_decodes [OF assms(1,2,4) grp_opc(4), of False "ucast amount # rest"] assms(3)
  by (simp add: shift_ri_bytes_def x64_ops Let_def)

lemma neg_decodes:
  assumes "size_ok sz" and "gp rm" and "\<not> (sz = 1 \<and> legacy8 rm)"
  shows "x64_decode (neg_bytes sz rm @ rest) = Some (Neg (unat sz) (RReg (unat rm)), rest)"
proof -
  have d: "unat GRP3_NEG = 3" "unat GRP3_NEG < 8" by (simp_all add: x64_ops)
  have b: "bit (byte_opc (sz = 1) OP_GRP3) 0 \<longleftrightarrow> sz \<noteq> 1" by (simp add: byte_opc_def x64_ops)
  show ?thesis
    using digit_decodes [OF d(2) assms(1,2) grp_opc(5), of False "sz = 1" rest] assms(3) b
    by (cases "sz = 1") (simp_all add: neg_bytes_def x64_ops Let_def byte_opc_def)
qed

end
