(* ===== verification/X64_Exec.thy ===== *)
theory X64_Exec
  imports X64_Instr X64_Emit
begin

text \<open>
  What the emitted x86-64 code does: constants, arithmetic, moves, conditions and memory accesses.
\<close>

section \<open>Running bytes\<close>

definition xinstr :: "u8 list \<Rightarrow> x64_instr \<Rightarrow> bool" where
  "xinstr bs i \<longleftrightarrow> bs \<noteq> [] \<and> (\<forall>rest. x64_decode (bs @ rest) = Some (i, rest))"

lemma xinstrI: "bs \<noteq> [] \<Longrightarrow> (\<And>rest. x64_decode (bs @ rest) = Some (i, rest)) \<Longrightarrow> xinstr bs i"
  by (simp add: xinstr_def)

lemma x64_run_n_mono: "x64_run_n n bs m = Some m' \<Longrightarrow> n \<le> k \<Longrightarrow> x64_run_n k bs m = Some m'"
proof (induction n bs m arbitrary: k rule: x64_run_n.induct)
  case (3 n b bs m)
  then obtain k' where k: "k = Suc k'" "n \<le> k'" by (cases k) auto
  obtain i r m1 where d: "x64_decode (b # bs) = Some (i, r)" "x64_exec i m = Some m1" "x64_run_n n r m1 = Some m'"
    using "3.prems"(1) by (auto split: option.splits)
  then show ?case using "3.IH" [OF d(1) refl d(2) d(3) k(2)] by (simp add: k(1))
qed (auto simp: x64_run_n.simps)

lemma x64_run_Nil [simp]: "x64_run [] m = Some m"
  by (simp add: x64_run_def)

lemma x64_run_step:
  assumes "xinstr bs i" and "x64_exec i m = Some m1" and "x64_run rest m1 = Some m2"
  shows "x64_run (bs @ rest) m = Some m2"
proof -
  obtain b cs where b: "bs = b # cs" using assms(1) by (cases bs) (auto simp: xinstr_def)
  have d: "x64_decode (b # cs @ rest) = Some (i, rest)" using assms(1) b by (simp add: xinstr_def)
  have "x64_run_n (length (cs @ rest)) rest m1 = Some m2"
    using assms(3) by (auto simp: x64_run_def intro: x64_run_n_mono)
  then show ?thesis using d assms(2) by (simp add: x64_run_def b)
qed

lemma x64_run_one: "xinstr bs i \<Longrightarrow> x64_exec i m = Some m1 \<Longrightarrow> x64_run bs m = Some m1"
  using x64_run_step [of bs i m m1 "[]" m1] by simp

lemma x64_run_two:
  "xinstr bs i \<Longrightarrow> x64_exec i m = Some m1 \<Longrightarrow> xinstr cs j \<Longrightarrow> x64_exec j m1 = Some m2
    \<Longrightarrow> x64_run (bs @ cs) m = Some m2"
  using x64_run_step x64_run_one by blast

lemma bytes_nonempty:
  "rr_bytes opcode sz reg rm \<noteq> []" "enc_mem_bytes opcode sz reg base index scale disp \<noteq> []"
  "alu_ri_bytes digit sz rm imm \<noteq> []" "shift_ri_bytes digit sz rm k \<noteq> []" "neg_bytes sz rm \<noteq> []"
  by (auto simp: rr_bytes_def enc_mem_bytes_def alu_ri_bytes_def shift_ri_bytes_def neg_bytes_def)

lemma xinstr_rr:
  "opcode \<in> rr_opcodes \<Longrightarrow> size_ok sz \<Longrightarrow> gp reg \<Longrightarrow> gp rm
    \<Longrightarrow> xinstr (rr_bytes opcode sz reg rm) (rr_instr opcode (unat sz) (RReg (unat rm)) (unat reg))"
  by (simp add: xinstr_def bytes_nonempty encode_rr_decodes)

lemma xinstr_mem:
  "opcode \<in> mem_opcodes \<Longrightarrow> size_ok sz \<Longrightarrow> mem_ok reg base index scale \<Longrightarrow> \<not> (opcode = OP_LEA \<and> sz = 1)
    \<Longrightarrow> xinstr (enc_mem_bytes opcode sz reg base index scale disp)
         (mem_instr opcode (unat sz) (unat reg) (mem_rm base index scale disp))"
  by (auto simp: xinstr_def bytes_nonempty encode_mem_decodes)

lemma xinstr_imm:
  "unat digit < 8 \<Longrightarrow> size_ok sz \<Longrightarrow> gp rm \<Longrightarrow> sz = 2 \<longrightarrow> - 128 \<le> sint imm \<and> sint imm \<le> 127
    \<Longrightarrow> xinstr (alu_ri_bytes digit sz rm imm) (AluRmI (unat digit) (unat sz) (RReg (unat rm)) (imm_value sz imm))"
  by (simp add: xinstr_def bytes_nonempty alu_ri_decodes)

text \<open>A register operand the encoders can encode.\<close>

definition xenc :: "abi \<Rightarrow> reg \<Rightarrow> bool" where
  "xenc a r \<longleftrightarrow> gp (xreg_no a r)"

abbreviation xrno :: "abi \<Rightarrow> reg \<Rightarrow> nat" where
  "xrno a r \<equiv> unat (xreg_no a r)"

abbreviation xsz :: "reg \<Rightarrow> nat" where
  "xsz r \<equiv> unat (rsz r)"

lemma mem_instr_simps:
  "mem_instr OP_LEA n r m = Lea n r m" "mem_instr OP_MOV_RM_R n r m = MovRmR n m r"
  "mem_instr OP_MOV_R_RM n r m = MovRRm n r m"
  "OP_LEA \<in> mem_opcodes" "OP_MOV_RM_R \<in> mem_opcodes" "OP_MOV_R_RM \<in> mem_opcodes"
  by (simp_all add: mem_instr_def mem_opcodes_def x64_ops)

lemma rr_instr_simps:
  "rr_instr OP_MOV_RM_R n d r = MovRmR n d r" "rr_instr OP_XOR_RM_R n d r = AluRmR 6 n d r"
  "rr_instr OP_SUB_RM_R n d r = AluRmR 5 n d r" "rr_instr OP_ADD_RM_R n d r = AluRmR 0 n d r"
  "rr_instr OP_CMP_RM_R n d r = AluRmR 7 n d r" "rr_instr OP_OR_RM_R n d r = AluRmR 1 n d r"
  "OP_MOV_RM_R \<in> rr_opcodes" "OP_XOR_RM_R \<in> rr_opcodes" "OP_SUB_RM_R \<in> rr_opcodes"
  "OP_ADD_RM_R \<in> rr_opcodes" "OP_CMP_RM_R \<in> rr_opcodes" "OP_OR_RM_R \<in> rr_opcodes"
  by (simp_all add: rr_instr_def rr_opcodes_def alu_no_def x64_ops)

section \<open>Constants\<close>

lemma low3_opc:
  assumes "opc AND 7 = 0"
  shows "low3 (opc + ucast ((r :: u32) AND 7)) = unat (r AND 7)"
    and "drop_bit 3 (opc + ucast (r AND 7)) = drop_bit 3 (opc :: u8)"
proof -
  have "(opc :: u8) AND 7 = take_bit 3 opc"
    using and_mask_take_bit [of opc 3] by (simp add: mask_eq_exp_minus_1)
  then have o': "take_bit 3 opc = 0" using assms by simp
  have nb: "\<not> bit opc i" if "i < 3" for i
    using o' that by (metis bit_0_eq bit_take_bit_iff bot_apply bot_bool_def)
  have d: "opc + ucast (r AND 7) = opc OR ucast (take_bit 3 r)"
    unfolding and7_take
  proof (rule disjunctive_add)
    fix i
    show "\<not> bit opc i \<or> \<not> bit (ucast (take_bit 3 r) :: u8) i"
      using nb by (cases "i < 3") (auto simp: bit_simps)
  qed
  have t: "take_bit 3 (opc OR ucast (take_bit 3 r)) = ucast (take_bit 3 r)"
    using nb by (intro bit_word_eqI) (auto simp: bit_simps)
  show "low3 (opc + ucast (r AND 7)) = unat (r AND 7)"
    unfolding low3_def d t unfolding and7_take unat_ucast_mod unat_take_mod by (simp add: mod_mod_cancel)
  show "drop_bit 3 (opc + ucast (r AND 7)) = drop_bit 3 opc"
    unfolding d by (intro bit_word_eqI) (auto simp: bit_simps)
qed

text \<open>An opcode that names a register in its low bits, after the prefixes.\<close>

lemma decode_low3_opc:
  assumes "opc AND 7 = 0" and "drop_bit 3 opc \<in> {0xa, 0xb, 0x16, 0x17}"
  shows "x64_decode (p66 sz @ rex_bytes (rex_bits w False False b) force @ (opc + ucast ((r :: u32) AND 7)) # rest)
    = (let p = rex_rec force w False False b; k = ext b (unat (r AND 7)) in
       if drop_bit 3 opc = 0xa then Some (Push k, rest)
       else if drop_bit 3 opc = 0xb then Some (Pop k, rest)
       else if drop_bit 3 opc = 0x16 then
         (if byte_ok p k then map_option (\<lambda>(i, r'). (MovRI 1 k (of_nat i), r')) (le_take 1 rest) else None)
       else (let n = (if w then 8 else if sz = 2 then 2 else 4) in
             map_option (\<lambda>(i, r'). (MovRI n k (of_nat i), r')) (le_take n rest)))"
proof -
  define o' where "o' = opc + ucast (r AND 7)"
  have d: "drop_bit 3 o' = drop_bit 3 opc" and l: "low3 o' = unat (r AND 7)"
    unfolding o'_def using low3_opc [OF assms(1), of r] by simp_all
  have "drop_bit 4 o' = drop_bit 1 (drop_bit 3 o')" by (simp add: drop_bit_drop_bit)
  then have d4: "drop_bit 4 o' = drop_bit 1 (drop_bit 3 opc)" unfolding d .
  have ne: "o' \<noteq> k" if "drop_bit 3 k \<noteq> drop_bit 3 opc" for k using d that by auto
  have n1: "o' \<noteq> 0x66" and n3: "o' \<noteq> 0x0f"
    using assms(2) by (auto intro!: ne)
  have "drop_bit 1 x \<noteq> 4" if "x \<in> {0xa, 0xb, 0x16, 0x17}" for x :: u8
    using that by auto
  then have n2: "drop_bit 4 o' \<noteq> 4" unfolding d4 using assms(2) by blast
  show ?thesis
    unfolding o'_def [symmetric] decode_prefix [OF n1 n2]
    using assms(2) n3 by (auto simp: decode_op_def d l Let_def)
qed

lemma mov_prefixes:
  "rex_bytes (rex_bits False False False b) f
    = (if b then [REX_BASE OR REX_B] else if f then [REX_BASE] else [])"
  "rex_bytes (rex_bits True False False b) f = [REX_BASE OR REX_W OR (if b then REX_B else 0)]"
  by (cases b; cases f; simp add: rex_bytes_def rex_bits_def x64_ops)+

lemma mov_opcodes:
  "OP_MOV_IMM_R AND 7 = 0" "drop_bit 3 OP_MOV_IMM_R = 0x17" "OP_MOV_IMM_R8 AND 7 = 0" "drop_bit 3 OP_MOV_IMM_R8 = 0x16"
  by (simp_all add: x64_ops)

lemma le_take_1: "le_take 1 (b # bs) = Some (unat b, bs)"
  by simp

lemma le_take_2: "le_take 2 (b # c # bs) = Some (unat b + 256 * unat c, bs)"
  by (simp add: numeral_2_eq_2)

text \<open>The instruction that a constant move is, and the value it writes.\<close>

definition mov_instr :: "u8 \<Rightarrow> nat \<Rightarrow> i64 \<Rightarrow> x64_instr" where
  "mov_instr sz k v =
    (if sz = 1 then MovRI 1 k (of_nat (unat (ucast v :: u8)))
     else if sz = 2 then MovRI 2 k (of_nat (unat (ucast v :: u8) + 256 * unat (ucast (drop_bit 8 v) :: u8)))
     else if sz = 4 then MovRI 4 k (of_nat (unat (ucast v :: u32)))
     else if - 0x80000000 \<le>s v \<and> v \<le>s 0x7fffffff then MovRmI 8 (RReg k) (sint (ucast v :: u32))
     else if 0 <s v \<and> v \<le>s 0xffffffff then MovRI 4 k (of_nat (unat (ucast v :: u32)))
     else MovRI 8 k v)"

lemma mov_decodes:
  assumes "size_ok sz" and "gp r"
  shows "x64_decode (mov_bytes sz r v @ rest) = Some (mov_instr sz (unat r) v, rest)"
proof -
  note k = ext_gp [OF assms(2)]
  have leg: "\<not> (8 \<le> r \<and> legacy8 r)" by (auto simp: legacy_unat word_le_nat_alt)
  have ok: "byte_ok (rex_rec (legacy8 r) False False False (8 \<le> r)) (unat r)"
    by (auto simp: byte_ok_def legacy_unat word_le_nat_alt)
  consider "sz = 1" | "sz = 2" | "sz = 4" | "sz = 8" using assms(1) by (auto simp: size_ok_def)
  then show ?thesis
  proof cases
    case 1
    have b: "mov_bytes sz r v = p66 sz @ rex_bytes (rex_bits False False False (8 \<le> r)) (legacy8 r)
        @ (OP_MOV_IMM_R8 + ucast (r AND 7)) # [ucast v]"
      using 1 leg by (auto simp: mov_bytes_def mov_prefixes)
    show ?thesis
      unfolding b append_assoc append_Cons append_Nil
      using decode_low3_opc [OF mov_opcodes(3), of sz False "8 \<le> r" "legacy8 r" r "ucast v # rest"]
      by (simp add: mov_opcodes k ok 1 mov_instr_def Let_def)
  next
    case 2
    have b: "mov_bytes sz r v = p66 sz @ rex_bytes (rex_bits False False False (8 \<le> r)) False
        @ (OP_MOV_IMM_R + ucast (r AND 7)) # [ucast v, ucast (drop_bit 8 v)]"
      using 2 by (simp add: mov_bytes_def mov_prefixes)
    show ?thesis
      unfolding b append_assoc append_Cons append_Nil
      using decode_low3_opc [OF mov_opcodes(1), of sz False "8 \<le> r" False r "ucast v # ucast (drop_bit 8 v) # rest"]
      by (simp add: mov_opcodes k 2 mov_instr_def Let_def le_take_2)
  next
    case 3
    have b: "mov_bytes sz r v = p66 sz @ rex_bytes (rex_bits False False False (8 \<le> r)) False
        @ (OP_MOV_IMM_R + ucast (r AND 7)) # le32 (ucast v)"
      using 3 by (simp add: mov_bytes_def mov_prefixes)
    show ?thesis
      unfolding b append_assoc append_Cons append_Nil
      using decode_low3_opc [OF mov_opcodes(1), of sz False "8 \<le> r" False r "le32 (ucast v) @ rest"]
      by (simp add: mov_opcodes k 3 mov_instr_def Let_def le_take_le32)
  next
    case 4
    consider "- 0x80000000 \<le>s v \<and> v \<le>s 0x7fffffff"
      | "\<not> (- 0x80000000 \<le>s v \<and> v \<le>s 0x7fffffff)" "0 <s v \<and> v \<le>s 0xffffffff"
      | "\<not> (- 0x80000000 \<le>s v \<and> v \<le>s 0x7fffffff)" "\<not> (0 <s v \<and> v \<le>s 0xffffffff)" by blast
    then show ?thesis
    proof cases
      case a: 1
      have b: "mov_bytes sz r v = p66 sz @ rex_bytes (rex_bits (sz = 8) False False (8 \<le> r)) False
          @ OP_MOV_IMM_RM # modrm_digit 0 r # le32 (ucast v)"
        using 4 a by (simp add: mov_bytes_def mov_prefixes p66_def modrm_digit_def)
      have "modrm_opc OP_MOV_IMM_RM" using grp_opc(6) [of False] by (simp add: byte_opc_def)
      then show ?thesis
        unfolding b append_assoc append_Cons append_Nil
        using digit_decodes [of 0 sz r OP_MOV_IMM_RM False "le32 (ucast v) @ rest"] assms 4 a
        by (simp add: mov_instr_def x64_ops Let_def sle_take_le32)
    next
      case a: 2
      have b: "mov_bytes sz r v = p66 sz @ rex_bytes (rex_bits False False False (8 \<le> r)) False
          @ (OP_MOV_IMM_R + ucast (r AND 7)) # le32 (ucast v)"
        using 4 a by (auto simp: mov_bytes_def mov_prefixes p66_def)
      show ?thesis
        unfolding b append_assoc append_Cons append_Nil
        using decode_low3_opc [OF mov_opcodes(1), of sz False "8 \<le> r" False r "le32 (ucast v) @ rest"] 4 a
        by (auto simp: mov_opcodes k mov_instr_def Let_def le_take_le32)
    next
      case a: 3
      have b: "mov_bytes sz r v = p66 sz @ rex_bytes (rex_bits True False False (8 \<le> r)) False
          @ (OP_MOV_IMM_R + ucast (r AND 7)) # le64 v"
        using 4 a by (auto simp: mov_bytes_def mov_prefixes p66_def)
      show ?thesis
        unfolding b append_assoc append_Cons append_Nil
        using decode_low3_opc [OF mov_opcodes(1), of sz True "8 \<le> r" False r "le64 v @ rest"] 4 a
        by (auto simp: mov_opcodes k mov_instr_def Let_def le_take_le64)
    qed
  qed
qed

section \<open>Parts of registers\<close>

lemma merge_take: "merge_size n old (take_bit (8 * n) v) = merge_size n old v"
  by (simp add: merge_size_def)

lemma merge_cong: "take_bit (8 * n) v = take_bit (8 * n) w \<Longrightarrow> merge_size n old v = merge_size n old w"
  by (simp add: merge_size_def)

lemma take_merge: "take_bit (8 * n) (merge_size n old v) = take_bit (8 * n) v"
  by (auto simp: merge_size_def bit_simps intro!: word_eq_by_bits)

lemma merge_merge: "merge_size n (merge_size n old v) w = merge_size n old w"
  by (auto simp: merge_size_def bit_simps intro!: word_eq_by_bits)

lemma merge_8 [simp]: "merge_size 8 old v = v"
  by (auto simp: merge_size_def bit_simps intro!: word_eq_by_bits)

lemma take_sub: "take_bit k (take_bit k a - take_bit k b) = take_bit k (a - b :: u64)"
  by (simp add: take_bit_word_add)

lemma size_cases: "size_ok sz \<Longrightarrow> unat sz \<in> {1, 2, 4, 8}"
  by (auto simp: size_ok_def)

lemma of_nat_unat: "of_nat (unat (w :: 'a::len word)) = (ucast w :: u64)"
  by simp

lemma take_ucast:
  "LENGTH('a) \<le> 64 \<Longrightarrow> take_bit LENGTH('a) (ucast (ucast (v :: u64) :: 'a::len word) :: u64) = take_bit LENGTH('a) v"
  by (intro word_eq_by_bits) (simp add: bit_simps)

lemma signed_32:
  assumes "- 0x80000000 \<le>s v" and "v \<le>s (0x7fffffff :: i64)"
  shows "sint (ucast v :: u32) = sint v"
proof -
  have "sint (ucast v :: u32) = signed_take_bit 31 (sint v)"
    by (intro bit_eqI) (auto simp: bit_simps)
  then show ?thesis
    using assms by (simp add: word_sle_eq signed_take_bit_int_eq_self)
qed

text \<open>The value a constant move leaves in its register.\<close>

lemma mov_instr_exec:
  assumes "size_ok sz"
  shows "x64_exec (mov_instr sz k v) m = Some (wr_size (unat sz) k v m)"
proof -
  consider "sz = 1" | "sz = 2" | "sz = 4" | "sz = 8" using assms by (auto simp: size_ok_def)
  then show ?thesis
  proof cases
    case 1
    have "merge_size 1 old (of_nat (unat (ucast v :: u8))) = merge_size 1 old v" for old
      using take_ucast [of v, where 'a = 8] by (intro merge_cong) (simp add: of_nat_unat)
    then show ?thesis using 1 by (simp add: mov_instr_def wr_size_def)
  next
    case 2
    have "of_nat (unat (ucast v :: u8) + 256 * unat (ucast (drop_bit 8 v) :: u8)) = (take_bit 16 v :: u64)"
    proof -
      have "unat (ucast v :: u8) + 256 * unat (ucast (drop_bit 8 v) :: u8) = unat v mod 2 ^ 16"
        unfolding unat_ucast_mod unat_drop_div
        using mod_mult2_eq [of "unat v" 256 256] by (simp add: add.commute)
      then show ?thesis
        by (metis of_nat_unat ucast_id unat_take_mod)
    qed
    then show ?thesis using 2 merge_take [of 2 _ v] by (simp add: mov_instr_def wr_size_def)
  next
    case 3
    have "merge_size 4 old (of_nat (unat (ucast v :: u32))) = merge_size 4 old v" for old
      using take_ucast [of v, where 'a = 32] by (intro merge_cong) (simp add: of_nat_unat)
    then show ?thesis using 3 by (simp add: mov_instr_def wr_size_def)
  next
    case 4
    have a: "word_of_int (sint (ucast v :: u32)) = v" if "- 0x80000000 \<le>s v \<and> v \<le>s 0x7fffffff"
      using signed_32 [of v] that by simp
    have b: "merge_size 4 old (of_nat (unat (ucast v :: u32))) = v" if "0 <s v \<and> v \<le>s 0xffffffff" for old
    proof -
      have "0 < sint v" "sint v \<le> 0xffffffff"
        using that by (simp_all add: word_sless_alt word_sle_eq)
      moreover have "uint v = sint v" using calculation by (simp add: uint_sint take_bit_int_eq_self)
      ultimately have "unat v < 2 ^ 32" by (simp add: unat_eq_nat_uint nat_less_iff)
      then have "take_bit 32 v = v" by (rule take_bit_word_small)
      then show ?thesis
        using take_ucast [of v, where 'a = 32] by (simp add: merge_size_def of_nat_unat)
    qed
    show ?thesis using 4 a b by (auto simp: mov_instr_def wr_size_def)
  qed
qed

lemma byte_lengths:
  "length (rr_bytes opcode sz reg rm) \<le> 4" "length (mov_bytes sz r v) \<le> 10"
  "length (enc_mem_bytes opcode sz reg base index scale disp) \<le> 9" "length (alu_ri_bytes digit sz rm imm) \<le> 8"
  "length (shift_ri_bytes digit sz rm k) \<le> 5" "length (neg_bytes sz rm) \<le> 4"
  by (auto simp: rr_bytes_def mov_bytes_def enc_mem_bytes_def alu_ri_bytes_def shift_ri_bytes_def neg_bytes_def
      p66_def rex_bytes_def le32_def le64_def mem_bytes_def disp_bytes_def Let_def)

lemma xemitted_bytes: "xroom n st \<Longrightarrow> length bs \<le> n \<Longrightarrow> xemitted (puts bs) st = bs"
  by (rule xemitted_puts) (rule xroom_less)

lemma zero_xor:
  assumes "n \<in> {1, 2, 4}"
  shows "x64_exec (AluRmR 6 n (RReg k) k) m
    = Some (wr_size n k 0 (res_flags n 0 False False m))"
  using assms by (auto simp: alu_def rd_size_def)

text \<open>
  C15. A constant is loaded exactly. Whatever the constant, the register and its size, and whichever of
  the six encodings the emitter picks, the emitted bytes decode and leave the low bytes of the constant
  in the low bytes of the register, as an access of that size does: four bytes clear the rest of the
  register, one or two keep it. Nothing else but the flags changes.
\<close>

theorem emit_mov_x64_value:
  assumes "xroom 10 st" and "xenc a dst" and "size_ok (rsz dst)"
  shows "\<exists>m'. x64_run (xemitted (emit_mov_x64 a dst v) st) m = Some m' \<and> xmem m' = xmem m
    \<and> gpr m' = (gpr m)(xrno a dst := merge_size (xsz dst) (gpr m (xrno a dst)) v)"
proof (cases "v = 0")
  case False
  then have e: "emit_mov_x64 a dst v = puts (mov_bytes (rsz dst) (xreg_no a dst) v)"
    by (simp add: emit_mov_x64_def fun_eq_iff)
  have x: "xinstr (mov_bytes (rsz dst) (xreg_no a dst) v) (mov_instr (rsz dst) (xrno a dst) v)"
  proof (rule xinstrI)
    show "mov_bytes (rsz dst) (xreg_no a dst) v \<noteq> []" by (auto simp: mov_bytes_def le32_def)
  qed (use assms in \<open>simp add: mov_decodes xenc_def\<close>)
  show ?thesis
    unfolding e xemitted_bytes [OF assms(1) byte_lengths(2)]
    using x64_run_one [OF x mov_instr_exec [OF assms(3)]] by (simp add: wr_size_def)
next
  case True
  define sz where "sz = (if 4 < rsz dst then 4 else rsz dst)"
  have sz: "size_ok sz" "unat sz \<in> {1, 2, 4}" "unat sz = (if rsz dst = 8 then 4 else xsz dst)"
    using assms(3) by (auto simp: sz_def size_ok_def)
  have e: "emit_mov_x64 a dst v = puts (rr_bytes OP_XOR_RM_R sz (xreg_no a dst) (xreg_no a dst))"
    using True by (simp add: emit_mov_x64_def fun_eq_iff encode_rr_def sz_def)
  note x = xinstr_rr [OF rr_instr_simps(8) sz(1) assms(2) [unfolded xenc_def] assms(2) [unfolded xenc_def]]
  have m: "merge_size (unat sz) old 0 = merge_size (xsz dst) old 0" for old
    unfolding sz(3) by (auto simp: merge_size_def)
  have l: "length (rr_bytes OP_XOR_RM_R sz (xreg_no a dst) (xreg_no a dst)) \<le> 10"
    using byte_lengths(1) by (rule le_trans) simp
  show ?thesis
    unfolding e xemitted_bytes [OF assms(1) l]
    using x64_run_one [OF x [unfolded rr_instr_simps] zero_xor [OF sz(2)]] True m
    by (simp add: wr_size_def res_flags_def)
qed

section \<open>An example state\<close>

definition ex_xst :: x64 where
  "ex_xst = x64_init (\<lambda>_. \<lparr>ctx_fn_name = ''f'', ctx_fn_named = True\<rparr>)"

definition ex_xmach :: xmachine where
  "ex_xmach = \<lparr>gpr = of_nat, xmem = (\<lambda>_. 0), zf = False, sf = False, cf = False, ovf = False\<rparr>"

lemma ex_x64 [simp]: "n \<le> 100 \<Longrightarrow> xroom n ex_xst" "gpr ex_xmach k = of_nat k" "xbody ex_xst = []"
  by (simp_all add: ex_xst_def x64_init_def xroom_def X_CODE_CAP_def ex_xmach_def)

lemma ex_xreg [simp]:
  "xreg_no elf_abi (ex_reg SCRATCH 0 n) = 0" "xreg_no elf_abi (ex_reg PARAM 1 n) = 6"
  "xreg_no elf_abi (ex_reg NREG 2 n) = 13" "xreg_no elf_abi (ex_reg NREG 0 n) = 3"
  "xreg_no elf_abi (ex_reg PARAM 0 n) = 7" "xreg_no elf_abi (ex_reg SCRATCH 1 n) = 1"
  "n \<noteq> 0 \<Longrightarrow> rsz (ex_reg t k n) = n"
  by (simp_all add: ex_reg_def reg0_def xreg_no_def elf_abi_def rsz_def)

lemma ex_xenc [simp]:
  "xenc elf_abi (ex_reg SCRATCH 0 n)" "xenc elf_abi (ex_reg PARAM 1 n)" "xenc elf_abi (ex_reg NREG 2 n)"
  "xenc elf_abi (ex_reg NREG 0 n)" "xenc elf_abi (ex_reg PARAM 0 n)" "xenc elf_abi (ex_reg SCRATCH 1 n)"
  by (simp_all add: xenc_def gp_def)

lemma ex_size_ok [simp]: "size_ok 1" "size_ok 2" "size_ok 4" "size_ok 8"
  by (simp_all add: size_ok_def)

lemma emit_mov_x64_value_witness:
  "\<exists>m'. x64_run (xemitted (emit_mov_x64 elf_abi (ex_reg NREG 2 4) (- 5)) ex_xst) ex_xmach = Some m'
    \<and> xmem m' = xmem ex_xmach \<and> gpr m' = (gpr ex_xmach)(13 := merge_size 4 13 (- 5))"
  using emit_mov_x64_value [of ex_xst elf_abi "ex_reg NREG 2 4" "- 5" ex_xmach] by simp

end
