(* ===== verification/X64_Values.thy ===== *)
theory X64_Values
  imports X64_Exec A64_Mem
begin

text \<open>
  The values the emitted x86-64 code computes: sums with a constant, memory accesses, comparisons and
  the conditions materialised from them, and the agreement of the two back ends.
\<close>

section \<open>Code as a function of the machine\<close>

definition xdoes :: "u8 list \<Rightarrow> (xmachine \<Rightarrow> xmachine option) \<Rightarrow> bool" where
  "xdoes bs f \<longleftrightarrow> (\<forall>m m1 rest m2. f m = Some m1 \<longrightarrow> x64_run rest m1 = Some m2 \<longrightarrow> x64_run (bs @ rest) m = Some m2)"

lemma xdoes_instr: "xinstr bs i \<Longrightarrow> xdoes bs (x64_exec i)"
  unfolding xdoes_def by (blast intro: x64_run_step)

lemma xdoes_run: "xdoes bs f \<Longrightarrow> f m = Some m1 \<Longrightarrow> x64_run bs m = Some m1"
  unfolding xdoes_def by (metis append_Nil2 x64_run_Nil)

lemma xdoes_append: "xdoes bs f \<Longrightarrow> xdoes cs g \<Longrightarrow> xdoes (bs @ cs) (\<lambda>m. Option.bind (f m) g)"
  unfolding xdoes_def by (auto simp: bind_eq_Some_conv)

lemma xdoes_two:
  "xdoes bs f \<Longrightarrow> xdoes cs g \<Longrightarrow> f m = Some m1 \<Longrightarrow> g m1 = Some m2 \<Longrightarrow> x64_run (bs @ cs) m = Some m2"
  by (rule xdoes_run [OF xdoes_append]) auto

section \<open>Address arithmetic\<close>

lemma sint_ucast_32: "word_of_int (sint (ucast (v :: u64) :: i32)) = signed_take_bit 31 v"
  by (intro word_eq_by_bits) (auto simp: bit_simps min_def)

lemma lea_run:
  assumes "xroom 9 st" and "size_ok sz" and "sz \<noteq> 1" and "mem_ok reg base index scale"
  shows "x64_run (xemitted (encode_mem OP_LEA sz reg base index scale disp) st) m
    = Some (wr_size (unat sz) (unat reg) (rm_addr m (mem_rm base index scale disp)) m)"
proof -
  have e: "encode_mem OP_LEA sz reg base index scale disp = puts (enc_mem_bytes OP_LEA sz reg base index scale disp)"
    by (simp add: fun_eq_iff encode_mem_def)
  have "\<not> (OP_LEA = OP_LEA \<and> sz = 1)" using assms(3) by simp
  note x = xinstr_mem [OF mem_instr_simps(4) assms(2,4) this, of disp]
  show ?thesis
    unfolding e xemitted_bytes [OF assms(1) byte_lengths(3)]
    by (rule x64_run_one [OF x]) (simp add: mem_instr_simps)
qed

definition seen32 :: "i64 \<Rightarrow> u64" where
  "seen32 r = signed_take_bit 31 r"

lemma signed_take_bit_iff_range:
  assumes "n < 63"
  shows "signed_take_bit n (w :: u64) = w \<longleftrightarrow> - (2 ^ n) \<le> sint w \<and> sint w < 2 ^ n"
proof -
  have "sint (signed_take_bit n w) = signed_take_bit n (sint w)"
    using assms by (intro bit_eqI) (auto simp: bit_simps min_def)
  then have "signed_take_bit n w = w \<longleftrightarrow> signed_take_bit n (sint w) = sint w"
    by (metis signed_word_eqI)
  then show ?thesis by (auto simp: signed_take_bit_int_eq_self_iff)
qed

lemma mem_okI: "xenc a r \<Longrightarrow> xenc a b \<Longrightarrow> mem_ok (xreg_no a r) (xreg_no a b) None 1"
  by (simp add: mem_ok_def xenc_def)

lemma rm_addr_disp: "rm_addr m (mem_rm b None 1 (ucast v)) = gpr m (unat b) + seen32 v"
  using sint_ucast_32 [of v] by (simp add: mem_rm_def seen32_def)

definition fits32 :: "i64 \<Rightarrow> bool" where
  "fits32 r \<longleftrightarrow> - 0x80000000 \<le> sint r \<and> sint r < 0x80000000"

lemma seen32_exact: "seen32 r = r \<longleftrightarrow> fits32 r"
  using signed_take_bit_iff_range [of 31 r] by (simp add: seen32_def fits32_def)

lemma take_seen32: "k \<le> 32 \<Longrightarrow> take_bit k (seen32 r) = take_bit k r"
  by (intro word_eq_by_bits) (auto simp: seen32_def bit_simps)

lemma wr_size_inject: "wr_size n k v m = wr_size n k w m \<longleftrightarrow> take_bit (8 * n) v = take_bit (8 * n) w"
proof
  assume "wr_size n k v m = wr_size n k w m"
  then have "gpr (wr_size n k v m) k = gpr (wr_size n k w m) k" by simp
  then show "take_bit (8 * n) v = take_bit (8 * n) w"
    using take_merge [of n "gpr m k" v] take_merge [of n "gpr m k" w] by (simp add: wr_size_def)
next
  assume "take_bit (8 * n) v = take_bit (8 * n) w"
  then have "merge_size n (gpr m k) v = merge_size n (gpr m k) w" by (rule merge_cong)
  then show "wr_size n k v m = wr_size n k w m" by (simp add: wr_size_def)
qed

lemma disp_exact:
  assumes "n \<in> {2, 4, 8}"
  shows "wr_size n k (b + seen32 r) m = wr_size n k (b + r) m \<longleftrightarrow> n < 8 \<or> fits32 r"
proof (cases "n = 8")
  case True
  have "take_bit 64 w = w" for w :: u64 by (intro word_eq_by_bits) (simp add: bit_simps)
  then show ?thesis using True by (simp add: wr_size_inject seen32_exact)
next
  case False
  then have "8 * n \<le> 32" using assms by auto
  then show ?thesis
    using False assms take_bit_word_add(2) [of "8 * n" b "seen32 r"] take_bit_word_add(2) [of "8 * n" b r]
    by (auto simp: wr_size_inject take_seen32)
qed

text \<open>
  C16. Adding a constant to a register, or subtracting it, with the address instruction, into a destination of two, four
  or eight bytes: the code writes the exact sum and touches neither the flags nor memory exactly when the destination has
  two or four bytes or the constant fits thirty-two signed bits, and the exact difference exactly when the
  destination has two or four bytes or the negation of the constant fits. Otherwise it computes something else silently.
  (A destination of one byte gets another instruction and is not covered.)
\<close>

theorem emit_add_sub_x64_exact:
  assumes "xroom 9 st" and "xenc a dst" and "xenc a lhs" and "rsz dst \<in> {2, 4, 8}"
  shows "(x64_run (xemitted (emit_add_x64 a dst lhs r) st) m
        = Some (wr_size (xsz dst) (xrno a dst) (gpr m (xrno a lhs) + r) m) \<longleftrightarrow> xsz dst < 8 \<or> fits32 r)
    \<and> (x64_run (xemitted (emit_sub_x64 a dst lhs r) st) m
        = Some (wr_size (xsz dst) (xrno a dst) (gpr m (xrno a lhs) - r) m) \<longleftrightarrow> xsz dst < 8 \<or> fits32 (- r))"
proof -
  have "size_ok (rsz dst)" "rsz dst \<noteq> 1" "xsz dst \<in> {2, 4, 8}"
    using assms(4) by (auto simp: size_ok_def)
  note run = lea_run [OF assms(1) this(1,2) mem_okI [OF assms(2,3)]] and n = this(3)
  have e: "emit_add_x64 a dst lhs r = encode_mem OP_LEA (rsz dst) (xreg_no a dst) (xreg_no a lhs) None 1 (ucast r)"
    "emit_sub_x64 a dst lhs r = encode_mem OP_LEA (rsz dst) (xreg_no a dst) (xreg_no a lhs) None 1 (ucast (- r))"
    by (simp_all add: fun_eq_iff emit_add_x64_def emit_sub_x64_def)
  show ?thesis
    unfolding e run rm_addr_disp option.inject disp_exact [OF n]
    using disp_exact [OF n, of "xrno a dst" "gpr m (xrno a lhs)" "- r" m] by simp
qed

lemma emit_add_sub_x64_exact_witness:
  "x64_run (xemitted (emit_add_x64 elf_abi (ex_reg NREG 2 8) (ex_reg PARAM 1 8) 0x80000000) ex_xst) ex_xmach
    \<noteq> Some (wr_size 8 13 (6 + 0x80000000) ex_xmach)"
  using emit_add_sub_x64_exact [of ex_xst elf_abi "ex_reg NREG 2 8" "ex_reg PARAM 1 8",
      where r = "0x80000000" and m = ex_xmach]
  by (simp add: fits32_def)

section \<open>Through memory and back\<close>

lemma xexec_fun:
  "x64_exec (MovRmR n d r) = (\<lambda>m. Some (wr_rm n d (rd_size n m r) m))"
  "x64_exec (MovRRm n r s) = (\<lambda>m. Some (wr_size n r (rd_rm n m s) m))"
  "x64_exec (Lea n r s) = (\<lambda>m. Some (wr_size n r (rm_addr m s) m))"
  "x64_exec (AluRmR op n d r) = (\<lambda>m. alu op n d (rd_size n m r) m)"
  "x64_exec (AluRmI op n d i) = (\<lambda>m. alu op n d (take_bit (8 * n) (word_of_int i)) m)"
  "x64_exec (SetCc k d) = (\<lambda>m. Some (wr_rm 1 d (if cc_holds k m then 1 else 0) m))"
  "x64_exec (MovZx n k r s) = (\<lambda>m. Some (wr_size n r (rd_rm k m s) m))"
  by (simp_all add: fun_eq_iff)

lemma mem_access_does:
  assumes "xroom 9 st" and "size_ok (rsz v)" and "xenc a v" and "xenc a base"
  shows "xdoes (xemitted (emit_str_reg_x64 a base v off) st) (\<lambda>m.
      Some (m\<lparr>xmem := mem_write (xmem m) (gpr m (xrno a base) + scast off) (xsz v)
                   (rd_size (xsz v) m (xrno a v))\<rparr>))"
    and "xdoes (xemitted (emit_ldr_x64 a v base off) st) (\<lambda>m.
      Some (wr_size (xsz v) (xrno a v)
          (mem_read (xmem m) (gpr m (xrno a base) + scast off) (xsz v)) m))"
proof -
  have e: "emit_str_reg_x64 a base v off = puts (enc_mem_bytes OP_MOV_RM_R (rsz v) (xreg_no a v) (xreg_no a base) None 1 off)"
    "emit_ldr_x64 a v base off = puts (enc_mem_bytes OP_MOV_R_RM (rsz v) (xreg_no a v) (xreg_no a base) None 1 off)"
    by (simp_all add: fun_eq_iff emit_str_reg_x64_def emit_ldr_x64_def encode_mem_def)
  have ne: "\<not> (OP_MOV_RM_R = OP_LEA \<and> rsz v = 1)" "\<not> (OP_MOV_R_RM = OP_LEA \<and> rsz v = 1)"
    by (simp_all add: x64_ops)
  note x = xdoes_instr [OF xinstr_mem [OF mem_instr_simps(5) assms(2) mem_okI [OF assms(3,4)] ne(1), of off]]
    xdoes_instr [OF xinstr_mem [OF mem_instr_simps(6) assms(2) mem_okI [OF assms(3,4)] ne(2), of off]]
  show "xdoes (xemitted (emit_str_reg_x64 a base v off) st) (\<lambda>m.
      Some (m\<lparr>xmem := mem_write (xmem m) (gpr m (xrno a base) + scast off) (xsz v)
                   (rd_size (xsz v) m (xrno a v))\<rparr>))"
    unfolding e xemitted_bytes [OF assms(1) byte_lengths(3)]
    using x(1) by (simp add: mem_instr_simps mem_rm_def xexec_fun)
  show "xdoes (xemitted (emit_ldr_x64 a v base off) st) (\<lambda>m.
      Some (wr_size (xsz v) (xrno a v)
          (mem_read (xmem m) (gpr m (xrno a base) + scast off) (xsz v)) m))"
    unfolding e xemitted_bytes [OF assms(1) byte_lengths(3)]
    using x(2) by (simp add: mem_instr_simps mem_rm_def xexec_fun)
qed

lemma size_ok_le: "size_ok sz \<Longrightarrow> unat sz \<le> 8"
  by (auto simp: size_ok_def)

text \<open>
  C21. Storing a register of one, two, four or eight bytes and loading it back from the same base and
  displacement, whatever the displacement, gives the register its own value (the upper half of a
  four-byte one is cleared by the load) and changes no other register; with another register as the
  target the load gives it the stored bytes and an x86 partial write.
\<close>

theorem store_load_x64_roundtrip:
  assumes "xroom 9 st" and "size_ok (rsz v)" and "rsz w = rsz v" and "xenc a v" and "xenc a w" and "xenc a base"
  shows "\<exists>mem. x64_run (xemitted (emit_str_reg_x64 a base v off) st @ xemitted (emit_ldr_x64 a w base off) st) m
    = Some (wr_size (xsz v) (xrno a w) (gpr m (xrno a v)) (m\<lparr>xmem := mem\<rparr>))"
proof -
  note s = mem_access_does(1) [OF assms(1,2,4,6), of off]
    and l = mem_access_does(2) [OF assms(1) _ assms(5,6), unfolded assms(3), OF assms(2), of off]
  define b where "b = gpr m (xrno a base) + scast off"
  define mem where "mem = mem_write (xmem m) b (xsz v) (rd_size (xsz v) m (xrno a v))"
  have "mem_read mem b (xsz v) = take_bit (8 * xsz v) (gpr m (xrno a v))"
    unfolding mem_def using mem_read_write_same [OF size_ok_le [OF assms(2)]] by (simp add: rd_size_def)
  then show ?thesis
    using xdoes_two [OF s l refl refl, of m] merge_take
    by (intro exI [of _ mem]) (simp add: b_def [symmetric] mem_def [symmetric] wr_size_def)
qed

lemma store_load_x64_roundtrip_witness:
  "\<exists>mem. x64_run (xemitted (emit_str_reg_x64 elf_abi (ex_reg NREG 2 8) (ex_reg PARAM 1 1) (- 200)) ex_xst
      @ xemitted (emit_ldr_x64 elf_abi (ex_reg NREG 0 1) (ex_reg NREG 2 8) (- 200)) ex_xst) ex_xmach
    = Some (wr_size 1 3 6 (ex_xmach\<lparr>xmem := mem\<rparr>))"
  using store_load_x64_roundtrip [of ex_xst "ex_reg PARAM 1 1" "ex_reg NREG 0 1" elf_abi "ex_reg NREG 2 8" "- 200" ex_xmach]
  by simp

section \<open>Comparisons\<close>

text \<open>What a condition says of two values compared at a size of \<open>n\<close> bytes.\<close>

definition cond_value :: "nat \<Rightarrow> cond \<Rightarrow> u64 \<Rightarrow> u64 \<Rightarrow> bool" where
  "cond_value n c x y =
    (let ux = take_bit (8 * n) x; uy = take_bit (8 * n) y; sx = sgn_of n x; sy = sgn_of n y; d = sgn_of n (x - y) in
     case c of
       COND_EQ \<Rightarrow> ux = uy | COND_NE \<Rightarrow> ux \<noteq> uy | COND_HS \<Rightarrow> uy \<le> ux | COND_LO \<Rightarrow> ux < uy
     | COND_MI \<Rightarrow> d < 0 | COND_PL \<Rightarrow> 0 \<le> d | COND_VS \<Rightarrow> d \<noteq> sx - sy | COND_VC \<Rightarrow> d = sx - sy
     | COND_HI \<Rightarrow> uy < ux | COND_LS \<Rightarrow> ux \<le> uy | COND_GE \<Rightarrow> sy \<le> sx | COND_LT \<Rightarrow> sx < sy
     | COND_GT \<Rightarrow> sy < sx | COND_LE \<Rightarrow> sx \<le> sy | COND_AL \<Rightarrow> True | COND_NV \<Rightarrow> True)"

lemma overflow_order:
  fixes x y d k :: int
  assumes "- k \<le> x" "x < k" "- k \<le> y" "y < k" "- k \<le> d" "d < k" and "(2 * k) dvd (d - (x - y))"
  shows "(d < 0) = (d \<noteq> x - y) \<longleftrightarrow> y \<le> x"
proof -
  obtain q where q: "d - (x - y) = 2 * k * q" using assms(7) by (elim dvdE)
  have "0 < k" using assms(1,2) by linarith
  have "q = 0 \<or> q = 1 \<or> q = - 1"
  proof (rule ccontr)
    assume "\<not> ?thesis"
    then have "2 \<le> q \<or> q \<le> - 2" by linarith
    then have "2 * k * 2 \<le> 2 * k * q \<or> 2 * k * q \<le> 2 * k * (- 2)"
      using \<open>0 < k\<close> mult_left_mono [of 2 q "2 * k"] mult_left_mono [of q "- 2" "2 * k"] by auto
    then show False using q assms by linarith
  qed
  then show ?thesis using q assms \<open>0 < k\<close> by auto
qed

lemma sgn_of_int:
  assumes "n \<in> {1, 2, 4, 8}"
  shows "sgn_of n v = signed_take_bit (8 * n - 1) (sint v)"
  unfolding sgn_of_def using assms by (intro bit_eqI) (auto simp: bit_simps min_def)

lemma sgn_of_bounds:
  assumes "n \<in> {1, 2, 4, 8}"
  shows "- (2 ^ (8 * n - 1)) \<le> sgn_of n v" and "sgn_of n v < 2 ^ (8 * n - 1)"
    and "sgn_of n v < 0 \<longleftrightarrow> bit v (8 * n - 1)"
proof -
  have "8 * n - 1 < 64" using assms by auto
  then show "sgn_of n v < 0 \<longleftrightarrow> bit v (8 * n - 1)"
    unfolding sgn_of_int [OF assms] signed_take_bit_negative_iff by (simp add: bit_simps)
qed (simp_all add: sgn_of_int [OF assms] signed_take_bit_int_greater_eq_minus_exp signed_take_bit_int_less_exp)

lemma signed_take_dvd: "2 ^ Suc k dvd signed_take_bit k a - (a :: int)"
proof -
  have "take_bit (Suc k) (signed_take_bit k a) = take_bit (Suc k) a"
    by (simp add: take_bit_signed_take_bit)
  then show ?thesis by (simp add: take_bit_eq_mod mod_eq_dvd_iff)
qed

lemma sint_diff_dvd: "2 ^ 64 dvd sint (x - y :: u64) - (sint x - sint y)"
  using signed_take_dvd [of 63 "sint x - sint y"] by (simp add: sint_word_ariths)

lemma sgn_of_diff_dvd:
  assumes "n \<in> {1, 2, 4, 8}"
  shows "2 * 2 ^ (8 * n - 1) dvd sgn_of n (x - y) - (sgn_of n x - sgn_of n y)"
proof -
  define k where "k = 8 * n - 1"
  define p :: int where "p = 2 ^ Suc k"
  have k: "2 * 2 ^ (8 * n - 1) = p" by (simp add: k_def p_def)
  have "p dvd 2 ^ 64" unfolding p_def using assms by (intro le_imp_power_dvd) (auto simp: k_def)
  then have a: "p dvd sint (x - y) - (sint x - sint y)" using sint_diff_dvd dvd_trans by blast
  have b: "p dvd sgn_of n v - sint v" for v
    unfolding sgn_of_int [OF assms] p_def k_def by (rule signed_take_dvd)
  have "sgn_of n (x - y) - (sgn_of n x - sgn_of n y) = (sgn_of n (x - y) - sint (x - y))
      + (sint (x - y) - (sint x - sint y)) - (sgn_of n x - sint x) + (sgn_of n y - sint y)" by simp
  then show ?thesis unfolding k using a b by (metis dvd_add dvd_diff)
qed

lemma sgn_of_order:
  assumes "n \<in> {1, 2, 4, 8}"
  shows "(sgn_of n (x - y) < 0) = (sgn_of n (x - y) \<noteq> sgn_of n x - sgn_of n y) \<longleftrightarrow> sgn_of n y \<le> sgn_of n x"
  by (rule overflow_order [OF sgn_of_bounds(1,2) [OF assms] sgn_of_bounds(1,2) [OF assms]
        sgn_of_bounds(1,2) [OF assms] sgn_of_diff_dvd [OF assms]])

lemma take_diff_0: "take_bit k (x - y :: u64) = 0 \<longleftrightarrow> take_bit k x = take_bit k y"
proof
  assume "take_bit k (x - y) = 0"
  then have "take_bit k (take_bit k (x - y) + y) = take_bit k (0 + y)" by simp
  then show "take_bit k x = take_bit k y" unfolding take_bit_word_add by simp
next
  assume "take_bit k x = take_bit k y"
  then have "take_bit k (take_bit k x - take_bit k y) = 0" by simp
  then show "take_bit k (x - y) = 0" unfolding take_bit_word_add .
qed

lemma sgn_of_eq:
  assumes "n \<in> {1, 2, 4, 8}"
  shows "sgn_of n x = sgn_of n y \<longleftrightarrow> take_bit (8 * n) x = take_bit (8 * n) y"
proof -
  define k where "k = 8 * n - 1"
  have k: "8 * n = Suc k" "k < 64" using assms by (auto simp: k_def)
  have "signed_take_bit k x = signed_take_bit k y \<longleftrightarrow> take_bit (Suc k) x = take_bit (Suc k) y"
    by (rule signed_take_bit_eq_iff_take_bit_eq)
  then show ?thesis unfolding sgn_of_def k_def [symmetric] k(1) by (auto dest: signed_word_eqI)
qed

lemma cc_value:
  assumes "n \<in> {1, 2, 4, 8}" and "cond_no c < 14"
  shows "cc_holds (unat (cond_cc ! cond_no c)) (sub_flags_of n x y m) = cond_value n c x y"
proof -
  note o' = sgn_of_order [OF assms(1), of x y] sgn_of_bounds(3) [OF assms(1), of "x - y"] sgn_of_eq [OF assms(1), of x y]
  show ?thesis
    using assms(2) o'
    by (cases c) (auto simp: cond_cc_def cc_holds_def cc_base_def sub_flags_of_def res_flags_def cond_value_def
        take_diff_0 Let_def)
qed

text \<open>The conditions of the AArch64 flags are the same ones.\<close>

lemma sgn_of_8: "sgn_of 8 x = sint x"
proof -
  have "signed_take_bit 63 x = x"
  proof (intro word_eq_by_bits)
    fix i :: nat
    assume "i < LENGTH(64)"
    then consider "i < 63" | "i = 63" by fastforce
    then show "bit (signed_take_bit 63 x) i = bit x i" by cases (simp_all add: bit_simps min_def)
  qed
  then show ?thesis by (simp add: sgn_of_def)
qed

lemma sgn_of_4: "sgn_of 4 x = sint (ucast x :: u32)"
  unfolding sgn_of_def by (intro bit_eqI) (auto simp: bit_simps min_def)

lemma ucast_32_eq: "(ucast x :: u32) = ucast y \<longleftrightarrow> take_bit 32 x = take_bit 32 (y :: u64)"
  by (simp add: word_unat_eq_iff unsigned_ucast_eq unsigned_take_bit_eq)

lemma ucast_32_le: "(ucast x :: u32) \<le> ucast y \<longleftrightarrow> take_bit 32 x \<le> take_bit 32 (y :: u64)"
  by (simp add: word_le_nat_alt unsigned_ucast_eq unsigned_take_bit_eq)

lemma uint_diff_take: "uint (x - y :: u64) = take_bit 64 (uint x - uint y)"
proof -
  have "x - y = word_of_int (uint x - uint y)" unfolding wi_hom_sub [symmetric] word_of_int_uint ..
  then show ?thesis using uint_word_of_int_eq [of "uint x - uint y", where 'a = 64] by simp
qed

lemma ucast_32_diff: "(ucast x :: u32) - ucast y = ucast (x - y :: u64)"
proof -
  have "(ucast x :: u32) - ucast y = word_of_int (uint x - uint y)"
    unfolding ucast_eq by (rule wi_hom_sub)
  also have "\<dots> = word_of_int (take_bit 64 (uint x - uint y))"
    by (rule bit_word_eqI) (simp only: bit_word_of_int_iff bit_take_bit_iff, simp)
  also have "take_bit 64 (uint x - uint y) = uint (x - y)"
    unfolding uint_diff_take ..
  finally show ?thesis unfolding ucast_eq .
qed

lemma arith_flags_value:
  "arith_flags w True x y = (let n = (if w then 8 else 4) in
     (sgn_of n (x - y) < 0, take_bit (8 * n) x = take_bit (8 * n) y, take_bit (8 * n) y \<le> take_bit (8 * n) x,
      sgn_of n (x - y) \<noteq> sgn_of n x - sgn_of n y))"
proof (cases w)
  case True
  then show ?thesis
    using sgn_of_bounds(3) [of 8 "x - y"] by (simp add: arith_flags_def sub_flags_def sgn_of_8 take_64)
next
  case False
  have "bit (ucast (x - y) :: u32) 31 \<longleftrightarrow> bit (x - y) 31" by (simp add: bit_simps)
  then show ?thesis
    using False sgn_of_bounds(3) [of 4 "x - y"]
    by (simp add: arith_flags_def sub_flags_def sgn_of_4 ucast_32_eq ucast_32_le ucast_32_diff)
qed

lemma a64_cond_value:
  assumes "cond_no c < 14"
  shows "cond_holds (cond_no c) (arith_flags w True x y) = cond_value (if w then 8 else 4) c x y"
proof -
  define n :: nat where "n = (if w then 8 else 4)"
  have "n \<in> {1, 2, 4, 8}" by (simp add: n_def)
  note o' = sgn_of_order [OF this, of x y] sgn_of_eq [OF this, of x y]
  show ?thesis
    unfolding arith_flags_value Let_def n_def [symmetric]
    using assms o' by (cases c) (auto simp: cond_value_def Let_def)
qed
section \<open>Two-byte opcodes\<close>

lemma decode_0f_prefix:
  "x64_decode (p66 sz @ rex_bytes (rex_bits w r x b) force @ OP_0F # rest)
    = decode_0f (sz = 2) (rex_rec force w r x b) rest"
proof -
  have "OP_0F \<noteq> 0x66" "drop_bit 4 OP_0F \<noteq> 4" by (simp_all add: x64_ops)
  then show ?thesis by (simp add: decode_prefix decode_op_def OP_0F_def)
qed

lemma setcc_fields:
  "drop_bit 4 (OP_SETCC + cond_cc ! cond_no c) = 9" "unat ((OP_SETCC + cond_cc ! cond_no c) AND 0xf) = unat (cond_cc ! cond_no c)"
  if "cond_no c < 14"
  using that by (cases c; simp add: cond_cc_def OP_SETCC_def)+

definition setcc_bytes :: "cond \<Rightarrow> u32 \<Rightarrow> u8 list" where
  "setcc_bytes c r = rex_bytes (rex_bits False False False (8 \<le> r)) (legacy8 r)
     @ [OP_0F, OP_SETCC + cond_cc ! cond_no c, ucast (0xc0 OR (r AND 7))]"

lemma setcc_decodes:
  assumes "cond_no c < 14" and "gp r"
  shows "xinstr (setcc_bytes c r) (SetCc (unat (cond_cc ! cond_no c)) (RReg (unat r)))"
proof (rule xinstrI)
  fix rest
  define p where "p = rex_rec (legacy8 r) False False False (8 \<le> r)"
  have "modrm 0 r = ucast (0xc0 OR (r AND 7))" by (simp add: modrm_def)
  then have rm: "decode_rm p (ucast (0xc0 OR (r AND 7)) # rest) = Some (0, RReg (unat r), rest)"
    using decode_rm_reg [of 0 r p rest] assms(2) by (simp add: p_def gp_def)
  have ok: "byte_ok p (unat r)"
    by (auto simp: p_def byte_ok_def legacy_unat word_le_nat_alt)
  show "x64_decode (setcc_bytes c r @ rest) = Some (SetCc (unat (cond_cc ! cond_no c)) (RReg (unat r)), rest)"
    using decode_0f_prefix [of 1 False False False "8 \<le> r" "legacy8 r"
        "(OP_SETCC + cond_cc ! cond_no c) # ucast (0xc0 OR (r AND 7)) # rest"]
    by (simp add: setcc_bytes_def p66_def decode_0f_def setcc_fields [OF assms(1)] rm [unfolded p_def] ok [unfolded p_def])
qed (simp add: setcc_bytes_def)

lemma extend_decodes:
  assumes "dsz \<in> {2, 4, 8}" and "ssz \<in> {1, 2}" and "gp d" and "gp s"
  shows "xinstr (extend_bytes OP_MOVZX_8 OP_MOVZX_16 dsz ssz d s) (MovZx (unat dsz) (unat ssz) (unat d) (RReg (unat s)))"
    and "xinstr (extend_bytes OP_MOVSX_8 OP_MOVSX_16 dsz ssz d s) (MovSx (unat dsz) (unat ssz) (unat d) (RReg (unat s)))"
proof -
  define p where "p = rex_rec (ssz = 1 \<and> legacy8 s) (dsz = 8) (8 \<le> d) False (8 \<le> s)"
  have rm: "decode_rm p (modrm d s # rest) = Some (unat d, RReg (unat s), rest)" for rest
    using assms(3,4) by (rule decode_rm_reg) (simp_all add: p_def)
  have ok: "ssz = 1 \<longrightarrow> rm_ok p (RReg (unat s))"
    by (auto simp: p_def byte_ok_def legacy_unat word_le_nat_alt)
  have n: "(if rex_w p then 8 else if dsz = 2 then 2 else 4) = unat dsz"
    using assms(1) by (auto simp: p_def)
  have d: "decode_0f (dsz = 2) p ((if ssz = 1 then OP_MOVZX_8 else OP_MOVZX_16) # modrm d s # rest)
      = Some (MovZx (unat dsz) (unat ssz) (unat d) (RReg (unat s)), rest)"
    "decode_0f (dsz = 2) p ((if ssz = 1 then OP_MOVSX_8 else OP_MOVSX_16) # modrm d s # rest)
      = Some (MovSx (unat dsz) (unat ssz) (unat d) (RReg (unat s)), rest)" for rest
    using assms(2) ok by (auto simp: decode_0f_def rm x64_ops Let_def n [symmetric])
  show "xinstr (extend_bytes OP_MOVZX_8 OP_MOVZX_16 dsz ssz d s) (MovZx (unat dsz) (unat ssz) (unat d) (RReg (unat s)))"
    "xinstr (extend_bytes OP_MOVSX_8 OP_MOVSX_16 dsz ssz d s) (MovSx (unat dsz) (unat ssz) (unat d) (RReg (unat s)))"
    unfolding xinstr_def extend_bytes_def append_assoc append_Cons append_Nil decode_0f_prefix
    using d unfolding p_def by simp_all
qed

section \<open>Conditions materialised\<close>

lemma merge_nest: "n \<in> {1, 2, 4, 8} \<Longrightarrow> merge_size n (merge_size 1 old v) w = merge_size n old w"
  by (auto simp: merge_size_def bit_simps intro!: word_eq_by_bits)

definition wide_set :: "reg \<Rightarrow> u8" where
  "wide_set dst = (if r_rsize dst \<le> 1 then 4 else r_rsize dst)"

lemma cond_set_bytes:
  assumes "cond_no c < 14"
  shows "emit_cond_set_x64 a ts dst c = puts (setcc_bytes c (xreg_no a dst)
    @ extend_bytes OP_MOVZX_8 OP_MOVZX_16 (wide_set dst) 1 (xreg_no a dst) (xreg_no a dst))"
proof -
  have b: "base_type ts (r_dtype (dst\<lparr>r_rsize := 1, r_dtype := dtype0\<rparr>)) = None"
    by (simp add: base_type_def dtype0_def)
  have x: "xreg_no a (dst\<lparr>r_rsize := n\<rparr>) = xreg_no a dst" "xreg_no a (dst\<lparr>r_rsize := n, r_dtype := t\<rparr>) = xreg_no a dst" for n t
    by (simp_all add: xreg_no_def split: register_dst.split)
  have "\<not> length cond_cc \<le> cond_no c" using assms by (simp add: cond_cc_def)
  moreover have "1 < r_rsize dst" if "\<not> r_rsize dst \<le> 1" using that by simp
  moreover have "r_rsize dst \<noteq> 0" if "\<not> r_rsize dst \<le> 1" using that by auto
  ultimately show ?thesis
    by (auto simp: fun_eq_iff emit_cond_set_x64_def emit_mov_reg_x64_def Let_def wide_set_def x puts_append
        setcc_bytes_def base_type_def dtype0_def)
qed

lemma cond_set_does:
  assumes "xroom 10 st" and "cond_no c < 14" and "xenc a dst" and "wide_set dst \<in> {2, 4, 8}"
  shows "xdoes (xemitted (emit_cond_set_x64 a ts dst c) st) (\<lambda>m.
    Some (wr_size (unat (wide_set dst)) (xrno a dst) (if cc_holds (unat (cond_cc ! cond_no c)) m then 1 else 0) m))"
proof -
  let ?bs = "setcc_bytes c (xreg_no a dst)"
  let ?cs = "extend_bytes OP_MOVZX_8 OP_MOVZX_16 (wide_set dst) 1 (xreg_no a dst) (xreg_no a dst)"
  have l: "length (?bs @ ?cs) \<le> 10"
    by (simp add: setcc_bytes_def extend_bytes_def rex_bytes_def p66_def)
  have gp: "gp (xreg_no a dst)" using assms(3) by (simp add: xenc_def)
  note d = xdoes_append [OF xdoes_instr [OF setcc_decodes [OF assms(2) gp]]
      xdoes_instr [OF extend_decodes(1) [OF assms(4) _ gp gp, of 1]]]
  have n: "unat (wide_set dst) \<in> {1, 2, 4, 8}" using assms(4) by auto
  have t: "take_bit 8 (merge_size 1 old v) = take_bit 8 v" for old v
    using take_merge [of 1 old v] by simp
  have b: "take_bit 8 (if e then 1 else 0 :: u64) = (if e then 1 else 0)" for e by simp
  show ?thesis
    unfolding cond_set_bytes [OF assms(2)] xemitted_bytes [OF assms(1) l]
    using d n by (simp add: xexec_fun wr_size_def rd_size_def t b merge_nest del: One_nat_def)
qed

lemma cmp_reg_does:
  assumes "xroom 4 st" and "xenc a lhs" and "xenc a rhs" and "size_ok (rsz lhs)" and "r_rsize lhs = r_rsize rhs"
  shows "xdoes (xemitted (emit_cmp_reg_x64 a ts lhs rhs c) st)
    (\<lambda>m. Some (sub_flags_of (xsz lhs) (rd_size (xsz lhs) m (xrno a lhs)) (rd_size (xsz lhs) m (xrno a rhs)) m))"
proof -
  have e: "emit_cmp_reg_x64 a ts lhs rhs c = puts (rr_bytes OP_CMP_RM_R (rsz lhs) (xreg_no a rhs) (xreg_no a lhs))"
    using assms(5) by (simp add: fun_eq_iff emit_cmp_reg_x64_def alu_rr_def encode_rr_def)
  note x = xdoes_instr [OF xinstr_rr [OF rr_instr_simps(11) assms(4) assms(3,2) [unfolded xenc_def]]]
  show ?thesis
    unfolding e xemitted_bytes [OF assms(1) byte_lengths(1)]
    using x by (simp add: rr_instr_simps xexec_fun alu_def)
qed

lemma take_take_8: "take_bit k (take_bit k v) = take_bit k (v :: u64)"
  by simp

lemma cond_value_take:
  assumes "n \<in> {1, 2, 4, 8}"
  shows "cond_value n c (take_bit (8 * n) x) (take_bit (8 * n) y) = cond_value n c x y"
proof -
  have s: "sgn_of n v = sgn_of n w" if "take_bit (8 * n) v = take_bit (8 * n) w" for v w
    using that sgn_of_eq [OF assms] by blast
  have "sgn_of n (take_bit (8 * n) v) = sgn_of n v" for v by (rule s) simp
  moreover have "sgn_of n (take_bit (8 * n) x - take_bit (8 * n) y) = sgn_of n (x - y)"
    by (rule s) (simp add: take_bit_word_add)
  ultimately show ?thesis by (simp add: cond_value_def)
qed

lemma sub_flags_frame [simp]: "gpr (sub_flags_of n x y m) = gpr m" "xmem (sub_flags_of n x y m) = xmem m"
  by (simp_all add: sub_flags_of_def res_flags_def)

lemma compare_set_run:
  assumes "xroom 10 st" and "xenc a lhs" and "xenc a rhs" and "xenc a dst" and "size_ok (rsz lhs)"
    and "r_rsize lhs = r_rsize rhs" and "wide_set dst \<in> {2, 4, 8}" and "cond_no c < 14"
  shows "\<exists>m'. x64_run (xemitted (emit_cmp_reg_x64 a ts lhs rhs c) st @ xemitted (emit_cond_set_x64 a ts dst c) st) m = Some m'
    \<and> xmem m' = xmem m
    \<and> gpr m' = (gpr m)(xrno a dst := merge_size (unat (wide_set dst)) (gpr m (xrno a dst))
        (if cond_value (xsz lhs) c (gpr m (xrno a lhs)) (gpr m (xrno a rhs)) then 1 else 0))"
proof -
  have n: "xsz lhs \<in> {1, 2, 4, 8}" using size_cases [OF assms(5)] .
  have "xroom 4 st" using assms(1) by (simp add: xroom_def)
  note cmp = cmp_reg_does [OF this assms(2,3,5,6), of ts c]
  note d = xdoes_two [OF cmp cond_set_does [OF assms(1,8,4,7), of ts] refl refl, of m]
  show ?thesis
    using d by (simp add: cc_value [OF n assms(8)] rd_size_def cond_value_take [OF n] wr_size_def)
qed

text \<open>
  C10. A comparison of two registers of the same size followed by the materialisation of a condition
  leaves 1 or 0 by what the condition says of the two values at that size: equality, the unsigned and
  the signed order, and the sign and the overflow of the difference, for all fourteen conditions and
  all sizes. Only the destination and the flags change, even when it is one of the operands.
\<close>

theorem compare_set_x64_value:
  assumes "xroom 10 st" and "xenc a lhs" and "xenc a rhs" and "xenc a dst" and "size_ok (rsz lhs)"
    and "r_rsize lhs = r_rsize rhs" and "wide_set dst \<in> {2, 4, 8}" and "cond_no c < 14"
  shows "\<exists>m'. x64_run (xemitted (emit_cmp_reg_x64 a ts lhs rhs c) st @ xemitted (emit_cond_set_x64 a ts dst c) st) m = Some m'
    \<and> xmem m' = xmem m
    \<and> gpr m' = (gpr m)(xrno a dst := merge_size (unat (wide_set dst)) (gpr m (xrno a dst))
        (if cond_value (xsz lhs) c (gpr m (xrno a lhs)) (gpr m (xrno a rhs)) then 1 else 0))"
  using assms by (rule compare_set_run)

lemma wide_set_4 [simp]: "r_rsize r = 4 \<Longrightarrow> wide_set r = 4"
  by (simp add: wide_set_def word_le_nat_alt)

lemma compare_set_x64_value_witness:
  "\<exists>m'. x64_run (xemitted (emit_cmp_reg_x64 elf_abi ex_ts (ex_reg PARAM 0 1) (ex_reg PARAM 1 1) COND_HI) ex_xst
      @ xemitted (emit_cond_set_x64 elf_abi ex_ts (ex_reg PARAM 1 4) COND_HI) ex_xst) ex_xmach = Some m'
    \<and> xmem m' = xmem ex_xmach \<and> gpr m' = (gpr ex_xmach)(6 := merge_size 4 6 1)"
proof -
  have "cond_value 1 COND_HI 7 6" by (simp add: cond_value_def)
  then show ?thesis
    using compare_set_x64_value [of ex_xst elf_abi "ex_reg PARAM 0 1" "ex_reg PARAM 1 1" "ex_reg PARAM 1 4" COND_HI ex_ts ex_xmach]
    by simp
qed

section \<open>Differences\<close>

lemma mov_rr_does:
  assumes "size_ok sz" and "gp s" and "gp d"
  shows "xdoes (rr_bytes OP_MOV_RM_R sz s d) (\<lambda>m. Some (wr_size (unat sz) (unat d) (gpr m (unat s)) m))"
    and "xdoes (rr_bytes OP_SUB_RM_R sz s d) (\<lambda>m. Some (wr_size (unat sz) (unat d)
          (rd_size (unat sz) m (unat d) - rd_size (unat sz) m (unat s))
          (sub_flags_of (unat sz) (rd_size (unat sz) m (unat d)) (rd_size (unat sz) m (unat s)) m)))"
  using xdoes_instr [OF xinstr_rr [OF rr_instr_simps(7) assms]] xdoes_instr [OF xinstr_rr [OF rr_instr_simps(9) assms]]
  by (simp_all add: rr_instr_simps xexec_fun alu_def wr_size_def rd_size_def merge_take Let_def)

text \<open>
  C35. The difference of two registers of the same size is computed exactly unless the destination is
  the register of the right operand (and not of the left one): the left operand is moved over it
  first, and the result is then zero whatever the operands. (For operands of different sizes nothing is claimed; there
  the destination must not be the wider one.)
\<close>

theorem emit_sub_reg_x64_value:
  assumes "xroom 8 st" and "xenc a dst" and "xenc a lhs" and "xenc a rhs" and "size_ok (rsz dst)"
    and "r_rsize lhs = r_rsize rhs"
  shows "\<exists>m'. x64_run (xemitted (emit_sub_reg_x64 a ts dst lhs rhs) st) m = Some m' \<and> xmem m' = xmem m
    \<and> gpr m' = (gpr m)(xrno a dst := merge_size (xsz dst) (gpr m (xrno a dst))
        (if xrno a dst = xrno a rhs then 0 else gpr m (xrno a lhs) - gpr m (xrno a rhs)))"
proof -
  let ?b = "rr_bytes OP_MOV_RM_R (rsz dst) (xreg_no a lhs) (xreg_no a dst)"
  let ?c = "rr_bytes OP_SUB_RM_R (rsz dst) (xreg_no a rhs) (xreg_no a dst)"
  have e: "emit_sub_reg_x64 a ts dst lhs rhs = puts (?b @ ?c)"
    using assms(6) by (simp add: fun_eq_iff emit_sub_reg_x64_def alu_rr_def encode_rr_def puts_append)
  have l: "length (?b @ ?c) \<le> 8"
    using byte_lengths(1) [of OP_MOV_RM_R "rsz dst" "xreg_no a lhs" "xreg_no a dst"]
      byte_lengths(1) [of OP_SUB_RM_R "rsz dst" "xreg_no a rhs" "xreg_no a dst"] by simp
  note gp = assms(2-4) [unfolded xenc_def]
  note d = xdoes_two [OF mov_rr_does(1) [OF assms(5) gp(2,1)] mov_rr_does(2) [OF assms(5) gp(3,1)] refl refl, of m]
  have k: "take_bit (8 * n) (take_bit (8 * n) (merge_size n old x) - take_bit (8 * n) y) = take_bit (8 * n) (x - y)" for n old x y
    unfolding take_bit_word_add by (metis take_bit_word_add(3) take_merge)
  have s: "merge_size n old' (take_bit (8 * n) (merge_size n old x) - take_bit (8 * n) y) = merge_size n old' (x - y)" for n old' old x y
    by (rule merge_cong) (rule k)
  show ?thesis
    unfolding e xemitted_bytes [OF assms(1) l]
    using d by (cases "xrno a dst = xrno a rhs") (simp_all add: wr_size_def rd_size_def merge_merge s)
qed

lemma emit_sub_reg_x64_value_witness:
  "\<exists>m'. x64_run (xemitted (emit_sub_reg_x64 elf_abi ex_ts (ex_reg PARAM 1 8) (ex_reg PARAM 0 8) (ex_reg PARAM 1 8)) ex_xst) ex_xmach
      = Some m' \<and> xmem m' = xmem ex_xmach \<and> gpr m' = (gpr ex_xmach)(6 := 0)"
  using emit_sub_reg_x64_value [of ex_xst elf_abi "ex_reg PARAM 1 8" "ex_reg PARAM 0 8" "ex_reg PARAM 1 8" ex_ts ex_xmach]
  by simp

section \<open>The two back ends agree\<close>

lemma compare_set_agree:
  assumes "length (body st) + 2 \<le> CODE_CAP" and "enc lhs" and "enc rhs" and "enc dst"
    and "rno lhs \<noteq> 31" and "rno rhs \<noteq> 31" and "rno dst \<noteq> 31"
    and "xroom 10 xs" and "xenc a lhs" and "xenc a rhs" and "xenc a dst"
    and "r_rsize lhs = (if w then 8 else 4)" and "r_rsize rhs = r_rsize lhs" and "r_rsize dst = 4" and "cond_no c < 14"
    and "xr m (rno lhs) = gpr xm (xrno a lhs)" and "xr m (rno rhs) = gpr xm (xrno a rhs)"
  shows "\<exists>m' xm'. a64_run (emitted (emit_cmp_reg ts lhs rhs c) st @ emitted (emit_cond_set dst c) st) m = Some m'
    \<and> x64_run (xemitted (emit_cmp_reg_x64 a ts lhs rhs c) xs @ xemitted (emit_cond_set_x64 a ts dst c) xs) xm = Some xm'
    \<and> xr m' (rno dst) = gpr xm' (xrno a dst)
    \<and> gpr xm' (xrno a dst) = (if cond_value (if w then 8 else 4) c (xr m (rno lhs)) (xr m (rno rhs)) then 1 else 0)"
proof -
  have room: "length (body st) < CODE_CAP" using assms(1) by simp
  have e: "emit_cmp_reg ts lhs rhs c = addsub_reg OP_SUBS_REG (zr_of (r_rsize lhs)) lhs rhs"
    using assms(13) by (simp add: fun_eq_iff emit_cmp_reg_def)
  define fl where "fl = arith_flags w True (xr m (rno lhs)) (xr m (rno rhs))"
  have ww: "4 < r_rsize lhs \<longleftrightarrow> w" using assms(12) by simp
  have cmp: "a64_run (emitted (emit_cmp_reg ts lhs rhs c) st) m = Some (m\<lparr>nzcv := fl\<rparr>)"
    unfolding e using addsub_reg_run(3) [OF room enc_zr_of(1) assms(2,3), of "r_rsize lhs" m] assms(5,6)
    by (simp add: ww fl_def rd_zr_def)
  have csinc: "a64_run (emitted (emit_cond_set dst c) st) (m\<lparr>nzcv := fl\<rparr>)
      = Some (wr_zr False (rno dst) (if cond_holds (cond_no c) fl then 1 else 0) (m\<lparr>nzcv := fl\<rparr>))"
    using cond_set_run [OF room assms(4,15), of "m\<lparr>nzcv := fl\<rparr>"] by simp
  have n: "xsz lhs = (if w then 8 else 4)" using assms(12) by (simp add: rsz_def)
  have sizes: "size_ok (rsz lhs)" using assms(12) by (simp add: rsz_def size_ok_def)
  have wd: "wide_set dst = 4" using assms(14) by simp
  obtain xm' where x: "x64_run (xemitted (emit_cmp_reg_x64 a ts lhs rhs c) xs @ xemitted (emit_cond_set_x64 a ts dst c) xs) xm = Some xm'"
    "gpr xm' = (gpr xm)(xrno a dst := merge_size 4 (gpr xm (xrno a dst))
        (if cond_value (xsz lhs) c (gpr xm (xrno a lhs)) (gpr xm (xrno a rhs)) then 1 else 0))"
    using compare_set_run [OF assms(8-11) sizes assms(13) [symmetric] _ assms(15), of ts xm] by (auto simp: wd)
  have v: "cond_holds (cond_no c) fl \<longleftrightarrow> cond_value (if w then 8 else 4) c (xr m (rno lhs)) (xr m (rno rhs))"
    unfolding fl_def by (rule a64_cond_value [OF assms(15)])
  show ?thesis
    using cmp csinc x assms(7)
    by (simp add: a64_run_append v n assms(16,17) wr_zr_def merge_size_def width_def)
qed

text \<open>
  C12. The two back ends agree on comparisons of four or eight bytes: from machine states that hold the same operands,
  both of four or both of eight bytes, comparing them and materialising a condition into a four-byte register leaves the
  same value in it on both, and it is the one the condition means. (Operands of one or two bytes are compared as
  thirty-two bits by one back end and as eight or sixteen by the other, so they are not claimed to agree.)
\<close>

theorem back_ends_agree_on_conditions:
  assumes "length (body st) + 2 \<le> CODE_CAP" and "enc lhs" and "enc rhs" and "enc dst"
    and "rno lhs \<noteq> 31" and "rno rhs \<noteq> 31" and "rno dst \<noteq> 31"
    and "xroom 10 xs" and "xenc a lhs" and "xenc a rhs" and "xenc a dst"
    and "r_rsize lhs = (if w then 8 else 4)" and "r_rsize rhs = r_rsize lhs" and "r_rsize dst = 4" and "cond_no c < 14"
    and "xr m (rno lhs) = gpr xm (xrno a lhs)" and "xr m (rno rhs) = gpr xm (xrno a rhs)"
  shows "\<exists>m' xm'. a64_run (emitted (emit_cmp_reg ts lhs rhs c) st @ emitted (emit_cond_set dst c) st) m = Some m'
    \<and> x64_run (xemitted (emit_cmp_reg_x64 a ts lhs rhs c) xs @ xemitted (emit_cond_set_x64 a ts dst c) xs) xm = Some xm'
    \<and> xr m' (rno dst) = gpr xm' (xrno a dst)
    \<and> gpr xm' (xrno a dst) = (if cond_value (if w then 8 else 4) c (xr m (rno lhs)) (xr m (rno rhs)) then 1 else 0)"
  by (rule compare_set_agree [OF assms])

lemma back_ends_agree_on_conditions_witness:
  "\<exists>m' xm'. a64_run (emitted (emit_cmp_reg ex_ts (ex_reg PARAM 1 4) (ex_reg PARAM 1 4) COND_GE) ex_st
        @ emitted (emit_cond_set (ex_reg RET 0 4) COND_GE) ex_st) (ex_mach\<lparr>xr := (\<lambda>_. 6)\<rparr>) = Some m'
    \<and> x64_run (xemitted (emit_cmp_reg_x64 elf_abi ex_ts (ex_reg PARAM 1 4) (ex_reg PARAM 1 4) COND_GE) ex_xst
        @ xemitted (emit_cond_set_x64 elf_abi ex_ts (ex_reg RET 0 4) COND_GE) ex_xst) ex_xmach = Some xm'
    \<and> xr m' 0 = gpr xm' 0 \<and> gpr xm' 0 = 1"
proof -
  have "xreg_no elf_abi (ex_reg RET 0 4) = 0" by (simp add: ex_reg_def reg0_def xreg_no_def elf_abi_def)
  then show ?thesis
    using back_ends_agree_on_conditions [of ex_st "ex_reg PARAM 1 4" "ex_reg PARAM 1 4" "ex_reg RET 0 4" ex_xst elf_abi False COND_GE
        "ex_mach\<lparr>xr := (\<lambda>_. 6)\<rparr>" ex_xmach ex_ts]
    by (simp add: enc_def xenc_def gp_def cond_value_def CODE_CAP_def)
qed

end
