(* ===== verification/Lexer.thy ===== *)
theory Lexer
  imports Type_System
begin

text \<open>
  The lexer of \<open>src/alc/main.c\<close>: \<open>tok\<close> with its scanning loops, the line and block skippers, and the
  literals. The text is a list of characters; the code keeps it in a buffer of one byte more, a zero
  byte at the position \<open>end\<close>, so a read at the length of the list gives zero, and a loop that runs beyond it is
  undefined: \<open>None\<close>. One read beyond it does not change a result, that of the second byte which \<open>tok\<close> compares with a
  comment at the end of the text; which bytes a call reads is therefore a definition of its own
  (\<open>tok_reads\<close>). The state holds the position in the text, the globals \<open>lineno\<close>, \<open>indent\<close> and \<open>eof\<close>, and the
  fields of the parser context that \<open>tok\<close> uses. Reports are recorded in a list.
\<close>

section \<open>Text and state\<close>

abbreviation NUL :: char where "NUL \<equiv> CHR 0x00"
abbreviation NL :: char where "NL \<equiv> CHR 0x0A"
abbreviation QUOTE :: char where "QUOTE \<equiv> CHR 0x22"
abbreviation TICK :: char where "TICK \<equiv> CHR 0x27"

definition at :: "string \<Rightarrow> nat \<Rightarrow> char" where
  "at s i = (if i < length s then s ! i else NUL)"

record token =
  tk_data :: nat
  tk_end :: nat
  tk_lineno :: u16
  tk_indent :: u8
  tk_eob :: eob

datatype lex_error = BadIndent | BlockExpected | Expected string | NoClosingQuote | CharTooLarge int

record lexer =
  lx_cur :: nat
  lx_lineno :: u16
  lx_indent :: u8
  lx_eof :: bool
  lx_tok :: token
  lx_sol :: bool
  lx_eol :: bool
  lx_ended :: bool
  lx_ctx_indent :: u8
  lx_errs :: "lex_error list"

definition token0 :: token where
  "token0 = \<lparr>tk_data = 0, tk_end = 0, tk_lineno = 0, tk_indent = 0, tk_eob = EOB_NONE\<rparr>"

definition lexer0 :: lexer where
  "lexer0 = \<lparr>lx_cur = 0, lx_lineno = 1, lx_indent = 0, lx_eof = False, lx_tok = token0, lx_sol = False, lx_eol = False,
     lx_ended = False, lx_ctx_indent = 0, lx_errs = []\<rparr>"

definition lex_err :: "lex_error \<Rightarrow> lexer \<Rightarrow> lexer" where
  "lex_err e lx = lx\<lparr>lx_errs := lx_errs lx @ [e]\<rparr>"

definition tok_text :: "string \<Rightarrow> token \<Rightarrow> string" where
  "tok_text s t = map (at s) [tk_data t ..< tk_end t]"

lemma at_less: "at s i \<noteq> NUL \<Longrightarrow> i < length s"
  by (auto simp: at_def split: if_splits)

lemma at_eqD: "at s i = c \<Longrightarrow> c \<noteq> NUL \<Longrightarrow> length s - Suc i < length s - i"
  using at_less [of s i] by auto

section \<open>Scanning a token\<close>

text \<open>\<open>src_advance\<close>: the position and the line number after the byte at the position.\<close>

definition src_advance :: "string \<Rightarrow> nat \<Rightarrow> u16 \<Rightarrow> nat \<times> u16" where
  "src_advance s cur ln = (cur + 1, if at s cur = NL then ln + 1 else ln)"

text \<open>The first position from \<open>i\<close> on that holds the closing character or a newline.\<close>

function scan_lit :: "string \<Rightarrow> char \<Rightarrow> nat \<Rightarrow> nat option" where
  "scan_lit s q i =
    (if length s < i then None
     else if at s i = q \<or> at s i = NL then Some i
     else scan_lit s q (i + 1))"
  by pat_completeness auto
termination by (relation "measure (\<lambda>(s, q, i). Suc (length s) - i)") auto

declare scan_lit.simps [simp del]

definition brace_char :: "char \<Rightarrow> bool" where
  "brace_char c \<longleftrightarrow> c \<in> {CHR ''}'', CHR ''{'', CHR ''!'', CHR ''['', CHR '']''}"

definition sep_char :: "char \<Rightarrow> bool" where
  "sep_char c \<longleftrightarrow> c \<in> {CHR '','', NL, CHR '' '', NUL, CHR '';'', CHR '')'', CHR ''(''}"

text \<open>
  The value of \<open>streq(src->cur, "//")\<close>. The code compares the two bytes with one \<open>memcmp\<close>, so it reads the second even
  where the first decides, at the zero byte behind the text too (\<open>scan_reads\<close> has the reads); there the value is false
  whatever stands behind the buffer. The loop over the indentation tests the two bytes one after the other.
\<close>

definition comment_at :: "string \<Rightarrow> nat \<Rightarrow> bool" where
  "comment_at s i \<longleftrightarrow> at s i = CHR ''/'' \<and> at s (i + 1) = CHR ''/''"

text \<open>
  The loop of \<open>tok\<close>, from the start \<open>e0\<close> of the token: the start and the end of the token, the new
  position and line number.
\<close>

definition scan_special :: "string \<Rightarrow> nat \<Rightarrow> nat \<Rightarrow> nat \<Rightarrow> u16 \<Rightarrow> (nat \<times> nat \<times> nat \<times> u16) option" where
  "scan_special s e0 d cur ln =
    (let c = at s cur in
     if brace_char c then
       (if cur = d then
          (let (cur', ln') = (if at s (cur + 1) = NL then src_advance s (cur + 1) ln else (cur + 1, ln)) in
           Some (d, e0 + 1, cur', ln'))
        else Some (d, cur, cur, ln))
     else if sep_char c then (let (cur', ln') = src_advance s cur ln in Some (d, cur, cur', ln'))
     else None)"

function scan_tok :: "string \<Rightarrow> nat \<Rightarrow> nat \<Rightarrow> u16 \<Rightarrow> (nat \<times> nat \<times> nat \<times> u16) option" where
  "scan_tok s e0 cur ln =
    (if length s < cur then Some (e0, e0, cur, ln)
     else
      (let c = at s cur in
       if c = QUOTE \<or> c = TICK then
         (case scan_lit s c (cur + 1) of None \<Rightarrow> None
          | Some k \<Rightarrow> let (cur', ln') = src_advance s (k + 1) ln in Some (e0, k + 1, cur', ln'))
       else if comment_at s cur then
         (case scan_lit s NL (cur + 1) of None \<Rightarrow> None | Some k \<Rightarrow> scan_special s e0 k k ln)
       else if brace_char c \<or> sep_char c then scan_special s e0 e0 cur ln
       else scan_tok s e0 (cur + 1) ln))"
  by pat_completeness auto
termination by (relation "measure (\<lambda>(s, e0, cur, ln). Suc (length s) - cur)") auto

declare scan_tok.simps [simp del]

text \<open>
  The positions that the loop reads, in the order of the code: a literal up to its end and the byte behind it, which
  \<open>src_advance\<close> looks at; otherwise the byte and the two of the comparison with a comment, and then the rest of the
  comment, the byte behind a brace that is a token, or the separator again.
\<close>

function scan_reads :: "string \<Rightarrow> nat \<Rightarrow> nat \<Rightarrow> nat list" where
  "scan_reads s e0 cur =
    (if length s < cur then []
     else if at s cur = QUOTE \<or> at s cur = TICK then
       (case scan_lit s (at s cur) (cur + 1) of None \<Rightarrow> [cur ..< length s + 2] | Some k \<Rightarrow> [cur ..< k + 2])
     else [cur, cur, cur + 1] @
      (if comment_at s cur then
         (case scan_lit s NL (cur + 1) of None \<Rightarrow> [cur + 1 ..< length s + 2] | Some k \<Rightarrow> [cur + 1 ..< k + 1] @ [k, k])
       else cur #
        (if brace_char (at s cur) then (if cur = e0 then [cur + 1] else [])
         else if sep_char (at s cur) then [cur]
         else scan_reads s e0 (cur + 1))))"
  by pat_completeness auto
termination by (relation "measure (\<lambda>(s, e0, cur). Suc (length s) - cur)") auto

declare scan_reads.simps [simp del]

section \<open>Indentation\<close>

function skip_newlines :: "string \<Rightarrow> nat \<Rightarrow> u16 \<Rightarrow> nat \<times> u16" where
  "skip_newlines s cur ln = (if at s cur = NL then skip_newlines s (cur + 1) (ln + 1) else (cur, ln))"
  by pat_completeness auto
termination by (relation "measure (\<lambda>(s, cur, ln). length s - cur)") (auto dest: at_eqD)

function skip_spaces :: "string \<Rightarrow> nat \<Rightarrow> u8 \<Rightarrow> nat \<times> u8" where
  "skip_spaces s cur n = (if at s cur = CHR '' '' then skip_spaces s (cur + 1) (n + 1) else (cur, n))"
  by pat_completeness auto
termination by (relation "measure (\<lambda>(s, cur, n). length s - cur)") (auto dest: at_eqD)

function skip_comment :: "string \<Rightarrow> nat \<Rightarrow> nat" where
  "skip_comment s cur = (if cur < length s \<and> at s cur \<noteq> NL then skip_comment s (cur + 1) else cur)"
  by pat_completeness auto
termination by (relation "measure (\<lambda>(s, cur). length s - cur)") auto

declare skip_newlines.simps [simp del] skip_spaces.simps [simp del] skip_comment.simps [simp del]

lemma skip_newlines_le: "cur \<le> fst (skip_newlines s cur ln)"
  by (induction s cur ln rule: skip_newlines.induct) (subst skip_newlines.simps, auto)

lemma skip_spaces_le: "cur \<le> fst (skip_spaces s cur n)"
  by (induction s cur n rule: skip_spaces.induct) (subst skip_spaces.simps, auto)

lemma skip_comment_le: "cur \<le> skip_comment s cur"
  by (induction s cur rule: skip_comment.induct) (subst skip_comment.simps, auto)

lemma skip_comment_less: "cur < length s \<Longrightarrow> at s cur \<noteq> NL \<Longrightarrow> cur < skip_comment s cur"
  using skip_comment_le [of "cur + 1" s] by (subst skip_comment.simps) simp

text \<open>Blank lines and lines that are only a comment are skipped; the result ends at the first other byte.\<close>

function indent_loop :: "string \<Rightarrow> nat \<Rightarrow> u16 \<Rightarrow> nat \<times> u16 \<times> u8" where
  "indent_loop s cur ln =
    (let (c1, l1) = skip_newlines s cur ln; (c2, n) = skip_spaces s c1 0 in
     if c2 < length s \<and> comment_at s c2 then indent_loop s (skip_comment s c2) l1 else (c2, l1, n))"
  by pat_completeness auto
termination
proof (relation "measure (\<lambda>(s, cur, ln). length s - cur)", goal_cases)
  case (2 s cur ln p c1 l1 q c2 n)
  have "cur \<le> c1" using skip_newlines_le [of cur s ln] 2(1,2) by (metis fst_conv)
  moreover have "c1 \<le> c2" using skip_spaces_le [of c1 s 0] 2(3,4) by (metis fst_conv)
  moreover have "c2 < skip_comment s c2" using 2(5) by (intro skip_comment_less) (auto simp: comment_at_def)
  moreover have "c2 < length s" using 2(5) by simp
  ultimately have "length s - skip_comment s c2 < length s - cur" by linarith
  then show ?case by simp
qed simp

declare indent_loop.simps [simp del]

lemma indent_loop_le: "cur \<le> fst (indent_loop s cur ln)"
proof (induction s cur ln rule: indent_loop.induct)
  case (1 s cur ln)
  obtain c1 l1 where 1: "skip_newlines s cur ln = (c1, l1)" by fastforce
  obtain c2 n where 2: "skip_spaces s c1 0 = (c2, n)" by fastforce
  have "cur \<le> c1" "c1 \<le> c2" "c2 \<le> skip_comment s c2"
    using skip_newlines_le [of cur s ln] skip_spaces_le [of c1 s 0] skip_comment_le 1 2 by auto
  then show ?case
    using 1 2 "1.IH" [OF 1 [symmetric] refl 2 [symmetric] refl]
    by (subst indent_loop.simps) auto
qed

section \<open>One token\<close>

definition fresh_tok :: "lexer \<Rightarrow> token" where
  "fresh_tok lx = \<lparr>tk_data = lx_cur lx, tk_end = lx_cur lx, tk_lineno = lx_lineno lx, tk_indent = lx_indent lx,
     tk_eob = EOB_NONE\<rparr>"

text \<open>What \<open>tok\<close> does at the end of a line: the next indentation, block ends, the end of the function.\<close>

definition line_end :: "string \<Rightarrow> lexer \<Rightarrow> lexer" where
  "line_end s lx =
    (let (cur, ln, new_indent) = indent_loop s (lx_cur lx) (lx_lineno lx);
         old = lx_indent lx;
         lx1 = (if old mod 4 \<noteq> 0 then lex_err BadIndent lx else lx);
         e = (if new_indent < old then EOB else if old < new_indent then SOB else tk_eob (lx_tok lx)) in
     lx1\<lparr>lx_cur := cur, lx_lineno := ln, lx_indent := new_indent, lx_tok := (lx_tok lx)\<lparr>tk_eob := e\<rparr>,
         lx_ended := lx_ended lx \<or> tk_indent (lx_tok lx) < lx_ctx_indent lx \<or> new_indent < lx_ctx_indent lx\<rparr>)"

definition accept_tok :: "string \<Rightarrow> lexer \<Rightarrow> lexer" where
  "accept_tok s lx =
    (let c = lx_cur lx;
         eol = (if at s (c - 1) = CHR '')'' then at s c = NL else at s (c - 1) = NL);
         lx1 = lx\<lparr>lx_sol := lx_eol lx, lx_eol := eol\<rparr> in
     if eol then line_end s lx1 else lx1)"

text \<open>
  The positions this reads. The loops of \<open>line_end\<close> go forward byte by byte and stop at the last byte they read; at a
  slash before the end of the text the next byte is read as well.
\<close>

definition accept_reads :: "string \<Rightarrow> lexer \<Rightarrow> nat list" where
  "accept_reads s lx =
    (let c = lx_cur lx;
         eol = (if at s (c - 1) = CHR '')'' then at s c = NL else at s (c - 1) = NL);
         k = fst (indent_loop s c (lx_lineno lx)) in
     [c - 1] @ (if at s (c - 1) = CHR '')'' then [c] else [])
     @ (if eol then [c ..< k + 1] @ (if k < length s \<and> at s k = CHR ''/'' then [k + 1] else []) else []))"

definition at_eof :: "string \<Rightarrow> lexer \<Rightarrow> lexer" where
  "at_eof s lx = lx\<lparr>lx_eof := True, lx_tok := \<lparr>tk_data = length s, tk_end = length s, tk_lineno = lx_lineno lx,
     tk_indent = lx_indent lx, tk_eob = EOB\<rparr>\<rparr>"

definition raw_tok :: "string \<Rightarrow> lexer \<Rightarrow> lexer option" where
  "raw_tok s lx =
    (case scan_tok s (lx_cur lx) (lx_cur lx) (lx_lineno lx) of None \<Rightarrow> None
     | Some (d, e, cur, ln) \<Rightarrow>
         Some (lx\<lparr>lx_cur := cur, lx_lineno := ln, lx_tok := (fresh_tok lx)\<lparr>tk_data := d, tk_end := e\<rparr>\<rparr>))"

definition past_end :: "string \<Rightarrow> lexer \<Rightarrow> bool" where
  "past_end s lx \<longleftrightarrow> length s < lx_cur lx \<or> length s < tk_end (lx_tok lx)"

definition empty_tok :: "lexer \<Rightarrow> bool" where
  "empty_tok lx \<longleftrightarrow> tk_end (lx_tok lx) \<le> tk_data (lx_tok lx)"

lemma scan_special_shape:
  assumes "scan_special s e0 d cur ln = Some (d', e', cur', ln')" and "e0 \<le> d" and "d \<le> cur" and "cur \<le> length s"
  shows "d' = d \<and> e0 \<le> e' \<and> e' \<le> cur' \<and> cur \<le> cur' \<and> (e' \<le> d \<longrightarrow> cur < cur') \<and> cur' \<le> cur + 2"
  using assms
  by (auto simp: scan_special_def src_advance_def Let_def split: if_splits)

lemma scan_lit_le: "scan_lit s q i = Some k \<Longrightarrow> i \<le> k \<and> k \<le> length s \<and> (at s k = q \<or> at s k = NL)"
  by (induction s q i rule: scan_lit.induct) (subst (asm) (2) scan_lit.simps, auto split: if_splits)

lemma scan_tok_shape:
  assumes "scan_tok s e0 cur ln = Some (d, e, c, l)" and "e0 \<le> cur"
  shows "e0 \<le> d \<and> e0 \<le> e \<and> e \<le> c \<and> cur \<le> c \<and> (cur \<le> length s \<longrightarrow> e \<le> d \<longrightarrow> e0 < c)"
  using assms
proof (induction s e0 cur ln arbitrary: rule: scan_tok.induct)
  case (1 s e0 cur ln)
  consider "length s < cur"
    | (lit) "cur \<le> length s" "at s cur = QUOTE \<or> at s cur = TICK"
    | (com) "cur \<le> length s" "\<not> (at s cur = QUOTE \<or> at s cur = TICK)" "comment_at s cur"
    | (spec) "cur \<le> length s" "\<not> (at s cur = QUOTE \<or> at s cur = TICK)" "\<not> comment_at s cur" "brace_char (at s cur) \<or> sep_char (at s cur)"
    | (more) "cur \<le> length s" "\<not> (at s cur = QUOTE \<or> at s cur = TICK)" "\<not> comment_at s cur" "\<not> (brace_char (at s cur) \<or> sep_char (at s cur))"
    by linarith
  then show ?case
  proof cases
    case 1
    then show ?thesis using "1.prems" by (subst (asm) scan_tok.simps) auto
  next
    case lit
    then obtain k where "scan_lit s (at s cur) (cur + 1) = Some k" "e0 = d" "e = k + 1" "c = k + 2"
      using "1.prems"(1) by (subst (asm) scan_tok.simps) (auto simp: src_advance_def Let_def split: option.splits)
    then show ?thesis using scan_lit_le [of s "at s cur" "cur + 1" k] "1.prems"(2) by auto
  next
    case com
    then obtain k where k: "scan_lit s NL (cur + 1) = Some k" "scan_special s e0 k k ln = Some (d, e, c, l)"
      using "1.prems"(1) by (subst (asm) scan_tok.simps) (auto simp: Let_def split: option.splits)
    then show ?thesis
      using scan_lit_le [OF k(1)] scan_special_shape [OF k(2)] "1.prems"(2) by auto
  next
    case spec
    then have k: "scan_special s e0 e0 cur ln = Some (d, e, c, l)"
      using "1.prems"(1) by (subst (asm) scan_tok.simps) (auto simp: Let_def)
    then show ?thesis
      using scan_special_shape [OF k] spec(1) "1.prems"(2) by auto
  next
    case more
    then have "scan_tok s e0 (cur + 1) ln = Some (d, e, c, l)"
      using "1.prems"(1) by (subst (asm) scan_tok.simps) (auto simp: Let_def)
    then have "e0 \<le> d \<and> e0 \<le> e \<and> e \<le> c \<and> cur + 1 \<le> c"
      using "1.IH" more "1.prems"(2) by auto
    then show ?thesis using "1.prems"(2) by auto
  qed
qed

lemma raw_tok_progress:
  assumes "raw_tok s lx = Some lx'" and "\<not> past_end s lx'" and "empty_tok lx'"
  shows "lx_cur lx < lx_cur lx'" and "lx_cur lx' \<le> length s"
proof -
  obtain d e c l where t: "scan_tok s (lx_cur lx) (lx_cur lx) (lx_lineno lx) = Some (d, e, c, l)"
    "lx' = lx\<lparr>lx_cur := c, lx_lineno := l, lx_tok := (fresh_tok lx)\<lparr>tk_data := d, tk_end := e\<rparr>\<rparr>"
    using assms(1) by (auto simp: raw_tok_def split: option.splits)
  then show "lx_cur lx < lx_cur lx'" "lx_cur lx' \<le> length s"
    using scan_tok_shape [OF t(1)] assms(2,3) by (auto simp: past_end_def empty_tok_def)
qed

function tok :: "string \<Rightarrow> lexer \<Rightarrow> (bool \<times> lexer) option" where
  "tok s lx =
    (case raw_tok s lx of None \<Rightarrow> None
     | Some lx' \<Rightarrow>
         if past_end s lx' then Some (False, at_eof s lx')
         else if empty_tok lx' then tok s lx'
         else Some (True, accept_tok s lx'))"
  by pat_completeness auto
termination
  by (relation "measure (\<lambda>(s, lx). Suc (length s) - lx_cur lx)") (use raw_tok_progress in fastforce)+

declare tok.simps [simp del]

text \<open>The positions of the text that a call reads; only \<open>0\<close> to \<open>length s\<close> are in the buffer.\<close>

function tok_reads :: "string \<Rightarrow> lexer \<Rightarrow> nat list" where
  "tok_reads s lx = scan_reads s (lx_cur lx) (lx_cur lx) @
    (case raw_tok s lx of None \<Rightarrow> []
     | Some lx' \<Rightarrow>
         if past_end s lx' then []
         else if empty_tok lx' then tok_reads s lx'
         else accept_reads s lx')"
  by pat_completeness auto
termination
  by (relation "measure (\<lambda>(s, lx). Suc (length s) - lx_cur lx)") (use raw_tok_progress in fastforce)+

declare tok_reads.simps [simp del]

lemma accept_tok_le: "lx_cur lx \<le> lx_cur (accept_tok s lx)"
  using indent_loop_le [of "lx_cur lx" s "lx_lineno lx"]
  by (auto simp: accept_tok_def line_end_def Let_def lex_err_def split: prod.splits)

lemma tok_progress:
  "tok s lx = Some (b, lx') \<Longrightarrow> lx_cur lx \<le> lx_cur lx' \<and> (b \<longrightarrow> lx_cur lx < lx_cur lx' \<and> lx_cur lx < length s)
     \<and> (\<not> b \<longrightarrow> empty_tok lx')"
proof (induction s lx rule: tok.induct)
  case (1 s lx)
  obtain lx1 where r: "raw_tok s lx = Some lx1"
    using "1.prems" by (subst (asm) tok.simps) (auto split: option.splits)
  then obtain d e c l where t: "scan_tok s (lx_cur lx) (lx_cur lx) (lx_lineno lx) = Some (d, e, c, l)"
    "lx1 = lx\<lparr>lx_cur := c, lx_lineno := l, lx_tok := (fresh_tok lx)\<lparr>tk_data := d, tk_end := e\<rparr>\<rparr>"
    by (auto simp: raw_tok_def split: option.splits)
  note shape = scan_tok_shape [OF t(1)]
  consider "past_end s lx1" | "\<not> past_end s lx1" "empty_tok lx1" | "\<not> past_end s lx1" "\<not> empty_tok lx1" by blast
  then show ?case
  proof cases
    case 1
    then show ?thesis
      using "1.prems" r shape by (subst (asm) tok.simps) (auto simp: t(2) at_eof_def empty_tok_def)
  next
    case 2
    then have "tok s lx1 = Some (b, lx')" using "1.prems" r by (subst (asm) tok.simps) simp
    then show ?thesis using "1.IH" [OF r 2] raw_tok_progress [OF r 2] by auto
  next
    case 3
    then have "b" "lx' = accept_tok s lx1" using "1.prems" r by (subst (asm) tok.simps; simp)+
    then show ?thesis
      using 3 shape accept_tok_le [of lx1 s] by (auto simp: t(2) past_end_def empty_tok_def)
  qed
qed

lemmas tok_mono = tok_progress [THEN conjunct1]

section \<open>Skipping\<close>

function consume_until :: "string \<Rightarrow> string \<Rightarrow> lexer \<Rightarrow> lexer option" where
  "consume_until s w lx =
    (case tok s lx of None \<Rightarrow> None
     | Some (b, lx') \<Rightarrow>
         if \<not> b then Some lx' else if tok_text s (lx_tok lx') = w then Some lx' else consume_until s w lx')"
  by pat_completeness auto
termination
  by (relation "measure (\<lambda>(s, w, lx). length s - lx_cur lx)") (auto dest!: tok_progress)

text \<open>\<open>consume_line\<close> remembers the line number \<open>start\<close> it began with.\<close>

function consume_line_from :: "string \<Rightarrow> u16 \<Rightarrow> lexer \<Rightarrow> lexer option" where
  "consume_line_from s start lx =
    (case tok s lx of None \<Rightarrow> None
     | Some (b, lx') \<Rightarrow>
         if \<not> b then Some lx' else if start \<noteq> lx_lineno lx' then Some lx' else consume_line_from s start lx')"
  by pat_completeness auto
termination
  by (relation "measure (\<lambda>(s, start, lx). length s - lx_cur lx)") (auto dest!: tok_progress)

declare consume_until.simps [simp del] consume_line_from.simps [simp del]

definition consume_line :: "string \<Rightarrow> lexer \<Rightarrow> lexer option" where
  "consume_line s lx = consume_line_from s (lx_lineno lx) lx"

lemma consume_line_mono: "consume_line_from s start lx = Some lx' \<Longrightarrow> lx_cur lx \<le> lx_cur lx'"
proof (induction s start lx rule: consume_line_from.induct)
  case (1 s start lx)
  obtain b lx1 where t: "tok s lx = Some (b, lx1)"
    using "1.prems" by (subst (asm) consume_line_from.simps) (auto split: option.splits)
  have "lx' = lx1 \<or> (b \<and> start = lx_lineno lx1 \<and> consume_line_from s start lx1 = Some lx')"
    using "1.prems" t by (subst (asm) consume_line_from.simps) (auto split: if_splits)
  then show ?case using "1.IH" [OF t refl] tok_mono [OF t] by auto
qed

function block_loop :: "string \<Rightarrow> nat \<Rightarrow> lexer \<Rightarrow> lexer option" where
  "block_loop s start lx =
    (if empty_tok lx then Some lx
     else case consume_line s lx of None \<Rightarrow> None
       | Some lx1 \<Rightarrow>
          if tk_eob (lx_tok lx1) = EOB \<and> unat (tk_indent (lx_tok lx1)) = start + 4 then Some lx1
          else case tok s lx1 of None \<Rightarrow> None | Some (b, lx2) \<Rightarrow> block_loop s start lx2)"
  by pat_completeness auto
termination
proof (relation "measure (\<lambda>(s, start, lx). if empty_tok lx then 0 else Suc (length s - lx_cur lx))", goal_cases)
  case (2 s start lx lx1 p b lx2)
  have "lx_cur lx \<le> lx_cur lx1"
    using 2(2) consume_line_mono by (simp add: consume_line_def)
  then show ?case using 2(1) tok_progress [OF 2(4) [unfolded 2(5) [symmetric]]] by (cases b) auto
qed simp

declare block_loop.simps [simp del]

definition consume_block :: "string \<Rightarrow> lexer \<Rightarrow> lexer option" where
  "consume_block s lx =
    (let start = unat (tk_indent (lx_tok lx)) in
     case tok s lx of None \<Rightarrow> None
     | Some (b, lx1) \<Rightarrow>
         block_loop s start (if unat (tk_indent (lx_tok lx1)) \<noteq> start + 4 then lex_err BlockExpected lx1 else lx1))"

definition consume_line_or_block :: "string \<Rightarrow> lexer \<Rightarrow> lexer option" where
  "consume_line_or_block s lx =
    (if at s (tk_end (lx_tok lx)) \<noteq> NL then consume_line s lx else consume_block s lx)"

text \<open>\<open>streq\<close> compares the bytes at a position with a literal; the comparison ends at the zero byte of the text.\<close>

definition streq_at :: "string \<Rightarrow> nat \<Rightarrow> string \<Rightarrow> bool" where
  "streq_at s i w \<longleftrightarrow> map (at s) [i ..< i + length w] = w"

definition peek_expect :: "string \<Rightarrow> string \<Rightarrow> lexer \<Rightarrow> bool \<times> lexer" where
  "peek_expect s w lx =
    (if \<not> streq_at s (tk_end (lx_tok lx) + 1) w then (False, lex_err (Expected w) lx) else (True, lx))"

definition expect :: "string \<Rightarrow> string \<Rightarrow> lexer \<Rightarrow> bool \<times> lexer" where
  "expect s w lx = (if tok_text s (lx_tok lx) \<noteq> w then (False, lex_err (Expected w) lx) else (True, lx))"

definition is_char_token :: "string \<Rightarrow> token \<Rightarrow> char \<Rightarrow> bool" where
  "is_char_token s t c \<longleftrightarrow> tk_end t = tk_data t + 1 \<and> at s (tk_data t) = c"

definition at_store :: "string \<Rightarrow> token \<Rightarrow> bool" where
  "at_store s t \<longleftrightarrow> is_char_token s t (CHR ''='') \<and> at s (tk_end t) = CHR ''[''"

function dot_loop :: "string \<Rightarrow> nat \<Rightarrow> nat \<Rightarrow> char \<Rightarrow> nat" where
  "dot_loop s d e c = (if d < e then (if at s (d + 1) = c then d + 1 else dot_loop s (d + 1) e c) else d)"
  by pat_completeness auto
termination by (relation "measure (\<lambda>(s, d, e, c). e - d)") auto

declare dot_loop.simps [simp del]

text \<open>The part that is split off, and the rest.\<close>

definition dot_iter :: "string \<Rightarrow> str \<Rightarrow> char \<Rightarrow> str \<times> str" where
  "dot_iter s x c =
    (let b = (if s_data x < s_end x \<and> at s (s_data x) = c then s_data x + 1 else s_data x);
         d = dot_loop s (s_data x) (s_end x) c in
     (\<lparr>s_data = b, s_end = d\<rparr>, x\<lparr>s_data := d\<rparr>))"

section \<open>Literals\<close>

text \<open>\<open>strtoll\<close> with base 0: white space, a sign, a prefix that gives the base, digits; the value saturates.\<close>

definition is_space :: "char \<Rightarrow> bool" where
  "is_space c \<longleftrightarrow> c \<in> {CHR '' '', NL, CHR 0x09, CHR 0x0B, CHR 0x0C, CHR 0x0D}"

definition code_of :: "char \<Rightarrow> nat" where
  "code_of c = of_char c"

definition is_digit :: "char \<Rightarrow> bool" where
  "is_digit c \<longleftrightarrow> 48 \<le> code_of c \<and> code_of c \<le> 57"

definition digit_val :: "char \<Rightarrow> nat" where
  "digit_val c =
    (let k = code_of c in
     if is_digit c then k - 48 else if 97 \<le> k \<and> k \<le> 122 then k - 87 else if 65 \<le> k \<and> k \<le> 90 then k - 55 else 99)"

fun read_digits :: "nat \<Rightarrow> nat \<Rightarrow> string \<Rightarrow> nat" where
  "read_digits base acc [] = acc"
| "read_digits base acc (c # cs) = (if digit_val c < base then read_digits base (base * acc + digit_val c) cs else acc)"

definition read_magnitude :: "string \<Rightarrow> nat" where
  "read_magnitude cs =
    (if take 1 cs = ''0'' \<and> take 1 (drop 1 cs) \<in> {''x'', ''X''} \<and> drop 2 cs \<noteq> [] \<and> digit_val (hd (drop 2 cs)) < 16
     then read_digits 16 0 (drop 2 cs)
     else if take 1 cs = ''0'' then read_digits 8 0 cs
     else read_digits 10 0 cs)"

definition saturate :: "int \<Rightarrow> i64" where
  "saturate v = word_of_int (max (- (2 ^ 63)) (min (2 ^ 63 - 1) v))"

definition strtoll :: "string \<Rightarrow> i64" where
  "strtoll cs =
    (let ds = dropWhile is_space cs in
     if take 1 ds = ''-'' then saturate (- int (read_magnitude (tl ds)))
     else if take 1 ds = ''+'' then saturate (int (read_magnitude (tl ds)))
     else saturate (int (read_magnitude ds)))"

text \<open>The character a literal stands for, from the position of its first byte.\<close>

definition char_escape :: "string \<Rightarrow> nat \<Rightarrow> lexer \<Rightarrow> char \<times> lexer" where
  "char_escape s i lx =
    (if at s i \<noteq> CHR 0x5C then (at s i, lx)
     else
      (let c = at s (i + 1) in
       if c = CHR ''n'' then (NL, lx) else if c = CHR ''t'' then (CHR 0x09, lx)
       else if c = CHR ''r'' then (CHR 0x0D, lx) else if c = CHR 0x5C then (CHR 0x5C, lx)
       else
        (let number = strtoll (drop i s) in
         if 1 <s number then (NUL, lex_err (CharTooLarge (sint number)) lx)
         else (char_of (unat (ucast number :: u8)), lx))))"

text \<open>
  The text a string literal hands to \<open>emit_string_lit\<close>: the token itself, or, when the back end needs
  escapes resolved, as many times the first character of the token as the token is long.
\<close>

fun escape_all :: "string \<Rightarrow> nat \<Rightarrow> nat \<Rightarrow> lexer \<Rightarrow> string \<times> lexer" where
  "escape_all s i 0 lx = ([], lx)"
| "escape_all s i (Suc n) lx =
    (let (c, lx1) = char_escape s i lx; (cs, lx2) = escape_all s i n lx1 in (c # cs, lx2))"

definition literal_string :: "bool \<Rightarrow> string \<Rightarrow> token \<Rightarrow> lexer \<Rightarrow> string \<times> lexer" where
  "literal_string escape s t lx =
    (let lx1 = (if at s (tk_end t - 1) \<noteq> QUOTE then lex_err NoClosingQuote lx else lx) in
     if \<not> escape then (tok_text s t, lx1) else escape_all s (tk_data t) (tk_end t - tk_data t) lx1)"

text \<open>The register that receives it: a pointer to bytes.\<close>

definition literal_reg :: "nat option \<Rightarrow> reg \<Rightarrow> reg" where
  "literal_reg u8_type r = r\<lparr>r_rsize := 8,
     r_dtype := dtype_wrap \<lparr>d_base = u8_type, d_decl = []\<rparr> \<lparr>dk_tag = DK_ADDR, dk_amount = 1\<rparr>\<rparr>"

definition lit_numeric :: "string \<Rightarrow> token \<Rightarrow> lexer \<Rightarrow> i64 option \<times> lexer" where
  "lit_numeric s t lx =
    (if is_digit (at s (tk_data t)) \<or> at s (tk_data t) = CHR ''-'' then (Some (strtoll (drop (tk_data t) s)), lx)
     else if at s (tk_data t) = TICK then
       (let lx1 = (if at s (tk_end t - 1) \<noteq> TICK then lex_err NoClosingQuote lx else lx);
            (c, lx2) = char_escape s (tk_data t + 1) lx1 in
        (Some (scast (of_nat (code_of c) :: 8 word)), lx2))
     else if tok_text s t = ''true'' then (Some 1, lx)
     else if tok_text s t = ''false'' then (Some 0, lx)
     else (None, lx))"

definition is_label_name :: "string \<Rightarrow> str \<Rightarrow> bool" where
  "is_label_name s x \<longleftrightarrow>
    (let k = code_of (at s (s_data x)) in (97 \<le> k \<and> k \<le> 122) \<or> at s (s_data x) = CHR ''_'')"

definition is_id :: "char \<Rightarrow> bool" where
  "is_id c \<longleftrightarrow> (let k = code_of c in is_digit c \<or> (97 \<le> k \<and> k \<le> 122) \<or> (65 \<le> k \<and> k \<le> 90)) \<or> c = CHR ''_''"

end
