(* ===== verification/Lexer_Laws.thy ===== *)
theory Lexer_Laws
  imports Lexer A64_State
begin

text \<open>
  What the lexer guarantees: when it stays inside the text, which tokens it finds, and what its
  literals denote.
\<close>

section \<open>Texts whose last line is complete\<close>

definition line_text :: "string \<Rightarrow> bool" where
  "line_text s \<longleftrightarrow> s \<noteq> [] \<and> last s = NL"

lemma line_text_at: "line_text s \<Longrightarrow> at s (length s - 1) = NL \<and> 0 < length s"
  by (auto simp: line_text_def at_def last_conv_nth)

lemma scan_lit_total: "at s j = NL \<Longrightarrow> i \<le> j \<Longrightarrow> \<exists>k. scan_lit s q i = Some k"
proof (induction s q i rule: scan_lit.induct)
  case (1 s q i)
  have "j < length s" using "1.prems"(1) by (intro at_less) simp
  then have i: "\<not> length s < i" using "1.prems"(2) by simp
  show ?case
  proof (cases "at s i = q \<or> at s i = NL")
    case True
    then show ?thesis using i by (subst scan_lit.simps) simp
  next
    case False
    then have "i + 1 \<le> j" using "1.prems" by (cases "i = j") auto
    then obtain k where "scan_lit s q (i + 1) = Some k" using "1.IH" i False "1.prems"(1) by auto
    then show ?thesis using False i by (subst scan_lit.simps) auto
  qed
qed

lemma before_last:
  assumes "line_text s" and "at s cur \<noteq> NUL" and "at s cur \<noteq> NL"
  shows "cur + 1 \<le> length s - 1"
proof -
  have "cur < length s" using assms(2) by (rule at_less)
  moreover have "cur \<noteq> length s - 1" using assms(3) line_text_at [OF assms(1)] by auto
  ultimately show ?thesis by linarith
qed

lemma scan_special_total: "brace_char (at s cur) \<or> sep_char (at s cur) \<Longrightarrow> \<exists>r. scan_special s e0 d cur ln = Some r"
  by (auto simp: scan_special_def Let_def split: prod.splits)

lemma scan_tok_total: "line_text s \<Longrightarrow> \<exists>r. scan_tok s e0 cur ln = Some r"
proof (induction s e0 cur ln rule: scan_tok.induct)
  case (1 s e0 cur ln)
  note nl = line_text_at [OF "1.prems", THEN conjunct1]
  show ?case
  proof (cases "length s < cur")
    case True
    then show ?thesis by (subst scan_tok.simps) simp
  next
    case in_text: False
    consider (lit) "at s cur = QUOTE \<or> at s cur = TICK"
      | (com) "\<not> (at s cur = QUOTE \<or> at s cur = TICK)" "comment_at s cur"
      | (spec) "\<not> (at s cur = QUOTE \<or> at s cur = TICK)" "\<not> comment_at s cur" "brace_char (at s cur) \<or> sep_char (at s cur)"
      | (more) "\<not> (at s cur = QUOTE \<or> at s cur = TICK)" "\<not> comment_at s cur" "\<not> (brace_char (at s cur) \<or> sep_char (at s cur))"
      by blast
    then show ?thesis
    proof cases
      case lit
      then have "cur + 1 \<le> length s - 1" by (intro before_last [OF "1.prems"]) auto
      then obtain k where "scan_lit s (at s cur) (cur + 1) = Some k" using scan_lit_total [OF nl] by blast
      then show ?thesis using lit in_text by (subst scan_tok.simps) (auto simp: src_advance_def)
    next
      case com
      then have "cur + 1 \<le> length s - 1" by (intro before_last [OF "1.prems"]) (auto simp: comment_at_def)
      then obtain k where k: "scan_lit s NL (cur + 1) = Some k" using scan_lit_total [OF nl] by blast
      then have "at s k = NL" using scan_lit_le [OF k] by simp
      then obtain r where "scan_special s e0 k k ln = Some r" using scan_special_total [of s k e0 k ln] by (auto simp: sep_char_def)
      then show ?thesis using com in_text k by (cases r; subst scan_tok.simps) (auto simp: Let_def)
    next
      case spec
      then show ?thesis using scan_special_total [OF spec(3)] in_text by (subst scan_tok.simps) (auto simp: Let_def)
    next
      case more
      then show ?thesis using "1.IH" "1.prems" in_text by (subst scan_tok.simps) (auto simp: Let_def)
    qed
  qed
qed

lemma tok_total: "line_text s \<Longrightarrow> \<exists>b lx'. tok s lx = Some (b, lx')"
proof (induction s lx rule: tok.induct)
  case (1 s lx)
  obtain d e c l where "scan_tok s (lx_cur lx) (lx_cur lx) (lx_lineno lx) = Some (d, e, c, l)"
    using scan_tok_total [OF "1.prems"] by (metis surj_pair)
  then obtain lx1 where r: "raw_tok s lx = Some lx1" by (simp add: raw_tok_def)
  show ?case
    using "1.IH" [OF r _ _ "1.prems"] r by (subst tok.simps) auto
qed

text \<open>Scanning reads beyond the zero byte behind the text only to go on beyond it.\<close>

lemma scan_lit_inside: "scan_lit s q i = Some k \<Longrightarrow> q \<noteq> NUL \<Longrightarrow> k < length s"
  using scan_lit_le [of s q i k] at_less [of s k] by auto

lemma scan_reads_inside:
  assumes "scan_tok s e0 cur ln = Some (d, e, c, l)" and "i \<in> set (scan_reads s e0 cur)"
  shows "i \<le> length s + 1 \<and> (c \<le> length s \<longrightarrow> i \<le> length s)"
  using assms
proof (induction s e0 cur ln rule: scan_tok.induct)
  case (1 s e0 cur ln)
  have in_text: "cur \<le> length s" using "1.prems"(2) by (subst (asm) scan_reads.simps) (auto split: if_splits)
  consider (lit) "at s cur = QUOTE \<or> at s cur = TICK"
    | (com) "\<not> (at s cur = QUOTE \<or> at s cur = TICK)" "comment_at s cur"
    | (spec) "\<not> (at s cur = QUOTE \<or> at s cur = TICK)" "\<not> comment_at s cur" "brace_char (at s cur) \<or> sep_char (at s cur)"
    | (more) "\<not> (at s cur = QUOTE \<or> at s cur = TICK)" "\<not> comment_at s cur" "\<not> (brace_char (at s cur) \<or> sep_char (at s cur))"
    by blast
  then show ?case
  proof cases
    case lit
    then obtain k where k: "scan_lit s (at s cur) (cur + 1) = Some k"
      using "1.prems"(1) in_text by (subst (asm) scan_tok.simps) (auto split: option.splits)
    have "k < length s" using scan_lit_inside [OF k] lit by auto
    moreover have "i < k + 2" using "1.prems"(2) in_text lit k by (subst (asm) scan_reads.simps) auto
    ultimately show ?thesis by linarith
  next
    case com
    then obtain k where k: "scan_lit s NL (cur + 1) = Some k"
      using "1.prems"(1) in_text by (subst (asm) scan_tok.simps) (auto split: option.splits)
    have "k < length s" using scan_lit_inside [OF k] by simp
    moreover have "cur < length s" using com by (intro at_less) (auto simp: comment_at_def)
    moreover have "i < k + 1 \<or> i \<le> cur + 1" using "1.prems"(2) in_text com k by (subst (asm) scan_reads.simps) auto
    ultimately show ?thesis by linarith
  next
    case spec
    then have t: "scan_special s e0 e0 cur ln = Some (d, e, c, l)"
      using "1.prems"(1) in_text by (subst (asm) scan_tok.simps) (auto simp: Let_def)
    have "i \<le> cur + 1" using "1.prems"(2) in_text spec by (subst (asm) scan_reads.simps) (auto split: if_splits)
    moreover have "cur < c" if "cur = length s"
      using t that by (auto simp: scan_special_def src_advance_def at_def brace_char_def sep_char_def Let_def)
    ultimately show ?thesis using in_text by (cases "cur = length s") auto
  next
    case more
    have "cur < length s" using more by (intro at_less) (auto simp: sep_char_def)
    moreover have "scan_tok s e0 (cur + 1) ln = Some (d, e, c, l)"
      using "1.prems"(1) in_text more by (subst (asm) scan_tok.simps) (auto simp: Let_def)
    moreover have "i \<le> cur + 1 \<or> i \<in> set (scan_reads s e0 (cur + 1))"
      using "1.prems"(2) in_text more by (subst (asm) scan_reads.simps) auto
    ultimately show ?thesis using "1.IH" in_text more by fastforce
  qed
qed

lemma at_in_text: "at s i = c \<Longrightarrow> c \<noteq> NUL \<Longrightarrow> Suc i \<le> length s"
  using at_less [of s i] by auto

lemma skip_newlines_inside: "cur \<le> length s \<Longrightarrow> fst (skip_newlines s cur ln) \<le> length s"
  by (induction s cur ln rule: skip_newlines.induct) (subst skip_newlines.simps, auto dest: at_in_text)

lemma skip_spaces_inside: "cur \<le> length s \<Longrightarrow> fst (skip_spaces s cur n) \<le> length s"
  by (induction s cur n rule: skip_spaces.induct) (subst skip_spaces.simps, auto dest: at_in_text)

lemma skip_comment_inside: "cur \<le> length s \<Longrightarrow> skip_comment s cur \<le> length s"
  by (induction s cur rule: skip_comment.induct) (subst skip_comment.simps, auto)

lemma indent_loop_inside: "cur \<le> length s \<Longrightarrow> fst (indent_loop s cur ln) \<le> length s"
proof (induction s cur ln rule: indent_loop.induct)
  case (1 s cur ln)
  obtain c1 l1 where 1: "skip_newlines s cur ln = (c1, l1)" by fastforce
  obtain c2 n where 2: "skip_spaces s c1 0 = (c2, n)" by fastforce
  have "c1 \<le> length s" using skip_newlines_inside [OF "1.prems", of ln] 1 by simp
  then have "c2 \<le> length s" using skip_spaces_inside [of c1 s 0] 2 by simp
  then show ?case
    using 1 2 "1.IH" [OF 1 [symmetric] refl 2 [symmetric] refl] skip_comment_inside
    by (subst indent_loop.simps) auto
qed

lemma accept_reads_inside: "lx_cur lx \<le> length s \<Longrightarrow> i \<in> set (accept_reads s lx) \<Longrightarrow> i \<le> length s"
  using indent_loop_inside [of "lx_cur lx" s "lx_lineno lx"]
  by (auto simp: accept_reads_def Let_def split: if_splits)

lemma tok_reads_inside:
  assumes "tok s lx = Some (b, lx')" and "i \<in> set (tok_reads s lx)"
  shows "i \<le> length s + (if b then 0 else 1)"
  using assms
proof (induction s lx rule: tok.induct)
  case (1 s lx)
  obtain lx1 where r: "raw_tok s lx = Some lx1"
    using "1.prems"(1) by (subst (asm) tok.simps) (auto split: option.splits)
  then obtain d e c l where t: "scan_tok s (lx_cur lx) (lx_cur lx) (lx_lineno lx) = Some (d, e, c, l)"
    and c: "lx_cur lx1 = c"
    by (auto simp: raw_tok_def split: option.splits)
  note scan = scan_reads_inside [OF t]
  consider "past_end s lx1" | "\<not> past_end s lx1" "empty_tok lx1" | "\<not> past_end s lx1" "\<not> empty_tok lx1" by blast
  then show ?case
  proof cases
    case 1
    then have "\<not> b" using "1.prems"(1) r by (subst (asm) tok.simps) simp
    moreover have "i \<in> set (scan_reads s (lx_cur lx) (lx_cur lx))"
      using "1.prems"(2) r 1 by (subst (asm) tok_reads.simps) simp
    ultimately show ?thesis using scan by simp
  next
    case 2
    then have "tok s lx1 = Some (b, lx')" using "1.prems"(1) r by (subst (asm) tok.simps) simp
    moreover have "i \<in> set (scan_reads s (lx_cur lx) (lx_cur lx)) \<or> i \<in> set (tok_reads s lx1)"
      using "1.prems"(2) r 2 by (subst (asm) tok_reads.simps) simp
    ultimately show ?thesis using "1.IH" [OF r 2] scan raw_tok_progress(2) [OF r 2] c by (auto simp: trans_le_add1)
  next
    case 3
    then have "i \<in> set (scan_reads s (lx_cur lx) (lx_cur lx)) \<or> i \<in> set (accept_reads s lx1)"
      using "1.prems"(2) r by (subst (asm) tok_reads.simps) simp
    moreover have "c \<le> length s" using 3 c by (simp add: past_end_def)
    ultimately show ?thesis using scan accept_reads_inside [of lx1 s i] c by (auto simp: trans_le_add1)
  qed
qed

text \<open>
  C27. On a text that ends in a newline the lexer runs out of the buffer by one byte at most, and only at the end. Every
  call of \<open>tok\<close>, from any position, returns. A call that gives a token reads nothing outside the buffer of the
  text and its zero byte. A call that finds the end of the text instead can read one byte more, the one
  behind the buffer, and does so when it starts at the zero byte: it compares that byte and the next with a comment.
\<close>

theorem tok_stays_in_text:
  assumes "line_text s"
  shows "\<exists>b lx'. tok s lx = Some (b, lx')
    \<and> (\<forall>i \<in> set (tok_reads s lx). i \<le> length s + (if b then 0 else 1))
    \<and> (lx_cur lx = length s \<longrightarrow> length s + 1 \<in> set (tok_reads s lx))"
proof -
  obtain b lx' where t: "tok s lx = Some (b, lx')" using tok_total [OF assms] by blast
  have "length s + 1 \<in> set (scan_reads s (length s) (length s))" by (subst scan_reads.simps) (simp add: at_def)
  then have "lx_cur lx = length s \<longrightarrow> length s + 1 \<in> set (tok_reads s lx)" by (subst tok_reads.simps) simp
  then show ?thesis using t tok_reads_inside [OF t] by blast
qed

lemma tok_stays_in_text_witness:
  "\<exists>lx'. tok [QUOTE, QUOTE, NL, CHR ''a'', NL] lexer0 = Some (True, lx') \<and> tok_reads [QUOTE, QUOTE, NL, CHR ''a'', NL] lexer0 \<noteq> []
    \<and> (\<forall>i \<in> set (tok_reads [QUOTE, QUOTE, NL, CHR ''a'', NL] lexer0). i \<le> 5)
    \<and> 6 \<in> set (tok_reads [QUOTE, QUOTE, NL, CHR ''a'', NL] (lexer0\<lparr>lx_cur := 5\<rparr>))"
proof -
  let ?s = "[QUOTE, QUOTE, NL, CHR ''a'', NL]"
  have l: "line_text ?s" by (simp add: line_text_def)
  have "fst (the (tok ?s lexer0))" "tok_reads ?s lexer0 \<noteq> []" by code_simp+
  then show ?thesis
    using tok_stays_in_text [OF l, of lexer0] tok_stays_in_text [OF l, of "lexer0\<lparr>lx_cur := 5\<rparr>"]
    by (auto simp: eval_nat_numeral)
qed





section \<open>Where tokens are\<close>

text \<open>
  A token that \<open>tok\<close> accepts is not empty and lies between the old and the new position, both inside
  the text; so every call makes progress, and a loop over the tokens of a text ends.
\<close>

lemma tok_in_text:
  assumes "tok s lx = Some (True, lx')"
  shows "lx_cur lx \<le> tk_data (lx_tok lx') \<and> tk_data (lx_tok lx') < tk_end (lx_tok lx')
    \<and> tk_end (lx_tok lx') \<le> lx_cur lx' \<and> tk_end (lx_tok lx') \<le> length s \<and> lx_cur lx < lx_cur lx'"
  using assms
proof (induction s lx rule: tok.induct)
  case (1 s lx)
  obtain lx1 where r: "raw_tok s lx = Some lx1"
    using "1.prems" by (subst (asm) tok.simps) (auto split: option.splits)
  then obtain d e c l where t: "scan_tok s (lx_cur lx) (lx_cur lx) (lx_lineno lx) = Some (d, e, c, l)"
    "lx1 = lx\<lparr>lx_cur := c, lx_lineno := l, lx_tok := (fresh_tok lx)\<lparr>tk_data := d, tk_end := e\<rparr>\<rparr>"
    by (auto simp: raw_tok_def split: option.splits)
  have in_text: "\<not> past_end s lx1" using "1.prems" r by (subst (asm) tok.simps) auto
  show ?case
  proof (cases "empty_tok lx1")
    case True
    then have "tok s lx1 = Some (True, lx')" using "1.prems" r in_text by (subst (asm) tok.simps) simp
    then show ?thesis using "1.IH" [OF r in_text True] raw_tok_progress [OF r in_text True] by auto
  next
    case False
    then have a: "lx' = accept_tok s lx1" using "1.prems" r in_text by (subst (asm) tok.simps) simp
    have "tk_data (lx_tok lx') = d" "tk_end (lx_tok lx') = e"
      unfolding a by (auto simp: accept_tok_def line_end_def lex_err_def t(2) Let_def split: prod.splits)
    moreover have "c \<le> lx_cur lx'"
      using accept_tok_le [of lx1 s] unfolding a [symmetric] by (simp add: t(2))
    ultimately show ?thesis
      using False in_text scan_tok_shape [OF t(1)] by (auto simp: t(2) empty_tok_def past_end_def)
  qed
qed

text \<open>What \<open>n\<close> calls of \<open>tok\<close> give, which stop where the text ends.\<close>

primrec toks :: "string \<Rightarrow> nat \<Rightarrow> lexer \<Rightarrow> (bool \<times> lexer) option" where
  "toks s 0 lx = Some (True, lx)"
| "toks s (Suc n) lx =
    (case tok s lx of None \<Rightarrow> None | Some (b, lx') \<Rightarrow> if b then toks s n lx' else Some (False, lx'))"

lemma toks_end: "line_text s \<Longrightarrow> length s - lx_cur lx < n \<Longrightarrow> \<exists>lx'. toks s n lx = Some (False, lx')"
proof (induction n arbitrary: lx)
  case (Suc n)
  obtain b lx' where t: "tok s lx = Some (b, lx')" using tok_total [OF Suc.prems(1)] by blast
  have "length s - lx_cur lx' < n" if b
    using tok_progress [OF t] that Suc.prems(2) by auto
  then show ?case using Suc.IH [OF Suc.prems(1), of lx'] t by simp
qed simp

text \<open>
  C29. Calling \<open>tok\<close> again and again comes to the end of the text, from any position and whatever the text
  contains, after at most one call more than there are characters left.
\<close>

theorem lexing_ends: "line_text s \<Longrightarrow> \<exists>lx'. toks s (length s - lx_cur lx + 1) lx = Some (False, lx')"
  by (rule toks_end) simp_all

lemma lexing_ends_witness: "\<exists>lx'. toks [CHR ''a'', NL] 3 lexer0 = Some (False, lx')"
  using lexing_ends [of "[CHR ''a'', NL]" lexer0] by (simp add: line_text_def lexer0_def numeral_3_eq_3)

section \<open>The tokens of a whole text\<close>

function lex_all :: "string \<Rightarrow> lexer \<Rightarrow> string list option" where
  "lex_all s lx =
    (case tok s lx of None \<Rightarrow> None
     | Some (b, lx') \<Rightarrow> if \<not> b then Some [] else map_option (Cons (tok_text s (lx_tok lx'))) (lex_all s lx'))"
  by pat_completeness auto
termination
  by (relation "measure (\<lambda>(s, lx). length s - lx_cur lx)") (auto dest!: tok_progress)

declare lex_all.simps [simp del]

text \<open>The words of a text: the non-empty runs of other characters that a separator ends.\<close>

function words :: "string \<Rightarrow> string list" where
  "words t =
    (let w = takeWhile (\<lambda>c. \<not> sep_char c) t in
     case dropWhile (\<lambda>c. \<not> sep_char c) t of [] \<Rightarrow> []
     | _ # r \<Rightarrow> if w = [] then words r else w # words r)"
  by pat_completeness auto
termination
proof (relation "measure length", goal_cases)
  case (2 t w c r)
  then show ?case using length_dropWhile_le [of "\<lambda>c. \<not> sep_char c" t] by simp
next
  case (3 t w c r)
  then show ?case using length_dropWhile_le [of "\<lambda>c. \<not> sep_char c" t] by simp
qed simp

declare words.simps [simp del]

definition plain_text :: "string \<Rightarrow> bool" where
  "plain_text s \<longleftrightarrow> (\<forall>c \<in> set s. \<not> brace_char c \<and> c \<noteq> QUOTE \<and> c \<noteq> TICK \<and> c \<noteq> CHR ''/'')"

lemma plain_at: "plain_text s \<Longrightarrow> \<not> brace_char (at s i) \<and> at s i \<noteq> QUOTE \<and> at s i \<noteq> TICK \<and> \<not> comment_at s i"
  by (auto simp: plain_text_def at_def brace_char_def comment_at_def)

lemma scan_plain:
  assumes "plain_text s" and "cur \<le> length s"
  shows "\<exists>l. scan_tok s e0 cur ln = (let k = cur + length (takeWhile (\<lambda>c. \<not> sep_char c) (drop cur s)) in Some (e0, k, k + 1, l))"
  using assms
proof (induction s e0 cur ln rule: scan_tok.induct)
  case (1 s e0 cur ln)
  note p = plain_at [OF "1.prems"(1), of cur]
  show ?case
  proof (cases "sep_char (at s cur)")
    case True
    then have "takeWhile (\<lambda>c. \<not> sep_char c) (drop cur s) = []"
      using "1.prems"(2) by (cases "drop cur s") (auto simp: at_def hd_drop_conv_nth [symmetric] split: if_splits)
    then show ?thesis
      using True p "1.prems"(2) by (subst scan_tok.simps) (auto simp: scan_special_def src_advance_def Let_def)
  next
    case False
    then have c: "cur < length s" by (intro at_less) (auto simp: sep_char_def)
    then have "drop cur s = at s cur # drop (cur + 1) s" by (simp add: at_def Cons_nth_drop_Suc)
    then show ?thesis
      using False p c "1.IH" [OF _ refl] "1.prems" by (subst scan_tok.simps) (auto simp: Let_def)
  qed
qed

text \<open>Leading separators do not matter to the words.\<close>

lemma words_sep: "sep_char c \<Longrightarrow> words (c # t) = words t"
  by (subst words.simps) simp

lemma words_skip:
  assumes "i \<le> j" and "\<And>k. i \<le> k \<Longrightarrow> k < j \<Longrightarrow> k < length s \<and> sep_char (s ! k)"
  shows "words (drop i s) = words (drop j s)"
  using assms
proof (induction "j - i" arbitrary: i)
  case (Suc n)
  then have "i < length s \<and> sep_char (s ! i)" by auto
  then have "words (drop i s) = words (drop (Suc i) s)"
    using words_sep by (simp add: Cons_nth_drop_Suc [symmetric])
  also have "\<dots> = words (drop j s)" using Suc by (intro Suc.hyps) auto
  finally show ?case .
qed simp

definition blanks :: "string \<Rightarrow> nat \<Rightarrow> nat \<Rightarrow> bool" where
  "blanks s i j \<longleftrightarrow> i \<le> j \<and> (\<forall>k. i \<le> k \<longrightarrow> k < j \<longrightarrow> k < length s \<and> sep_char (s ! k))"

lemma blanks_step:
  assumes "sep_char (at s i)" and "at s i \<noteq> NUL" and "blanks s (i + 1) j"
  shows "blanks s i j"
proof -
  have "i < length s" using assms(2) by (rule at_less)
  moreover have "sep_char (s ! i)" using assms(1) calculation by (simp add: at_def)
  moreover have "i = k \<or> i + 1 \<le> k" if "i \<le> k" for k using that by linarith
  ultimately show ?thesis using assms(3) unfolding blanks_def by (metis Suc_eq_plus1 Suc_leD)
qed

lemma blanks_refl: "blanks s i i"
  by (simp add: blanks_def)

lemma blanks_trans: "blanks s i j \<Longrightarrow> blanks s j k \<Longrightarrow> blanks s i k"
  unfolding blanks_def by (metis le_trans not_le)

lemma skip_newlines_blanks: "blanks s cur (fst (skip_newlines s cur ln))"
proof (induction s cur ln rule: skip_newlines.induct)
  case (1 s cur ln)
  show ?case
  proof (cases "at s cur = NL")
    case True
    then have "blanks s cur (fst (skip_newlines s (cur + 1) (ln + 1)))"
      using blanks_step [OF _ _ "1.IH"] by (simp add: sep_char_def)
    then show ?thesis using True by (subst skip_newlines.simps) simp
  next
    case False
    then show ?thesis by (subst skip_newlines.simps) (simp add: blanks_refl)
  qed
qed

lemma skip_spaces_blanks: "blanks s cur (fst (skip_spaces s cur n))"
proof (induction s cur n rule: skip_spaces.induct)
  case (1 s cur n)
  show ?case
  proof (cases "at s cur = CHR '' ''")
    case True
    then have "blanks s cur (fst (skip_spaces s (cur + 1) (n + 1)))"
      using blanks_step [OF _ _ "1.IH"] by (simp add: sep_char_def)
    then show ?thesis using True by (subst skip_spaces.simps) simp
  next
    case False
    then show ?thesis by (subst skip_spaces.simps) (simp add: blanks_refl)
  qed
qed

lemma indent_loop_blanks:
  assumes "plain_text s"
  shows "blanks s cur (fst (indent_loop s cur ln))"
proof -
  obtain c1 l1 where 1: "skip_newlines s cur ln = (c1, l1)" by fastforce
  obtain c2 n where 2: "skip_spaces s c1 0 = (c2, n)" by fastforce
  have "blanks s cur c1" using skip_newlines_blanks [of s cur ln] 1 by simp
  moreover have "blanks s c1 c2" using skip_spaces_blanks [of s c1 0] 2 by simp
  ultimately have "blanks s cur c2" by (rule blanks_trans)
  then show ?thesis using plain_at [OF assms, of c2] 1 2 by (subst indent_loop.simps) simp
qed

lemma accept_blanks:
  assumes "plain_text s"
  shows "blanks s (lx_cur lx) (lx_cur (accept_tok s lx))"
  using indent_loop_blanks [OF assms, of "lx_cur lx" "lx_lineno lx"]
  by (auto simp: accept_tok_def line_end_def lex_err_def Let_def blanks_refl split: prod.splits)

lemma tok_text_range:
  assumes "j \<le> length s"
  shows "map (at s) [i ..< j] = take (j - i) (drop i s)"
proof (rule nth_equalityI)
  fix k
  assume "k < length (map (at s) [i ..< j])"
  then have "k < j - i" by simp
  then have "i + k < length s" using assms by linarith
  then show "map (at s) [i ..< j] ! k = take (j - i) (drop i s) ! k"
    using \<open>k < j - i\<close> by (simp add: at_def)
qed (use assms in simp)

lemma words_scan:
  assumes "k = i + length (takeWhile (\<lambda>c. \<not> sep_char c) (drop i s))" and "k < length s"
  shows "words (drop i s) = (if k = i then words (drop (k + 1) s) else map (at s) [i ..< k] # words (drop (k + 1) s))"
proof -
  let ?p = "\<lambda>c. \<not> sep_char c"
  have "takeWhile ?p (drop i s) = take (k - i) (drop i s)"
    by (subst takeWhile_eq_take) (simp add: assms(1))
  then have w: "takeWhile ?p (drop i s) = map (at s) [i ..< k]"
    using assms(2) by (simp add: tok_text_range)
  have "dropWhile ?p (drop i s) = drop (k - i) (drop i s)"
    by (subst dropWhile_eq_drop) (simp add: assms(1))
  also have "\<dots> = s ! k # drop (k + 1) s"
    using assms by (simp add: Cons_nth_drop_Suc add.commute)
  finally have r: "dropWhile ?p (drop i s) = s ! k # drop (k + 1) s" .
  show ?thesis
    using assms(1) by (subst words.simps) (simp add: r w Let_def)
qed

lemma words_end:
  assumes "length s \<le> i + length (takeWhile (\<lambda>c. \<not> sep_char c) (drop i s))"
  shows "words (drop i s) = []"
proof -
  let ?p = "\<lambda>c. \<not> sep_char c"
  have "length (drop i s) \<le> length (takeWhile ?p (drop i s))" using assms by simp
  then have "takeWhile ?p (drop i s) = drop i s"
    by (metis append_Nil2 append_eq_conv_conj length_0_conv length_append le_antisym length_takeWhile_le takeWhile_dropWhile_id)
  then have "dropWhile ?p (drop i s) = []"
    by (metis append_self_conv takeWhile_dropWhile_id)
  then show ?thesis by (subst words.simps) (simp only: list.case Let_def)
qed

lemma tok_words:
  assumes "plain_text s" and "lx_cur lx \<le> length s"
  shows "\<exists>b lx'. tok s lx = Some (b, lx') \<and>
    (if b then words (drop (lx_cur lx) s) = tok_text s (lx_tok lx') # words (drop (lx_cur lx') s) \<and> lx_cur lx' \<le> length s
     else words (drop (lx_cur lx) s) = [])"
  using assms
proof (induction s lx rule: tok.induct)
  case (1 s lx)
  let ?i = "lx_cur lx"
  define k where "k = ?i + length (takeWhile (\<lambda>c. \<not> sep_char c) (drop ?i s))"
  obtain l where t: "scan_tok s ?i ?i (lx_lineno lx) = Some (?i, k, k + 1, l)"
    using scan_plain [OF "1.prems", of ?i "lx_lineno lx"] by (auto simp: k_def Let_def)
  define lx1 where "lx1 = lx\<lparr>lx_cur := k + 1, lx_lineno := l, lx_tok := (fresh_tok lx)\<lparr>tk_data := ?i, tk_end := k\<rparr>\<rparr>"
  have r: "raw_tok s lx = Some lx1" using t by (simp add: raw_tok_def lx1_def)
  consider "length s \<le> k" | "k < length s" "k = ?i" | "k < length s" "?i < k" by (fastforce simp: k_def)
  then show ?case
  proof cases
    case 1
    then have "past_end s lx1" by (simp add: past_end_def lx1_def)
    then show ?thesis
      using words_end [of s ?i] 1 r
      by (intro exI [of _ False] exI [of _ "at_eof s lx1"], subst tok.simps) (simp add: k_def)
  next
    case 2
    then have in_text: "\<not> past_end s lx1" "empty_tok lx1" by (simp_all add: past_end_def empty_tok_def lx1_def)
    have t1: "tok s lx = tok s lx1" using r in_text by (subst tok.simps) simp
    have w1: "words (drop ?i s) = words (drop (lx_cur lx1) s)"
      using words_scan [OF k_def 2(1)] 2(2) by (simp add: lx1_def)
    have "lx_cur lx1 \<le> length s" using 2(1) by (simp add: lx1_def)
    then show ?thesis unfolding t1 w1 by (rule "1.IH" [OF r in_text "1.prems"(1)])
  next
    case 3
    then have in_text: "\<not> past_end s lx1" "\<not> empty_tok lx1" by (simp_all add: past_end_def empty_tok_def lx1_def)
    define lx2 where "lx2 = accept_tok s lx1"
    have b: "blanks s (k + 1) (lx_cur lx2)" using accept_blanks [OF "1.prems"(1), of lx1] by (simp add: lx2_def lx1_def)
    have "words (drop (k + 1) s) = words (drop (lx_cur lx2) s)"
      using b unfolding blanks_def by (intro words_skip) auto
    moreover have "lx_cur lx2 \<le> length s"
    proof (cases "k + 1 < lx_cur lx2")
      case True
      then have "lx_cur lx2 - 1 < length s" using b unfolding blanks_def by auto
      then show ?thesis by linarith
    qed (use 3(1) in linarith)
    moreover have "tok_text s (lx_tok lx2) = map (at s) [?i ..< k]"
      by (auto simp: tok_text_def lx2_def lx1_def accept_tok_def line_end_def lex_err_def Let_def split: prod.splits)
    ultimately show ?thesis
      using r in_text words_scan [OF k_def 3(1)] 3(2)
      by (intro exI [of _ True] exI [of _ lx2], subst tok.simps) (simp add: lx2_def)
  qed
qed

text \<open>
  C14. On a text without quotation marks, slashes and braces, repeated calls of \<open>tok\<close> give exactly the
  words of the text, in order, and then the end of the text: whatever the lines, the indentation and
  the blanks between them. A last word that no separator ends is not among them.
\<close>

theorem tokens_are_words: "plain_text s \<Longrightarrow> lx_cur lx \<le> length s \<Longrightarrow> lex_all s lx = Some (words (drop (lx_cur lx) s))"
proof (induction s lx rule: lex_all.induct)
  case (1 s lx)
  obtain b lx' where t: "tok s lx = Some (b, lx')"
    "if b then words (drop (lx_cur lx) s) = tok_text s (lx_tok lx') # words (drop (lx_cur lx') s) \<and> lx_cur lx' \<le> length s
     else words (drop (lx_cur lx) s) = []"
    using tok_words [OF "1.prems"] by blast
  then show ?case
    using "1.IH" [OF t(1) refl] "1.prems" by (subst lex_all.simps) (cases b; simp)
qed

lemma tokens_are_words_witness:
  "lex_all [CHR ''a'', NL, CHR '' '', CHR ''b'', CHR '';'', CHR ''c''] lexer0 = Some [''a'', ''b'']"
proof -
  have "words [CHR ''a'', NL, CHR '' '', CHR ''b'', CHR '';'', CHR ''c''] = [''a'', ''b'']"
    by (subst words.simps, simp add: sep_char_def, subst words.simps, simp add: sep_char_def,
        subst words.simps, simp add: sep_char_def, subst words.simps, simp add: sep_char_def)
  then show ?thesis
    using tokens_are_words [of "[CHR ''a'', NL, CHR '' '', CHR ''b'', CHR '';'', CHR ''c'']" lexer0]
    by (simp add: plain_text_def brace_char_def lexer0_def)
qed

section \<open>Literals\<close>

text \<open>
  C38. A back end that wants escapes resolved gets a string literal that has lost its text: as many
  quotation marks as the literal is long, whatever the characters between the quotes.
\<close>

theorem literal_string_lost:
  assumes "at s (tk_data t) = QUOTE"
  shows "fst (literal_string True s t lx) = replicate (tk_end t - tk_data t) QUOTE"
proof -
  have "fst (escape_all s i n lx) = replicate n QUOTE" if "at s i = QUOTE" for i n lx
    using that by (induction n arbitrary: lx) (simp_all add: char_escape_def case_prod_beta')
  then show ?thesis using assms by (simp add: literal_string_def Let_def)
qed

lemma literal_string_lost_witness:
  "fst (literal_string True [QUOTE, CHR ''h'', CHR ''i'', QUOTE] (token0\<lparr>tk_end := 4\<rparr>) lexer0) = [QUOTE, QUOTE, QUOTE, QUOTE]"
  using literal_string_lost [of "[QUOTE, CHR ''h'', CHR ''i'', QUOTE]" "token0\<lparr>tk_end := 4\<rparr>" lexer0]
  by (simp add: at_def token0_def eval_nat_numeral)

definition stops :: "string \<Rightarrow> bool" where
  "stops r \<longleftrightarrow> r = [] \<or> digit_val (hd r) = 99"

lemma digit_char:
  fixes d :: nat
  assumes "d < 10"
  shows "digit_val (char_of (48 + d)) = d" and "\<not> is_space (char_of (48 + d))" and "char_of (48 + d) \<noteq> CHR ''-''"
    and "char_of (48 + d) \<noteq> CHR ''+''" and "char_of (48 + d) = CHR ''0'' \<longleftrightarrow> d = 0"
proof -
  have "d \<in> {0, 1, 2, 3, 4, 5, 6, 7, 8, 9}" using assms by auto
  then show "digit_val (char_of (48 + d)) = d" "\<not> is_space (char_of (48 + d))" "char_of (48 + d) \<noteq> CHR ''-''"
    "char_of (48 + d) \<noteq> CHR ''+''" "char_of (48 + d) = CHR ''0'' \<longleftrightarrow> d = 0"
    by (auto simp: digit_val_def code_of_def is_digit_def is_space_def Let_def char_of_eq_iff)
qed

lemma nat_dec_first: "\<exists>(d :: nat) cs. nat_dec n = char_of (48 + d) # cs \<and> d < 10 \<and> (d = 0 \<longrightarrow> n = 0)"
proof (induction n rule: nat_dec.induct)
  case (1 n)
  show ?case
  proof (cases "n < 10")
    case True
    then show ?thesis by (subst nat_dec.simps) (intro exI [of _ n], simp)
  next
    case False
    then obtain d :: nat and cs where "nat_dec (n div 10) = char_of (48 + d) # cs" "d < 10" "d = 0 \<longrightarrow> n div 10 = 0" using 1 by auto
    then show ?thesis using False by (subst nat_dec.simps) (intro exI [of _ d], auto)
  qed
qed

lemma read_nat_dec: "read_digits 10 0 (nat_dec n @ r) = read_digits 10 n r"
proof (induction n arbitrary: r rule: nat_dec.induct)
  case (1 n)
  show ?case
  proof (cases "n < 10")
    case True
    then show ?thesis by (subst nat_dec.simps) (simp add: digit_char)
  next
    case False
    then have "read_digits 10 0 (nat_dec n @ r) = read_digits 10 0 (nat_dec (n div 10) @ char_of (48 + n mod 10) # r)"
      by (subst nat_dec.simps) simp
    also have "\<dots> = read_digits 10 n r"
      using digit_char(1) [of "n mod 10"] by (subst "1.IH" [OF False]) simp
    finally show ?thesis .
  qed
qed

lemma read_stops: "stops r \<Longrightarrow> base \<le> 36 \<Longrightarrow> read_digits base acc r = acc"
  by (cases r) (auto simp: stops_def)

lemma stops_not_x: "stops r \<Longrightarrow> take 1 r \<notin> {''x'', ''X''}"
  by (cases r) (auto simp: stops_def digit_val_def code_of_def is_digit_def Let_def)

lemma read_magnitude_dec:
  assumes "stops r"
  shows "read_magnitude (nat_dec n @ r) = n"
proof (cases "n = 0")
  case True
  have "nat_dec 0 = ''0''" by (subst nat_dec.simps) (simp add: char_of_eq_iff)
  then show ?thesis
    using True stops_not_x [OF assms] assms
    by (simp add: read_magnitude_def read_stops digit_val_def code_of_def is_digit_def)
next
  case False
  then obtain d :: nat and cs where "nat_dec n = char_of (48 + d) # cs" "d < 10" "d \<noteq> 0" using nat_dec_first [of n] by auto
  then have "take 1 (nat_dec n @ r) \<noteq> ''0''" using digit_char(5) [of d] by simp
  then show ?thesis using assms by (simp add: read_magnitude_def read_nat_dec read_stops)
qed

text \<open>
  A decimal literal is read back exactly: for every 64-bit value, the digits the value prints as,
  with its sign, followed by anything that is not a letter or a digit, are the value.
\<close>

lemma strtoll_decimal:
  assumes "- (2 ^ 63) \<le> i" and "i < 2 ^ 63" and "stops r"
  shows "strtoll (int_dec i @ r) = word_of_int i"
proof (cases "i < 0")
  case True
  then show ?thesis
    using assms read_magnitude_dec [OF assms(3), of "nat (- i)"]
    by (simp add: strtoll_def int_dec_def is_space_def saturate_def Let_def)
next
  case False
  obtain d :: nat and cs where d: "nat_dec (nat i) = char_of (48 + d) # cs" "d < 10" using nat_dec_first by blast
  note m = read_magnitude_dec [OF assms(3), of "nat i", unfolded d(1)]
  show ?thesis
    using False assms m digit_char(2-4) [OF d(2)]
    by (simp add: strtoll_def int_dec_def d(1) saturate_def Let_def)
qed

lemma strtoll_decimal_example: "strtoll (int_dec (- 42) @ [NL]) = - 42"
  using strtoll_decimal [of "- 42" "[NL]"] by (simp add: stops_def digit_val_def code_of_def is_digit_def)

end
