(* ===== verification/Emit_Interface.thy ===== *)
theory Emit_Interface
  imports A64_Link X64_Link
begin

text \<open>
  The interface \<open>src/alc/emit.h\<close> that the parser is compiled against: the operations of a back end on
  its state, and the two back ends that write machine code. An operation that follows type pointers
  takes the type store. \<open>None\<close> stands for what a back end leaves undefined.
\<close>

record 'b back_end =
  be_need_escaping :: bool
  be_default_register_size :: usize
  be_fn_begin :: "nat \<Rightarrow> 'b \<Rightarrow> 'b option"
  be_fn_end :: "nat \<Rightarrow> 'b \<Rightarrow> 'b option"
  be_eightbyte_struct :: "tstore \<Rightarrow> reg \<Rightarrow> dtype \<Rightarrow> agg_member list \<Rightarrow> nat \<Rightarrow> usize \<Rightarrow> usize \<Rightarrow> 'b \<Rightarrow> (bool \<times> nat \<times> usize \<times> 'b) option"
  be_store_eightbytes :: "tstore \<Rightarrow> reg \<Rightarrow> i64 \<Rightarrow> reg \<Rightarrow> bool \<Rightarrow> reg \<Rightarrow> bool \<Rightarrow> bool \<Rightarrow> 'b \<Rightarrow> 'b option"
  be_store_packed :: "tstore \<Rightarrow> reg \<Rightarrow> i64 \<Rightarrow> reg \<Rightarrow> usize \<Rightarrow> 'b \<Rightarrow> 'b option"
  be_zerofill :: "tstore \<Rightarrow> reg \<Rightarrow> i64 \<Rightarrow> dtype \<Rightarrow> 'b \<Rightarrow> 'b option"
  be_array_access :: "tstore \<Rightarrow> reg \<Rightarrow> reg \<Rightarrow> reg \<Rightarrow> bool \<Rightarrow> 'b \<Rightarrow> 'b option"
  be_elem_addr :: "tstore \<Rightarrow> reg \<Rightarrow> reg \<Rightarrow> reg \<Rightarrow> 'b \<Rightarrow> 'b option"
  be_mov :: "tstore \<Rightarrow> reg \<Rightarrow> i64 \<Rightarrow> 'b \<Rightarrow> 'b option"
  be_mov_reg :: "tstore \<Rightarrow> reg \<Rightarrow> reg \<Rightarrow> 'b \<Rightarrow> 'b option"
  be_add :: "tstore \<Rightarrow> reg \<Rightarrow> reg \<Rightarrow> i64 \<Rightarrow> 'b \<Rightarrow> 'b option"
  be_add_reg :: "tstore \<Rightarrow> reg \<Rightarrow> reg \<Rightarrow> reg \<Rightarrow> 'b \<Rightarrow> 'b option"
  be_sub :: "tstore \<Rightarrow> reg \<Rightarrow> reg \<Rightarrow> i64 \<Rightarrow> 'b \<Rightarrow> 'b option"
  be_sub_reg :: "tstore \<Rightarrow> reg \<Rightarrow> reg \<Rightarrow> reg \<Rightarrow> 'b \<Rightarrow> 'b option"
  be_cmp :: "tstore \<Rightarrow> reg \<Rightarrow> i64 \<Rightarrow> 'b \<Rightarrow> 'b option"
  be_cmp_reg :: "tstore \<Rightarrow> reg \<Rightarrow> reg \<Rightarrow> cond \<Rightarrow> 'b \<Rightarrow> 'b option"
  be_string_lit :: "reg \<Rightarrow> string \<Rightarrow> 'b \<Rightarrow> 'b option"
  be_lsl :: "tstore \<Rightarrow> reg \<Rightarrow> reg \<Rightarrow> i64 \<Rightarrow> 'b \<Rightarrow> 'b option"
  be_zero_out :: "reg \<Rightarrow> 'b \<Rightarrow> 'b option"
  be_cond_set :: "tstore \<Rightarrow> reg \<Rightarrow> cond \<Rightarrow> 'b \<Rightarrow> 'b option"
  be_str_reg :: "tstore \<Rightarrow> reg \<Rightarrow> reg \<Rightarrow> i32 \<Rightarrow> 'b \<Rightarrow> 'b option"
  be_str_imm :: "tstore \<Rightarrow> reg \<Rightarrow> i64 \<Rightarrow> i32 \<Rightarrow> 'b \<Rightarrow> 'b option"
  be_ldr :: "tstore \<Rightarrow> reg \<Rightarrow> reg \<Rightarrow> i32 \<Rightarrow> 'b \<Rightarrow> 'b option"
  be_str_regoff :: "tstore \<Rightarrow> reg \<Rightarrow> reg \<Rightarrow> reg \<Rightarrow> 'b \<Rightarrow> 'b option"
  be_str_imm_regoff :: "tstore \<Rightarrow> reg \<Rightarrow> i64 \<Rightarrow> reg \<Rightarrow> 'b \<Rightarrow> 'b option"
  be_ldr_reg :: "tstore \<Rightarrow> reg \<Rightarrow> reg \<Rightarrow> reg \<Rightarrow> 'b \<Rightarrow> 'b option"
  be_branch :: "string \<Rightarrow> string \<Rightarrow> int \<Rightarrow> 'b \<Rightarrow> 'b option"
  be_branch_cond :: "cond \<Rightarrow> string \<Rightarrow> string \<Rightarrow> int \<Rightarrow> 'b \<Rightarrow> 'b option"
  be_label :: "string \<Rightarrow> string \<Rightarrow> int \<Rightarrow> 'b \<Rightarrow> 'b option"
  be_prologue_epilogue :: "parser_context \<Rightarrow> 'b \<Rightarrow> 'b option"
  be_fn_call :: "string \<Rightarrow> 'b \<Rightarrow> 'b option"
  be_fn :: "string \<Rightarrow> 'b \<Rightarrow> 'b option"
  be_ret :: "'b \<Rightarrow> 'b option"

definition a64_back_end :: "a64 back_end" where
  "a64_back_end = \<lparr>
     be_need_escaping = True,
     be_default_register_size = 8,
     be_fn_begin = (\<lambda>c st. Some (emit_fn_begin c st)),
     be_fn_end = (\<lambda>c st. Some (emit_fn_end c st)),
     be_eightbyte_struct = emit_eightbyte_struct,
     be_store_eightbytes = (\<lambda>ts b off lo lw hi hw h st. Some (emit_store_eightbytes ts b off lo lw hi hw h st)),
     be_store_packed = (\<lambda>ts b off src n st. Some (emit_store_packed ts b off src n st)),
     be_zerofill = emit_zerofill,
     be_array_access = emit_array_access,
     be_elem_addr = emit_elem_addr,
     be_mov = (\<lambda>ts d v st. Some (emit_mov d v st)),
     be_mov_reg = (\<lambda>ts d s st. Some (emit_mov_reg ts d s st)),
     be_add = (\<lambda>ts d l v st. Some (emit_add ts d l v st)),
     be_add_reg = (\<lambda>ts d l r st. Some (emit_add_reg ts d l r st)),
     be_sub = (\<lambda>ts d l v st. Some (emit_sub ts d l v st)),
     be_sub_reg = (\<lambda>ts d l r st. Some (emit_sub_reg ts d l r st)),
     be_cmp = (\<lambda>ts l v st. Some (emit_cmp l v st)),
     be_cmp_reg = (\<lambda>ts l r c st. Some (emit_cmp_reg ts l r c st)),
     be_string_lit = (\<lambda>d s st. Some (emit_string_lit d s st)),
     be_lsl = (\<lambda>ts d l v st. Some (emit_lsl d l v st)),
     be_zero_out = (\<lambda>d st. Some (emit_zero_out d st)),
     be_cond_set = (\<lambda>ts d c st. Some (emit_cond_set d c st)),
     be_str_reg = (\<lambda>ts d s off st. Some (emit_str_reg ts d s off st)),
     be_str_imm = (\<lambda>ts d v off st. Some (emit_str_imm ts d v off st)),
     be_ldr = (\<lambda>ts d s off st. Some (emit_ldr ts d s off st)),
     be_str_regoff = (\<lambda>ts d s off st. Some (emit_str_regoff ts d s off st)),
     be_str_imm_regoff = (\<lambda>ts d v off st. Some (emit_str_imm_regoff ts d v off st)),
     be_ldr_reg = (\<lambda>ts d s off st. Some (emit_ldr_reg ts d s off st)),
     be_branch = (\<lambda>f l i st. Some (emit_branch f l i st)),
     be_branch_cond = (\<lambda>c f l i st. Some (snd (emit_branch_cond c f l i st))),
     be_label = (\<lambda>f l i st. Some (emit_label f l i st)),
     be_prologue_epilogue = (\<lambda>pc st. Some (emit_fn_prologue_epilogue pc st)),
     be_fn_call = (\<lambda>s st. Some (emit_fn_call s st)),
     be_fn = (\<lambda>s st. Some (emit_fn s st)),
     be_ret = (\<lambda>st. Some (emit_ret st))\<rparr>"

text \<open>The second back end ignores the limit of \<open>emit_eightbyte_struct\<close>.\<close>

definition x64_back_end :: "abi \<Rightarrow> x64 back_end" where
  "x64_back_end a = \<lparr>
     be_need_escaping = True,
     be_default_register_size = 8,
     be_fn_begin = (\<lambda>c st. Some (emit_fn_begin_x64 c st)),
     be_fn_end = (\<lambda>c st. Some (emit_fn_end_x64 c st)),
     be_eightbyte_struct = (\<lambda>ts d dt args i sz limit st. emit_eightbyte_struct_x64 a ts d dt args i sz st),
     be_store_eightbytes = (\<lambda>ts b off lo lw hi hw h st. Some (emit_store_eightbytes_x64 a b off lo lw hi hw h st)),
     be_store_packed = (\<lambda>ts b off src n st. Some (emit_store_packed_x64 a b off src n st)),
     be_zerofill = emit_zerofill_x64 a,
     be_array_access = emit_array_access_x64 a,
     be_elem_addr = emit_elem_addr_x64 a,
     be_mov = (\<lambda>ts d v st. Some (emit_mov_x64 a d v st)),
     be_mov_reg = (\<lambda>ts d s st. Some (emit_mov_reg_x64 a ts d s st)),
     be_add = (\<lambda>ts d l v st. Some (emit_add_x64 a d l v st)),
     be_add_reg = (\<lambda>ts d l r st. Some (emit_add_reg_x64 a ts d l r st)),
     be_sub = (\<lambda>ts d l v st. Some (emit_sub_x64 a d l v st)),
     be_sub_reg = (\<lambda>ts d l r st. Some (emit_sub_reg_x64 a ts d l r st)),
     be_cmp = (\<lambda>ts l v st. Some (emit_cmp_x64 a l v st)),
     be_cmp_reg = (\<lambda>ts l r c st. Some (emit_cmp_reg_x64 a ts l r c st)),
     be_string_lit = (\<lambda>d s st. Some (emit_string_lit_x64 a d s st)),
     be_lsl = (\<lambda>ts d l v st. Some (emit_lsl_x64 a ts d l v st)),
     be_zero_out = (\<lambda>d st. Some (emit_zero_out_x64 a d st)),
     be_cond_set = (\<lambda>ts d c st. Some (emit_cond_set_x64 a ts d c st)),
     be_str_reg = (\<lambda>ts d s off st. Some (emit_str_reg_x64 a d s off st)),
     be_str_imm = (\<lambda>ts d v off st. emit_str_imm_x64 a ts d v off st),
     be_ldr = (\<lambda>ts d s off st. Some (emit_ldr_x64 a d s off st)),
     be_str_regoff = (\<lambda>ts d s off st. Some (emit_str_regoff_x64 a d s off st)),
     be_str_imm_regoff = (\<lambda>ts d v off st. emit_str_imm_regoff_x64 a ts d v off st),
     be_ldr_reg = (\<lambda>ts d s off st. Some (emit_ldr_reg_x64 a d s off st)),
     be_branch = (\<lambda>f l i st. Some (emit_branch_x64 f l i st)),
     be_branch_cond = (\<lambda>c f l i st. Some (snd (emit_branch_cond_x64 c f l i st))),
     be_label = (\<lambda>f l i st. Some (emit_label_x64 f l i st)),
     be_prologue_epilogue = (\<lambda>pc st. Some (emit_fn_prologue_epilogue_x64 a pc st)),
     be_fn_call = (\<lambda>s st. Some (emit_fn_call_x64 s st)),
     be_fn = (\<lambda>s st. Some (emit_fn_x64 s st)),
     be_ret = (\<lambda>st. Some (emit_ret_x64 st))\<rparr>"

end
