(* ===== verification/Parser_State.thy ===== *)
theory Parser_State
  imports Lexer Hash_Tables Emit_Interface "HOL-Library.Monad_Syntax"
begin

text \<open>
  The state of the parser of \<open>src/alc/main.c\<close> and the functions on it that read at most one token: type
  checks, comptime literals, register sizes, members, struct layout, stack slots, and the helpers
  that lift the lexer, the tables and a back end to that state.

  The environment holds what a run does not change: the text and the name of the source, the files that
  can be read, how \<open>char\<close> converts to \<open>u64\<close>, the back end. A type pointer is the slot of the type in the table of types, or one of two further addresses for
  the types the code declares as objects. A report is the format text of the message. \<open>None\<close> stands for a
  null pointer followed, a failed \<open>assert\<close>, an \<open>unreachable\<close>, an abort, or a read beyond the text.
\<close>

section \<open>State\<close>

record 'b env =
  en_text :: string
  en_name :: string
  en_files :: "string \<Rightarrow> string option"
  en_cv :: "char \<Rightarrow> u64"
  en_be :: "'b back_end"

text \<open>
  \<open>ps_null_tok\<close>: the context is new and its token has the null pointers of the initialiser. \<open>ps_depth\<close>: how many
  calls of \<open>compile\<close> are active; each has its own \<open>emit_context_t\<close>.
\<close>

record 'b pst =
  ps_lx :: lexer
  ps_null_tok :: bool
  ps_pc :: parser_context
  ps_ids :: "reg scopes"
  ps_consts :: "i64 table"
  ps_fns :: "symbol table"
  ps_types :: "type_t table"
  ps_i32 :: "nat option"
  ps_usize :: "nat option"
  ps_arena :: allocator
  ps_symbols_any :: bool
  ps_import_all :: bool
  ps_depth :: nat
  ps_be :: 'b
  ps_errs :: "string list"
  ps_warns :: "string list"

definition COMPTIME :: nat where "COMPTIME = 128"
definition ERROR_TYPE :: nat where "ERROR_TYPE = 129"

definition type_comptime_int :: type_t where
  "type_comptime_int = \<lparr>ty_size = 0, ty_align = 0, ty_tag = TK_NONE, ty_sign = True, ty_name = ''comptime int'', ty_members = []\<rparr>"

definition error_type :: type_t where
  "error_type = \<lparr>ty_size = 0, ty_align = 0, ty_tag = TK_NONE, ty_sign = False, ty_name = ''error_type'', ty_members = []\<rparr>"

definition tys :: "'b pst \<Rightarrow> tstore" where
  "tys st a = (if a < 128 then snd (ps_types st ! a) else if a = COMPTIME then type_comptime_int else error_type)"

definition base_of :: "'b pst \<Rightarrow> dtype \<Rightarrow> type_t option" where
  "base_of st d = base_type (tys st) d"

definition compile_err :: "string \<Rightarrow> 'b pst \<Rightarrow> 'b pst" where
  "compile_err m st = st\<lparr>ps_errs := ps_errs st @ [m]\<rparr>"

definition compile_warning :: "string \<Rightarrow> 'b pst \<Rightarrow> 'b pst" where
  "compile_warning m st = st\<lparr>ps_warns := ps_warns st @ [m]\<rparr>"

text \<open>A check and its report.\<close>

definition err_if :: "bool \<Rightarrow> string \<Rightarrow> 'b pst \<Rightarrow> 'b pst" where
  "err_if b m st = (if b then compile_err m st else st)"

section \<open>Lifting the components\<close>

definition upd_pc :: "(parser_context \<Rightarrow> parser_context) \<Rightarrow> 'b pst \<Rightarrow> 'b pst" where
  "upd_pc f st = st\<lparr>ps_pc := f (ps_pc st)\<rparr>"

definition creg :: "'b pst \<Rightarrow> reg" where
  "creg st = pc_reg (ps_pc st)"

definition upd_creg :: "(reg \<Rightarrow> reg) \<Rightarrow> 'b pst \<Rightarrow> 'b pst" where
  "upd_creg f st = upd_pc (\<lambda>pc. pc\<lparr>pc_reg := f (pc_reg pc)\<rparr>) st"

definition set_creg :: "reg \<Rightarrow> 'b pst \<Rightarrow> 'b pst" where
  "set_creg r st = upd_creg (\<lambda>_. r) st"

definition cur_tok :: "'b pst \<Rightarrow> token" where
  "cur_tok st = lx_tok (ps_lx st)"

definition next_tok :: "'b env \<Rightarrow> 'b pst \<Rightarrow> (bool \<times> 'b pst) option" where
  "next_tok en st = map_option (\<lambda>(b, lx). (b, st\<lparr>ps_lx := lx, ps_null_tok := False\<rparr>)) (tok (en_text en) (ps_lx st))"

definition skip_tok :: "'b env \<Rightarrow> 'b pst \<Rightarrow> 'b pst option" where
  "skip_tok en st = map_option snd (next_tok en st)"

definition expect_tok :: "'b env \<Rightarrow> string \<Rightarrow> 'b pst \<Rightarrow> 'b pst" where
  "expect_tok en w st = st\<lparr>ps_lx := snd (expect (en_text en) w (ps_lx st))\<rparr>"

definition tok_id :: "'b env \<Rightarrow> 'b pst \<Rightarrow> string" where
  "tok_id en st = tok_text (en_text en) (cur_tok st)"

definition tok_str :: "'b pst \<Rightarrow> str" where
  "tok_str st = \<lparr>s_data = tk_data (cur_tok st), s_end = tk_end (cur_tok st)\<rparr>"

definition sub :: "'b env \<Rightarrow> str \<Rightarrow> string" where
  "sub en x = map (at (en_text en)) [s_data x ..< s_end x]"

text \<open>Reading one byte of the text, and comparing the bytes from a position on with a literal.\<close>

definition rd :: "'b env \<Rightarrow> nat \<Rightarrow> char option" where
  "rd en i = (if i \<le> length (en_text en) then Some (at (en_text en) i) else None)"

definition streq :: "'b env \<Rightarrow> nat \<Rightarrow> string \<Rightarrow> bool option" where
  "streq en i w = (if i \<le> length (en_text en) then Some (streq_at (en_text en) i w) else None)"

definition is_tok_char :: "'b env \<Rightarrow> 'b pst \<Rightarrow> char \<Rightarrow> bool" where
  "is_tok_char en st c = is_char_token (en_text en) (cur_tok st) c"

text \<open>A token that ends in \<open>->\<close>; the code reads the two bytes before the end of the token.\<close>

definition ends_arrow :: "'b env \<Rightarrow> token \<Rightarrow> bool" where
  "ends_arrow en t \<longleftrightarrow> 2 \<le> tk_end t \<and> streq_at (en_text en) (tk_end t - 2) ''->''"

definition is_upper :: "char \<Rightarrow> bool" where
  "is_upper c \<longleftrightarrow> 65 \<le> code_of c \<and> code_of c \<le> 90"

definition is_lower :: "char \<Rightarrow> bool" where
  "is_lower c \<longleftrightarrow> 97 \<le> code_of c \<and> code_of c \<le> 122"

definition is_alnum :: "char \<Rightarrow> bool" where
  "is_alnum c \<longleftrightarrow> is_upper c \<or> is_lower c \<or> is_digit c"

definition found :: "'a outcome option \<Rightarrow> 'a option" where
  "found x = (case x of None \<Rightarrow> None | Some Abort \<Rightarrow> None | Some (Done a) \<Rightarrow> Some a)"

definition emit :: "'b env \<Rightarrow> ('b back_end \<Rightarrow> tstore \<Rightarrow> 'b \<Rightarrow> 'b option) \<Rightarrow> 'b pst \<Rightarrow> 'b pst option" where
  "emit en f st = map_option (\<lambda>b. st\<lparr>ps_be := b\<rparr>) (f (en_be en) (tys st) (ps_be st))"

text \<open>Registers of local names, by the scope and the slot a pointer to them denotes.\<close>

definition reg_at :: "'b pst \<Rightarrow> nat \<times> nat \<Rightarrow> reg" where
  "reg_at st p = snd (sc_data (ps_ids st) ! fst p ! snd p)"

definition set_reg_at :: "nat \<times> nat \<Rightarrow> reg \<Rightarrow> 'b pst \<Rightarrow> 'b pst" where
  "set_reg_at p r st =
    st\<lparr>ps_ids := (ps_ids st)\<lparr>sc_data := (sc_data (ps_ids st))[fst p :=
        (sc_data (ps_ids st) ! fst p)[snd p := (fst (sc_data (ps_ids st) ! fst p ! snd p), r)]]\<rparr>\<rparr>"

definition find_local :: "'b env \<Rightarrow> string \<Rightarrow> 'b pst \<Rightarrow> (bool \<times> nat \<times> nat) option" where
  "find_local en name st = found (find_id (en_cv en) (ps_ids st) name)"

text \<open>\<open>overwrite_id\<close> and \<open>add_id\<close> in the innermost scope; the pointer to the value that was written.\<close>

definition overwrite_top :: "'b env \<Rightarrow> string \<Rightarrow> reg \<Rightarrow> 'b pst \<Rightarrow> ((nat \<times> nat) \<times> 'b pst) option" where
  "overwrite_top en name r st =
    (let ids = ps_ids st; k = sc_cur ids; tab = sc_data ids ! k in
     do { i \<leftarrow> found (find_entry (en_cv en) tab name);
          Some ((k, i), st\<lparr>ps_ids := ids\<lparr>sc_data := (sc_data ids)[k := overwrite_at tab name r i]\<rparr>\<rparr>) })"

definition add_top :: "'b env \<Rightarrow> string \<Rightarrow> reg \<Rightarrow> 'b pst \<Rightarrow> (bool \<times> 'b pst) option" where
  "add_top en name r st =
    (let ids = ps_ids st; k = sc_cur ids in
     do { t \<leftarrow> found (add_id (en_cv en) (sc_data ids ! k) name r);
          Some (case t of None \<Rightarrow> (False, st)
                | Some tab \<Rightarrow> (True, st\<lparr>ps_ids := ids\<lparr>sc_data := (sc_data ids)[k := tab]\<rparr>\<rparr>)) })"

text \<open>The slot of a name in the table of symbols or of types, and what the slot holds.\<close>

definition find_fn :: "'b env \<Rightarrow> string \<Rightarrow> 'b pst \<Rightarrow> nat option" where
  "find_fn en name st = found (hashmap_find 1024 (en_cv en) (ps_fns st) name)"

definition find_type :: "'b env \<Rightarrow> string \<Rightarrow> 'b pst \<Rightarrow> nat option" where
  "find_type en name st = found (hashmap_find 128 (en_cv en) (ps_types st) name)"

definition fn_at :: "'b pst \<Rightarrow> nat \<Rightarrow> symbol" where
  "fn_at st i = snd (ps_fns st ! i)"

definition put_fn :: "nat \<Rightarrow> string \<Rightarrow> symbol \<Rightarrow> 'b pst \<Rightarrow> 'b pst" where
  "put_fn i name sy st = st\<lparr>ps_fns := overwrite_at (ps_fns st) name sy i\<rparr>"

definition put_type :: "nat \<Rightarrow> type_t \<Rightarrow> 'b pst \<Rightarrow> 'b pst" where
  "put_type i t st = st\<lparr>ps_types := (ps_types st)[i := (fst (ps_types st ! i), t)]\<rparr>"

section \<open>Fundamental types\<close>

definition fund_types :: "(string \<times> nat) list" where
  "fund_types = [(''u8'', 1), (''u16'', 2), (''u32'', 4), (''u64'', 8), (''u128'', 16), (''usize'', 8),
     (''i8'', 1), (''i16'', 2), (''i32'', 4), (''i64'', 8), (''i128'', 16), (''isize'', 8)]"

definition fund_type :: "string \<Rightarrow> nat \<Rightarrow> type_t" where
  "fund_type name sz = \<lparr>ty_size = of_nat sz, ty_align = of_nat sz, ty_tag = TK_FUND,
     ty_sign = (hd name \<noteq> CHR ''u''), ty_name = name, ty_members = []\<rparr>"

primrec register_types :: "'b env \<Rightarrow> (string \<times> nat) list \<Rightarrow> 'b pst \<Rightarrow> 'b pst option" where
  "register_types en [] st = Some st"
| "register_types en (f # fs) st =
    do { i \<leftarrow> find_type en (fst f) st;
         let st1 = st\<lparr>ps_types := overwrite_at (ps_types st) (fst f) (fund_type (fst f) (snd f)) i\<rparr>;
         register_types en fs
          (if fst f = ''i32'' then st1\<lparr>ps_i32 := Some i\<rparr>
           else if fst f = ''usize'' then st1\<lparr>ps_usize := Some i\<rparr> else st1) }"

definition register_fund_types :: "'b env \<Rightarrow> 'b pst \<Rightarrow> 'b pst option" where
  "register_fund_types en st = register_types en fund_types st"

section \<open>Type checks\<close>

definition typecheck :: "nat option \<Rightarrow> nat option \<Rightarrow> 'b pst \<Rightarrow> bool \<times> 'b pst" where
  "typecheck ltype rtype st =
    (if ltype = None then (False, compile_err ''compiler bug: type was null'' st)
     else if ltype = rtype then (True, st)
     else (False, compile_err ''type checker: expected type'' st))"

definition typecheck_regable :: "nat option \<Rightarrow> regable \<Rightarrow> 'b pst \<Rightarrow> bool \<times> 'b pst" where
  "typecheck_regable ltype r st =
    (case ltype of None \<Rightarrow> (False, compile_err ''compiler bug: type was null'' st)
     | Some l \<Rightarrow>
        (case r of R_REG reg \<Rightarrow> typecheck ltype (d_base (r_dtype reg)) st
         | R_VALUE v \<Rightarrow>
             if ty_tag (tys st l) \<noteq> TK_FUND then (False, compile_err ''expected type, but found numeric literal'' st)
             else (True, st)
         | R_NONE \<Rightarrow> (True, st)))"

definition reg_typecheck :: "reg \<Rightarrow> reg \<Rightarrow> 'b pst \<Rightarrow> 'b pst" where
  "reg_typecheck lhs rhs st =
    (if dtype_eq (r_dtype lhs) (r_dtype rhs) then st
     else if dtype_check (r_dtype rhs) (r_dtype lhs) then st
     else compile_err ''expected type, but found type'' st)"

definition arithmetic_typecheck :: "reg \<Rightarrow> reg \<Rightarrow> 'b pst \<Rightarrow> (bool \<times> 'b pst) option" where
  "arithmetic_typecheck lhs rhs st =
    (if dtype_tryget_addr (r_dtype lhs) \<noteq> dtype_tryget_addr (r_dtype rhs) then
       Some (False, compile_err ''address of indirection(s) expected'' st)
     else if d_base (r_dtype lhs) = d_base (r_dtype rhs) then Some (True, st)
     else do {
       ltype \<leftarrow> base_of st (r_dtype lhs);
       rtype \<leftarrow> base_of st (r_dtype rhs);
       if ty_sign ltype = ty_sign rtype then Some (True, st)
       else
        (let signed_size = (if ty_sign ltype then ty_size ltype else ty_size rtype);
             unsigned_size = (if ty_sign ltype then ty_size rtype else ty_size ltype) in
         if unsigned_size < signed_size then Some (True, st)
         else if ty_sign ltype then Some (False, compile_err ''expected signed, but found unsigned'' st)
         else Some (False, compile_err ''expected unsigned, but found signed'' st)) })"

definition set_base :: "nat option \<Rightarrow> u8 \<Rightarrow> reg \<Rightarrow> reg" where
  "set_base b n r = r\<lparr>r_dtype := (r_dtype r)\<lparr>d_base := b\<rparr>, r_rsize := n\<rparr>"

definition resolve_comptime_default :: "'b pst \<Rightarrow> reg \<Rightarrow> (bool \<times> reg) option" where
  "resolve_comptime_default st r =
    (if d_base (r_dtype r) \<noteq> Some COMPTIME then Some (False, r)
     else do { t \<leftarrow> ps_i32 st; Some (True, set_base (Some t) (ucast (ty_size (tys st t))) r) })"

definition resolve_comptime_to :: "'b pst \<Rightarrow> reg \<Rightarrow> reg \<Rightarrow> (bool \<times> reg) option" where
  "resolve_comptime_to st src target =
    (if d_base (r_dtype src) \<noteq> Some COMPTIME then Some (False, src)
     else do {
       t \<leftarrow> base_of st (r_dtype target);
       if ty_tag t \<noteq> TK_FUND then Some (False, src)
       else Some (True, set_base (d_base (r_dtype target)) (r_rsize target) src) })"

definition get_rsize :: "reg \<Rightarrow> 'b pst \<Rightarrow> (u8 \<times> 'b pst) option" where
  "get_rsize r st =
    (if dtype_tryget_addr (r_dtype r) \<noteq> 0 then Some (8, st)
     else do {
       t \<leftarrow> base_of st (r_dtype r);
       if of_nat MAX_REG_SIZE < ty_size t then
         Some (0, compile_err ''compiler bug: this register size exceeds max register size'' st)
       else if ty_size t = 0 then Some (0, st)
       else Some (ucast (next_pow2 (ucast (ty_size t))), st) })"

definition context_add_nreg :: "dtype \<Rightarrow> 'b pst \<Rightarrow> 'b pst" where
  "context_add_nreg d st = upd_pc (\<lambda>pc.
     let n = pc_nreg_count pc + of_nat (dtype_reg_count d) in
     pc\<lparr>pc_nreg_count := n, pc_max_nreg_count := (if pc_max_nreg_count pc < n then n else pc_max_nreg_count pc)\<rparr>) st"

section \<open>Members\<close>

definition find_member :: "member list \<Rightarrow> string \<Rightarrow> member option" where
  "find_member ms name = find (\<lambda>m. m_name m = name) ms"

text \<open>\<open>name\<close> is the slice and \<open>rest\<close> the text from its start on, which the conversion reads.\<close>

definition find_member_index :: "member list \<Rightarrow> string \<Rightarrow> string \<Rightarrow> int" where
  "find_member_index ms name rest =
    (if rest \<noteq> [] \<and> is_digit (hd rest) then sint (ucast (strtoll rest) :: i32)
     else if \<exists>m\<in>set ms. m_name m = name then int (length (takeWhile (\<lambda>m. m_name m \<noteq> name) ms)) else - 1)"

text \<open>How many characters \<open>strtoll\<close> and \<open>strtoull\<close> convert, and the value of \<open>strtoull\<close>.\<close>

definition magnitude_len :: "string \<Rightarrow> nat" where
  "magnitude_len cs =
    (if take 1 cs = ''0'' \<and> take 1 (drop 1 cs) \<in> {''x'', ''X''} \<and> drop 2 cs \<noteq> [] \<and> digit_val (hd (drop 2 cs)) < 16
     then 2 + length (takeWhile (\<lambda>c. digit_val c < 16) (drop 2 cs))
     else if take 1 cs = ''0'' then length (takeWhile (\<lambda>c. digit_val c < 8) cs)
     else length (takeWhile (\<lambda>c. digit_val c < 10) cs))"

definition number_len :: "string \<Rightarrow> nat" where
  "number_len cs =
    (let ws = length (takeWhile is_space cs); ds = drop ws cs;
         sg = (if take 1 ds = ''-'' \<or> take 1 ds = ''+'' then 1 else 0); m = magnitude_len (drop sg ds) in
     if m = 0 then 0 else ws + sg + m)"

definition strtoull :: "string \<Rightarrow> u64" where
  "strtoull cs =
    (let ds = dropWhile is_space cs;
         v = (\<lambda>x. if 2 ^ 64 - 1 < read_magnitude x then - 1 else of_nat (read_magnitude x)) in
     if take 1 ds = ''-'' then (if 2 ^ 64 - 1 < read_magnitude (tl ds) then - 1 else - v (tl ds))
     else if take 1 ds = ''+'' then v (tl ds) else v ds)"

section \<open>Type annotations\<close>

function decls_loop :: "string \<Rightarrow> dtype \<Rightarrow> lexer \<Rightarrow> (dtype \<times> lexer) option" where
  "decls_loop s d lx =
    (let w = tok_text s (lx_tok lx);
         dk = (if w = ''addr'' then DK_ADDR else if w = ''slice'' then DK_SLICE
               else if w = ''!'' then DK_CHECK else DK_NONE);
         amount = (if dk = DK_CHECK then ucast (strtoll (drop (tk_data (lx_tok lx) + 1) s)) else 1 :: i32) in
     case (if dk = DK_CHECK \<and> amount \<noteq> 0 then tok s lx else Some (True, lx)) of None \<Rightarrow> None
     | Some (b1, lx1) \<Rightarrow>
        if at s (tk_end (lx_tok lx1)) = CHR ''{'' \<or> dk = DK_NONE then Some (d, lx1)
        else case tok s lx1 of None \<Rightarrow> None
          | Some (b, lx2) \<Rightarrow> decls_loop s (dtype_append d \<lparr>dk_tag = dk, dk_amount = ucast amount\<rparr>) lx2)"
  by pat_completeness auto
termination
proof (relation "measure (\<lambda>(s, d, lx). if empty_tok lx then 0 else Suc (length s - lx_cur lx))", goal_cases)
  case (2 s d lx w dk amount p b1 lx1 q b lx2)
  have ne: "\<not> empty_tok lx"
  proof
    assume "empty_tok lx"
    then have "tok_text s (lx_tok lx) = []" by (simp add: tok_text_def empty_tok_def)
    then show False using 2(1,2,6) by simp
  qed
  have "lx_cur lx \<le> lx_cur lx1"
    using 2(4,5) tok_mono [of s lx] by (auto split: if_splits)
  moreover have "(b \<longrightarrow> lx_cur lx1 < lx_cur lx2 \<and> lx_cur lx1 < length s) \<and> (\<not> b \<longrightarrow> empty_tok lx2)"
    using 2(7,8) tok_progress [of s lx1 b lx2] by simp
  ultimately show ?case using ne by auto
qed simp

declare decls_loop.simps [simp del]

definition parse_dtype :: "'b env \<Rightarrow> 'b pst \<Rightarrow> (bool \<times> dtype \<times> 'b pst) option" where
  "parse_dtype en st =
    do { (d, lx) \<leftarrow> decls_loop (en_text en) dtype0 (ps_lx st);
         let st1 = st\<lparr>ps_lx := lx\<rparr>;
         let iter = tok_str st1;
         let rest = drop (s_data iter) (en_text en);
         let len = strtoull rest;
         let start = (if len \<noteq> 0 then s_data iter + number_len rest + 1 else s_data iter);
         if s_end iter < start then None
         else do {
           i \<leftarrow> find_type en (sub en \<lparr>s_data = start, s_end = s_end iter\<rparr>) st1;
           if fst (ps_types st1 ! i) = None then Some (False, d, compile_err ''unknown type'' st1)
           else
            (let d1 = d\<lparr>d_base := Some i\<rparr> in
             if len = 0 then Some (True, d1, st1)
             else Some (True, dtype_append d1 \<lparr>dk_tag = DK_ARRAY, dk_amount = ucast len\<rparr>,
                        err_if (2 ^ 31 - 1 < len) ''array length was too big'' st1)) } }"

section \<open>Struct layout\<close>

text \<open>
  One member: only the size and alignment of its base type count. \<open>dyn_member_push\<close> is the push onto the
  members, an array that was zero-initialised (see \<open>Buffers\<close>).
\<close>

definition dyn_member_push :: "member list \<Rightarrow> member \<Rightarrow> member list option" where
  "dyn_member_push ms m = map_option dy_elems (dyn_push \<lparr>dy_cap = (if ms = [] then 0 else 8), dy_elems = ms\<rparr> m)"

definition add_member :: "tstore \<Rightarrow> string \<Rightarrow> dtype \<Rightarrow> type_t \<Rightarrow> type_t option" where
  "add_member ts name d s =
    do { t \<leftarrow> base_type ts d;
         let off = ALIGN_TO (ty_size s) (ucast (ty_align t));
         ms \<leftarrow> dyn_member_push (ty_members s) \<lparr>m_dtype = d, m_name = name, m_offset = off\<rparr>;
         Some (s\<lparr>ty_size := off + ty_size t,
                 ty_align := (if ty_align s < ty_align t then ty_align t else ty_align s),
                 ty_members := ms\<rparr>) }"

definition finish_struct :: "type_t \<Rightarrow> type_t" where
  "finish_struct s = s\<lparr>ty_size := ALIGN_TO (ty_size s) (ucast (ty_align s))\<rparr>"

definition struct0 :: "string \<Rightarrow> type_t" where
  "struct0 name = \<lparr>ty_size = 0, ty_align = 0, ty_tag = TK_STRUCT, ty_sign = False, ty_name = name, ty_members = []\<rparr>"

text \<open>
  The members up to the closing brace. The struct that is built is the entry of the table at \<open>ptr\<close>, or
  a local object when the name exists; a member may refer to the entry.
\<close>

partial_function (option) members_loop ::
    "'b env \<Rightarrow> nat option \<Rightarrow> type_t \<Rightarrow> 'b pst \<Rightarrow> (type_t \<times> 'b pst) option" where
  "members_loop en ptr s st =
    do { st1 \<leftarrow> skip_tok en st;
         c1 \<leftarrow> rd en (tk_data (cur_tok st1));
         if empty_tok (ps_lx st1) \<or> c1 = CHR ''}'' then Some (s, st1)
         else do {
           let name = tok_id en st1;
           st2 \<leftarrow> skip_tok en st1;
           c2 \<leftarrow> rd en (tk_data (cur_tok st2));
           if empty_tok (ps_lx st2) \<or> c2 = CHR ''}'' then Some (s, st2)
           else do {
             (_, d, st3) \<leftarrow> parse_dtype en st2;
             s' \<leftarrow> add_member (tys st3) name d s;
             members_loop en ptr s' (case ptr of None \<Rightarrow> st3 | Some i \<Rightarrow> put_type i s' st3) } } }"

declare members_loop.simps [code]

definition stmt_struct_decl :: "'b env \<Rightarrow> string option \<Rightarrow> 'b pst \<Rightarrow> (bool \<times> 'b pst) option" where
  "stmt_struct_decl en symbol_name st =
    (if tok_id en st \<noteq> ''struct'' then Some (False, st)
     else do {
       c \<leftarrow> rd en (tk_end (cur_tok st) + 1);
       (name, st1) \<leftarrow> (if c \<noteq> CHR ''{'' then do { st' \<leftarrow> skip_tok en st; Some (tok_id en st', st') }
                       else map_option (\<lambda>nm. (nm, st)) symbol_name);
       i \<leftarrow> find_type en name st1;
       let fresh = (fst (ps_types st1 ! i) = None);
       let st2 = (if fresh then st1\<lparr>ps_types := overwrite_at (ps_types st1) name (struct0 name) i\<rparr>
                  else compile_err ''struct with same name already exist'' st1);
       st3 \<leftarrow> skip_tok en st2;
       let st4 = expect_tok en ''{'' st3;
       let ptr = (if fresh then Some i else None);
       (s, st5) \<leftarrow> members_loop en ptr (struct0 name) st4;
       Some (True, case ptr of None \<Rightarrow> st5 | Some j \<Rightarrow> put_type j (finish_struct s) st5) })"

section \<open>Operands\<close>

primrec is_reg :: "regable \<Rightarrow> bool" where
  "is_reg R_NONE = False" | "is_reg (R_VALUE v) = False" | "is_reg (R_REG r) = True"

primrec is_value :: "regable \<Rightarrow> bool" where
  "is_value R_NONE = False" | "is_value (R_VALUE v) = True" | "is_value (R_REG r) = False"

definition diagnostic_slice :: "i32 \<Rightarrow> i64 \<Rightarrow> i32 \<Rightarrow> 'b pst \<Rightarrow> 'b pst" where
  "diagnostic_slice begin_index end_index array st =
    err_if (scast array <s end_index) ''end index out of bounds''
     (err_if (end_index <s scast begin_index) ''expected begin to be less than or equal to end index''
      (err_if (2 ^ 31 - 1 <s end_index) ''index was too big'' st))"

definition diagnostic_dyn_elem_access :: "regable \<Rightarrow> 'b pst \<Rightarrow> bool \<times> 'b pst" where
  "diagnostic_dyn_elem_access r st =
    (case r of R_NONE \<Rightarrow> (False, st)
     | R_VALUE v \<Rightarrow> (True, compile_warning ''use static syntax [Arr.N] instead of [Arr * N]'' st)
     | R_REG g \<Rightarrow> (True, err_if (r_type g \<noteq> NREG) ''valid offset expected'' st))"

text \<open>
  The path of members and indices after the name of a register. The result says whether the operand is
  still one, the register, and the last member.
\<close>

definition elem_member :: "tstore \<Rightarrow> string \<Rightarrow> nat option \<Rightarrow> i64 \<Rightarrow> member option" where
  "elem_member ts name ty idx =
    map_option (\<lambda>t. \<lparr>m_dtype = dtype0\<lparr>d_base := ty\<rparr>, m_name = name, m_offset = ty_size t * idx\<rparr>)
      (map_option ts ty)"

partial_function (option) member_loop ::
    "'b env \<Rightarrow> reg \<Rightarrow> str \<Rightarrow> reg \<Rightarrow> member option \<Rightarrow> nat option \<Rightarrow> i32 \<Rightarrow> 'b pst
     \<Rightarrow> (bool \<times> reg \<times> member option \<times> 'b pst) option" where
  "member_loop en reg s res mem ty begin_index st =
    (let array = dtype_tryget (r_dtype reg) DK_ARRAY; slice = dtype_tryget (r_dtype reg) DK_SLICE;
         addr = (0 <s dtype_tryget_addr (r_dtype reg));
         nreg_slice = (slice \<noteq> 0 \<and> r_type res \<noteq> STACK) in
     if array \<noteq> 0 \<and> streq_at (en_text en) (s_data s) ''..'' then
       (let v = strtoll (drop (s_data s + 2) (en_text en));
            end_index = (if v = 0 then scast array else v);
            d = snd (dtype_unwrap (r_dtype res)) in
        Some (True, res\<lparr>r_dtype := dtype_wrap d \<lparr>dk_tag = DK_SLICE, dk_amount = ucast (ucast end_index - begin_index :: i32)\<rparr>,
                        r_rsize := 8\<rparr>,
              mem, diagnostic_slice begin_index end_index array st))
     else
      (let (mem_name, s') = dot_iter (en_text en) s CHR ''.''; name = sub en mem_name in
       if s_end mem_name = s_data mem_name then Some (True, res, mem, st)
       else if slice \<noteq> 0 \<and> name = ''Length'' then
         Some (True, if r_type res \<noteq> STACK then res\<lparr>r_offset := r_offset res + 1\<rparr> else res,
               Some \<lparr>m_dtype = dtype0\<lparr>d_base := ps_usize st\<rparr>, m_name = name, m_offset = 1\<rparr>, st)
       else if array \<noteq> 0 \<or> slice \<noteq> 0 then
         (let rest = drop (s_data mem_name) (en_text en); idx = strtoll rest;
              st1 = err_if (number_len rest = 0) ''expected constant number for index''
                     (err_if (2 ^ 31 - 1 <s idx) ''index was too big'' st) in
          if idx <s 0 then Some (False, res, mem, compile_err ''expected index greater or equal to zero'' st1)
          else do {
            m \<leftarrow> elem_member (tys st1) name ty idx;
            let m1 = (if slice \<noteq> 0
                      then m\<lparr>m_dtype := dtype_wrap (m_dtype m) \<lparr>dk_tag = DK_SLICE, dk_amount = ucast idx\<rparr>\<rparr> else m);
            let res1 = (if nreg_slice then res\<lparr>r_disp := r_disp res + ucast (m_offset m)\<rparr> else res);
            let res2 = (if \<not> addr \<and> \<not> nreg_slice then res1\<lparr>r_offset := r_offset res1 - ucast (m_offset m)\<rparr> else res1);
            member_loop en reg s' res2 (Some m1) ty (ucast idx) st1 })
       else do {
         t \<leftarrow> map_option (tys st) ty;
         case find_member (ty_members t) name of
           None \<Rightarrow> Some (False, res, None, compile_err ''member not found in type'' st)
         | Some m \<Rightarrow>
             member_loop en reg s' (if \<not> addr then res\<lparr>r_offset := r_offset res - ucast (m_offset m)\<rparr> else res)
               (Some m) (d_base (m_dtype m)) begin_index st }))"

declare member_loop.simps [code]

definition apply_member :: "reg \<Rightarrow> member option \<Rightarrow> reg \<Rightarrow> 'b pst \<Rightarrow> (reg \<times> 'b pst) option" where
  "apply_member reg mem res st =
    (case mem of None \<Rightarrow> Some (res, st)
     | Some m \<Rightarrow> do {
         n \<leftarrow> dtype_size (tys st) (m_dtype m);
         let res1 = res\<lparr>r_rsize := ucast n, r_dtype := m_dtype m\<rparr>;
         Some (if 0 <s dtype_tryget_addr (r_dtype reg)
               then res1\<lparr>r_dtype := dtype_wrap (m_dtype m) \<lparr>dk_tag = DK_ADDR, dk_amount = 1\<rparr>,
                         r_disp := r_disp res1 + ucast (m_offset m)\<rparr>
               else res1,
               err_if (of_nat MAX_REG_SIZE < n) ''this member does not fit in register'' st) })"

definition read_numeric :: "'b env \<Rightarrow> token \<Rightarrow> 'b pst \<Rightarrow> i64 option \<times> 'b pst" where
  "read_numeric en t st = (let (v, lx) = lit_numeric (en_text en) t (ps_lx st) in (v, st\<lparr>ps_lx := lx\<rparr>))"

text \<open>\<open>s\<close> is the operand and \<open>t\<close> the token given for reports, which is the one a literal is read from.\<close>

definition read_regable :: "'b env \<Rightarrow> str \<Rightarrow> token \<Rightarrow> 'b pst \<Rightarrow> (regable \<times> 'b pst) option" where
  "read_regable en s t st =
    (let (lit, st1) = read_numeric en t st in
     case lit of Some v \<Rightarrow> Some (R_VALUE v, st1)
     | None \<Rightarrow> do {
         c \<leftarrow> rd en (s_data s);
         if \<not> is_upper c then Some (R_NONE, st1)
         else do {
           let (nm, s1) = dot_iter (en_text en) s CHR ''.'';
           let name = sub en nm;
           entry \<leftarrow> found (const_hashmap_tryfind (en_cv en) (ps_consts st1) name);
           case entry of Some v \<Rightarrow> Some (R_VALUE v, st1)
           | None \<Rightarrow> do {
               (ok, p) \<leftarrow> find_local en name st1;
               let reg = reg_at st1 p;
               if \<not> ok \<or> r_type reg = RD_NONE then Some (R_NONE, compile_err ''unknown id'' st1)
               else if d_base (r_dtype reg) = None \<or> d_base (r_dtype reg) = Some ERROR_TYPE then Some (R_REG reg, st1)
               else do {
                 (is_reg, res, mem, st2) \<leftarrow> member_loop en reg s1 reg None (d_base (r_dtype reg)) 0 st1;
                 (res', st3) \<leftarrow> apply_member reg mem res st2;
                 Some (if is_reg then R_REG res' else R_NONE, st3) } } } })"

text \<open>
  A value read as a register: the fields share their bytes with the value, in the layout of a
  little-endian machine, and the derived type is in the bytes that stay zero.
\<close>

definition all_dsts :: "register_dst list" where
  "all_dsts = [RD_NONE, RET, PARAM, SCRATCH, NREG, STACK, FRAME]"

definition as_reg :: "regable \<Rightarrow> reg option" where
  "as_reg r =
    (case r of R_REG g \<Rightarrow> Some g | R_NONE \<Rightarrow> Some reg0
     | R_VALUE v \<Rightarrow>
        (let k = unat (drop_bit 40 v AND 7) in
         if length all_dsts \<le> k then None
         else Some \<lparr>r_offset = ucast v, r_rsize = ucast (drop_bit 32 v), r_type = all_dsts ! k,
                    r_disp = ucast (drop_bit 43 v), r_dtype = dtype0\<rparr>))"

definition check_unassigned :: "regable \<Rightarrow> 'b pst \<Rightarrow> 'b pst option" where
  "check_unassigned lhs st =
    (case arr_top (pc_targets (ps_pc st)) of None \<Rightarrow> Some st
     | Some tp \<Rightarrow> do {
         l \<leftarrow> as_reg lhs;
         Some (err_if (r_type (reg_at st (tg_reg tp)) = r_type l \<and> r_offset (reg_at st (tg_reg tp)) = r_offset l
                       \<and> \<not> tg_assigned tp) ''use of unassigned register'' st) })"

section \<open>Stack slots\<close>

text \<open>
  The target is given by its register, whether it is assigned, and its name; the results are the frame
  offset, the source and the target register. The target is assigned afterwards.
\<close>

definition slot_size :: "type_t \<Rightarrow> i32 \<Rightarrow> usize" where
  "slot_size t arr = (let sz = ucast (next_pow2 (ucast (ty_size t))) in if arr \<noteq> 0 then sz * scast arr else sz)"

definition alloc_slot :: "string \<Rightarrow> string \<Rightarrow> usize \<Rightarrow> parser_context \<Rightarrow> parser_context" where
  "alloc_slot name type_name sz pc =
    (let n = pc_stack_size pc + ucast sz; off = (if 8 < sz then ALIGN_TO n 8 else n) in
     pc\<lparr>pc_stack_size := off,
        pc_stack_slots := (if length (pc_stack_slots pc) < MAX_STACK_SLOTS
          then pc_stack_slots pc @ [\<lparr>sl_name = name, sl_type_name = Some type_name, sl_offset = scast off, sl_size = sz\<rparr>]
          else pc_stack_slots pc)\<rparr>)"

definition resolve_stack_store_target ::
    "reg \<Rightarrow> bool \<Rightarrow> string \<Rightarrow> reg \<Rightarrow> 'b pst \<Rightarrow> (i32 \<times> reg \<times> reg \<times> 'b pst) option" where
  "resolve_stack_store_target target_reg assigned name src st =
    do { (resolved, src1) \<leftarrow> resolve_comptime_default st src;
         src2 \<leftarrow> (if \<not> resolved \<and> d_base (r_dtype src1) = None
                  then do { t \<leftarrow> ps_i32 st; Some (set_base (Some t) (ucast (ty_size (tys st t))) src1) }
                  else Some src1);
         let tr1 = target_reg\<lparr>r_rsize := r_rsize src2\<rparr>;
         let tr2 = (if d_base (r_dtype tr1) = None then tr1\<lparr>r_dtype := r_dtype src2\<rparr> else tr1);
         (off, st1) \<leftarrow>
           (if \<not> assigned then do {
              t \<leftarrow> base_of st (r_dtype src2);
              if ty_size t = 0 then None
              else (let st' = upd_pc (alloc_slot name (ty_name t) (slot_size t (dtype_tryget_arr (r_dtype src2)))) st in
                    Some (pc_stack_size (ps_pc st'), st')) }
            else Some (r_offset tr2, st));
         if r_rsize src2 = 0 then None
         else Some (off, src2, tr2\<lparr>r_offset := off\<rparr>, st1) }"

section \<open>Blocks\<close>

definition start_of_block :: "'b pst \<Rightarrow> 'b pst option" where
  "start_of_block st =
    do { ids \<leftarrow> arr_mini_hashset_push (ps_ids st);
         marks \<leftarrow> arr_push MAX_BLOCK_DEPTH (pc_nreg_mark (ps_pc st)) (pc_nreg_count (ps_pc st));
         Some (upd_pc (\<lambda>pc. pc\<lparr>pc_nreg_mark := marks\<rparr>) (st\<lparr>ps_ids := ids\<rparr>)) }"

definition end_of_block :: "'b pst \<Rightarrow> 'b pst" where
  "end_of_block st = upd_pc (\<lambda>pc.
     case arr_top (pc_nreg_mark pc) of None \<Rightarrow> pc
     | Some tp \<Rightarrow> pc\<lparr>pc_nreg_count := tp, pc_nreg_mark := arr_pop (pc_nreg_mark pc)\<rparr>)
   (st\<lparr>ps_ids := arr_mini_hashset_pop (ps_ids st)\<rparr>)"

section \<open>Conditions\<close>

definition cond_flip :: "cond \<Rightarrow> cond" where
  "cond_flip c = (if cond_no c mod 2 = 0 then all_conds ! (cond_no c + 1) else all_conds ! (cond_no c - 1))"

fun cond_eval :: "cond \<Rightarrow> i64 \<Rightarrow> i64 \<Rightarrow> bool option" where
  "cond_eval COND_EQ lhs rhs = Some (lhs = rhs)"
| "cond_eval COND_NE lhs rhs = Some (lhs \<noteq> rhs)"
| "cond_eval COND_GE lhs rhs = Some (rhs \<le>s lhs)"
| "cond_eval COND_LT lhs rhs = Some (lhs <s rhs)"
| "cond_eval COND_GT lhs rhs = Some (rhs <s lhs)"
| "cond_eval COND_LE lhs rhs = Some (lhs \<le>s rhs)"
| "cond_eval COND_HS lhs rhs = Some (rhs \<le> lhs)"
| "cond_eval COND_LO lhs rhs = Some (lhs < rhs)"
| "cond_eval COND_HI lhs rhs = Some (rhs < lhs)"
| "cond_eval COND_LS lhs rhs = Some (lhs \<le> rhs)"
| "cond_eval COND_AL lhs rhs = Some True"
| "cond_eval COND_NV lhs rhs = Some False"
| "cond_eval _ lhs rhs = None"

end
