(* ===== verification/Parser_Decls.thy ===== *)
theory Parser_Decls
  imports Parser_State
begin

text \<open>
  Labels with their signatures, struct and array literals, and where a value is stored
  (\<open>src/alc/main.c\<close>, \<open>label_meta\<close> to \<open>resolve_stack_store_target\<close> and \<open>get_store_offset\<close>).
\<close>

section \<open>Labels\<close>

definition dead_fn_elim :: bool where "dead_fn_elim = False"
definition do_airity_check :: bool where "do_airity_check = True"
definition MAX_PARAMS :: nat where "MAX_PARAMS = 8"
definition PARAMS_MAX :: nat where "PARAMS_MAX = 16"
definition sizeof_reg :: nat where "sizeof_reg = 56"

record signature =
  sg_parsing_arg :: bool
  sg_is_fn :: bool
  sg_airity :: u8
  sg_names :: "string list"
  sg_params :: "reg list"
  sg_rets :: "reg list"

text \<open>One token of a signature. \<open>want\<close>: the caller collects the names of the parameters.\<close>

definition sig_step :: "'b env \<Rightarrow> bool \<Rightarrow> signature \<Rightarrow> 'b pst \<Rightarrow> (signature \<times> 'b pst) option" where
  "sig_step en want g st =
    do { c \<leftarrow> rd en (tk_data (cur_tok st));
         if is_upper c then
           (if sg_parsing_arg g then do {
              names \<leftarrow> (if want then arr_push PARAMS_MAX (sg_names g) (tok_id en st) else Some (sg_names g));
              Some (g\<lparr>sg_airity := sg_airity g + 1, sg_names := names\<rparr>, st) }
            else Some (g, st))
         else if is_lower c \<or> c = CHR ''!'' then do {
           (_, d, st1) \<leftarrow> parse_dtype en st;
           let r0 = reg0\<lparr>r_offset := ucast (sg_airity g), r_dtype := d\<rparr>;
           (n, st2) \<leftarrow> get_rsize r0 st1;
           let r = r0\<lparr>r_rsize := n\<rparr>;
           Some (if sg_parsing_arg g then
                   (if MAX_PARAMS \<le> length (sg_params g) then (g, compile_err ''too many parameters'' st2)
                    else (g\<lparr>sg_params := sg_params g @ [r]\<rparr>, st2))
                 else if MAX_PARAMS \<le> length (sg_rets g) then (g, compile_err ''too many return values'' st2)
                 else (g\<lparr>sg_rets := sg_rets g @ [r]\<rparr>, st2)) }
         else if streq_at (en_text en) (tk_data (cur_tok st)) ''=>'' then
           Some (g\<lparr>sg_parsing_arg := False, sg_is_fn := True\<rparr>, st)
         else Some (g, compile_err ''unknown token'' st) }"

partial_function (option) sig_loop ::
    "'b env \<Rightarrow> bool \<Rightarrow> signature \<Rightarrow> 'b pst \<Rightarrow> (signature \<times> 'b pst) option" where
  "sig_loop en want g st =
    do { st1 \<leftarrow> skip_tok en st;
         if empty_tok (ps_lx st1) then Some (g, st1)
         else do {
           (g', st2) \<leftarrow> sig_step en want g st1;
           if lx_eol (ps_lx st2) then Some (g', st2) else sig_loop en want g' st2 } }"

declare sig_loop.simps [code]

text \<open>A list of registers in the arena of the symbols.\<close>

definition reg_list :: "reg list \<Rightarrow> 'b pst \<Rightarrow> (reg flist \<times> 'b pst) option" where
  "reg_list rs st =
    do { (l, ar) \<leftarrow> list_init sizeof_reg (length rs) (ps_arena st);
         Some (l\<lparr>fl_elems := rs\<rparr>, st\<lparr>ps_arena := ar\<rparr>) }"

definition symbol0 :: "string \<Rightarrow> symbol" where
  "symbol0 name = \<lparr>sy_name = name, sy_airity = 0, sy_ret_airity = 0, sy_is_fn = False, sy_is_called = False,
     sy_is_placeholder = False, sy_params = \<lparr>fl_cap = 0, fl_elems = []\<rparr>, sy_rets = \<lparr>fl_cap = 0, fl_elems = []\<rparr>\<rparr>"

text \<open>
  The slot of the symbol, unless the signature contradicts the known one, and the parameter names. The
  label of an empty token would end before it starts, and hashing it would not stop.
\<close>

definition label_meta :: "'b env \<Rightarrow> bool \<Rightarrow> 'b pst \<Rightarrow> (nat option \<times> string list \<times> 'b pst) option" where
  "label_meta en want st =
    (let label = sub en \<lparr>s_data = tk_data (cur_tok st), s_end = tk_end (cur_tok st) - 1\<rparr>;
         g0 = \<lparr>sg_parsing_arg = True, sg_is_fn = False, sg_airity = 0, sg_names = [], sg_params = [], sg_rets = []\<rparr> in
     if empty_tok (ps_lx st) then None
     else do {
          (g, st1) \<leftarrow> (if lx_eol (ps_lx st) then Some (g0, st) else sig_loop en want g0 st);
          let airity = of_nat (length (sg_params g));
          i \<leftarrow> find_fn en label st1;
          let old = fn_at st1 i;
          if fst (ps_fns st1 ! i) \<noteq> None \<and> \<not> sy_is_placeholder old then
            (if sy_airity old \<noteq> airity \<or> sy_is_fn old \<noteq> sg_is_fn g
             then Some (None, sg_names g, compile_err ''incorrect redefinition of fn'' st1)
             else Some (Some i, sg_names g, st1))
          else do {
            (ps, st2) \<leftarrow> reg_list (sg_params g) st1;
            (rs, st3) \<leftarrow> reg_list (sg_rets g) st2;
            let sy = (symbol0 label)\<lparr>sy_airity := airity, sy_ret_airity := of_nat (length (sg_rets g)),
              sy_is_fn := sg_is_fn g, sy_is_called := sy_is_placeholder old, sy_params := ps, sy_rets := rs\<rparr>;
            Some (Some i, sg_names g, put_fn i label sy st3) } })"

text \<open>Moving the parameters from the argument registers; a wide one takes two.\<close>

primrec param_moves :: "'b env \<Rightarrow> reg list \<Rightarrow> string list \<Rightarrow> i32 \<Rightarrow> 'b pst \<Rightarrow> 'b pst option" where
  "param_moves en [] names regoff st = Some st"
| "param_moves en (p # ps) names regoff st =
    do { n \<leftarrow> dtype_size (tys st) (r_dtype p);
         let fat = (8 < (ucast n :: u8));
         let rsize = (if fat then 8 else ucast n);
         let arg_reg = reg0\<lparr>r_type := PARAM, r_offset := regoff, r_dtype := r_dtype p, r_rsize := rsize\<rparr>;
         let r = reg0\<lparr>r_type := NREG, r_offset := ucast (pc_nreg_count (ps_pc st)), r_rsize := rsize, r_dtype := r_dtype p\<rparr>;
         st1 \<leftarrow> emit en (\<lambda>be ts. be_mov_reg be ts r arg_reg) (context_add_nreg (r_dtype p) st);
         st2 \<leftarrow> (if fat then emit en (\<lambda>be ts. be_mov_reg be ts (r\<lparr>r_offset := r_offset r + 1\<rparr>)
                                 (arg_reg\<lparr>r_offset := regoff + 1\<rparr>)) st1 else Some st1);
         name \<leftarrow> (case names of [] \<Rightarrow> None | nm # _ \<Rightarrow> Some nm);
         (ok, st3) \<leftarrow> add_top en name r st2;
         param_moves en ps (tl names) (regoff + (if fat then 2 else 1))
           (err_if (\<not> ok) ''parameter ids should be unique'' st3) }"

definition symbol_name :: "'b pst \<Rightarrow> string option" where
  "symbol_name st = map_option (\<lambda>i. sy_name (fn_at st i)) (pc_symbol (ps_pc st))"

definition stmt_label :: "'b env \<Rightarrow> 'b pst \<Rightarrow> 'b pst option" where
  "stmt_label en st =
    do { (sy, names, st1) \<leftarrow> label_meta en True st;
         case sy of None \<Rightarrow> Some st1
         | Some i \<Rightarrow>
            (let s = fn_at st1 i in
             if \<not> sy_is_fn s \<and> pc_symbol (ps_pc st1) \<noteq> None \<and> sy_name s \<noteq> [] then do {
               f \<leftarrow> symbol_name st1;
               emit en (\<lambda>be ts. be_label be f (sy_name s) 0) st1 }
             else
              (let st2 = upd_pc (\<lambda>pc. pc\<lparr>pc_symbol := Some i, pc_name := sy_name s\<rparr>) st1 in
               if dead_fn_elim \<and> \<not> sy_is_called s then Some st2
               else if list_len (sy_params s) \<noteq> unat (sy_airity s) then None
               else do {
                 st3 \<leftarrow> param_moves en (fl_elems (sy_params s)) names 0 st2;
                 st4 \<leftarrow> (if sy_is_fn s then emit en (\<lambda>be ts. be_fn be (sy_name s)) st3 else Some st3);
                 Some (st4\<lparr>ps_symbols_any := True\<rparr>) })) }"

section \<open>Struct and array literals\<close>

text \<open>The members, their number, and whether it is an array.\<close>

definition agg_shape :: "'b pst \<Rightarrow> dtype \<Rightarrow> (member list \<times> int \<times> bool) option" where
  "agg_shape st dt =
    (if dtype_empty dt then map_option (\<lambda>t. (ty_members t, int (length (ty_members t)), False)) (base_of st dt)
     else if dk_tag (dtype_outer dt) = DK_ARRAY then Some ([], sint (amount_i32 (dtype_outer dt)), True)
     else None)"

text \<open>
  The block for the members: the first allocation is zeroed, what a larger one adds is not
  initialised, \<open>None\<close>.
\<close>

definition agg_room :: "int \<Rightarrow> agg_member option list" where
  "agg_room count =
    (let cap = dy_cap (dyn_reserve (nat (count + 1)) (dyn0 :: agg_member dyn)) in
     replicate (min 8 cap) (Some A_NONE) @ replicate (cap - 8) None)"

text \<open>The base type of a member: past the members there is the zeroed rest of their first block.\<close>

definition member_base :: "dtype \<Rightarrow> member list \<Rightarrow> bool \<Rightarrow> nat \<Rightarrow> nat option option" where
  "member_base dt ms is_arr i =
    (if is_arr then Some (d_base dt)
     else if i < length ms then Some (d_base (m_dtype (ms ! i)))
     else if ms \<noteq> [] \<and> i < 8 then Some None else None)"

text \<open>Members that were not given become zero; for an array the report itself follows a null pointer.\<close>

primrec finish_agg :: "bool \<Rightarrow> bool \<Rightarrow> agg_member option list \<Rightarrow> 'b pst \<Rightarrow> (agg_member list \<times> 'b pst) option" where
  "finish_agg is_arr init_zero [] st = Some ([], st)"
| "finish_agg is_arr init_zero (a # as) st =
    do { x \<leftarrow> a;
         (y, st1) \<leftarrow>
           (if x = A_NONE then
              (if \<not> init_zero then
                 (if is_arr then None else Some (A_VALUE 0, compile_err ''a field is not initialized'' st))
               else Some (A_VALUE 0, st))
            else Some (x, st));
         (ys, st2) \<leftarrow> finish_agg is_arr init_zero as st1;
         Some (y # ys, st2) }"

definition last_char :: "'b env \<Rightarrow> 'b pst \<Rightarrow> char" where
  "last_char en st = at (en_text en) (tk_end (cur_tok st) - 1)"

partial_function (option) agg_loop ::
    "'b env \<Rightarrow> dtype \<Rightarrow> agg_member option list \<Rightarrow> bool \<Rightarrow> 'b pst
     \<Rightarrow> (agg_member option list \<times> bool \<times> 'b pst) option" where
  "agg_loop en dt args iz st =
    do { (ms, count, is_arr) \<leftarrow> agg_shape st dt;
         (b, st1) \<leftarrow> next_tok en st;
         if \<not> b then Some (args, iz, st1)
         else do {
           let d = tk_data (cur_tok st1);
           c \<leftarrow> rd en d;
           if c = CHR ''}'' then Some (args, iz, st1)
           else do {
             let st2 = err_if (c \<noteq> CHR ''.'') '' . and member name expected in struct literal'' st1;
             if streq_at (en_text en) d ''.. 0'' then do {
               st3 \<leftarrow> skip_tok en st2;
               if last_char en st3 = CHR ''}'' then Some (args, True, st3) else agg_loop en dt args True st3 }
             else do {
               let index = find_member_index ms (sub en \<lparr>s_data = d + 1, s_end = tk_end (cur_tok st2)\<rparr>) (drop (d + 1) (en_text en));
               if index = - 1 \<or> is_arr \<and> count \<le> index then do {
                 (b3, st3) \<leftarrow> next_tok en
                   (compile_err (if index = - 1 then ''member not found'' else ''array initializer index out of bounds'') st2);
                 if \<not> b3 then Some (args, iz, st3) else agg_loop en dt args iz st3 }
               else if index < 0 then None
               else do {
                 mem_type \<leftarrow> member_base dt ms is_arr (nat index);
                 (b3, st3) \<leftarrow> next_tok en st2;
                 if \<not> b3 then Some (args, iz, st3)
                 else do {
                   c3 \<leftarrow> rd en (tk_data (cur_tok st3));
                   st4 \<leftarrow> (if is_lower c3 then map_option (expect_tok en ''{'') (skip_tok en st3) else Some st3);
                   c4 \<leftarrow> rd en (tk_data (cur_tok st4));
                   if c4 = CHR ''{'' then do {
                     let inner = (if dtype_empty dt then dtype0\<lparr>d_base := mem_type\<rparr> else snd (dtype_unwrap dt));
                     (ms', count', arr') \<leftarrow> agg_shape st4 inner;
                     (args', iz', st5) \<leftarrow> agg_loop en inner (agg_room count') False st4;
                     (aggs, st6) \<leftarrow> finish_agg arr' iz' (take (nat count') args') st5;
                     if length args \<le> nat index then None
                     else agg_loop en dt (args[nat index := Some (A_AGGREGATE aggs)]) iz st6 }
                   else do {
                     (r, st5) \<leftarrow> read_regable en (tok_str st4) (cur_tok st4) st4;
                     if length args \<le> nat index then None
                     else do {
                       let args' = args[nat index := Some (agg_member_from r)];
                       let st6 = snd (typecheck_regable mem_type r st5);
                       if last_char en st6 = CHR ''}'' then Some (args', iz, st6) else agg_loop en dt args' iz st6 } } } } } } } }"

declare agg_loop.simps [code]

definition read_aggregate :: "'b env \<Rightarrow> dtype \<Rightarrow> 'b pst \<Rightarrow> (agg_member list \<times> 'b pst) option" where
  "read_aggregate en dt st =
    do { (ms, count, is_arr) \<leftarrow> agg_shape st dt;
         (args, iz, st1) \<leftarrow> agg_loop en dt (agg_room count) False st;
         finish_agg is_arr iz (take (nat count) args) st1 }"

section \<open>Building and storing aggregates\<close>

definition eightbyte :: "'b env \<Rightarrow> reg \<Rightarrow> dtype \<Rightarrow> agg_member list \<Rightarrow> nat \<Rightarrow> usize \<Rightarrow> usize \<Rightarrow> 'b pst \<Rightarrow> (bool \<times> nat \<times> usize \<times> 'b pst) option" where
  "eightbyte en r dt args i sz limit st =
    map_option (\<lambda>(w, j, n, b). (w, j, n, st\<lparr>ps_be := b\<rparr>))
      (be_eightbyte_struct (en_be en) (tys st) r dt args i sz limit (ps_be st))"

definition make_struct :: "'b env \<Rightarrow> reg \<Rightarrow> dtype \<Rightarrow> agg_member list \<Rightarrow> 'b pst \<Rightarrow> 'b pst option" where
  "make_struct en dst0 dt args st =
    do { t \<leftarrow> base_of st dt;
         type_size \<leftarrow> dtype_size (tys st) dt;
         if of_nat MAX_REG_SIZE < type_size then Some (compile_err ''compiler bug: type exceeds max reg size'' st)
         else do {
           let dst = dst0\<lparr>r_rsize := (if 8 < ty_size t then 8 else ucast (ty_size t))\<rparr>;
           (lo_written, i, n, st1) \<leftarrow> eightbyte en dst dt args 0 0 8 st;
           st2 \<leftarrow> (if lo_written then Some st1 else emit en (\<lambda>be ts. be_zero_out be dst) st1);
           if 8 \<le> type_size - n then do {
             let dst2 = dst\<lparr>r_offset := r_offset dst + 1\<rparr>;
             (hi_written, j, n2, st3) \<leftarrow> eightbyte en dst2 dt args i n 8 st2;
             if hi_written then Some st3 else emit en (\<lambda>be ts. be_zero_out be dst2) st3 }
           else Some st2 } }"

primrec is_aggregate :: "agg_member \<Rightarrow> bool" where
  "is_aggregate A_NONE = False" | "is_aggregate (A_VALUE v) = False" | "is_aggregate (A_REG r) = False"
| "is_aggregate (A_AGGREGATE l) = True"

text \<open>How many bytes of an array one round of \<open>store_struct\<close> takes at most.\<close>

definition array_limit :: "nat \<Rightarrow> usize \<Rightarrow> usize" where
  "array_limit left elem_size =
    (let remaining = of_nat left * elem_size; capped = (if 8 < remaining then 8 else remaining) in
     if 8 \<le> capped then 8 else if 4 \<le> capped then 4 else if 2 \<le> capped then 2 else 1)"

partial_function (option) store_loop ::
    "'b env \<Rightarrow> reg \<Rightarrow> i64 \<Rightarrow> dtype \<Rightarrow> agg_member list \<Rightarrow> nat \<Rightarrow> usize \<Rightarrow> 'b pst \<Rightarrow> 'b pst option" where
  "store_loop en dst offset dt args index sz st =
    (if length args \<le> index then Some st
     else do {
       t \<leftarrow> base_of st dt;
       total \<leftarrow> dtype_size (tys st) dt;
       let is_arr = (dk_tag (dtype_outer dt) = DK_ARRAY);
       member_type \<leftarrow> (if is_arr then Some dt
                      else if index < length (ty_members t) then Some (m_dtype (ty_members t ! index)) else None);
       mt \<leftarrow> base_of st member_type;
       if ty_tag mt = TK_STRUCT then do {
         st1 \<leftarrow> (case args ! index of
                   A_AGGREGATE agg \<Rightarrow>
                     store_loop en dst (offset + sz) (if dtype_empty dt then member_type else snd (dtype_unwrap dt)) agg 0 0 st
                 | A_VALUE v \<Rightarrow> if v = 0 then emit en (\<lambda>be ts. be_zerofill be ts dst (offset + sz) member_type) st else None
                 | A_REG r \<Rightarrow> None
                 | A_NONE \<Rightarrow> None);
         n \<leftarrow> dtype_size (tys st) member_type;
         store_loop en dst offset dt args (index + 1) (sz + n) st1 }
       else do {
         let limit = (if is_arr then array_limit (length args - index) (ty_size t) else 8);
         let lo = reg0\<lparr>r_type := SCRATCH, r_rsize := (if 8 < ty_size t then 8 else ucast (ty_size t)),
                       r_dtype := dtype0\<lparr>d_base := d_base dt\<rparr>\<rparr>;
         (lo_written, i, n, st1) \<leftarrow> eightbyte en lo dt args index sz limit st;
         if i = index then Some (compile_err ''member size expected less than 16'' st1)
         else if is_arr then do {
           st2 \<leftarrow> (if lo_written then Some st1 else emit en (\<lambda>be ts. be_zero_out be (lo\<lparr>r_rsize := 8\<rparr>)) st1);
           st3 \<leftarrow> emit en (\<lambda>be ts. be_store_packed be ts dst (offset + sz) lo (n - sz)) st2;
           store_loop en dst offset dt args i n st3 }
         else do {
           let hi = lo\<lparr>r_offset := 1\<rparr>;
           let has_hi = (8 \<le> total - n \<and> i < length args \<and> \<not> is_aggregate (args ! i));
           (hi_written, j, n2, st2) \<leftarrow> (if has_hi then eightbyte en hi dt args i n 8 st1 else Some (False, i, n, st1));
           st3 \<leftarrow> emit en (\<lambda>be ts. be_store_eightbytes be ts dst (offset + sz) lo lo_written hi hi_written has_hi) st2;
           store_loop en dst offset dt args j n2 st3 } } })"

declare store_loop.simps [code]

definition store_struct :: "'b env \<Rightarrow> reg \<Rightarrow> i64 \<Rightarrow> dtype \<Rightarrow> agg_member list \<Rightarrow> 'b pst \<Rightarrow> 'b pst option" where
  "store_struct en dst offset dt args st =
    do { t \<leftarrow> base_of st dt; total \<leftarrow> dtype_size (tys st) dt; store_loop en dst offset dt args 0 0 st }"

section \<open>Targets of stores\<close>

text \<open>The innermost target; the report when it is not of the wanted kind does not stop the caller.\<close>

definition get_current_target :: "'b pst \<Rightarrow> target option \<times> 'b pst" where
  "get_current_target st =
    (case arr_top (pc_targets (ps_pc st)) of None \<Rightarrow> (None, compile_err ''nothing to assign'' st)
     | Some tg \<Rightarrow> (Some tg, err_if (r_type (reg_at st (tg_reg tg)) \<noteq> NREG) ''target was not nreg'' st))"

definition get_current_target_stack :: "'b pst \<Rightarrow> target option \<times> 'b pst" where
  "get_current_target_stack st =
    (case arr_top (pc_targets (ps_pc st)) of None \<Rightarrow> (None, compile_err ''nothing to assign'' st)
     | Some tg \<Rightarrow> (Some tg, err_if (r_type (reg_at st (tg_reg tg)) \<noteq> STACK) ''target was not stack'' st))"

definition set_assigned :: "'b pst \<Rightarrow> 'b pst" where
  "set_assigned st = upd_pc (\<lambda>pc. pc\<lparr>pc_targets :=
     butlast (pc_targets pc) @ [(last (pc_targets pc))\<lparr>tg_assigned := True\<rparr>]\<rparr>) st"

text \<open>\<open>resolve_stack_store_target\<close> on the innermost target.\<close>

definition store_to_target :: "target \<Rightarrow> reg \<Rightarrow> 'b pst \<Rightarrow> (i32 \<times> reg \<times> 'b pst) option" where
  "store_to_target tg src st =
    do { (off, src', tr, st1) \<leftarrow> resolve_stack_store_target (reg_at st (tg_reg tg)) (tg_assigned tg) (tg_name tg) src st;
         Some (off, src', set_assigned (set_reg_at (tg_reg tg) tr st1)) }"

definition get_store_offset :: "'b env \<Rightarrow> reg \<Rightarrow> 'b pst \<Rightarrow> (bool \<times> reg \<times> i32 \<times> 'b pst) option" where
  "get_store_offset en src st =
    (if \<not> at_store (en_text en) (cur_tok st) then Some (False, src, 0, st)
     else do {
       st1 \<leftarrow> skip_tok en st;
       st2 \<leftarrow> skip_tok en st1;
       if is_tok_char en st2 CHR '']'' then
         (case arr_top (pc_targets (ps_pc st2)) of None \<Rightarrow> Some (True, src, 0, compile_err ''nothing to store to'' st2)
          | Some tg \<Rightarrow>
             if r_type (reg_at st2 (tg_reg tg)) \<noteq> STACK then
               Some (True, src, 0, compile_err ''target is not a stack variable'' st2)
             else do { (off, src', st3) \<leftarrow> store_to_target tg src st2; Some (True, src', off, st3) })
       else do {
         c \<leftarrow> rd en (tk_data (cur_tok st2));
         if is_upper c then do {
           (resolved, st3) \<leftarrow> read_regable en (tok_str st2) (cur_tok st2) st2;
           st4 \<leftarrow> skip_tok en st3;
           let st5 = err_if (\<not> is_tok_char en st4 CHR '']'') ''closing ] expected'' st4;
           case resolved of R_REG r \<Rightarrow> do {
               (off, src', _, st6) \<leftarrow> resolve_stack_store_target r True [] src st5;
               Some (True, src', off, st6) }
           | _ \<Rightarrow> Some (True, src, 0, st5) }
         else Some (True, src, 0, compile_err ''store target expected'' st2) } })"

definition expr_struct :: "'b env \<Rightarrow> reg \<Rightarrow> dtype \<Rightarrow> 'b pst \<Rightarrow> 'b pst option" where
  "expr_struct en target dt st =
    do { (args, st1) \<leftarrow> read_aggregate en dt st;
         t \<leftarrow> base_of st1 dt;
         store \<leftarrow> streq en (tk_end (cur_tok st1) + 1) ''=['';
         if store then do {
           st2 \<leftarrow> skip_tok en st1;
           (_, _, off, st3) \<leftarrow> get_store_offset en (reg0\<lparr>r_rsize := ucast (ty_size t), r_dtype := dt\<rparr>) st2;
           store_struct en FP (scast (- off)) dt args st3 }
         else do {
           dsize \<leftarrow> dtype_size (tys st1) dt;
           let st2 = err_if (of_nat MAX_REG_SIZE < dsize) ''type exceeds max reg size'' st1;
           make_struct en target dt args
             (if be_default_register_size (en_be en) < dsize
              then upd_pc (\<lambda>pc. pc\<lparr>pc_nreg_count := pc_nreg_count pc + 1\<rparr>) st2 else st2) } }"

end
