(* ===== verification/Parser_Code.thy ===== *)
theory Parser_Code
  imports Parser_Decls
begin

text \<open>
  Operands, loads and stores, operators, expressions and conditions of \<open>src/alc/main.c\<close>. These functions
  call each other through \<open>expr\<close> and \<open>parse_block\<close>; each takes the record of the functions it calls
  that way, and \<open>Parser\<close> ties the knot.
\<close>

section \<open>The knot\<close>

record 'b knot =
  k_expr :: "'b env \<Rightarrow> 'b pst \<Rightarrow> (bool \<times> 'b pst) option"
  k_block :: "'b env \<Rightarrow> 'b pst \<Rightarrow> 'b pst option"
  k_directives :: "'b env \<Rightarrow> 'b pst \<Rightarrow> (bool \<times> 'b pst) option"

text \<open>A register that a function is given by address: that of the context, a local name's, or a copy.\<close>

datatype reg_ptr = CTX_REG | ID_REG "nat \<times> nat" | LOCAL_REG reg

primrec deref :: "'b pst \<Rightarrow> reg_ptr \<Rightarrow> reg" where
  "deref st CTX_REG = creg st"
| "deref st (ID_REG p) = reg_at st p"
| "deref st (LOCAL_REG r) = r"

definition regable_value :: "regable \<Rightarrow> i64" where
  "regable_value r = (case r of R_VALUE v \<Rightarrow> v | _ \<Rightarrow> 0)"

definition set_flow :: "(parser_context \<Rightarrow> parser_context) \<Rightarrow> 'b pst \<Rightarrow> 'b pst" where
  "set_flow f st = upd_pc (\<lambda>pc. (f pc)\<lparr>pc_has_branched_ret := True\<rparr>) st"

section \<open>Results and calls\<close>

definition at_block_end :: "bool \<Rightarrow> 'b pst \<Rightarrow> bool \<times> 'b pst" where
  "at_block_end start_of_line st =
    (if ps_null_tok st \<or> (start_of_line \<and> lx_ctx_indent (ps_lx st) = tk_indent (cur_tok st)) then
       (True, if start_of_line then st\<lparr>ps_lx := (ps_lx st)\<lparr>lx_ended := True\<rparr>\<rparr> else st)
     else (False, st))"

definition more_exprs :: "'b env \<Rightarrow> 'b pst \<Rightarrow> bool" where
  "more_exprs en st \<longleftrightarrow> at (en_text en) (tk_end (cur_tok st)) = CHR '',''
     \<and> is_space (at (en_text en) (tk_end (cur_tok st) + 1))"

definition next_creg :: "'b pst \<Rightarrow> 'b pst" where
  "next_creg st = upd_creg (\<lambda>r. r\<lparr>r_offset := r_offset r + of_nat (dtype_reg_count (r_dtype r))\<rparr>) st"

text \<open>Fixing the type of a result to the declared one, and comparing them.\<close>

definition check_result :: "reg \<Rightarrow> 'b pst \<Rightarrow> 'b pst option" where
  "check_result decl st =
    do { (_, r) \<leftarrow> resolve_comptime_to st (creg st) decl;
         Some (reg_typecheck decl r (set_creg r st)) }"

partial_function (option) results_loop ::
    "'b env \<Rightarrow> 'b knot \<Rightarrow> reg list \<Rightarrow> nat \<Rightarrow> 'b pst \<Rightarrow> (nat \<times> 'b pst) option" where
  "results_loop en K rets i st =
    do { st1 \<leftarrow> skip_tok en st;
         (ok, st2) \<leftarrow> k_expr K en st1;
         if \<not> ok then Some (i, st2)
         else do {
           (n, st3) \<leftarrow> get_rsize (creg st2) st2;
           let st4 = upd_creg (\<lambda>r. r\<lparr>r_rsize := n\<rparr>) st3;
           st5 \<leftarrow> (if i < length rets then check_result (rets ! i) st4 else Some st4);
           let st6 = next_creg st5;
           if more_exprs en st6 then results_loop en K rets (i + 1) st6 else Some (i + 1, st6) } }"

declare results_loop.simps [code]

definition read_and_check_types :: "'b env \<Rightarrow> 'b knot \<Rightarrow> reg flist \<Rightarrow> 'b pst \<Rightarrow> 'b pst option" where
  "read_and_check_types en K rets st =
    do { (i, st1) \<leftarrow> results_loop en K (fl_elems rets) 0 st;
         Some (err_if (i \<noteq> fl_cap rets) ''expected register(s)'' st1) }"

definition expr_cmp :: "'b env \<Rightarrow> reg \<Rightarrow> regable \<Rightarrow> cond \<Rightarrow> 'b pst \<Rightarrow> 'b pst option" where
  "expr_cmp en lhs rhs cond st =
    (case rhs of R_REG r \<Rightarrow> emit en (\<lambda>be ts. be_cmp_reg be ts lhs r cond) st
     | _ \<Rightarrow> emit en (\<lambda>be ts. be_cmp be ts lhs (regable_value rhs)) st)"

definition cur_symbol :: "'b pst \<Rightarrow> symbol option" where
  "cur_symbol st = map_option (fn_at st) (pc_symbol (ps_pc st))"

definition stmt_ret_pre :: "'b env \<Rightarrow> 'b knot \<Rightarrow> 'b pst \<Rightarrow> (bool \<times> 'b pst) option" where
  "stmt_ret_pre en K st =
    (let start_of_line = lx_sol (ps_lx st) in
     if tok_id en st \<noteq> ''ret'' then Some (False, st)
     else do {
       let st1 = upd_creg (\<lambda>r. r\<lparr>r_type := RET, r_offset := 0\<rparr>) st;
       st2 \<leftarrow> (if at (en_text en) (tk_end (cur_tok st1)) = CHR '' ''
               then do { s \<leftarrow> cur_symbol st1; read_and_check_types en K (sy_rets s) st1 } else Some st1);
       Some (True, if lx_ctx_indent (ps_lx st2) = 0 then snd (at_block_end start_of_line st2) else st2) })"

definition stmt_ret :: "'b env \<Rightarrow> 'b knot \<Rightarrow> 'b pst \<Rightarrow> (bool \<times> 'b pst) option" where
  "stmt_ret en K st =
    do { (ok, st1) \<leftarrow> stmt_ret_pre en K st;
         if \<not> ok then Some (False, st1)
         else
          (let st2 = upd_pc (\<lambda>pc. pc\<lparr>pc_returns_on_exit := True\<rparr>) st1 in
           if lx_ended (ps_lx st2) then Some (True, st2)
           else do {
             f \<leftarrow> symbol_name st2;
             st3 \<leftarrow> emit en (\<lambda>be ts. be_branch be f ''ret'' 0) (set_flow id st2);
             Some (True, st3) }) }"

definition stmt_ret_cond :: "'b env \<Rightarrow> 'b knot \<Rightarrow> cond \<Rightarrow> reg_ptr \<Rightarrow> regable \<Rightarrow> 'b pst \<Rightarrow> (bool \<times> 'b pst) option" where
  "stmt_ret_cond en K cond cmp_reg against st =
    do { (ok, st1) \<leftarrow> stmt_ret_pre en K st;
         if \<not> ok then Some (False, st1)
         else do {
           st2 \<leftarrow> expr_cmp en (deref st1 cmp_reg) against cond st1;
           f \<leftarrow> symbol_name st2;
           st3 \<leftarrow> emit en (\<lambda>be ts. be_branch_cond be cond f ''ret'' 0) (set_flow id st2);
           Some (True, st3) } }"

text \<open>The error value of the function: its first result's register with the amount of its check.\<close>

definition error_result :: "'b env \<Rightarrow> 'b pst \<Rightarrow> 'b pst option" where
  "error_result en st =
    do { s \<leftarrow> cur_symbol st;
         r \<leftarrow> (case fl_elems (sy_rets s) of [] \<Rightarrow> None | r # _ \<Rightarrow> Some (r\<lparr>r_type := RET, r_offset := 0\<rparr>));
         let decl = dtype_outer (r_dtype r);
         emit en (\<lambda>be ts. be_mov be ts r (scast (dk_amount decl)))
           (err_if (dk_tag decl \<noteq> DK_CHECK) ''a frontmost check(!) annotation is expected'' st) }"

definition stmt_eret :: "'b env \<Rightarrow> 'b pst \<Rightarrow> (bool \<times> 'b pst) option" where
  "stmt_eret en st =
    (if tok_id en st \<noteq> ''eret'' then Some (False, st)
     else do {
       st1 \<leftarrow> error_result en st;
       f \<leftarrow> symbol_name st1;
       st2 \<leftarrow> emit en (\<lambda>be ts. be_branch be f ''ret'' 0) (set_flow (\<lambda>pc. pc\<lparr>pc_returns_on_exit := True\<rparr>) st1);
       Some (True, st2) })"

definition stmt_eret_cond :: "'b env \<Rightarrow> cond \<Rightarrow> reg \<Rightarrow> regable \<Rightarrow> 'b pst \<Rightarrow> (bool \<times> 'b pst) option" where
  "stmt_eret_cond en cond cmp_reg against st =
    (if tok_id en st \<noteq> ''eret'' then Some (False, st)
     else do {
       st1 \<leftarrow> error_result en st;
       st2 \<leftarrow> expr_cmp en cmp_reg against cond st1;
       f \<leftarrow> symbol_name st2;
       st3 \<leftarrow> emit en (\<lambda>be ts. be_branch_cond be cond f ''ret'' 0) (set_flow id st2);
       Some (True, st3) })"

text \<open>The symbol that was called; none for an unknown name and for a call that ends its line.\<close>

definition fn_call :: "'b env \<Rightarrow> 'b knot \<Rightarrow> 'b pst \<Rightarrow> (nat option \<times> 'b pst) option" where
  "fn_call en K st =
    do { i \<leftarrow> find_fn en (tok_id en st) st;
         if fst (ps_fns st ! i) = None then Some (None, compile_err ''trying to use undefined function'' st)
         else
          (let st1 = upd_pc (\<lambda>pc. pc\<lparr>pc_last_fn_call := Some i\<rparr>) st in
           if at (en_text en) (tk_end (cur_tok st1)) = NL then Some (None, st1)
           else do {
             st2 \<leftarrow> read_and_check_types en K (sy_params (fn_at st1 i))
                      (upd_creg (\<lambda>r. r\<lparr>r_type := PARAM, r_offset := 0\<rparr>) st1);
             st3 \<leftarrow> (if 0 <s r_offset (creg st2) then skip_tok en st2 else Some st2);
             st4 \<leftarrow> emit en (\<lambda>be ts. be_fn_call be (sy_name (fn_at st3 i))) st3;
             let st5 = upd_creg (\<lambda>r. r\<lparr>r_offset := 0, r_type := RET\<rparr>) st4;
             st6 \<leftarrow>
               (if sy_ret_airity (fn_at st5 i) = 1 then
                  (case fl_elems (sy_rets (fn_at st5 i)) of [] \<Rightarrow> None
                   | r # _ \<Rightarrow> do {
                       n \<leftarrow> dtype_size (tys st5) (r_dtype r);
                       if of_nat MAX_REG_SIZE < n then None
                       else Some (upd_creg (\<lambda>g. g\<lparr>r_dtype := r_dtype r, r_rsize := ucast n\<rparr>) st5) })
                else Some (err_if (1 < sy_ret_airity (fn_at st5 i)) ''returning two values is not implemented'' st5));
             Some (Some i, upd_pc (\<lambda>pc. pc\<lparr>pc_calls_fn := True\<rparr>) st6) }) }"

section \<open>Branches\<close>

definition named_bcond :: "'b env \<Rightarrow> cond \<Rightarrow> 'b pst \<Rightarrow> 'b pst option" where
  "named_bcond en cond st =
    (let t = cur_tok st;
         st1 = err_if (\<not> ends_arrow en t) ''-> expected at the end of a conditional branch'' st;
         label = sub en \<lparr>s_data = tk_data t, s_end = tk_end t - 2\<rparr>;
         f = pc_name (ps_pc st1) in
     emit en (\<lambda>be ts. be_branch_cond be cond f label 0)
       (upd_pc (\<lambda>pc. pc\<lparr>pc_check_fail_fn := f, pc_check_fail_label := label\<rparr>) st1))"

partial_function (option) more_line ::
    "'b env \<Rightarrow> 'b knot \<Rightarrow> 'b pst \<Rightarrow> (bool \<times> 'b pst) option" where
  "more_line en K st =
    (if \<not> more_exprs en st then Some (True, st)
     else do {
       st1 \<leftarrow> skip_tok en (next_creg st);
       (ok, st2) \<leftarrow> k_expr K en st1;
       if \<not> ok then Some (False, st2) else more_line en K st2 })"

declare more_line.simps [code]

text \<open>The number of registers the expressions of a line take, zero when there is none.\<close>

definition expr_line :: "'b env \<Rightarrow> 'b knot \<Rightarrow> 'b pst \<Rightarrow> (i32 \<times> 'b pst) option" where
  "expr_line en K st =
    (if ps_null_tok st then Some (0, st)
     else do {
       (ok, st1) \<leftarrow> k_expr K en st;
       if \<not> ok then Some (0, st1)
       else do {
         (_, st2) \<leftarrow> more_line en K st1;
         Some (r_offset (creg st2) + of_nat (dtype_reg_count (r_dtype (creg st2))),
               if at (en_text en) (tk_end (cur_tok st2)) = NL
               then upd_creg (\<lambda>r. r\<lparr>r_offset := 0, r_type := SCRATCH\<rparr>) st2 else st2) } })"

partial_function (option) bcond_line :: "'b env \<Rightarrow> 'b knot \<Rightarrow> 'b pst \<Rightarrow> 'b pst option" where
  "bcond_line en K st =
    do { st1 \<leftarrow> skip_tok en st;
         (is_ret, st2) \<leftarrow> stmt_ret en K st1;
         (n, st3) \<leftarrow> (if is_ret then Some (1, st2) else expr_line en K st2);
         (fn, st4) \<leftarrow> (if is_ret \<or> n \<noteq> 0 then Some (Some 0, st3) else fn_call en K st3);
         if fn = None then Some (compile_err ''a line of expression expected as this line does not end with newline'' st4)
         else if lx_eol (ps_lx st4) then Some st4 else bcond_line en K st4 }"

declare bcond_line.simps [code]

definition anonymous_bcond_block :: "'b env \<Rightarrow> 'b knot \<Rightarrow> 'b pst \<Rightarrow> 'b pst option" where
  "anonymous_bcond_block en K st =
    do { st1 \<leftarrow> skip_tok en st;
         if at (en_text en) (tk_end (cur_tok st1)) \<noteq> NL then bcond_line en K st1 else k_block K en st1 }"

definition anonymous_bcond :: "'b env \<Rightarrow> 'b knot \<Rightarrow> cond \<Rightarrow> 'b pst \<Rightarrow> 'b pst option" where
  "anonymous_bcond en K cond st =
    (let index = uint (pc_unnamed_labels (ps_pc st));
         st1 = upd_pc (\<lambda>pc. pc\<lparr>pc_unnamed_labels := pc_unnamed_labels pc + 1\<rparr>) st in
     do { st2 \<leftarrow> emit en (\<lambda>be ts. be_branch_cond be cond (pc_name (ps_pc st1)) ''lbb'' index) st1;
          st3 \<leftarrow> anonymous_bcond_block en K st2;
          emit en (\<lambda>be ts. be_label be (pc_name (ps_pc st3)) ''lbb'' index) st3 })"

text \<open>What a comparison of two constants folds to; a constant on the left of a register is reported.\<close>

definition fold_compare :: "cond \<Rightarrow> regable \<Rightarrow> regable \<Rightarrow> 'b pst \<Rightarrow> (bool option \<times> 'b pst) option" where
  "fold_compare cond lhs rhs st =
    (case lhs of R_VALUE v \<Rightarrow>
        (case rhs of R_VALUE w \<Rightarrow> map_option (\<lambda>b. (Some b, st)) (cond_eval cond v w)
         | _ \<Rightarrow> Some (None, compile_err ''a register is expected for the left hand side of the operator'' st))
     | _ \<Rightarrow> Some (None, st))"

definition emit_compare :: "'b env \<Rightarrow> cond \<Rightarrow> regable \<Rightarrow> regable \<Rightarrow> 'b pst \<Rightarrow> 'b pst option" where
  "emit_compare en cond lhs rhs st =
    do { l \<leftarrow> as_reg lhs;
         case rhs of R_VALUE v \<Rightarrow> emit en (\<lambda>be ts. be_cmp be ts l v) st
         | R_REG r \<Rightarrow> emit en (\<lambda>be ts. be_cmp_reg be ts l r cond) st
         | R_NONE \<Rightarrow> None }"

definition consume_rest :: "'b env \<Rightarrow> 'b pst \<Rightarrow> 'b pst option" where
  "consume_rest en st = map_option (\<lambda>lx. st\<lparr>ps_lx := lx, ps_null_tok := False\<rparr>) (consume_line_or_block (en_text en) (ps_lx st))"

text \<open>The result of a comparison as a value.\<close>

definition compare_value :: "'b env \<Rightarrow> cond \<Rightarrow> bool option \<Rightarrow> 'b pst \<Rightarrow> 'b pst option" where
  "compare_value en cond folded st =
    (if r_type (creg st) \<noteq> PARAM then Some st
     else case folded of
         None \<Rightarrow> emit en (\<lambda>be ts. be_cond_set be ts (creg st) cond) st
       | Some b \<Rightarrow> emit en (\<lambda>be ts. be_mov be ts (creg st) (if b then 1 else 0)) st)"

definition compare_branch ::
    "'b env \<Rightarrow> 'b knot \<Rightarrow> cond \<Rightarrow> regable \<Rightarrow> regable \<Rightarrow> token \<Rightarrow> 'b pst \<Rightarrow> 'b pst option" where
  "compare_branch en K cond lhs rhs rhs_token st =
    do { (folded, st1) \<leftarrow> fold_compare cond lhs rhs st;
         st2 \<leftarrow> (if folded = None then emit_compare en cond lhs rhs st1 else Some st1);
         c \<leftarrow> rd en (tk_end rhs_token + 1);
         if is_id c then
           (case folded of
              None \<Rightarrow> do { st3 \<leftarrow> skip_tok en st2; named_bcond en cond st3 }
            | Some b \<Rightarrow> Some (compile_err ''not implemented when folded'' st2))
         else if streq_at (en_text en) (tk_end rhs_token + 1) ''->'' then
           (case folded of
              None \<Rightarrow> anonymous_bcond en K (cond_flip cond) st2
            | Some True \<Rightarrow> anonymous_bcond_block en K st2
            | Some False \<Rightarrow> do { st3 \<leftarrow> skip_tok en st2; consume_rest en st3 })
         else compare_value en cond folded st2 }"

section \<open>The check operator\<close>

definition set_check_fail :: "'b pst \<Rightarrow> 'b pst option" where
  "set_check_fail st =
    do { f \<leftarrow> symbol_name st;
         Some (upd_pc (\<lambda>pc. pc\<lparr>pc_check_fail_fn := f, pc_check_fail_label := ''ret''\<rparr>) st) }"

definition checkop :: "'b env \<Rightarrow> 'b knot \<Rightarrow> reg_ptr \<Rightarrow> regable \<Rightarrow> cond \<Rightarrow> 'b pst \<Rightarrow> (bool \<times> 'b pst) option" where
  "checkop en K index_reg against cond st =
    (if tok_id en st = ''UNCHECKED'' then Some (False, st)
     else if tok_id en st \<noteq> ''!'' then Some (False, compile_err ''expected to check bounds with operator !'' st)
     else do {
       let stash = creg st;
       st1 \<leftarrow> skip_tok en st;
       (is_ret, st2) \<leftarrow> stmt_ret_cond en K cond index_reg against st1;
       st5 \<leftarrow>
         (if is_ret then set_check_fail st2
          else do {
            (is_eret, st3) \<leftarrow> stmt_eret_cond en cond (deref st2 index_reg) against st2;
            if is_eret then set_check_fail st3
            else if ends_arrow en (cur_tok st3) then do {
              st4 \<leftarrow> expr_cmp en (deref st3 index_reg) against cond st3;
              named_bcond en cond st4 }
            else Some (compile_err ''expected to handle check operator'' st3) });
       Some (True, set_creg stash st5) })"

text \<open>The check of the outermost declarator of a register; the caller drops the declarator if it was made.\<close>

definition checkop_err :: "'b env \<Rightarrow> 'b knot \<Rightarrow> reg_ptr \<Rightarrow> 'b pst \<Rightarrow> (bool \<times> 'b pst) option" where
  "checkop_err en K p st =
    (let decl = dtype_outer (r_dtype (deref st p)) in
     if dk_tag decl \<noteq> DK_CHECK then Some (False, st)
     else do {
       (ok, st1) \<leftarrow> checkop en K p (R_VALUE (scast (dk_amount decl))) COND_EQ st;
       let r = deref st1 p;
       let r' = r\<lparr>r_dtype := snd (dtype_unwrap (r_dtype r))\<rparr>;
       Some (ok, if \<not> ok then st1
                 else case p of CTX_REG \<Rightarrow> set_creg r' st1 | ID_REG q \<Rightarrow> set_reg_at q r' st1 | LOCAL_REG _ \<Rightarrow> st1) })"

definition checkop_bounds :: "'b env \<Rightarrow> 'b knot \<Rightarrow> reg \<Rightarrow> regable \<Rightarrow> bool \<Rightarrow> 'b pst \<Rightarrow> (bool \<times> 'b pst) option" where
  "checkop_bounds en K index_reg against inclusive st =
    checkop en K (LOCAL_REG index_reg) against (if inclusive then COND_HS else COND_HI) st"

section \<open>Operands in memory\<close>

text \<open>The operand a load or store names, and the token the code has reached.\<close>

definition memory_operand :: "'b env \<Rightarrow> str \<Rightarrow> 'b pst \<Rightarrow> (regable \<times> 'b pst) option" where
  "memory_operand en s st =
    (if sub en s = ''This'' then
       (case arr_top (pc_targets (ps_pc st)) of None \<Rightarrow> Some (R_NONE, compile_err ''nothing to assign'' st)
        | Some tg \<Rightarrow> Some (R_REG (reg_at st (tg_reg tg)), st))
     else if s_end s = s_data s then
       (case get_current_target_stack st of (None, st1) \<Rightarrow> Some (R_NONE, st1)
        | (Some tg, st1) \<Rightarrow> Some (R_REG (reg_at st1 (tg_reg tg)), st1))
     else read_regable en s (cur_tok st) st)"

text \<open>A register that is no address stands for its first member when that is one.\<close>

definition first_addr_member :: "'b pst \<Rightarrow> dtype \<Rightarrow> member option" where
  "first_addr_member st dt =
    (case base_of st dt of None \<Rightarrow> None
     | Some t \<Rightarrow>
        if dtype_empty dt \<and> ty_tag t = TK_STRUCT then
          (case ty_members t of [] \<Rightarrow> None
           | m # _ \<Rightarrow> if dtype_tryget_addr (m_dtype m) \<noteq> 0 then Some m else None)
        else None)"

definition address_reg :: "reg \<Rightarrow> 'b pst \<Rightarrow> (reg \<times> 'b pst) option" where
  "address_reg reg st =
    (if r_type reg = STACK \<or> 0 <s dtype_tryget_addr (r_dtype reg) then Some (reg, st)
     else case first_addr_member st (r_dtype reg) of
         Some m \<Rightarrow> do {
           n \<leftarrow> dtype_size (tys st) (m_dtype m);
           Some (reg\<lparr>r_dtype := m_dtype m, r_offset := r_offset reg - ucast (m_offset m), r_rsize := ucast n\<rparr>, st) }
       | None \<Rightarrow>
           if dk_tag (dtype_outer (r_dtype reg)) = DK_SLICE then do {
             n \<leftarrow> dtype_size (tys st) (r_dtype reg);
             Some (reg\<lparr>r_rsize := ucast n\<rparr>, st) }
           else Some (reg, compile_err ''a register containing addr is expected'' st))"

definition length_reg :: "reg \<Rightarrow> reg" where
  "length_reg reg = reg\<lparr>r_offset := r_offset reg + 1, r_rsize := 8\<rparr>"

text \<open>The displacement of a constant offset, and the base register; an object of the frame is below it.\<close>

definition static_offset :: "reg \<Rightarrow> i64 \<Rightarrow> usize \<Rightarrow> reg \<times> i64" where
  "static_offset reg v stride =
    (if r_type reg = STACK then
       (FP\<lparr>r_dtype := dtype_wrap (dtype0\<lparr>d_base := d_base (r_dtype reg)\<rparr>) \<lparr>dk_tag = DK_ADDR, dk_amount = 1\<rparr>\<rparr>,
        - (v * stride + scast (r_offset reg)))
     else (reg, v * stride + scast (r_disp reg)))"

definition read_load_store_offset ::
    "'b env \<Rightarrow> 'b knot \<Rightarrow> bool \<Rightarrow> 'b pst \<Rightarrow> ((reg \<times> regable) option \<times> 'b pst) option" where
  "read_load_store_offset en K is_load st =
    do { st1 \<leftarrow> skip_tok en st;
         let s = tok_str st1;
         st2 \<leftarrow> skip_tok en st1;
         (off, st3) \<leftarrow>
           (if is_tok_char en st2 CHR ''*'' then do {
              st' \<leftarrow> skip_tok en st2;
              (r, st'') \<leftarrow> read_regable en (tok_str st') (cur_tok st') st';
              Some (r, snd (diagnostic_dyn_elem_access r st'')) }
            else Some (R_VALUE 0, st2));
         (target, st4) \<leftarrow> memory_operand en s st3;
         if target = R_NONE then Some (None, st4)
         else do {
           st5 \<leftarrow> (if is_load then check_unassigned target st4 else Some st4);
           case target of R_REG reg0' \<Rightarrow> do {
               (reg, st6) \<leftarrow> address_reg reg0' st5;
               let decl = dtype_outer (r_dtype reg);
               let is_slice = (dk_tag decl = DK_SLICE);
               let is_array = (dk_tag decl = DK_ARRAY);
               (reg', off', st7) \<leftarrow>
                 (case off of
                    R_VALUE v \<Rightarrow> do {
                      st' \<leftarrow> (if is_slice then do {
                                (_, sa) \<leftarrow> checkop en K (LOCAL_REG (length_reg reg)) (R_VALUE (scast (dk_amount decl))) COND_LS st6;
                                skip_tok en sa }
                              else Some st6);
                      let (stride, st'') = (case base_of st' (r_dtype reg) of
                          None \<Rightarrow> (4, compile_err ''compiler bug: reg type was NULL'' st')
                        | Some t \<Rightarrow> (ty_size t, st'));
                      let (r, w) = static_offset reg v stride;
                      Some (r, R_VALUE w, st'') }
                  | R_REG o_reg \<Rightarrow>
                      (if is_slice \<or> is_array then do {
                         sa \<leftarrow> skip_tok en st6;
                         (_, sb) \<leftarrow> checkop_bounds en K o_reg
                           (if is_slice then R_REG (length_reg reg) else R_VALUE (scast (dk_amount decl))) True sa;
                         sc \<leftarrow> skip_tok en sb;
                         Some (reg, off, sc) }
                       else Some (reg, off, compile_err ''register was not an array'' st6))
                  | R_NONE \<Rightarrow> None);
               Some (Some (reg', off'), err_if (\<not> is_tok_char en st7 CHR '']'') ''closing ] expected'' st7) }
           | _ \<Rightarrow> Some (None, compile_err ''register expected'' st5) } }"

section \<open>Loads and stores\<close>

text \<open>Moving an operand into the register of the context; true when the operand has no type yet.\<close>

definition nullary_op :: "'b env \<Rightarrow> regable \<Rightarrow> 'b pst \<Rightarrow> (bool \<times> 'b pst) option" where
  "nullary_op en lhs st =
    (case lhs of
       R_VALUE v \<Rightarrow> do {
         (n, st1) \<leftarrow> get_rsize (creg st) st;
         let st2 = upd_creg (\<lambda>r. r\<lparr>r_rsize := n\<rparr>) st1;
         st3 \<leftarrow> emit en (\<lambda>be ts. be_mov be ts (creg st2) v) st2;
         Some (False, st3) }
     | R_REG nreg \<Rightarrow>
        (if r_type nreg = NREG then
          (let st1 = upd_creg (\<lambda>r. r\<lparr>r_dtype := r_dtype nreg, r_rsize := r_rsize nreg\<rparr>) st in
           if d_base (r_dtype nreg) = None then Some (True, compile_err ''use of unassigned register'' st1)
           else do {
             st2 \<leftarrow> emit en (\<lambda>be ts. be_mov_reg be ts (creg st1) nreg) st1;
             st3 \<leftarrow> (if dk_tag (dtype_outer (r_dtype nreg)) = DK_SLICE
                     then emit en (\<lambda>be ts. be_mov_reg be ts (length_reg (creg st2)) (length_reg nreg)) st2
                     else Some st2);
             Some (False, st3) })
         else if r_type nreg = STACK then
          (let outer = dtype_outer (r_dtype nreg);
               is_slice = (dk_tag outer = DK_SLICE);
               d = (if is_slice then r_dtype nreg else dtype_wrap (r_dtype nreg) \<lparr>dk_tag = DK_ADDR, dk_amount = 1\<rparr>);
               st1 = err_if (d_base (r_dtype nreg) = None) ''taking address of stack object with unknown type'' st;
               st2 = upd_creg (\<lambda>r. r\<lparr>r_rsize := 8, r_dtype := d\<rparr>) st1 in
           do { st3 \<leftarrow> emit en (\<lambda>be ts. be_sub be ts (creg st2) FP (scast (r_offset nreg))) st2;
                st4 \<leftarrow> (if is_slice
                        then emit en (\<lambda>be ts. be_mov be ts ((creg st3)\<lparr>r_offset := r_offset (creg st3) + 1\<rparr>)
                               (scast (dk_amount outer))) st3
                        else Some st3);
                Some (False, st4) })
         else Some (False, st))
     | R_NONE \<Rightarrow> None)"

text \<open>The register that stands for a constant that is stored.\<close>

definition imm_source :: "'b pst \<Rightarrow> reg" where
  "imm_source st = reg0\<lparr>r_type := SCRATCH, r_offset := r_offset (creg st), r_rsize := r_rsize (creg st),
     r_dtype := dtype0\<lparr>d_base := d_base (r_dtype (creg st))\<rparr>\<rparr>"

definition store_to_frame :: "'b env \<Rightarrow> regable \<Rightarrow> 'b pst \<Rightarrow> 'b pst option" where
  "store_to_frame en lhs st =
    (case get_current_target_stack st of (None, st1) \<Rightarrow> Some st1
     | (Some tg, st1) \<Rightarrow>
        (case lhs of
           R_VALUE v \<Rightarrow> do {
             (off, src, st2) \<leftarrow> store_to_target tg (imm_source st1) st1;
             emit en (\<lambda>be ts. be_str_imm be ts (FP\<lparr>r_dtype := r_dtype src, r_rsize := r_rsize src\<rparr>) v (- off)) st2 }
         | _ \<Rightarrow> do {
             src0 \<leftarrow> as_reg lhs;
             st2 \<leftarrow> (if r_type src0 \<noteq> SCRATCH then map_option snd (nullary_op en lhs st1) else Some st1);
             (off, src, st3) \<leftarrow> store_to_target tg (if r_type src0 \<noteq> SCRATCH then creg st2 else src0) st2;
             emit en (\<lambda>be ts. be_str_reg be ts FP src (- off)) st3 }))"

text \<open>The source and the destination register of a store, with the type of the destination settled.\<close>

definition store_operands :: "regable \<Rightarrow> reg \<Rightarrow> 'b pst \<Rightarrow> (reg \<times> reg \<times> 'b pst) option" where
  "store_operands lhs dst st =
    (case lhs of
       R_VALUE v \<Rightarrow> do {
         let src = imm_source st;
         t \<leftarrow> base_of st (r_dtype dst);
         if ty_tag t = TK_FUND \<and> d_base (r_dtype src) = Some COMPTIME then
           (if of_nat MAX_REG_SIZE < ty_size t then
              Some (src\<lparr>r_dtype := r_dtype dst, r_rsize := 4\<rparr>, dst,
                    compile_err ''compiler bug: this register size exceeds max register size'' st)
            else Some (src\<lparr>r_dtype := r_dtype dst, r_rsize := ucast (ty_size t)\<rparr>, dst, st))
         else Some (src, dst, st) }
     | R_REG r \<Rightarrow> Some (r, dst\<lparr>r_dtype := (r_dtype dst)\<lparr>d_base := d_base (r_dtype r)\<rparr>\<rparr>, st)
     | R_NONE \<Rightarrow> None)"

definition emit_store :: "'b env \<Rightarrow> regable \<Rightarrow> reg \<Rightarrow> reg \<Rightarrow> regable \<Rightarrow> 'b pst \<Rightarrow> 'b pst option" where
  "emit_store en lhs src dst offset st =
    (let is_imm = is_value lhs in
     case offset of
       R_REG o_reg \<Rightarrow>
        (let d1 = (if dk_tag (dtype_outer (r_dtype dst)) = DK_ADDR
                   then dst\<lparr>r_dtype := snd (dtype_unwrap (r_dtype dst))\<rparr> else dst);
             k = dk_tag (dtype_outer (r_dtype d1)) in
         if k = DK_ARRAY \<or> k = DK_SLICE then do {
           st1 \<leftarrow> (if is_imm then emit en (\<lambda>be ts. be_mov be ts src (regable_value lhs)) st else Some st);
           emit en (\<lambda>be ts. be_array_access be ts d1 src o_reg True) st1 }
         else if is_imm then emit en (\<lambda>be ts. be_str_imm_regoff be ts d1 (regable_value lhs) o_reg) st
         else emit en (\<lambda>be ts. be_str_regoff be ts d1 src o_reg) st)
     | _ \<Rightarrow>
        (let w = ucast (regable_value offset) in
         if is_imm then emit en (\<lambda>be ts. be_str_imm be ts dst (regable_value lhs) w) st
         else emit en (\<lambda>be ts. be_str_reg be ts dst src w) st))"

partial_function (option) store_all :: "'b env \<Rightarrow> 'b knot \<Rightarrow> regable \<Rightarrow> 'b pst \<Rightarrow> 'b pst option" where
  "store_all en K lhs st =
    do { (place, st1) \<leftarrow> read_load_store_offset en K False st;
         case place of None \<Rightarrow> Some st1
         | Some (dst0, offset) \<Rightarrow> do {
             (src, dst, st2) \<leftarrow> store_operands lhs dst0 st1;
             let st3 = snd (typecheck (d_base (r_dtype dst)) (d_base (r_dtype src)) st2);
             st4 \<leftarrow> emit_store en lhs src dst offset st3;
             again \<leftarrow> streq en (tk_end (cur_tok st4) + 1) ''=['';
             if \<not> again then Some st4
             else do { st5 \<leftarrow> skip_tok en st4; st6 \<leftarrow> skip_tok en st5; store_all en K lhs st6 } } }"

declare store_all.simps [code]

definition do_store :: "'b env \<Rightarrow> 'b knot \<Rightarrow> regable \<Rightarrow> 'b pst \<Rightarrow> 'b pst option" where
  "do_store en K lhs st =
    do { st1 \<leftarrow> skip_tok en st;
         if at (en_text en) (tk_end (cur_tok st1)) = CHR '']'' then do {
           st2 \<leftarrow> skip_tok en st1;
           store_to_frame en lhs st2 }
         else store_all en K lhs st1 }"

definition binary_op_store :: "'b env \<Rightarrow> 'b knot \<Rightarrow> regable \<Rightarrow> 'b pst \<Rightarrow> (bool \<times> 'b pst) option" where
  "binary_op_store en K lhs st =
    do { store \<leftarrow> streq en (tk_end (cur_tok st) + 1) ''=['';
         if \<not> store then Some (False, st)
         else do { st1 \<leftarrow> skip_tok en st; st2 \<leftarrow> do_store en K lhs st1; Some (True, st2) } }"

definition expr_load_elem :: "'b env \<Rightarrow> reg \<Rightarrow> regable \<Rightarrow> 'b pst \<Rightarrow> 'b pst option" where
  "expr_load_elem en src0 offset st =
    (let d0 = r_dtype src0;
         d = (if dk_tag (dtype_outer d0) = DK_ADDR then snd (dtype_unwrap d0) else d0);
         decl = dtype_outer d;
         is_elems = ((dk_tag decl = DK_ARRAY \<or> dk_tag decl = DK_SLICE));
         st1 = err_if (\<not> is_elems) ''this is not an array or a slice'' st in
     case offset of
       R_VALUE v \<Rightarrow> Some (compile_err ''use static bound checked syntax'' st1)
     | _ \<Rightarrow> do {
         o_reg \<leftarrow> as_reg offset;
         let st2 = err_if (dk_tag decl = DK_ARRAY \<and> dk_amount decl \<le>s 0) ''array access out of bounds'' st1;
         t \<leftarrow> base_of st2 d;
         let st3 = upd_creg (\<lambda>r. r\<lparr>r_rsize := ucast (ty_size t), r_dtype := snd (dtype_unwrap d)\<rparr>) st2;
         emit en (\<lambda>be ts. be_array_access be ts (creg st3) (src0\<lparr>r_dtype := d, r_rsize := ucast (ty_size t)\<rparr>) o_reg False) st3 })"

definition expr_load :: "'b env \<Rightarrow> 'b knot \<Rightarrow> 'b pst \<Rightarrow> (bool \<times> 'b pst) option" where
  "expr_load en K st =
    (if \<not> is_tok_char en st CHR ''['' then Some (False, st)
     else do {
       (place, st1) \<leftarrow> read_load_store_offset en K True st;
       case place of None \<Rightarrow> Some (True, st1)
       | Some (src, offset) \<Rightarrow>
          (case base_of st1 (r_dtype src) of
             None \<Rightarrow> Some (True, compile_err ''compiler bug: type you are trying to load is null'' st1)
           | Some t \<Rightarrow>
              if dtype_tryget_arr (r_dtype src) \<noteq> 0
                 \<or> is_reg offset \<and> dk_tag (dtype_outer (r_dtype src)) = DK_SLICE
              then do { st2 \<leftarrow> expr_load_elem en src offset st1; Some (True, st2) }
              else if of_nat MAX_REG_SIZE < ty_size t then
                Some (True, compile_err ''the object you are trying to load does not fit in a register''
                  (compile_err ''cannot load object of size bigger than 16 bytes to register'' st1))
              else
               (let st2 = upd_creg (\<lambda>r. r\<lparr>r_rsize := ucast (ty_size t), r_dtype := dtype_unwrap_dup (r_dtype src)\<rparr>) st1;
                    src' = src\<lparr>r_rsize := ucast (ty_size t)\<rparr> in
                do { st3 \<leftarrow>
                       (case offset of
                          R_VALUE v \<Rightarrow> emit en (\<lambda>be ts. be_ldr be ts (creg st2) src' (ucast v)) st2
                        | _ \<Rightarrow> do { o_reg \<leftarrow> as_reg offset; emit en (\<lambda>be ts. be_ldr_reg be ts (creg st2) src' o_reg) st2 });
                     Some (True, st3) })) })"

end
