(* ===== verification/Parser.thy ===== *)
theory Parser
  imports Parser_Code
begin

text \<open>
  Operators, expressions, statements, blocks, functions, directives and the compilation of a source of
  \<open>src/alc/main.c\<close>. The functions that call each other are tied together by \<open>knot\<close>, whose argument bounds how
  deep these calls nest; \<open>None\<close> also stands for running out of it.
\<close>

section \<open>Elements and parts of arrays\<close>

definition part_operand :: "'b env \<Rightarrow> str \<Rightarrow> token \<Rightarrow> 'b pst \<Rightarrow> (regable \<times> 'b pst) option" where
  "part_operand en s t st = (if s_end s = s_data s then Some (R_NONE, st) else read_regable en s t st)"

fun has_range :: "string \<Rightarrow> bool" where
  "has_range (a # b # cs) = (a = CHR ''.'' \<and> b = CHR ''.'' \<or> has_range (b # cs))"
| "has_range _ = False"

text \<open>The checks of the bounds: of the one that is given, or of both and of their order.\<close>

definition check_range :: "'b env \<Rightarrow> 'b knot \<Rightarrow> regable \<Rightarrow> regable \<Rightarrow> regable \<Rightarrow> 'b pst \<Rightarrow> 'b pst option" where
  "check_range en K begin_r end_r len_r st =
    do { b \<leftarrow> as_reg begin_r;
         e \<leftarrow> as_reg end_r;
         if begin_r \<noteq> R_NONE \<and> end_r \<noteq> R_NONE then do {
           (ok, st1) \<leftarrow> checkop_bounds en K e len_r False st;
           if \<not> ok then Some st1
           else do {
             st2 \<leftarrow> emit en (\<lambda>be ts. be_cmp_reg be ts b e COND_HI) st1;
             emit en (\<lambda>be ts. be_branch_cond be COND_HI (pc_check_fail_fn (ps_pc st2)) (pc_check_fail_label (ps_pc st2)) 0) st2 } }
         else if begin_r \<noteq> R_NONE then map_option snd (checkop_bounds en K b len_r True st)
         else if end_r \<noteq> R_NONE then map_option snd (checkop_bounds en K e len_r False st)
         else None }"

definition deriv :: "nat option \<Rightarrow> dtype_kind \<Rightarrow> i32 \<Rightarrow> dtype" where
  "deriv base k n = dtype_wrap (dtype0\<lparr>d_base := base\<rparr>) \<lparr>dk_tag = k, dk_amount = ucast n\<rparr>"

definition emit_slice ::
    "'b env \<Rightarrow> reg \<Rightarrow> i32 \<Rightarrow> regable \<Rightarrow> regable \<Rightarrow> bool \<Rightarrow> reg \<Rightarrow> 'b pst \<Rightarrow> 'b pst option" where
  "emit_slice en lhs len begin_r end_r is_range dst0 st =
    (let is_slice = (dk_tag (dtype_outer (r_dtype lhs)) = DK_SLICE);
         dst = dst0\<lparr>r_rsize := 8\<rparr>; dst2 = dst\<lparr>r_offset := r_offset dst + 1\<rparr> in
     do { b \<leftarrow> as_reg begin_r;
          e \<leftarrow> as_reg end_r;
          if begin_r \<noteq> R_NONE \<and> end_r = R_NONE \<and> \<not> is_range then do {
            st1 \<leftarrow> emit en (\<lambda>be ts. be_elem_addr be ts dst lhs b) st;
            Some (upd_creg (\<lambda>r. r\<lparr>r_dtype := deriv (d_base (r_dtype lhs)) DK_ADDR 1\<rparr>) st1) }
          else do {
            st3 \<leftarrow>
              (if begin_r \<noteq> R_NONE then do {
                 st1 \<leftarrow> emit en (\<lambda>be ts. be_elem_addr be ts dst lhs b) st;
                 if end_r = R_NONE then do {
                   st2 \<leftarrow> (if is_slice then emit en (\<lambda>be ts. be_mov_reg be ts dst2 (length_reg lhs)) st1
                           else emit en (\<lambda>be ts. be_mov be ts dst2 (scast len)) st1);
                   emit en (\<lambda>be ts. be_sub_reg be ts dst2 dst2 (b\<lparr>r_rsize := 8\<rparr>)) st2 }
                 else do {
                   st2 \<leftarrow> emit en (\<lambda>be ts. be_sub_reg be ts (dst2\<lparr>r_rsize := r_rsize b\<rparr>) e b) st1;
                   emit en (\<lambda>be ts. be_mov_reg be ts dst2 (dst2\<lparr>r_rsize := r_rsize b, r_dtype := r_dtype b\<rparr>))
                     (err_if (\<not> dtype_eq (r_dtype e) (r_dtype b)) ''type for begin and end range differs'' st2) } }
               else if end_r \<noteq> R_NONE then do {
                 st1 \<leftarrow> emit en (\<lambda>be ts. be_sub be ts dst FP (scast (r_offset lhs))) st;
                 emit en (\<lambda>be ts. be_mov_reg be ts dst2 e) st1 }
               else None);
            Some (upd_creg (\<lambda>r. r\<lparr>r_dtype := deriv (d_base (r_dtype lhs)) DK_SLICE len\<rparr>) st3) } })"

definition dyn_slice_access :: "'b env \<Rightarrow> 'b knot \<Rightarrow> reg \<Rightarrow> i32 \<Rightarrow> 'b pst \<Rightarrow> 'b pst option" where
  "dyn_slice_access en K lhs len st =
    do { st1 \<leftarrow> skip_tok en st;
         let t = cur_tok st1;
         let (first, id1) = dot_iter (en_text en) (tok_str st1) CHR ''.'';
         let id2 = (if s_end first = s_data first then id1 else snd (dot_iter (en_text en) id1 CHR ''.''));
         (begin_r, st2) \<leftarrow> part_operand en first t st1;
         (end_r, st3) \<leftarrow> part_operand en (fst (dot_iter (en_text en) id2 CHR ''.'')) t st2;
         let st4 = err_if (is_value end_r) ''todo: not implemented when end is value''
           (err_if (is_value begin_r) ''todo: not implemented when begin is value'' st3);
         if \<not> is_reg begin_r \<and> \<not> is_reg end_r then
           Some (compile_err ''at least one should be reg. use static syntax for this.'' st4)
         else do {
           let st5 = snd (diagnostic_dyn_elem_access begin_r st4);
           let dst = creg st5;
           st6 \<leftarrow> skip_tok en st5;
           st7 \<leftarrow> check_range en K begin_r end_r
             (if dk_tag (dtype_outer (r_dtype lhs)) = DK_SLICE then R_REG (length_reg lhs) else R_VALUE (scast len)) st6;
           st8 \<leftarrow> emit_slice en lhs len begin_r end_r (has_range (sub en \<lparr>s_data = tk_data t, s_end = tk_end t\<rparr>)) dst st7;
           Some (upd_creg (\<lambda>r. r\<lparr>r_rsize := 8\<rparr>) st8) } }"

section \<open>Operators\<close>

text \<open>The register of the context takes the type and the size of the operands.\<close>

definition operand_types :: "regable \<Rightarrow> regable \<Rightarrow> 'b pst \<Rightarrow> 'b pst option" where
  "operand_types lhs rhs st =
    (case (lhs, rhs) of
       (R_VALUE v, R_REG r) \<Rightarrow> Some (upd_creg (\<lambda>g. g\<lparr>r_rsize := r_rsize r, r_dtype := r_dtype r\<rparr>) st)
     | (R_REG l, R_REG r) \<Rightarrow> do {
         (_, st1) \<leftarrow> arithmetic_typecheck l r st;
         let wide = (if r_rsize l < r_rsize r then r else l);
         Some (upd_creg (\<lambda>g. g\<lparr>r_dtype := r_dtype wide, r_rsize := r_rsize wide\<rparr>) st1) }
     | (R_REG l, _) \<Rightarrow> Some (upd_creg (\<lambda>g. g\<lparr>r_rsize := r_rsize l\<rparr>) st)
     | _ \<Rightarrow> Some st)"

text \<open>Addition and subtraction; the sum of two constants stays a constant.\<close>

definition emit_sum :: "'b env \<Rightarrow> regable \<Rightarrow> regable \<Rightarrow> 'b pst \<Rightarrow> (regable \<times> 'b pst) option" where
  "emit_sum en lhs rhs st =
    (case (lhs, rhs) of
       (R_VALUE v, R_VALUE w) \<Rightarrow> Some (R_VALUE (v + w), st)
     | (R_VALUE v, R_REG r) \<Rightarrow> map_option (\<lambda>s. (R_REG (creg s), s)) (emit en (\<lambda>be ts. be_add be ts (creg st) r v) st)
     | (R_REG l, R_VALUE w) \<Rightarrow> map_option (\<lambda>s. (R_REG (creg s), s)) (emit en (\<lambda>be ts. be_add be ts (creg st) l w) st)
     | (R_REG l, R_REG r) \<Rightarrow> map_option (\<lambda>s. (R_REG (creg s), s)) (emit en (\<lambda>be ts. be_add_reg be ts (creg st) l r) st)
     | _ \<Rightarrow> None)"

definition minuend_reg :: "reg \<Rightarrow> reg \<Rightarrow> reg" where
  "minuend_reg ctx r = reg0\<lparr>r_type := SCRATCH,
     r_offset := (if r_type ctx = SCRATCH then r_offset ctx + 1 else r_offset ctx), r_rsize := r_rsize r, r_dtype := r_dtype r\<rparr>"

definition emit_difference :: "'b env \<Rightarrow> regable \<Rightarrow> regable \<Rightarrow> 'b pst \<Rightarrow> (regable \<times> 'b pst) option" where
  "emit_difference en lhs rhs st =
    map_option (\<lambda>s. (R_REG (creg s), s))
     (case (lhs, rhs) of
       (R_VALUE v, R_VALUE w) \<Rightarrow> emit en (\<lambda>be ts. be_mov be ts (creg st) (v - w)) st
     | (R_VALUE v, R_REG r) \<Rightarrow> do {
         let tmp = minuend_reg (creg st) r;
         st1 \<leftarrow> emit en (\<lambda>be ts. be_mov be ts tmp v) st;
         emit en (\<lambda>be ts. be_sub_reg be ts (creg st1) tmp r) st1 }
     | (R_REG l, R_VALUE w) \<Rightarrow> emit en (\<lambda>be ts. be_sub be ts (creg st) l w) st
     | (R_REG l, R_REG r) \<Rightarrow> emit en (\<lambda>be ts. be_sub_reg be ts (creg st) l r) st
     | _ \<Rightarrow> None)"

definition emit_shl :: "'b env \<Rightarrow> regable \<Rightarrow> regable \<Rightarrow> 'b pst \<Rightarrow> (regable \<times> 'b pst) option" where
  "emit_shl en lhs rhs st =
    (let st1 = err_if (\<not> is_reg lhs) ''expected register on the left hand side'' st in
     map_option (\<lambda>s. (R_REG (creg s), s))
      (case rhs of
         R_VALUE w \<Rightarrow> do { l \<leftarrow> as_reg lhs; emit en (\<lambda>be ts. be_lsl be ts (creg st1) l w) st1 }
       | R_REG r \<Rightarrow> Some (compile_err ''lslv not implemented'' st1)
       | R_NONE \<Rightarrow> Some st1))"

text \<open>The condition an operator stands for, given the bytes it starts with and whether it is unsigned.\<close>

definition order_cond :: "bool \<Rightarrow> bool \<Rightarrow> bool \<Rightarrow> cond" where
  "order_cond is_unsigned is_gt has_eq =
    (if is_unsigned then
       (if is_gt \<and> \<not> has_eq then COND_HI else if is_gt \<and> has_eq then COND_HS
        else if \<not> is_gt \<and> \<not> has_eq then COND_LO else COND_LS)
     else if is_gt \<and> \<not> has_eq then COND_GT else if is_gt \<and> has_eq then COND_GE
     else if \<not> is_gt \<and> \<not> has_eq then COND_LT else COND_LE)"

definition is_unsigned :: "'b pst \<Rightarrow> regable \<Rightarrow> bool" where
  "is_unsigned st lhs =
    (case lhs of R_REG l \<Rightarrow> (case base_of st (r_dtype l) of None \<Rightarrow> False | Some t \<Rightarrow> \<not> ty_sign t) | _ \<Rightarrow> False)"

definition compare_op ::
    "'b env \<Rightarrow> 'b knot \<Rightarrow> cond \<Rightarrow> regable \<Rightarrow> regable \<Rightarrow> token \<Rightarrow> 'b pst \<Rightarrow> (regable \<times> 'b pst) option" where
  "compare_op en K cond lhs rhs rhs_token st =
    map_option (\<lambda>s. (R_REG (creg s), s)) (compare_branch en K cond lhs rhs rhs_token st)"

definition apply_op ::
    "'b env \<Rightarrow> 'b knot \<Rightarrow> nat \<Rightarrow> regable \<Rightarrow> regable \<Rightarrow> token \<Rightarrow> 'b pst \<Rightarrow> (regable \<times> 'b pst) option" where
  "apply_op en K p lhs rhs rhs_token st =
    (let s = en_text en; c = at s p in
     if c = CHR ''+'' then emit_sum en lhs rhs st
     else if c = CHR ''-'' then emit_difference en lhs rhs st
     else if streq_at s p ''shl'' then emit_shl en lhs rhs st
     else if streq_at s p ''is'' then
       compare_op en K (if streq_at s (p + 2) ''nt'' then COND_NE else COND_EQ) lhs rhs rhs_token st
     else if c = CHR ''<'' \<or> c = CHR ''>'' then
       compare_op en K (order_cond (is_unsigned st lhs) (c = CHR ''>'') (at s (p + 1) = CHR ''='')) lhs rhs rhs_token st
     else Some (R_REG (creg st), compile_err ''unknown binray operator'' st))"

definition is_operator :: "string \<Rightarrow> nat \<Rightarrow> bool" where
  "is_operator s p \<longleftrightarrow>
     at s p \<in> {CHR ''+'', CHR ''-'', CHR ''*'', CHR ''<'', CHR ''>''} \<or> streq_at s p ''shl'' \<or> streq_at s p ''is''"

text \<open>Whether an operator follows, and the operand that the application leaves.\<close>

definition binary_op :: "'b env \<Rightarrow> 'b knot \<Rightarrow> regable \<Rightarrow> 'b pst \<Rightarrow> (bool \<times> regable \<times> 'b pst) option" where
  "binary_op en K lhs st =
    do { _ \<leftarrow> rd en (tk_end (cur_tok st) + 1);
         if \<not> is_operator (en_text en) (tk_end (cur_tok st) + 1) then Some (False, lhs, st)
         else do {
           st1 \<leftarrow> skip_tok en st;
           let p = tk_data (cur_tok st1);
           let elems = (case lhs of R_REG l \<Rightarrow> dk_tag (dtype_outer (r_dtype l)) \<in> {DK_ARRAY, DK_SLICE} | _ \<Rightarrow> False);
           if at (en_text en) p = CHR ''*'' \<and> elems then do {
             l \<leftarrow> as_reg lhs;
             st2 \<leftarrow> dyn_slice_access en K l (amount_i32 (dtype_outer (r_dtype l))) st1;
             Some (True, R_REG (creg st2), st2) }
           else do {
             st2 \<leftarrow> skip_tok en st1;
             let rhs_token = cur_tok st2;
             (rhs, st3) \<leftarrow> read_regable en (tok_str st2) rhs_token st2;
             st4 \<leftarrow> operand_types lhs rhs st3;
             if rhs = R_NONE then
               Some (True, R_REG (creg st4), compile_err ''operator was: '' (compile_err ''lhs was: ''
                 (compile_err ''expected operand, but found '' st4)))
             else do {
               st5 \<leftarrow> (case rhs of R_REG r \<Rightarrow> if r_type r = NREG then check_unassigned rhs st4 else Some st4
                       | _ \<Rightarrow> Some st4);
               (acc, st6) \<leftarrow> apply_op en K p lhs rhs rhs_token st5;
               Some (True, acc, st6) } } } }"

partial_function (option) binary_ops :: "'b env \<Rightarrow> 'b knot \<Rightarrow> regable \<Rightarrow> 'b pst \<Rightarrow> (regable \<times> 'b pst) option" where
  "binary_ops en K acc st =
    do { (more, acc', st1) \<leftarrow> binary_op en K acc st;
         if more then binary_ops en K acc' st1 else Some (acc', st1) }"

declare binary_ops.simps [code]

definition expr_chain :: "'b env \<Rightarrow> 'b knot \<Rightarrow> regable \<Rightarrow> 'b pst \<Rightarrow> (bool \<times> 'b pst) option" where
  "expr_chain en K acc st =
    do { (acc', st1) \<leftarrow> binary_ops en K acc st;
         (stored, st2) \<leftarrow> binary_op_store en K acc' st1;
         if stored then Some (True, st2) else nullary_op en acc' st2 }"

section \<open>Expressions\<close>

text \<open>A literal of a named type: an aggregate is complete, a number goes on with the next token.\<close>

definition typed_literal :: "'b env \<Rightarrow> 'b pst \<Rightarrow> (bool \<times> dtype \<times> 'b pst) option" where
  "typed_literal en st =
    do { (_, d, st1) \<leftarrow> parse_dtype en st;
         st2 \<leftarrow> skip_tok en (upd_creg (\<lambda>r. r\<lparr>r_dtype := d\<rparr>) st1);
         let st3 = expect_tok en ''{'' st2;
         t \<leftarrow> base_of st3 d;
         let len = dtype_tryget_arr d;
         let n = (ucast (ty_size t) :: u8);
         if len \<noteq> 0 then do {
           let arr_size = (ucast n * scast len :: u64);
           let st4 = upd_creg (\<lambda>r. r\<lparr>r_rsize := (if 8 < arr_size then 8 else ucast arr_size)\<rparr>) st3;
           st5 \<leftarrow> expr_struct en (creg st4) d st4;
           Some (True, d, st5) }
         else do {
           let st4 = upd_creg (\<lambda>r. r\<lparr>r_rsize := n\<rparr>) st3;
           if ty_tag t = TK_STRUCT then do { st5 \<leftarrow> expr_struct en (creg st4) d st4; Some (True, d, st5) }
           else do { st5 \<leftarrow> skip_tok en st4; Some (False, d, st5) } } }"

definition string_expr :: "'b env \<Rightarrow> 'b pst \<Rightarrow> 'b pst option" where
  "string_expr en st =
    do { let (text, lx) = literal_string (be_need_escaping (en_be en)) (en_text en) (cur_tok st) (ps_lx st);
         i \<leftarrow> find_type en ''u8'' st;
         let u8_type = (if fst (ps_types st ! i) = None then None else Some i);
         let st1 = upd_creg (literal_reg u8_type) (st\<lparr>ps_lx := lx\<rparr>);
         emit en (\<lambda>be ts. be_string_lit be (creg st1) text) st1 }"

definition load_expr :: "'b env \<Rightarrow> 'b knot \<Rightarrow> 'b pst \<Rightarrow> 'b pst option" where
  "load_expr en K st =
    do { c \<leftarrow> rd en (tk_end (cur_tok st) + 1);
         st2 \<leftarrow> (if c = CHR ''!'' then do {
                   st1 \<leftarrow> skip_tok en st;
                   (ok, st') \<leftarrow> checkop_err en K CTX_REG st1;
                   Some (err_if (\<not> ok) ''nothing to check'' st') }
                 else Some st);
         if at (en_text en) (tk_end (cur_tok st2)) = CHR '' ''
         then map_option snd (expr_chain en K (R_REG (creg st2)) st2) else Some st2 }"

text \<open>The check operator after an operand, on the register that its whole name denotes.\<close>

definition check_named :: "'b env \<Rightarrow> 'b knot \<Rightarrow> string \<Rightarrow> 'b pst \<Rightarrow> 'b pst option" where
  "check_named en K name st =
    do { c \<leftarrow> rd en (tk_end (cur_tok st) + 1);
         if c \<noteq> CHR ''!'' then Some st
         else do {
           (ok, p) \<leftarrow> find_local en name st;
           st1 \<leftarrow> skip_tok en (err_if (\<not> ok \<or> r_type (reg_at st p) = RD_NONE) ''unknown id'' st);
           (checked, st2) \<leftarrow> checkop_err en K (ID_REG p) st1;
           Some (err_if (\<not> checked) ''nothing to check with'' st2) } }"

definition operand_expr :: "'b env \<Rightarrow> 'b knot \<Rightarrow> dtype option \<Rightarrow> 'b pst \<Rightarrow> (bool \<times> 'b pst) option" where
  "operand_expr en K explicit_type st =
    do { let name = tok_id en st;
         (lhs, st1) \<leftarrow> read_regable en (tok_str st) (cur_tok st) st;
         if lhs = R_NONE then Some (False, st1)
         else do {
           st2 \<leftarrow> (case lhs of R_REG l \<Rightarrow> if r_type l = NREG then check_unassigned lhs st1 else Some st1
                   | _ \<Rightarrow> Some st1);
           let st3 = (if explicit_type = None
             then upd_creg (\<lambda>r. r\<lparr>r_rsize := 0, r_dtype := dtype0\<lparr>d_base := Some COMPTIME\<rparr>\<rparr>) st2 else st2);
           (stored, st4) \<leftarrow> binary_op_store en K lhs st3;
           st5 \<leftarrow> (if stored then Some st4 else map_option snd (expr_chain en K lhs st4));
           st6 \<leftarrow> (case explicit_type of None \<Rightarrow> Some st5
                   | Some d \<Rightarrow> do {
                       st' \<leftarrow> skip_tok en st5;
                       Some (upd_creg (\<lambda>r. r\<lparr>r_dtype := d\<rparr>) (expect_tok en ''}'' st')) });
           st7 \<leftarrow> check_named en K name st6;
           Some (True, st7) } }"

definition expr_body :: "'b env \<Rightarrow> 'b knot \<Rightarrow> 'b pst \<Rightarrow> (bool \<times> 'b pst) option" where
  "expr_body en K st =
    do { let explicit = (at (en_text en) (tk_end (cur_tok st)) = CHR ''{'');
         (complete, d, st1) \<leftarrow> (if explicit then typed_literal en st else Some (False, dtype0, st));
         if complete then Some (True, st1)
         else do {
           c \<leftarrow> rd en (tk_data (cur_tok st1));
           if c = QUOTE then do { st2 \<leftarrow> string_expr en st1; Some (True, st2) }
           else do {
             (is_load, st2) \<leftarrow> expr_load en K st1;
             if is_load then do { st3 \<leftarrow> load_expr en K st2; Some (True, st3) }
             else operand_expr en K (if explicit then Some d else None) st2 } } }"

end
