(* ===== verification/Compiler.thy ===== *)
theory Compiler
  imports Parser
begin

text \<open>
  Statements, blocks, functions, directives, imports and the compilation of a source (\<open>src/alc/main.c\<close>,
  \<open>decl_vars\<close> to the end). Reading a file is the environment's \<open>en_files\<close>.
\<close>

section \<open>Declarations\<close>

definition push_target :: "nat \<times> nat \<Rightarrow> string \<Rightarrow> 'b pst \<Rightarrow> (nat \<times> 'b pst) option" where
  "push_target p name st =
    do { ts \<leftarrow> arr_push MAX_BLOCK_DEPTH (pc_targets (ps_pc st)) \<lparr>tg_reg = p, tg_assigned = False, tg_name = name\<rparr>;
         Some (length (pc_targets (ps_pc st)), upd_pc (\<lambda>pc. pc\<lparr>pc_targets := ts\<rparr>) st) }"

definition pop_target :: "'b pst \<Rightarrow> 'b pst" where
  "pop_target st = upd_pc (\<lambda>pc. pc\<lparr>pc_targets := arr_pop (pc_targets pc)\<rparr>) st"

definition target_assigned :: "nat \<Rightarrow> 'b pst \<Rightarrow> bool option" where
  "target_assigned n st =
    (if n < length (pc_targets (ps_pc st)) then Some (tg_assigned (pc_targets (ps_pc st) ! n)) else None)"

text \<open>A line of expressions or else a call; the function that was called.\<close>

definition line_or_call :: "'b env \<Rightarrow> 'b knot \<Rightarrow> 'b pst \<Rightarrow> (nat option \<times> 'b pst) option" where
  "line_or_call en K st =
    do { (n, st1) \<leftarrow> expr_line en K st;
         if n \<noteq> 0 then Some (None, st1)
         else do {
           (fn, st2) \<leftarrow> fn_call en K st1;
           Some (fn, case fn of None \<Rightarrow> st2
             | Some i \<Rightarrow> err_if (sy_ret_airity (fn_at st2 i) \<noteq> 1) ''this function does not return exactly one value'' st2) } }"

definition decl_const :: "'b env \<Rightarrow> 'b pst \<Rightarrow> 'b pst option" where
  "decl_const en st =
    do { let name = butlast (tok_id en st);
         st1 \<leftarrow> skip_tok en st;
         (r, st2) \<leftarrow> read_regable en (tok_str st1) (cur_tok st1) st1;
         case r of R_VALUE v \<Rightarrow> do {
             t \<leftarrow> found (const_hashmap_tryadd (en_cv en) (ps_consts st2) name v);
             Some (case t of None \<Rightarrow> compile_err ''redifinition of constant'' st2
                   | Some tab \<Rightarrow> st2\<lparr>ps_consts := tab\<rparr>) }
         | _ \<Rightarrow> Some (compile_err ''expected constant expression'' st2) }"

text \<open>The rest of a declaration whose body is an indented block.\<close>

definition block_body :: "'b env \<Rightarrow> 'b knot \<Rightarrow> nat \<times> nat \<Rightarrow> string \<Rightarrow> string \<Rightarrow> 'b pst \<Rightarrow> 'b pst option" where
  "block_body en K p name report st =
    do { (n, st1) \<leftarrow> push_target p name st;
         st2 \<leftarrow> k_block K en st1;
         ok \<leftarrow> target_assigned n st2;
         Some (pop_target (err_if (\<not> ok) report st2)) }"

definition decl_stack_body :: "'b env \<Rightarrow> 'b knot \<Rightarrow> nat \<times> nat \<Rightarrow> string \<Rightarrow> 'b pst \<Rightarrow> 'b pst option" where
  "decl_stack_body en K p name st =
    do { (n, st1) \<leftarrow> push_target p name st;
         st2 \<leftarrow> skip_tok en st1;
         (fn, st3) \<leftarrow> line_or_call en K st2;
         let st4 = (if fn = None then st3 else upd_creg (\<lambda>r. r\<lparr>r_offset := r_offset r + 1\<rparr>) st3);
         ok \<leftarrow> target_assigned n st4;
         st6 \<leftarrow>
           (if ok then Some st4
            else do {
              st5 \<leftarrow> skip_tok en st4;
              if at_store (en_text en) (cur_tok st5) then do_store en K (R_REG (creg st5)) st5
              else Some (compile_err ''store statement =[] expected'' st5) });
         Some (pop_target st6) }"

text \<open>The position of the bracket that closes the name, or of the end of the line.\<close>

definition close_pos :: "'b env \<Rightarrow> nat \<Rightarrow> nat" where
  "close_pos en i = i + length (takeWhile (\<lambda>c. c \<notin> {CHR '']'', NL, NUL}) (drop i (en_text en)))"

definition decl_stack :: "'b env \<Rightarrow> 'b knot \<Rightarrow> 'b pst \<Rightarrow> (bool \<times> 'b pst) option" where
  "decl_stack en K st =
    (let close = close_pos en (tk_end (cur_tok st)) in
     if at (en_text en) close \<noteq> CHR '']'' \<or> \<not> streq_at (en_text en) (close + 1) '' ::'' then Some (False, st)
     else do {
       st1 \<leftarrow> skip_tok en st;
       let name = tok_id en st1;
       c \<leftarrow> rd en (tk_data (cur_tok st1));
       st2 \<leftarrow> skip_tok en st1;
       let st3 = err_if (\<not> is_upper c) ''name of stack objects must start with uppercase''
         (err_if (\<not> is_tok_char en st2 CHR '']'') ''closing ] expected(stmt)'' st2);
       st4 \<leftarrow> skip_tok en st3;
       let one_liner = (at (en_text en) (tk_end (cur_tok st4)) \<noteq> NL);
       (p, st5) \<leftarrow> overwrite_top en name
         (reg0\<lparr>r_type := STACK, r_dtype := dtype_wrap dtype0 \<lparr>dk_tag = DK_ADDR, dk_amount = 1\<rparr>\<rparr>)
         (upd_creg (\<lambda>r. r\<lparr>r_type := SCRATCH\<rparr>) st4);
       st6 \<leftarrow> (if one_liner then decl_stack_body en K p name st5
               else block_body en K p name ''this block must store'' st5);
       Some (True, st6) })"

definition nreg_value :: "'b env \<Rightarrow> 'b knot \<Rightarrow> 'b pst \<Rightarrow> 'b pst option" where
  "nreg_value en K st =
    do { let nreg = reg0\<lparr>r_type := NREG, r_offset := ucast (pc_nreg_count (ps_pc st))\<rparr>;
         st1 \<leftarrow> skip_tok en (set_creg nreg st);
         (fn, st2) \<leftarrow> line_or_call en K st1;
         case fn of None \<Rightarrow> Some st2
         | Some i \<Rightarrow>
            (case fl_elems (sy_rets (fn_at st2 i)) of [] \<Rightarrow> None
             | r # _ \<Rightarrow> emit en (\<lambda>be ts. be_mov_reg be ts (nreg\<lparr>r_rsize := r_rsize r, r_dtype := r_dtype r\<rparr>) (creg st2)) st2) }"

definition decl_nreg :: "'b env \<Rightarrow> 'b knot \<Rightarrow> 'b pst \<Rightarrow> 'b pst option" where
  "decl_nreg en K st =
    do { let name = tok_id en st;
         st1 \<leftarrow> skip_tok en st;
         let one_liner = (at (en_text en) (tk_end (cur_tok st1)) \<noteq> NL);
         st2 \<leftarrow> (if one_liner then nreg_value en K st1 else Some st1);
         (resolved, r) \<leftarrow> resolve_comptime_default st2 (creg st2);
         let r' = (if \<not> resolved \<and> d_base (r_dtype r) = None
                   then r\<lparr>r_dtype := (r_dtype r)\<lparr>d_base := Some ERROR_TYPE\<rparr>\<rparr> else r);
         let st3 = set_creg r' st2;
         (p, st4) \<leftarrow> overwrite_top en name
           (reg0\<lparr>r_type := NREG, r_offset := ucast (pc_nreg_count (ps_pc st3)), r_rsize := r_rsize r', r_dtype := r_dtype r'\<rparr>) st3;
         let st5 = context_add_nreg (r_dtype r') st4;
         if one_liner then Some st5 else block_body en K p name ''this block must assign'' st5 }"

definition decl_vars :: "'b env \<Rightarrow> 'b knot \<Rightarrow> 'b pst \<Rightarrow> (bool \<times> 'b pst) option" where
  "decl_vars en K st =
    do { c \<leftarrow> rd en (tk_data (cur_tok st));
         if is_upper c \<and> last_char en st = CHR '':'' then do { st1 \<leftarrow> decl_const en st; Some (True, st1) }
         else if is_tok_char en st CHR ''['' then decl_stack en K st
         else if streq_at (en_text en) (tk_end (cur_tok st)) '' ::'' \<and> is_upper c then do {
           st1 \<leftarrow> decl_nreg en K st; Some (True, st1) }
         else Some (False, st) }"

section \<open>Statements\<close>

definition skip_struct :: "'b env \<Rightarrow> 'b pst \<Rightarrow> 'b pst option" where
  "skip_struct en st = map_option (\<lambda>lx. st\<lparr>ps_lx := lx, ps_null_tok := False\<rparr>) (consume_until (en_text en) ''}'' (ps_lx st))"

definition stmt :: "'b env \<Rightarrow> 'b knot \<Rightarrow> 'b pst \<Rightarrow> (bool \<times> 'b pst) option" where
  "stmt en K st =
    (if tok_id en st = ''struct'' then do { st1 \<leftarrow> skip_struct en st; Some (True, st1) }
     else do {
       (is_ret, st1) \<leftarrow> stmt_ret en K st;
       if is_ret then Some (True, st1)
       else do {
         (is_eret, st2) \<leftarrow> stmt_eret en st1;
         if is_eret then Some (True, st2)
         else do {
           c \<leftarrow> rd en (tk_data (cur_tok st2));
           if (is_lower c \<or> c = CHR ''_'') \<and> last_char en st2 = CHR '':'' then do {
             st3 \<leftarrow> stmt_label en st2; Some (True, st3) }
           else decl_vars en K st2 } } })"

text \<open>The assignment itself: the register that is assigned is at \<open>p\<close>.\<close>

definition assign_reg :: "'b env \<Rightarrow> nat \<times> nat \<Rightarrow> bool \<Rightarrow> 'b pst \<Rightarrow> (bool \<times> 'b pst) option" where
  "assign_reg en p assigned st =
    (if \<not> assigned \<and> d_base (r_dtype (creg st)) = None then
       Some (False, compile_err ''assignment has no value to assign'' st)
     else do {
       (src, st1) \<leftarrow>
         (if \<not> assigned then do {
            (_, src) \<leftarrow> resolve_comptime_default st (creg st);
            Some (src, set_reg_at p ((reg_at st p)\<lparr>r_rsize := r_rsize src, r_dtype := r_dtype src\<rparr>) st) }
          else do { (_, src) \<leftarrow> resolve_comptime_to st (creg st) (reg_at st p); Some (src, st) });
       st2 \<leftarrow> emit en (\<lambda>be ts. be_mov_reg be ts (reg_at st1 p) src) (reg_typecheck (reg_at st1 p) src st1);
       Some (True, st2) })"

definition stmt_reg_assign :: "'b env \<Rightarrow> 'b pst \<Rightarrow> (bool \<times> 'b pst) option" where
  "stmt_reg_assign en st =
    (let d = tk_data (cur_tok st) in
     if at (en_text en) d \<noteq> CHR ''='' then Some (False, st)
     else do {
       c \<leftarrow> rd en (d + 1);
       if \<not> (is_upper c \<or> is_space c) then Some (False, st)
       else if is_space c \<or> streq_at (en_text en) (d + 1) ''This'' then
         (case get_current_target st of (None, st1) \<Rightarrow> Some (False, st1)
          | (Some tg, st1) \<Rightarrow> do {
              (ok, st2) \<leftarrow> assign_reg en (tg_reg tg) (tg_assigned tg) st1;
              Some (True, if ok then set_assigned st2 else st2) })
       else do {
         (ok, p) \<leftarrow> find_local en (tl (tok_id en st)) st;
         if \<not> ok then Some (True, compile_err ''could not find identifier'' st)
         else do { (_, st2) \<leftarrow> assign_reg en p True st; Some (True, st2) } } })"

definition control_flow :: "'b env \<Rightarrow> 'b knot \<Rightarrow> 'b pst \<Rightarrow> 'b pst option" where
  "control_flow en K st =
    (let t = cur_tok st in
     if ends_arrow en t then do {
       f \<leftarrow> symbol_name st;
       emit en (\<lambda>be ts. be_branch be f (sub en \<lparr>s_data = tk_data t, s_end = tk_end t - 2\<rparr>) 0) st }
     else if is_alnum (last_char en st) \<or> last_char en st = CHR ''_'' then map_option snd (fn_call en K st)
     else Some (compile_err ''trying to reference undefined label'' st))"

definition parse_rest :: "'b env \<Rightarrow> 'b knot \<Rightarrow> 'b pst \<Rightarrow> 'b pst option" where
  "parse_rest en K st =
    (if at_store (en_text en) (cur_tok st) then do_store en K (R_REG (creg st)) st
     else do {
       (assigned, st1) \<leftarrow> stmt_reg_assign en st;
       if assigned then Some st1
       else do {
         c \<leftarrow> rd en (tk_data (cur_tok st1));
         if is_lower c \<or> c = CHR ''_'' then control_flow en K st1
         else Some (compile_err ''unexpected token'' st1) } })"

definition parse_line :: "'b env \<Rightarrow> 'b knot \<Rightarrow> 'b pst \<Rightarrow> 'b pst option" where
  "parse_line en K st =
    do { (directive, st1) \<leftarrow> k_directives K en (upd_pc (\<lambda>pc. pc\<lparr>pc_returns_on_exit := False\<rparr>) st);
         (statement, st2) \<leftarrow> (if directive then Some (True, st1) else stmt en K st1);
         (n, st3) \<leftarrow> (if statement then Some (1, st2) else expr_line en K st2);
         st4 \<leftarrow> (if n \<noteq> 0 then Some st3 else parse_rest en K st3);
         Some (if at (en_text en) (tk_end (cur_tok st4)) = NL then set_creg (reg0\<lparr>r_type := SCRATCH\<rparr>) st4 else st4) }"

text \<open>The lines of a block; \<open>block_indent\<close> is the indentation of the first one once it is known.\<close>

partial_function (option) block_lines :: "'b env \<Rightarrow> 'b knot \<Rightarrow> u8 option \<Rightarrow> 'b pst \<Rightarrow> 'b pst option" where
  "block_lines en K block_indent st =
    (if length (en_text en) \<le> lx_cur (ps_lx st) then Some st
     else do {
       st1 \<leftarrow> (if tk_eob (cur_tok st) = SOB then start_of_block st else Some st);
       st2 \<leftarrow> skip_tok en st1;
       if empty_tok (ps_lx st2) then Some st2
       else do {
         let bi = (case block_indent of None \<Rightarrow> tk_indent (cur_tok st2) | Some b \<Rightarrow> b);
         st3 \<leftarrow> parse_line en K st2;
         if tk_eob (cur_tok st3) = EOB \<and> tk_indent (cur_tok st3) = bi then Some st3
         else do {
           let st4 = (if tk_eob (cur_tok st3) = EOB then end_of_block st3 else st3);
           if lx_ended (ps_lx st4) then Some st4 else block_lines en K (Some bi) st4 } } })"

declare block_lines.simps [code]

definition parse_block_body :: "'b env \<Rightarrow> 'b knot \<Rightarrow> 'b pst \<Rightarrow> 'b pst option" where
  "parse_block_body en K st =
    block_lines en K None
      (err_if (\<not> ps_null_tok st \<and> tk_eob (cur_tok st) \<noteq> SOB) ''indented block expected'' st)"

section \<open>Functions\<close>

text \<open>A new \<open>parser_context\<close>: the globals of the lexer stay, its fields of the context are cleared.\<close>

definition new_context :: "u8 \<Rightarrow> 'b pst \<Rightarrow> 'b pst" where
  "new_context ind st = st\<lparr>
     ps_lx := (ps_lx st)\<lparr>lx_tok := token0, lx_sol := False, lx_eol := False, lx_ended := False, lx_ctx_indent := ind\<rparr>,
     ps_null_tok := True,
     ps_pc := parser_context0\<lparr>pc_reg := reg0\<lparr>r_type := SCRATCH\<rparr>, pc_unnamed_labels := 1\<rparr>\<rparr>"

definition main_symbol :: "'b env \<Rightarrow> 'b pst \<Rightarrow> 'b pst option" where
  "main_symbol en st =
    do { i \<leftarrow> find_fn en ''main'' st;
         (ps, ar1) \<leftarrow> list_init sizeof_reg 2 (ps_arena st);
         (rs, ar2) \<leftarrow> list_init sizeof_reg 1 ar1;
         rs' \<leftarrow> list_push rs (reg0\<lparr>r_dtype := dtype0\<lparr>d_base := ps_i32 st\<rparr>\<rparr>);
         let sy = (symbol0 ''main'')\<lparr>sy_airity := 2, sy_ret_airity := 1, sy_is_fn := True, sy_is_called := True,
                    sy_params := ps, sy_rets := rs'\<rparr>;
         let st1 = put_fn i ''main'' sy (st\<lparr>ps_arena := ar2\<rparr>);
         emit en (\<lambda>be ts. be_fn be ''main'')
           (upd_pc (\<lambda>pc. pc\<lparr>pc_symbol := Some i, pc_name := ''main''\<rparr>)
             (st1\<lparr>ps_lx := (ps_lx st1)\<lparr>lx_eol := True\<rparr>\<rparr>)) }"

definition finish_function :: "'b env \<Rightarrow> 'b pst \<Rightarrow> 'b pst option" where
  "finish_function en st =
    (if pc_name (ps_pc st) = [] then Some st
     else do {
       s \<leftarrow> cur_symbol st;
       if \<not> sy_is_fn s then Some st
       else do {
         st1 \<leftarrow> (if pc_has_branched_ret (ps_pc st)
                 then emit en (\<lambda>be ts. be_label be (pc_name (ps_pc st)) ''ret'' 0) st else Some st);
         let st2 = err_if (do_airity_check \<and> \<not> pc_returns_on_exit (ps_pc st1) \<and> sy_ret_airity s \<noteq> 0)
                     ''expected to return value(s)'' st1;
         st3 \<leftarrow> emit en (\<lambda>be ts. be_prologue_epilogue be (ps_pc st2)) st2;
         emit en (\<lambda>be ts. be_ret be) st3 } })"

text \<open>
  \<open>function\<close>. The first one of a source is \<open>main\<close> and has no label. The branch of \<open>dead_fn_elim\<close> is never
  taken, because the code sets this switch to false and nowhere else.
\<close>

definition function_al :: "'b env \<Rightarrow> 'b knot \<Rightarrow> 'b pst \<Rightarrow> 'b pst option" where
  "function_al en K st0 =
    do { let st = new_context 0 (st0\<lparr>ps_ids := arr_mini_hashset_init (ps_ids st0)\<rparr>);
         let is_main = (lx_cur (ps_lx st) = 0);
         st1 \<leftarrow> (if is_main then main_symbol en st else skip_tok en st);
         let label_indent = (if is_main then 0 else tk_indent (cur_tok st1));
         st2 \<leftarrow> (if is_main then Some st1 else stmt_label en st1);
         s \<leftarrow> cur_symbol st2;
         if \<not> is_main \<and> sy_is_fn s \<and> lx_indent (ps_lx st2) \<le> label_indent then
           Some (compile_err ''function definition has no body: '' st2)
         else do {
           st3 \<leftarrow> k_block K en (st2\<lparr>ps_lx := (ps_lx st2)\<lparr>lx_ctx_indent := lx_indent (ps_lx st2)\<rparr>\<rparr>);
           finish_function en st3 } }"

partial_function (option) compile_loop :: "'b env \<Rightarrow> 'b knot \<Rightarrow> 'b pst \<Rightarrow> 'b pst option" where
  "compile_loop en K st =
    (if length (en_text en) \<le> lx_cur (ps_lx st) then Some st
     else do {
       st1 \<leftarrow> emit en (\<lambda>be ts. be_fn_begin be (ps_depth st)) st;
       st2 \<leftarrow> function_al en K st1;
       st3 \<leftarrow> emit en (\<lambda>be ts. be_fn_end be (ps_depth st)) st2;
       compile_loop en K st3 })"

declare compile_loop.simps [code]

section \<open>Directives\<close>

partial_function (option) rest_of_line :: "'b env \<Rightarrow> 'b pst \<Rightarrow> 'b pst option" where
  "rest_of_line en st =
    (if lx_eol (ps_lx st) \<or> length (en_text en) \<le> lx_cur (ps_lx st) then Some st
     else do { st1 \<leftarrow> skip_tok en st; rest_of_line en st1 })"

declare rest_of_line.simps [code]

partial_function (option) skip_lines :: "'b env \<Rightarrow> 'b knot \<Rightarrow> 'b pst \<Rightarrow> 'b pst option" where
  "skip_lines en K st =
    (if length (en_text en) \<le> lx_cur (ps_lx st) then Some st
     else do {
       st1 \<leftarrow> skip_tok en st;
       if empty_tok (ps_lx st1) then skip_lines en K st1
       else do {
         (_, st2) \<leftarrow> k_directives K en st1;
         let (at_end, st3) = (if tok_id en st2 = ''ret'' then at_block_end (lx_sol (ps_lx st2)) st2 else (False, st2));
         if at_end then rest_of_line en st3
         else if lx_ended (ps_lx st3) then Some st3 else skip_lines en K st3 } })"

declare skip_lines.simps [code]

definition skip_function :: "'b env \<Rightarrow> 'b knot \<Rightarrow> 'b pst \<Rightarrow> 'b pst option" where
  "skip_function en K st = skip_lines en K (new_context (lx_indent (ps_lx st)) st)"

definition FILENAME_MAX :: nat where "FILENAME_MAX = 4096"

text \<open>The name of a file relative to the directory of the source that names it.\<close>

definition resolve_name :: "string \<Rightarrow> string \<Rightarrow> string option" where
  "resolve_name cur_filename name =
    (if take 1 name \<noteq> ''/'' \<and> CHR ''/'' \<in> set cur_filename then
       (let dir = rev (dropWhile (\<lambda>c. c \<noteq> CHR ''/'') (rev cur_filename)) in
        if FILENAME_MAX \<le> length (dir @ name) then None else Some (dir @ name))
     else Some (take (FILENAME_MAX - 1) name))"

text \<open>A nested compilation has its own source and contexts; the position and the context come back after it.\<close>

definition compile_file :: "'b env \<Rightarrow> 'b knot \<Rightarrow> string \<Rightarrow> 'b pst \<Rightarrow> 'b pst option" where
  "compile_file en K name st =
    do { text \<leftarrow> en_files en name;
         let en' = en\<lparr>en_text := text, en_name := name\<rparr>;
         st1 \<leftarrow> skip_function en' K (st\<lparr>ps_lx := (ps_lx st)\<lparr>lx_cur := 0, lx_lineno := 1\<rparr>, ps_depth := ps_depth st + 1\<rparr>);
         st2 \<leftarrow> compile_loop en' K st1;
         Some (st2\<lparr>ps_lx := (ps_lx st)\<lparr>lx_indent := lx_indent (ps_lx st2), lx_eof := lx_eof (ps_lx st2),
                                      lx_errs := lx_errs (ps_lx st2)\<rparr>,
                   ps_null_tok := ps_null_tok st, ps_pc := ps_pc st, ps_depth := ps_depth st\<rparr>) }"

definition directives_body :: "'b env \<Rightarrow> 'b knot \<Rightarrow> 'b pst \<Rightarrow> (bool \<times> 'b pst) option" where
  "directives_body en K st =
    do { c \<leftarrow> rd en (tk_data (cur_tok st));
         if c \<noteq> CHR ''#'' then Some (False, st)
         else
          (let name = tl (tok_id en st) in
           if name = ''declare'' then do {
             st1 \<leftarrow> skip_tok en st;
             (_, _, st2) \<leftarrow> label_meta en False st1;
             Some (True, st2) }
           else if name = ''no_import_all_self'' then
             Some (True, err_if (ps_symbols_any st) ''#no_import_all_self has no effect: signatures already pre-registered''
               (st\<lparr>ps_import_all := False\<rparr>))
           else if name = ''compile_all'' then do {
             st1 \<leftarrow> skip_tok en st;
             let file = tok_id en st1;
             if 256 \<le> length file then Some (True, compile_err ''filename was too long'' st1)
             else case resolve_name (en_name en) file of
                 None \<Rightarrow> Some (True, compile_err ''resolved filename was too long'' st1)
               | Some f \<Rightarrow> do { st2 \<leftarrow> compile_file en K f st1; Some (True, st2) } }
           else Some (True, compile_err ''unknown directive'' st)) }"

section \<open>The knot and the whole compilation\<close>

primrec knot :: "nat \<Rightarrow> 'b knot" where
  "knot 0 = \<lparr>k_expr = (\<lambda>en st. None), k_block = (\<lambda>en st. None), k_directives = (\<lambda>en st. None)\<rparr>"
| "knot (Suc n) = \<lparr>k_expr = (\<lambda>en st. expr_body en (knot n) st),
     k_block = (\<lambda>en st. parse_block_body en (knot n) st), k_directives = (\<lambda>en st. directives_body en (knot n) st)\<rparr>"

text \<open>\<open>import_all_from\<close> registers the labels and the structs of a source; the name of its context is \<open>global\<close>.\<close>

definition import_label :: "'b env \<Rightarrow> 'b pst \<Rightarrow> (nat option option \<times> 'b pst) option" where
  "import_label en st =
    (if \<not> is_label_name (en_text en) (tok_str st) then Some (None, st)
     else if last_char en st = CHR '':'' then do {
       (sy, _, st1) \<leftarrow> label_meta en False st;
       Some (Some sy, upd_pc (\<lambda>pc. pc\<lparr>pc_symbol := sy\<rparr>) st1) }
     else if at (en_text en) (tk_end (cur_tok st)) = CHR '' '' then do {
       let name = tok_id en st;
       i \<leftarrow> find_fn en name st;
       if fst (ps_fns st ! i) \<noteq> None then Some (None, put_fn i name ((fn_at st i)\<lparr>sy_is_called := True\<rparr>) st)
       else Some (None, put_fn i name ((symbol0 name)\<lparr>sy_is_called := True, sy_is_placeholder := True\<rparr>) st) }
     else Some (None, st))"

partial_function (option) import_loop :: "'b env \<Rightarrow> string option \<Rightarrow> 'b pst \<Rightarrow> 'b pst option" where
  "import_loop en global st =
    (if length (en_text en) \<le> lx_cur (ps_lx st) then Some st
     else do {
       st1 \<leftarrow> skip_tok en st;
       if empty_tok (ps_lx st1) then import_loop en global st1
       else if tok_id en st1 = ''#no_import_all_self'' then Some (st1\<lparr>ps_import_all := False\<rparr>)
       else do {
         (is_struct, st2) \<leftarrow> stmt_struct_decl en (case global of Some g \<Rightarrow> Some g | None \<Rightarrow> symbol_name st1) st1;
         if is_struct then import_loop en global st2
         else do {
           (new, st3) \<leftarrow> import_label en st2;
           import_loop en (if new = None then global else None) st3 } } })"

declare import_loop.simps [code]

definition import_all_from :: "'b env \<Rightarrow> 'b pst \<Rightarrow> 'b pst option" where
  "import_all_from en st =
    do { let st0 = new_context 0 (st\<lparr>ps_ids := arr_mini_hashset_init (ps_ids st), ps_lx := (ps_lx st)\<lparr>lx_cur := 0, lx_lineno := 1\<rparr>\<rparr>);
         st1 \<leftarrow> import_loop en (Some (take (length (en_name en) - 3) (en_name en)))
                  (st0\<lparr>ps_pc := parser_context0\<rparr>);
         Some (st1\<lparr>ps_lx := (ps_lx st1)\<lparr>lx_lineno := lx_lineno (ps_lx st), lx_indent := 0, lx_eof := False\<rparr>\<rparr>) }"

definition compile :: "nat \<Rightarrow> 'b env \<Rightarrow> 'b pst \<Rightarrow> 'b pst option" where
  "compile n en st = compile_loop en (knot n) (st\<lparr>ps_lx := (ps_lx st)\<lparr>lx_cur := 0\<rparr>\<rparr>)"

definition pst0 :: "'b \<Rightarrow> 'b pst" where
  "pst0 b = \<lparr>ps_lx = lexer0, ps_null_tok = True, ps_pc = parser_context0,
     ps_ids = \<lparr>sc_data = replicate MAX_DEPTH (replicate array_len (None, reg0)), sc_cur = 0\<rparr>,
     ps_consts = replicate CONST_MINI_HASHSET_SIZE (None, 0),
     ps_fns = replicate 1024 (None, symbol0 []), ps_types = replicate 128 (None, (struct0 [])\<lparr>ty_tag := TK_NONE\<rparr>),
     ps_i32 = None, ps_usize = None, ps_arena = allocator_init (256 * 1024), ps_symbols_any = False,
     ps_import_all = True, ps_depth = 0, ps_be = b, ps_errs = [], ps_warns = []\<rparr>"

text \<open>
  What \<open>main\<close> does between \<open>emit_init\<close> and \<open>emit_output\<close>, and its exit code; \<open>reported\<close> says whether the back end
  reported an error.
\<close>

definition compile_source :: "nat \<Rightarrow> 'b env \<Rightarrow> 'b \<Rightarrow> 'b pst option" where
  "compile_source n en b =
    do { st1 \<leftarrow> register_fund_types en (pst0 b);
         st2 \<leftarrow> import_all_from en st1;
         compile n en st2 }"

definition exit_code :: "bool \<Rightarrow> 'b pst \<Rightarrow> nat" where
  "exit_code reported st = (if reported \<or> ps_errs st \<noteq> [] \<or> lx_errs (ps_lx st) \<noteq> [] then 1 else if ps_warns st \<noteq> [] then 2 else 0)"

end
