(* ===== verification/Front_Layout.thy ===== *)
theory Front_Layout
  imports Compiler
begin

text \<open>
  Where \<open>stmt_struct_decl\<close> of \<open>src/alc/main.c\<close> puts the members of a struct.
\<close>

section \<open>Alignment\<close>

lemma and_not_mask_unat:
  fixes w :: "'a::len word"
  shows "unat (w AND NOT (mask k)) = unat w - unat w mod 2 ^ k"
proof -
  have "w AND NOT (mask k) = push_bit k (drop_bit k w)"
    by (intro bit_word_eqI) (auto simp: bit_simps)
  moreover have "push_bit k (drop_bit k w) + take_bit k w = w"
    by (rule bits_ident)
  ultimately have w: "w - take_bit k w = w AND NOT (mask k)"
    by (metis add_diff_cancel_right')
  have "unat (take_bit k w) = take_bit k (unat w)"
    by (rule unsigned_take_bit_eq)
  then have t: "unat (take_bit k w) = unat w mod 2 ^ k"
    by (simp only: take_bit_eq_mod)
  then have "take_bit k w \<le> w"
    by (simp add: word_le_nat_alt)
  then show ?thesis
    using t w by (metis unat_sub)
qed

lemma ALIGN_TO_unat:
  fixes e :: "'a::len word"
  assumes "unat a = 2 ^ k" and "unat e + 2 ^ k < 2 ^ LENGTH('a)"
  shows "unat (ALIGN_TO e a) = (unat e + 2 ^ k - 1) - (unat e + 2 ^ k - 1) mod 2 ^ k"
proof -
  have k: "k < LENGTH('a)"
    using assms(2) by (metis add_lessD1 add.commute power_less_imp_less_exp one_less_numeral_iff semiring_norm(76))
  have a: "a = 2 ^ k"
    using assms(1) unat_pow2 [OF k] by (metis unsigned_word_eqI)
  have m: "a - 1 = mask k"
    by (simp add: a mask_eq_exp_minus_1)
  have s: "unat (e + a) = unat e + 2 ^ k"
    using assms by (simp add: unat_word_ariths)
  moreover have "1 \<le> unat e + 2 ^ k"
    using one_le_power [of "2::nat" k] by linarith
  ultimately have "1 \<le> e + a"
    by (simp add: word_le_nat_alt)
  then have "unat (e + a - 1) = unat e + 2 ^ k - 1"
    using s by (simp add: unat_sub)
  then show ?thesis
    using and_not_mask_unat [of "e + a - 1" k] by (simp add: ALIGN_TO_def m)
qed

lemma ALIGN_TO_bounds:
  fixes e :: "'a::len word"
  assumes "unat a = 2 ^ k" and "unat e + 2 ^ k < 2 ^ LENGTH('a)"
  shows "2 ^ k dvd unat (ALIGN_TO e a)" and "unat e \<le> unat (ALIGN_TO e a)"
    and "unat (ALIGN_TO e a) < unat e + 2 ^ k"
proof -
  let ?x = "unat e + 2 ^ k - 1"
  have u: "unat (ALIGN_TO e a) = ?x - ?x mod 2 ^ k" by (rule ALIGN_TO_unat [OF assms])
  show "2 ^ k dvd unat (ALIGN_TO e a)" unfolding u by (rule dvd_minus_mod)
  have "?x mod 2 ^ k < 2 ^ k" by simp
  then show "unat e \<le> unat (ALIGN_TO e a)" unfolding u by arith
  have "?x < unat e + 2 ^ k" by (simp add: zero_less_power)
  then show "unat (ALIGN_TO e a) < unat e + 2 ^ k" unfolding u by arith
qed

section \<open>Struct layout\<close>

text \<open>
  Where the members of a struct end when they are laid out from \<open>lo\<close> on, each at the first multiple of
  its alignment behind the one before it, which takes as many bytes as its own type has;
  \<open>None\<close> when one of them is elsewhere.
\<close>

fun laid_out :: "tstore \<Rightarrow> nat \<Rightarrow> member list \<Rightarrow> nat option" where
  "laid_out ts lo [] = Some lo"
| "laid_out ts lo (m # ms) =
    (case (base_type ts (m_dtype m), dtype_size ts (m_dtype m)) of (Some t, Some sz) \<Rightarrow>
        if lo \<le> unat (m_offset m) \<and> unat (m_offset m) < lo + unat (ty_align t)
           \<and> unat (ty_align t) dvd unat (m_offset m)
        then laid_out ts (unat (m_offset m) + unat sz) ms else None
     | _ \<Rightarrow> None)"

text \<open>
  The code counts the size of the base type of a member. That is the size of the member when it is under no
  declarator, or a pointer to a type of eight bytes; a pointer to a smaller type, a slice or an array takes more.
\<close>

fun base_placed :: "tstore \<Rightarrow> nat \<Rightarrow> member list \<Rightarrow> nat option" where
  "base_placed ts lo [] = Some lo"
| "base_placed ts lo (m # ms) =
    (case base_type ts (m_dtype m) of None \<Rightarrow> None
     | Some t \<Rightarrow>
        if lo \<le> unat (m_offset m) \<and> unat (m_offset m) < lo + unat (ty_align t)
           \<and> unat (ty_align t) dvd unat (m_offset m)
        then base_placed ts (unat (m_offset m) + unat (ty_size t)) ms else None)"

definition base_sized :: "tstore \<Rightarrow> member \<Rightarrow> bool" where
  "base_sized ts m \<longleftrightarrow> (case base_type ts (m_dtype m) of None \<Rightarrow> False | Some t \<Rightarrow> dtype_size ts (m_dtype m) = Some (ty_size t))"

text \<open>A member is aligned, and so is the struct it is in.\<close>

definition member_aligned :: "tstore \<Rightarrow> u8 \<Rightarrow> member \<Rightarrow> bool" where
  "member_aligned ts a m \<longleftrightarrow> (case base_type ts (m_dtype m) of None \<Rightarrow> False
     | Some b \<Rightarrow> unat (ty_align b) dvd unat (m_offset m) \<and> unat (ty_align b) dvd unat a)"

definition align_ok :: "u8 \<Rightarrow> bool" where
  "align_ok a \<longleftrightarrow> a \<in> {1, 2, 4, 8, 16}"

text \<open>
  A type that can be a member: its size is a multiple of its alignment, and the members of a struct are aligned;
  when each has the size of its base type, they are laid out in order, apart from each other, inside the size of the
  struct, with less than one alignment of padding behind the last.
\<close>

definition sound_type :: "tstore \<Rightarrow> type_t \<Rightarrow> bool" where
  "sound_type ts t \<longleftrightarrow> align_ok (ty_align t) \<and> unat (ty_align t) dvd unat (ty_size t)
     \<and> (ty_tag t = TK_STRUCT \<longrightarrow>
          (\<forall>m\<in>set (ty_members t). member_aligned ts (ty_align t) m)
          \<and> ((\<forall>m\<in>set (ty_members t). base_sized ts m) \<longrightarrow> (case laid_out ts 0 (ty_members t) of None \<Rightarrow> False
             | Some hi \<Rightarrow> hi \<le> unat (ty_size t) \<and> unat (ty_size t) < hi + unat (ty_align t))))"

definition member_bases :: "type_t \<Rightarrow> nat option list" where
  "member_bases t = map (\<lambda>m. d_base (m_dtype m)) (ty_members t)"

definition sound_types :: "'b pst \<Rightarrow> nat option \<Rightarrow> bool" where
  "sound_types st skip \<longleftrightarrow> length (ps_types st) = 128 \<and> (\<forall>i<128. fst (ps_types st ! i) \<noteq> None \<longrightarrow> Some i \<noteq> skip \<longrightarrow>
     sound_type (tys st) (tys st i) \<and> unat (ty_size (tys st i)) < 2 ^ 59
     \<and> (\<forall>b\<in>set (member_bases (tys st i)). \<exists>j<128. b = Some j \<and> fst (ps_types st ! j) \<noteq> None \<and> b \<noteq> skip))"

lemma member_cong:
  assumes "base_type ts (m_dtype m) = base_type ts' (m_dtype m)"
  shows "dtype_size ts (m_dtype m) = dtype_size ts' (m_dtype m)" and "base_sized ts m = base_sized ts' m"
    and "member_aligned ts a m = member_aligned ts' a m"
  using assms by (simp_all add: dtype_size_def base_sized_def member_aligned_def cong: option.case_cong)

lemma laid_out_cong:
  assumes "\<And>m. m \<in> set ms \<Longrightarrow> base_type ts (m_dtype m) = base_type ts' (m_dtype m)"
  shows "laid_out ts lo ms = laid_out ts' lo ms"
  using assms by (induction ts lo ms rule: laid_out.induct) (auto simp: dtype_size_def split: option.split)

lemma base_placed_cong:
  assumes "\<And>m. m \<in> set ms \<Longrightarrow> base_type ts (m_dtype m) = base_type ts' (m_dtype m)"
  shows "base_placed ts lo ms = base_placed ts' lo ms"
  using assms by (induction ts lo ms rule: base_placed.induct) (auto split: option.split)

lemma base_placed_append:
  "base_placed ts lo (ms @ ns) = Option.bind (base_placed ts lo ms) (\<lambda>hi. base_placed ts hi ns)"
  by (induction ts lo ms rule: base_placed.induct) (auto split: option.split)

lemma base_placed_laid_out:
  assumes "base_placed ts lo ms = Some hi" and "\<forall>m\<in>set ms. base_sized ts m"
  shows "laid_out ts lo ms = Some hi"
  using assms by (induction ts lo ms rule: base_placed.induct) (auto simp: base_sized_def split: option.splits if_splits)

lemma sound_type_cong:
  assumes "\<And>m. m \<in> set (ty_members t) \<Longrightarrow> base_type ts (m_dtype m) = base_type ts' (m_dtype m)"
  shows "sound_type ts t = sound_type ts' t"
proof -
  have "(\<forall>m\<in>set (ty_members t). base_sized ts m) = (\<forall>m\<in>set (ty_members t). base_sized ts' m)"
    "(\<forall>m\<in>set (ty_members t). member_aligned ts (ty_align t) m) = (\<forall>m\<in>set (ty_members t). member_aligned ts' (ty_align t) m)"
    by (intro ball_cong refl member_cong assms; assumption)+
  moreover have "laid_out ts 0 (ty_members t) = laid_out ts' 0 (ty_members t)" by (rule laid_out_cong [OF assms])
  ultimately show ?thesis by (simp only: sound_type_def)
qed

lemma align_ok_pow2: "align_ok a \<Longrightarrow> \<exists>k\<le>4. unat a = 2 ^ k"
  unfolding align_ok_def
  by (elim insertE emptyE, rule exI [of _ 0], simp, rule exI [of _ 1], simp, rule exI [of _ 2], simp,
      rule exI [of _ 3], simp, rule exI [of _ 4], simp)

lemma align_ok_dvd: "align_ok a \<Longrightarrow> align_ok b \<Longrightarrow> a \<le> b \<Longrightarrow> unat a dvd unat b"
  unfolding align_ok_def by (elim insertE emptyE) (simp_all add: word_le_nat_alt)

text \<open>The struct that the loop over the members builds.\<close>

definition building :: "tstore \<Rightarrow> type_t \<Rightarrow> bool" where
  "building ts s \<longleftrightarrow> ty_tag s = TK_STRUCT \<and> unat (ty_size s) \<le> length (ty_members s) * (2 ^ 59 + 16)
     \<and> length (ty_members s) \<le> 8
     \<and> (\<forall>m\<in>set (ty_members s). member_aligned ts (ty_align s) m)
     \<and> base_placed ts 0 (ty_members s) = Some (unat (ty_size s))
     \<and> (if ty_members s = [] then ty_align s = 0 else align_ok (ty_align s))"

lemma building_cong:
  assumes "\<And>m. m \<in> set (ty_members t) \<Longrightarrow> base_type ts (m_dtype m) = base_type ts' (m_dtype m)"
  shows "building ts t = building ts' t"
proof -
  have "(\<forall>m\<in>set (ty_members t). member_aligned ts (ty_align t) m) = (\<forall>m\<in>set (ty_members t). member_aligned ts' (ty_align t) m)"
    by (intro ball_cong refl member_cong assms; assumption)
  moreover have "base_placed ts 0 (ty_members t) = base_placed ts' 0 (ty_members t)" by (rule base_placed_cong [OF assms])
  ultimately show ?thesis by (simp only: building_def)
qed

lemma dyn_member_push_Some: "dyn_member_push ms m = Some ms' \<Longrightarrow> ms' = ms @ [m] \<and> length ms < 8"
  by (auto simp: dyn_member_push_def dyn_push_def Let_def dyn_realloc_def split: if_splits)

lemma ucast_align: "unat (ucast (a :: u8) :: usize) = unat a"
  using unsigned_less [of a, where ?'a = nat] by (simp add: unsigned_ucast_eq take_bit_nat_eq_self)

lemma ALIGN_TO_align:
  fixes e :: usize
  assumes "align_ok a" and "unat e < 2 ^ 63"
  shows "unat a dvd unat (ALIGN_TO e (ucast a))" and "unat e \<le> unat (ALIGN_TO e (ucast a))"
    and "unat (ALIGN_TO e (ucast a)) < unat e + unat a" and "unat a \<le> 16"
proof -
  obtain k where k: "k \<le> 4" "unat a = 2 ^ k" using align_ok_pow2 [OF assms(1)] by auto
  then have k16: "2 ^ k \<le> (16 :: nat)" using power_increasing [of k 4 "2::nat"] by simp
  have u: "unat (ucast a :: usize) = 2 ^ k" by (simp only: ucast_align k)
  have "unat e + 2 ^ k < 2 ^ LENGTH(64)" using assms(2) k16 by simp
  note b = ALIGN_TO_bounds [OF u this]
  show "unat a dvd unat (ALIGN_TO e (ucast a))" "unat e \<le> unat (ALIGN_TO e (ucast a))"
    "unat (ALIGN_TO e (ucast a)) < unat e + unat a" "unat a \<le> 16"
    using b k k16 by simp_all
qed

lemma add_member_bases:
  "add_member ts name d s = Some s' \<Longrightarrow> member_bases s' = member_bases s @ [d_base d] \<and> ty_tag s' = ty_tag s"
  by (auto simp: add_member_def member_bases_def Let_def split: bind_splits dest!: dyn_member_push_Some)

lemma align_max:
  assumes "if n then a = 0 else align_ok a" and "align_ok b"
  shows "align_ok (if a < b then b else a)" and "unat b dvd unat (if a < b then b else a)"
    and "\<not> n \<Longrightarrow> unat a dvd unat (if a < b then b else a)"
proof -
  have "b \<noteq> 0" using assms(2) by (auto simp: align_ok_def)
  then show "align_ok (if a < b then b else a)" "unat b dvd unat (if a < b then b else a)"
    using assms align_ok_dvd [of b a] by (auto split: if_splits simp: not_less word_neq_0_conv)
  show "\<not> n \<Longrightarrow> unat a dvd unat (if a < b then b else a)"
    using assms align_ok_dvd [of a b] by (auto simp: less_imp_le)
qed

lemma add_member_building:
  assumes s: "building ts s" and t: "base_type ts d = Some t" "sound_type ts t" "unat (ty_size t) < 2 ^ 59"
    and a: "add_member ts name d s = Some s'"
  shows "building ts s'"
proof -
  define off where "off = ALIGN_TO (ty_size s) (ucast (ty_align t) :: usize)"
  have ms: "ty_members s' = ty_members s @ [\<lparr>m_dtype = d, m_name = name, m_offset = off\<rparr>]"
    and l: "length (ty_members s) < 8" and sz: "ty_size s' = off + ty_size t"
    and al: "ty_align s' = (if ty_align s < ty_align t then ty_align t else ty_align s)" and tg: "ty_tag s' = ty_tag s"
    using a t(1) by (auto simp: add_member_def off_def Let_def split: bind_splits dest!: dyn_member_push_Some)
  have ok: "align_ok (ty_align t)" using t(2) by (simp add: sound_type_def)
  have le: "unat (ty_size s) \<le> length (ty_members s) * (2 ^ 59 + 16)" using s by (simp add: building_def)
  have "unat (ty_size s) < 2 ^ 63" using le l by simp
  note o = ALIGN_TO_align [OF ok this, folded off_def]
  have ov: "unat off + unat (ty_size t) \<le> Suc (length (ty_members s)) * (2 ^ 59 + 16)"
    using o(3,4) le t(3) by simp
  then have u: "unat (ty_size s') = unat off + unat (ty_size t)"
    unfolding sz using l by (subst unat_plus_if') simp
  note m = align_max [of "ty_members s = []", OF _ ok, of "ty_align s"]
  have n: "if ty_members s = [] then ty_align s = 0 else align_ok (ty_align s)" using s by (simp add: building_def)
  have dv: "member_aligned ts (ty_align s') x" if x: "x \<in> set (ty_members s)" for x
  proof -
    have ne: "ty_members s \<noteq> []" using x by auto
    have "member_aligned ts (ty_align s) x" using s x by (simp add: building_def)
    then show ?thesis using m(3) [OF n ne] unfolding al by (auto simp: member_aligned_def split: option.splits intro: dvd_trans)
  qed
  have new: "member_aligned ts (ty_align s') \<lparr>m_dtype = d, m_name = name, m_offset = off\<rparr>"
    using t(1) o(1) m(2) [OF n] by (simp add: member_aligned_def al)
  have lo: "base_placed ts 0 (ty_members s') = Some (unat (ty_size s'))"
    using s o u t(1) by (simp add: building_def ms base_placed_append)
  show ?thesis
    using s l ov u m(1) [OF n] dv new lo by (simp add: building_def tg ms al)
qed

lemma finish_building:
  assumes s: "building ts s" and ne: "ty_members s \<noteq> []"
  shows "sound_type ts (finish_struct s)"
proof -
  have ok: "align_ok (ty_align s)" using s ne by (simp add: building_def)
  have "unat (ty_size s) < 2 ^ 63" using s by (simp add: building_def)
  note o = ALIGN_TO_align [OF ok this]
  have "laid_out ts 0 (ty_members s) = Some (unat (ty_size s))" if "\<forall>m\<in>set (ty_members s). base_sized ts m"
    using s that by (intro base_placed_laid_out) (simp_all add: building_def)
  then show ?thesis using s o ok by (auto simp: sound_type_def finish_struct_def building_def)
qed

text \<open>What does not touch the table of types.\<close>

lemma types_kept [simp]:
  "ps_types (compile_err m st) = ps_types st" "ps_types (err_if c m st) = ps_types st"
  "ps_types (expect_tok en w st) = ps_types st" "ps_types (st\<lparr>ps_lx := lx\<rparr>) = ps_types st"
  by (simp_all add: compile_err_def err_if_def expect_tok_def)

lemma skip_tok_types: "skip_tok en st = Some st' \<Longrightarrow> ps_types st' = ps_types st"
  by (auto simp: skip_tok_def next_tok_def)

lemma tys_eq: "ps_types st = ps_types st' \<Longrightarrow> tys st = tys st'"
  by (rule ext) (simp add: tys_def)

lemma find_type_less: "find_type en name st = Some i \<Longrightarrow> i < 128"
  by (auto simp: find_type_def hashmap_find_types found_def dest: types.find_in_mem split: outcome.splits)

lemma dtype_append_base [simp]: "d_base (dtype_append d x) = d_base d"
  by (simp add: dtype_append_def)

lemma decls_loop_base: "decls_loop s d lx = Some (d', lx') \<Longrightarrow> d_base d' = d_base d"
proof (induction s d lx rule: decls_loop.induct)
  case (1 s d lx)
  define w where "w = tok_text s (lx_tok lx)"
  define dk where "dk = (if w = ''addr'' then DK_ADDR else if w = ''slice'' then DK_SLICE
               else if w = ''!'' then DK_CHECK else DK_NONE)"
  define amount where "amount = (if dk = DK_CHECK then ucast (strtoll (drop (tk_data (lx_tok lx) + 1) s)) else 1 :: i32)"
  note eq = 1(2) [unfolded decls_loop.simps [of s d lx] Let_def, folded w_def, folded dk_def, folded amount_def]
  from eq obtain b1 lx1 where t1: "(if dk = DK_CHECK \<and> amount \<noteq> 0 then tok s lx else Some (True, lx)) = Some (b1, lx1)"
    by (auto split: option.splits)
  show ?case
  proof (cases "at s (tk_end (lx_tok lx1)) = CHR ''{'' \<or> dk = DK_NONE")
    case True
    then show ?thesis using eq t1 by simp
  next
    case False
    then obtain b lx2 where t2: "tok s lx1 = Some (b, lx2)"
      and r: "decls_loop s (dtype_append d \<lparr>dk_tag = dk, dk_amount = ucast amount\<rparr>) lx2 = Some (d', lx')"
      using eq t1 by (auto split: option.splits)
    show ?thesis using 1(1) [OF w_def dk_def amount_def t1 refl False t2 refl r] by simp
  qed
qed

text \<open>A base that is read is the slot of a named type.\<close>

lemma parse_dtype_types:
  assumes "parse_dtype en st = Some (b, d, st')"
  shows "ps_types st' = ps_types st"
    and "d_base d = None \<or> (\<exists>i<128. d_base d = Some i \<and> fst (ps_types st ! i) \<noteq> None)"
proof -
  have *: "ps_types st' = ps_types st \<and> (d_base d = None \<or> (\<exists>i<128. d_base d = Some i \<and> fst (ps_types st ! i) \<noteq> None))"
    using assms
    by (auto simp: parse_dtype_def Let_def dtype0_def split: bind_splits if_splits
          dest!: decls_loop_base find_type_less)
  then show "ps_types st' = ps_types st"
    and "d_base d = None \<or> (\<exists>i<128. d_base d = Some i \<and> fst (ps_types st ! i) \<noteq> None)" by simp_all
qed

text \<open>Adding a member to the entry \<open>i\<close> of the table leaves the other types as they are.\<close>

lemma put_type_types [simp]:
  "map fst (ps_types (put_type i s st)) = map fst (ps_types st)"
  "j \<noteq> i \<Longrightarrow> ps_types (put_type i s st) ! j = ps_types st ! j"
  "length (ps_types (put_type i s st)) = length (ps_types st)"
proof -
  show "map fst (ps_types (put_type i s st)) = map fst (ps_types st)"
    by (cases "i < length (ps_types st)") (auto simp: put_type_def nth_list_update intro: nth_equalityI)
qed (simp_all add: put_type_def)

definition same_but :: "nat \<Rightarrow> 'b pst \<Rightarrow> 'b pst \<Rightarrow> bool" where
  "same_but i st st' \<longleftrightarrow> map fst (ps_types st') = map fst (ps_types st) \<and> (\<forall>j. j \<noteq> i \<longrightarrow> ps_types st' ! j = ps_types st ! j)"

lemma same_but_refl: "ps_types st' = ps_types st \<Longrightarrow> same_but i st st'"
  by (simp add: same_but_def)

lemma same_but_trans: "same_but i st st1 \<Longrightarrow> same_but i st1 st2 \<Longrightarrow> same_but i st st2"
  by (simp add: same_but_def)

lemma same_but_put: "same_but i st (put_type i s st)"
  by (simp add: same_but_def)

lemma same_but_named:
  assumes "same_but i st st'"
  shows "length (ps_types st') = length (ps_types st)"
    and "j < length (ps_types st) \<Longrightarrow> fst (ps_types st' ! j) = fst (ps_types st ! j)"
proof -
  have m: "map fst (ps_types st') = map fst (ps_types st)" using assms by (simp add: same_but_def)
  show l: "length (ps_types st') = length (ps_types st)" by (rule map_eq_imp_length_eq [OF m])
  show "fst (ps_types st' ! j) = fst (ps_types st ! j)" if "j < length (ps_types st)"
    using arg_cong [OF m, of "\<lambda>xs. xs ! j"] that l by simp
qed

lemma same_but_base:
  "same_but i st st' \<Longrightarrow> d_base (m_dtype m) \<noteq> Some i \<Longrightarrow> base_type (tys st) (m_dtype m) = base_type (tys st') (m_dtype m)"
  by (cases "d_base (m_dtype m)") (simp_all add: base_type_def same_but_def tys_def)

lemma same_but_sound:
  assumes b: "same_but i st st'" and "sound_types st (Some i)"
  shows "sound_types st' (Some i)"
proof -
  have l: "length (ps_types st) = 128" using assms(2) by (simp add: sound_types_def)
  note n = same_but_named [OF b]
  have "sound_type (tys st') (tys st' j) \<and> unat (ty_size (tys st' j)) < 2 ^ 59
      \<and> (\<forall>b\<in>set (member_bases (tys st' j)). \<exists>k<128. b = Some k \<and> fst (ps_types st' ! k) \<noteq> None \<and> b \<noteq> Some i)"
    if j: "j < 128" "fst (ps_types st' ! j) \<noteq> None" "j \<noteq> i" for j
  proof -
    have t: "tys st' j = tys st j" using b j by (simp add: same_but_def tys_def)
    have old: "sound_type (tys st) (tys st j) \<and> unat (ty_size (tys st j)) < 2 ^ 59
      \<and> (\<forall>b\<in>set (member_bases (tys st j)). \<exists>k<128. b = Some k \<and> fst (ps_types st ! k) \<noteq> None \<and> b \<noteq> Some i)"
      using assms(2) j n(2) [of j] l by (simp add: sound_types_def)
    have "sound_type (tys st) (tys st j) = sound_type (tys st') (tys st j)"
      using old by (intro sound_type_cong same_but_base [OF b]) (auto simp: member_bases_def)
    then show ?thesis using old n(2) l unfolding t by fastforce
  qed
  then show ?thesis using n(1) l by (simp add: sound_types_def)
qed

lemma same_but_building:
  assumes b: "same_but i st st'" and "building (tys st) s" and "Some i \<notin> set (member_bases s)"
  shows "building (tys st') s"
proof -
  have "building (tys st) s = building (tys st') s"
    using assms(3) by (intro building_cong same_but_base [OF b]) (force simp: member_bases_def)
  then show ?thesis using assms(2) by simp
qed

text \<open>The loop keeps the other types, and builds a struct unless a member is the struct itself.\<close>

definition loop_pre :: "nat \<Rightarrow> type_t \<Rightarrow> 'b pst \<Rightarrow> bool" where
  "loop_pre i s st \<longleftrightarrow> sound_types st (Some i) \<and> i < 128 \<and> (building (tys st) s \<or> Some i \<in> set (member_bases s))"

lemma loop_pre_types:
  assumes "loop_pre i s st" and t: "ps_types st' = ps_types st"
  shows "loop_pre i s st'"
proof -
  have "tys st' = tys st" by (rule tys_eq [OF t])
  then show ?thesis using assms by (simp add: loop_pre_def sound_types_def)
qed

lemma add_member_pre:
  assumes p: "loop_pre i s st" and d: "d_base d = None \<or> (\<exists>j<128. d_base d = Some j \<and> fst (ps_types st ! j) \<noteq> None)"
    and a: "add_member (tys st) name d s = Some s'"
  shows "loop_pre i s' (put_type i s' st)"
proof -
  note b = same_but_put [of i st s']
  have st: "sound_types (put_type i s' st) (Some i)" and i: "i < 128"
    using p same_but_sound [OF b] by (simp_all add: loop_pre_def)
  have bases: "member_bases s' = member_bases s @ [d_base d]" using add_member_bases [OF a] by simp
  have "building (tys (put_type i s' st)) s'" if n: "Some i \<notin> set (member_bases s')"
  proof -
    obtain t where t: "base_type (tys st) d = Some t" using a by (auto simp: add_member_def split: bind_splits)
    then obtain j where j: "d_base d = Some j" "t = tys st j" by (auto simp: base_type_def)
    then have "j < 128" "fst (ps_types st ! j) \<noteq> None" "j \<noteq> i" using d n bases by auto
    then have "sound_type (tys st) t" "unat (ty_size t) < 2 ^ 59"
      using p j by (auto simp: loop_pre_def sound_types_def)
    moreover have "building (tys st) s" using p n bases by (auto simp: loop_pre_def)
    ultimately have "building (tys st) s'" using add_member_building t a by blast
    then show ?thesis using same_but_building [OF b _ n] by simp
  qed
  then show ?thesis using st i by (auto simp: loop_pre_def)
qed

lemma members_loop_pre:
  assumes "members_loop en (Some i) s st = Some (s', st')" and "loop_pre i s st"
  shows "loop_pre i s' st' \<and> same_but i st st'"
proof -
  define P where "P = (\<lambda>(en :: 'a env) ptr s (st :: 'a pst) (r :: type_t \<times> 'a pst).
    ptr = Some i \<longrightarrow> loop_pre i s st \<longrightarrow> loop_pre i (fst r) (snd r) \<and> same_but i st (snd r))"
  have "P en (Some i) s st (s', st')"
  proof (rule members_loop.raw_induct [OF _ assms(1)], goal_cases)
    case (1 f en ptr s st r)
    show ?case unfolding P_def
    proof (intro impI)
      assume ptr: "ptr = Some i" and pre: "loop_pre i s st"
      have "(\<exists>st2. r = (s, st2) \<and> ps_types st2 = ps_types st)
        \<or> (\<exists>st2 b d st3 name s'. ps_types st2 = ps_types st \<and> parse_dtype en st2 = Some (b, d, st3)
             \<and> add_member (tys st3) name d s = Some s' \<and> f en ptr s' (put_type i s' st3) = Some r)"
        using 1(2) ptr by (auto simp: Let_def split: bind_splits if_splits dest!: skip_tok_types)
      then show "loop_pre i (fst r) (snd r) \<and> same_but i st (snd r)"
      proof (elim disjE exE conjE)
        fix st2 assume r: "r = (s, st2)" and t: "ps_types st2 = ps_types st"
        show ?thesis using loop_pre_types [OF pre t] same_but_refl [OF t] by (simp add: r)
      next
        fix st2 b d st3 name s'
        assume t2: "ps_types st2 = ps_types st" and d: "parse_dtype en st2 = Some (b, d, st3)"
          and a: "add_member (tys st3) name d s = Some s'" and f: "f en ptr s' (put_type i s' st3) = Some r"
        have t3: "ps_types st3 = ps_types st" using parse_dtype_types(1) [OF d] t2 by simp
        have "loop_pre i s' (put_type i s' st3)"
          using add_member_pre [OF loop_pre_types [OF pre t3] _ a] parse_dtype_types(2) [OF d] t2 t3 by simp
        moreover have "same_but i st (put_type i s' st3)"
          by (rule same_but_trans [OF same_but_refl [OF t3] same_but_put])
        ultimately show ?thesis
          using 1(1) [OF f] ptr same_but_trans unfolding P_def by blast
      qed
    qed
  qed
  then show ?thesis using assms(2) by (simp add: P_def)
qed

lemma members_loop_none:
  assumes "members_loop en None s st = Some (s', st')"
  shows "ps_types st' = ps_types st"
proof -
  define P where "P = (\<lambda>(en :: 'a env) (ptr :: nat option) (s :: type_t) (st :: 'a pst) (r :: type_t \<times> 'a pst).
    ptr = None \<longrightarrow> ps_types (snd r) = ps_types st)"
  have "P en None s st (s', st')"
  proof (rule members_loop.raw_induct [OF _ assms], goal_cases)
    case (1 f en ptr s st r)
    show ?case unfolding P_def
    proof (intro impI)
      assume ptr: "ptr = None"
      have "(\<exists>st2. r = (s, st2) \<and> ps_types st2 = ps_types st)
        \<or> (\<exists>st3 s'. ps_types st3 = ps_types st \<and> f en ptr s' st3 = Some r)"
        using 1(2) ptr
        by (auto simp: Let_def split: bind_splits if_splits dest!: skip_tok_types dest: parse_dtype_types(1))
      then show "ps_types (snd r) = ps_types st"
        using 1(1) ptr unfolding P_def by fastforce
    qed
  qed
  then show ?thesis by (simp add: P_def)
qed

text \<open>What the declaration of a struct leaves in the table of types.\<close>

lemma fresh_loop_pre:
  assumes sound: "sound_types st None" and j: "j < 128" "fst (ps_types st ! j) = None"
    and t: "ps_types st' = (ps_types st)[j := (Some name, struct0 name)]"
  shows "loop_pre j (struct0 name) st'"
proof -
  have l: "length (ps_types st) = 128" using sound by (simp add: sound_types_def)
  have other: "ps_types st' ! k = ps_types st ! k" if "k \<noteq> j" for k using that by (simp add: t)
  have "sound_type (tys st') (tys st' k) \<and> unat (ty_size (tys st' k)) < 2 ^ 59
      \<and> (\<forall>b\<in>set (member_bases (tys st' k)). \<exists>l<128. b = Some l \<and> fst (ps_types st' ! l) \<noteq> None \<and> b \<noteq> Some j)"
    if k: "k < 128" "fst (ps_types st' ! k) \<noteq> None" "k \<noteq> j" for k
  proof -
    have tk: "tys st' k = tys st k" using other k by (simp add: tys_def)
    have named: "fst (ps_types st ! k) \<noteq> None" using other k by simp
    have old: "sound_type (tys st) (tys st k) \<and> unat (ty_size (tys st k)) < 2 ^ 59
      \<and> (\<forall>b\<in>set (member_bases (tys st k)). \<exists>l<128. b = Some l \<and> fst (ps_types st ! l) \<noteq> None)"
      using sound k(1) named unfolding sound_types_def by blast
    have "base_type (tys st) (m_dtype m) = base_type (tys st') (m_dtype m)" if m: "m \<in> set (ty_members (tys st k))" for m
    proof -
      have "d_base (m_dtype m) \<in> set (member_bases (tys st k))" using m by (simp add: member_bases_def)
      from bspec [OF conjunct2 [OF conjunct2 [OF old]] this]
      obtain l where l: "d_base (m_dtype m) = Some l" "fst (ps_types st ! l) \<noteq> None" by blast
      then have "l \<noteq> j" using j by auto
      then show ?thesis using l(1) other by (simp add: base_type_def tys_def)
    qed
    then have "sound_type (tys st) (tys st k) = sound_type (tys st') (tys st k)" by (rule sound_type_cong)
    moreover have "\<exists>l<128. b = Some l \<and> fst (ps_types st' ! l) \<noteq> None \<and> b \<noteq> Some j"
      if b: "b \<in> set (member_bases (tys st k))" for b
    proof -
      from bspec [OF conjunct2 [OF conjunct2 [OF old]] b]
      obtain l where l: "l < 128" "b = Some l" "fst (ps_types st ! l) \<noteq> None" by blast
      then have "l \<noteq> j" using j by auto
      then show ?thesis using l other by fastforce
    qed
    ultimately show ?thesis using old unfolding tk by simp
  qed
  moreover have "length (ps_types st') = 128" using l by (simp add: t)
  ultimately have "sound_types st' (Some j)" unfolding sound_types_def by blast
  then show ?thesis using j by (simp add: loop_pre_def building_def struct0_def)
qed

definition declares :: "'b env \<Rightarrow> 'b pst \<Rightarrow> 'b pst \<Rightarrow> bool" where
  "declares en st st' \<longleftrightarrow> (\<exists>j name st4 s st5. members_loop en (Some j) (struct0 name) st4 = Some (s, st5)
        \<and> j < 128 \<and> fst (ps_types st ! j) = None \<and> ps_types st4 = (ps_types st)[j := (Some name, struct0 name)]
        \<and> st' = put_type j (finish_struct s) st5)"

lemma declaresI:
  "members_loop en (Some j) (struct0 name) (expect_tok en w st3) = Some (s, st5) \<Longrightarrow> j < 128 \<Longrightarrow> fst (ps_types st ! j) = None
    \<Longrightarrow> ps_types st3 = (ps_types st)[j := (Some name, struct0 name)] \<Longrightarrow> declares en st (put_type j (finish_struct s) st5)"
  unfolding declares_def using types_kept(3) [of en w st3] by fastforce

lemma struct_decl_cases:
  assumes "stmt_struct_decl en nm st = Some (b, st')"
  shows "ps_types st' = ps_types st \<or> declares en st st'"
  using assms
  by (auto simp: stmt_struct_decl_def Let_def overwrite_at_def split: bind_splits if_splits
      dest!: skip_tok_types members_loop_none find_type_less) (blast dest: declaresI)+

lemma struct_decl_layout:
  assumes sound: "sound_types st None" and r: "stmt_struct_decl en nm st = Some (b, st')"
    and i: "i < 128" "fst (ps_types st' ! i) \<noteq> None"
  shows "sound_type (tys st') (tys st' i)
    \<or> (fst (ps_types st ! i) = None \<and> (ty_members (tys st' i) = [] \<or> Some i \<in> set (member_bases (tys st' i))))"
  using struct_decl_cases [OF r] unfolding declares_def
proof (elim disjE exE conjE)
  assume t: "ps_types st' = ps_types st"
  then show ?thesis using sound i tys_eq [OF t] by (simp add: sound_types_def)
next
  fix j name st4 s st5
  assume m: "members_loop en (Some j) (struct0 name) st4 = Some (s, st5)" and j: "j < 128" "fst (ps_types st ! j) = None"
    and t: "ps_types st4 = (ps_types st)[j := (Some name, struct0 name)]" and st': "st' = put_type j (finish_struct s) st5"
  note l = members_loop_pre [OF m fresh_loop_pre [OF sound j t]]
  have sb: "same_but j st5 st'" unfolding st' by (rule same_but_put)
  show ?thesis
  proof (cases "i = j")
    case True
    have "j < length (ps_types st5)" using l j by (simp add: loop_pre_def sound_types_def)
    then have t: "tys st' j = finish_struct s" using j by (simp add: st' tys_def put_type_def)
    have f: "ty_members (finish_struct s) = ty_members s" "member_bases (finish_struct s) = member_bases s"
      by (simp_all add: finish_struct_def member_bases_def)
    have "sound_type (tys st') (finish_struct s)" if ne: "ty_members s \<noteq> []" and n: "Some j \<notin> set (member_bases s)"
    proof -
      have "building (tys st') s" using same_but_building [OF sb _ n] l n by (simp add: loop_pre_def)
      then show ?thesis by (rule finish_building [OF _ ne])
    qed
    then show ?thesis using j True t f by auto
  next
    case False
    have "sound_types st' (Some j)" using same_but_sound [OF sb] l by (simp add: loop_pre_def)
    then show ?thesis using i False by (simp add: sound_types_def)
  qed
qed

section \<open>A source with a struct\<close>

definition layout_text :: string where
  "layout_text = ''struct P { a u8 b i32 }'' @ [NL]"

definition layout_env :: "a64 env" where
  "layout_env = \<lparr>en_text = layout_text, en_name = ''t.al'', en_files = (\<lambda>f. None),
     en_cv = (\<lambda>c. of_nat (of_char c)), en_be = a64_back_end\<rparr>"

text \<open>The lexer with its token at \<open>d\<close> to \<open>e\<close>, the one at the end of the line the fin.\<close>

definition layout_lx :: "nat \<Rightarrow> nat \<Rightarrow> bool \<Rightarrow> lexer" where
  "layout_lx d e fin = lexer0\<lparr>lx_cur := (if d = 9 then e else e + 1), lx_lineno := (if fin then 2 else 1), lx_eol := fin,
     lx_tok := \<lparr>tk_data = d, tk_end = e, tk_lineno = 1, tk_indent = 0, tk_eob = EOB_NONE\<rparr>\<rparr>"

lemma layout_toks:
  "tok layout_text (layout_lx 0 6 False) = Some (True, layout_lx 7 8 False)"
  "tok layout_text (layout_lx 7 8 False) = Some (True, layout_lx 9 10 False)"
  "tok layout_text (layout_lx 9 10 False) = Some (True, layout_lx 11 12 False)"
  "tok layout_text (layout_lx 11 12 False) = Some (True, layout_lx 13 15 False)"
  "tok layout_text (layout_lx 13 15 False) = Some (True, layout_lx 16 17 False)"
  "tok layout_text (layout_lx 16 17 False) = Some (True, layout_lx 18 21 False)"
  "tok layout_text (layout_lx 18 21 False) = Some (True, layout_lx 22 23 True)"
  by code_simp+

lemma layout_hash:
  "unat (hash_fnv_1a (en_cv layout_env) ''i32'') mod 128 = 69" "unat (hash_fnv_1a (en_cv layout_env) ''P'') mod 128 = 79"
  "unat (hash_fnv_1a (en_cv layout_env) ''u8'') mod 128 = 88"
  by (simp_all add: hash_fnv_1a_def layout_env_def)

lemma layout_dtypes:
  "decls_loop layout_text dtype0 (layout_lx 13 15 False) = Some (dtype0, layout_lx 13 15 False)"
  "decls_loop layout_text dtype0 (layout_lx 18 21 False) = Some (dtype0, layout_lx 18 21 False)"
  by code_simp+

definition layout_pst :: "lexer \<Rightarrow> type_t table \<Rightarrow> a64 pst" where
  "layout_pst lx tab = (pst0 (a64_init (\<lambda>_. \<lparr>ctx_fn_name = [], ctx_fn_named = False\<rparr>)))\<lparr>ps_lx := lx, ps_null_tok := False, ps_types := tab\<rparr>"

definition layout_tab :: "type_t table" where
  "layout_tab = (replicate 128 (None, struct0 []))[69 := (Some ''i32'', fund_type ''i32'' 4), 88 := (Some ''u8'', fund_type ''u8'' 1)]"

lemma layout_skip:
  "tok layout_text lx = Some (b, lx') \<Longrightarrow> skip_tok layout_env (layout_pst lx tab) = Some (layout_pst lx' tab)"
  by (simp add: skip_tok_def next_tok_def layout_pst_def layout_env_def)

lemma layout_find:
  "i = unat (hash_fnv_1a (en_cv layout_env) s) mod 128 \<Longrightarrow> i < length tab \<Longrightarrow> fst (tab ! i) \<in> {None, Some s}
    \<Longrightarrow> find_type layout_env s (layout_pst lx tab) = Some i"
  using types.find_in_home [of "map fst tab" "en_cv layout_env" s]
  by (auto simp: find_type_def hashmap_find_types found_def layout_pst_def)

lemma layout_names:
  "sub layout_env \<lparr>s_data = 0, s_end = 6\<rparr> = ''struct''" "sub layout_env \<lparr>s_data = 7, s_end = 8\<rparr> = ''P''"
  "sub layout_env \<lparr>s_data = 11, s_end = 12\<rparr> = ''a''" "sub layout_env \<lparr>s_data = 13, s_end = 15\<rparr> = ''u8''"
  "sub layout_env \<lparr>s_data = 16, s_end = 17\<rparr> = ''b''" "sub layout_env \<lparr>s_data = 18, s_end = 21\<rparr> = ''i32''"
  by (simp_all add: sub_def at_def layout_env_def layout_text_def upt_rec)

lemma layout_rd:
  "rd layout_env 7 = Some (CHR ''P'')" "rd layout_env 11 = Some (CHR ''a'')" "rd layout_env 13 = Some (CHR ''u'')"
  "rd layout_env 16 = Some (CHR ''b'')" "rd layout_env 18 = Some (CHR ''i'')" "rd layout_env 22 = Some (CHR ''}'')"
  by (simp_all add: rd_def at_def layout_env_def layout_text_def)

lemma layout_nums: "strtoull (drop 13 layout_text) = 0" "strtoull (drop 18 layout_text) = 0"
  by (simp_all add: strtoull_def layout_text_def is_space_def read_magnitude_def digit_val_def is_digit_def code_of_def Let_def)

lemma layout_text_env: "en_text layout_env = layout_text" "length layout_text = 24"
  by (simp_all add: layout_env_def layout_text_def)

lemma layout_sub: "tok_id layout_env (layout_pst lx tab) = sub layout_env (tok_str (layout_pst lx tab))"
  by (simp add: tok_id_def sub_def tok_text_def tok_str_def cur_tok_def)

lemma layout_at: "cur_tok (layout_pst (layout_lx d e fin) tab) = lx_tok (layout_lx d e fin)"
  "tk_data (lx_tok (layout_lx d e fin)) = d" "tk_end (lx_tok (layout_lx d e fin)) = e"
  "tok_str (layout_pst (layout_lx d e fin) tab) = \<lparr>s_data = d, s_end = e\<rparr>"
  "empty_tok (layout_lx d e fin) \<longleftrightarrow> e \<le> d"
  "ps_lx (layout_pst lx tab) = lx" "ps_types (layout_pst lx tab) = tab"
  "layout_pst lx tab\<lparr>ps_lx := lx'\<rparr> = layout_pst lx' tab"
  "layout_pst lx tab\<lparr>ps_types := tab'\<rparr> = layout_pst lx tab'"
  by (simp_all add: cur_tok_def layout_pst_def layout_lx_def tok_str_def empty_tok_def)

lemma layout_dtype:
  "length tab = 128 \<Longrightarrow> fst (tab ! 88) = Some ''u8'' \<Longrightarrow> parse_dtype layout_env (layout_pst (layout_lx 13 15 False) tab)
    = Some (True, \<lparr>d_base = Some 88, d_decl = []\<rparr>, layout_pst (layout_lx 13 15 False) tab)"
  "length tab = 128 \<Longrightarrow> fst (tab ! 69) = Some ''i32'' \<Longrightarrow> parse_dtype layout_env (layout_pst (layout_lx 18 21 False) tab)
    = Some (True, \<lparr>d_base = Some 69, d_decl = []\<rparr>, layout_pst (layout_lx 18 21 False) tab)"
  using layout_find [of 88 "''u8''" tab] layout_find [of 69 "''i32''" tab]
  by (simp_all add: parse_dtype_def layout_text_env layout_dtypes [unfolded dtype0_def] layout_at layout_names layout_nums layout_hash dtype0_def)

definition layout_a :: type_t where
  "layout_a = (struct0 ''P'')\<lparr>ty_size := 1, ty_align := 1,
     ty_members := [\<lparr>m_dtype = \<lparr>d_base = Some 88, d_decl = []\<rparr>, m_name = ''a'', m_offset = 0\<rparr>]\<rparr>"

definition layout_b :: type_t where
  "layout_b = layout_a\<lparr>ty_size := 8, ty_align := 4,
     ty_members := ty_members layout_a @ [\<lparr>m_dtype = \<lparr>d_base = Some 69, d_decl = []\<rparr>, m_name = ''b'', m_offset = 4\<rparr>]\<rparr>"

lemma layout_add:
  "ts 88 = fund_type ''u8'' 1 \<Longrightarrow> add_member ts ''a'' \<lparr>d_base = Some 88, d_decl = []\<rparr> (struct0 ''P'') = Some layout_a"
  "ts 69 = fund_type ''i32'' 4 \<Longrightarrow> add_member ts ''b'' \<lparr>d_base = Some 69, d_decl = []\<rparr> layout_a = Some layout_b"
  by (simp_all add: add_member_def base_type_def fund_type_def struct0_def layout_a_def layout_b_def dyn_member_push_def
      dyn_push_def dyn_realloc_def ALIGN_TO_def)

lemma layout_put:
  "put_type i s (layout_pst lx tab) = layout_pst lx (tab[i := (fst (tab ! i), s)])"
  by (simp add: put_type_def layout_pst_def)

lemma layout_tys: "i < 128 \<Longrightarrow> tys (layout_pst lx tab) i = snd (tab ! i)"
  by (simp add: tys_def layout_pst_def)

lemma layout_loop:
  assumes "length tab = 128" and "tab ! 88 = (Some ''u8'', fund_type ''u8'' 1)" and "tab ! 69 = (Some ''i32'', fund_type ''i32'' 4)"
  shows "members_loop layout_env (Some 79) (struct0 ''P'') (layout_pst (layout_lx 9 10 False) tab)
    = Some (layout_b, layout_pst (layout_lx 22 23 True) (tab[79 := (fst (tab ! 79), layout_b)]))"
proof -
  note s = layout_toks [THEN layout_skip] layout_at layout_sub layout_names layout_rd layout_dtype layout_add layout_put layout_tys
  show ?thesis
    apply (subst members_loop.simps)
    apply (simp add: s assms)
    apply (subst members_loop.simps)
    apply (simp add: s assms)
    apply (subst members_loop.simps)
    apply (simp add: s assms)
    done
qed

lemma layout_tab_nth:
  "length layout_tab = 128" "layout_tab ! 88 = (Some ''u8'', fund_type ''u8'' 1)" "layout_tab ! 69 = (Some ''i32'', fund_type ''i32'' 4)"
  "i < 128 \<Longrightarrow> i \<noteq> 69 \<Longrightarrow> i \<noteq> 88 \<Longrightarrow> layout_tab ! i = (None, struct0 [])"
  by (simp_all add: layout_tab_def del: replicate.simps)

lemma layout_decl:
  "stmt_struct_decl layout_env None (layout_pst (layout_lx 0 6 False) layout_tab)
    = Some (True, layout_pst (layout_lx 22 23 True) (layout_tab[79 := (Some ''P'', layout_b)]))"
proof -
  note s = layout_toks [THEN layout_skip] layout_at layout_sub layout_names layout_rd layout_put layout_tys
  have e: "expect_tok layout_env ''{'' (layout_pst (layout_lx 9 10 False) tab) = layout_pst (layout_lx 9 10 False) tab" for tab
    by (simp add: expect_tok_def expect_def layout_at tok_text_def layout_text_env layout_text_def at_def)
  have f: "find_type layout_env ''P'' (layout_pst lx layout_tab) = Some 79" for lx
    using layout_find [of 79 "''P''" layout_tab] by (simp add: layout_hash layout_tab_nth)
  have b: "finish_struct layout_b = layout_b"
    by (simp add: finish_struct_def layout_b_def layout_a_def ALIGN_TO_def)
  show ?thesis
    by (simp add: stmt_struct_decl_def s f e b layout_tab_nth overwrite_at_def layout_loop)
qed

lemma layout_sound: "sound_types (layout_pst lx layout_tab) None"
proof -
  have "sound_type (tys (layout_pst lx layout_tab)) (fund_type ''u8'' 1)" "sound_type (tys (layout_pst lx layout_tab)) (fund_type ''i32'' 4)"
    by (simp_all add: sound_type_def fund_type_def align_ok_def)
  then have "sound_type (tys (layout_pst lx layout_tab)) (tys (layout_pst lx layout_tab) i)
      \<and> unat (ty_size (tys (layout_pst lx layout_tab) i)) < 2 ^ 59 \<and> member_bases (tys (layout_pst lx layout_tab) i) = []"
    if "i < 128" "fst (layout_tab ! i) \<noteq> None" for i
    using that layout_tab_nth(4) [of i]
    by (cases "i = 69"; cases "i = 88") (simp_all add: layout_tys layout_tab_nth member_bases_def fund_type_def)
  then show ?thesis by (simp add: sound_types_def layout_at layout_tab_nth)
qed

section \<open>Properties\<close>

text \<open>
  C5. The types of the table stay laid out. The named types are sound when the size of each is a multiple of its
  alignment and the members of a struct are aligned, and, for a struct whose members each have the size of their
  base type (no declarator, or a pointer to eight bytes), the members are in order, apart by their own sizes, each at
  the first aligned offset, inside the struct. When they are, and smaller than 2^59 bytes, then
  after the declaration of a struct every named type is sound, or it is the new one and it is empty or a member of it
  has the struct itself as its base type. A struct with a pointer to a type of another size, a slice or an array
  has its alignment only: its members can overlap.
\<close>

theorem struct_layout:
  assumes "sound_types st None" and "stmt_struct_decl en nm st = Some (b, st')"
    and "i < 128" and "fst (ps_types st' ! i) \<noteq> None"
  shows "sound_type (tys st') (tys st' i)
    \<or> (fst (ps_types st ! i) = None \<and> (ty_members (tys st' i) = [] \<or> Some i \<in> set (member_bases (tys st' i))))"
  by (rule struct_decl_layout [OF assms])

lemma struct_layout_witness:
  "\<exists>st'. stmt_struct_decl layout_env None (layout_pst (layout_lx 0 6 False) layout_tab) = Some (True, st')
    \<and> tys st' 79 = layout_b \<and> sound_type (tys st') layout_b"
proof -
  let ?st' = "layout_pst (layout_lx 22 23 True) (layout_tab[79 := (Some ''P'', layout_b)])"
  have t: "tys ?st' 79 = layout_b" by (simp add: layout_tys layout_tab_nth)
  have "ty_members layout_b \<noteq> []" and "Some 79 \<notin> set (member_bases layout_b)"
    by (simp_all add: layout_b_def layout_a_def member_bases_def)
  then have "sound_type (tys ?st') layout_b"
    using struct_layout [OF layout_sound layout_decl, of 79] by (simp add: t layout_at layout_tab_nth)
  then show ?thesis using layout_decl t by simp
qed

end
