(* ===== verification/Front_Slots.thy ===== *)
theory Front_Slots
  imports Front_Layout
begin

text \<open>
  The objects of a stack frame: what \<open>resolve_stack_store_target\<close> of \<open>src/alc/main.c\<close> reserves, and what the store that
  follows it writes. An object at the offset \<open>n\<close> has its first byte \<open>n\<close> below the frame pointer.
\<close>

section \<open>Frames\<close>

text \<open>Where the recorded objects end when each lies below the one before.\<close>

fun stacked :: "nat \<Rightarrow> stack_slot list \<Rightarrow> nat option" where
  "stacked lo [] = Some lo"
| "stacked lo (x # xs) =
    (if lo + unat (sl_size x) \<le> unat (sl_offset x) then stacked (unat (sl_offset x)) xs else None)"

definition frame_ok :: "parser_context \<Rightarrow> bool" where
  "frame_ok pc \<longleftrightarrow> unat (pc_stack_size pc) < 2 ^ 31
     \<and> (case stacked 0 (pc_stack_slots pc) of None \<Rightarrow> False | Some hi \<Rightarrow> hi \<le> unat (pc_stack_size pc))"

text \<open>The bytes that a new object of this register takes.\<close>

definition slot_bytes :: "'b pst \<Rightarrow> reg \<Rightarrow> nat" where
  "slot_bytes st r =
    (case base_of st (r_dtype r) of None \<Rightarrow> 0 | Some t \<Rightarrow> unat (slot_size t (dtype_tryget_arr (r_dtype r))))"

lemma stacked_append: "stacked lo (xs @ ys) = Option.bind (stacked lo xs) (\<lambda>hi. stacked hi ys)"
  by (induction lo xs rule: stacked.induct) auto

lemma unat_ucast_less: "unat (w :: usize) < 2 ^ 32 \<Longrightarrow> unat (ucast w :: i32) = unat w"
  by (simp add: unsigned_ucast_eq take_bit_nat_eq_self)

lemma unat_scast_nonneg:
  fixes w :: i32
  assumes "unat w < 2 ^ 31"
  shows "unat (scast w :: usize) = unat w"
proof -
  have "int (unat w) < int (2 ^ 31)" using assms by (simp only: of_nat_less_iff)
  then have u: "uint w < 2 ^ 31" by simp
  moreover have "- (2 ^ 31) \<le> uint w" by (rule order_trans [OF _ uint_ge_0]) simp
  ultimately have "sint w = uint w" using signed_take_bit_int_eq_self [of 31 "uint w"] by (simp add: sint_uint)
  then have "(scast w :: usize) = word_of_int (uint w)" by (simp only: scast_eq)
  then have "uint (scast w :: usize) = take_bit 64 (uint w)" by (simp only: uint_word_of_int_eq) simp
  then have "uint (scast w :: usize) = uint w" using u by (simp add: take_bit_int_eq_self)
  then have "int (unat (scast w :: usize)) = int (unat w)" by simp
  then show ?thesis by (simp only: of_nat_eq_iff)
qed

lemma alloc_slot_stack:
  fixes sz :: usize
  defines "old \<equiv> \<lambda>pc. unat (pc_stack_size pc)"
  assumes "old pc + unat sz + 8 < 2 ^ 31"
  shows "old pc + unat sz \<le> old (alloc_slot name tn sz pc)" and "old (alloc_slot name tn sz pc) < old pc + unat sz + 8"
    and "8 < unat sz \<Longrightarrow> 8 dvd old (alloc_slot name tn sz pc)"
    and "unat sz \<le> 8 \<Longrightarrow> old (alloc_slot name tn sz pc) = old pc + unat sz"
proof -
  let ?n = "pc_stack_size pc + ucast sz"
  have n: "unat ?n = old pc + unat sz"
    using assms(2) by (simp add: old_def unat_word_ariths unat_ucast_less)
  have big: "8 < sz \<longleftrightarrow> 8 < unat sz" by (simp add: word_less_nat_alt)
  have "unat (8 :: i32) = 2 ^ 3" "unat ?n + 2 ^ 3 < 2 ^ LENGTH(32)" using n assms(2) by simp_all
  note b = ALIGN_TO_bounds [OF this]
  show "old pc + unat sz \<le> old (alloc_slot name tn sz pc)" "old (alloc_slot name tn sz pc) < old pc + unat sz + 8"
    "8 < unat sz \<Longrightarrow> 8 dvd old (alloc_slot name tn sz pc)"
    "unat sz \<le> 8 \<Longrightarrow> old (alloc_slot name tn sz pc) = old pc + unat sz"
    using b n big by (auto simp: alloc_slot_def Let_def old_def split: if_splits)
qed

lemma alloc_slot_frame:
  assumes "frame_ok pc" and "unat (pc_stack_size pc) + unat sz + 8 < 2 ^ 31"
  shows "frame_ok (alloc_slot name tn sz pc)"
proof -
  let ?pc = "alloc_slot name tn sz pc"
  note a = alloc_slot_stack [OF assms(2), of name tn]
  obtain hi where hi: "stacked 0 (pc_stack_slots pc) = Some hi" "hi \<le> unat (pc_stack_size pc)"
    using assms(1) by (auto simp: frame_ok_def split: option.splits)
  have l: "unat (pc_stack_size ?pc) < 2 ^ 31" using a(2) assms(2) by simp
  have s: "pc_stack_slots ?pc = pc_stack_slots pc \<or> pc_stack_slots ?pc = pc_stack_slots pc
      @ [\<lparr>sl_name = name, sl_type_name = Some tn, sl_offset = scast (pc_stack_size ?pc), sl_size = sz\<rparr>]"
    by (simp add: alloc_slot_def Let_def)
  show ?thesis
    using s hi l a(1) unat_scast_nonneg [OF l] by (auto simp: frame_ok_def stacked_append)
qed

section \<open>Reserving an object\<close>

lemma bind_SomeE: "Option.bind m f = Some y \<Longrightarrow> (\<And>x. m = Some x \<Longrightarrow> f x = Some y \<Longrightarrow> P) \<Longrightarrow> P"
  by (cases m) auto

lemma guard_Some: "(if c then None else Some x) = Some y \<longleftrightarrow> \<not> c \<and> x = y"
  by simp

lemma resolve_frame:
  assumes r: "resolve_stack_store_target tr assigned name src st = Some (off, src', tr', st')"
    and f: "frame_ok (ps_pc st)"
    and small: "unat (pc_stack_size (ps_pc st)) + slot_bytes st src' + 8 < 2 ^ 31"
  shows "frame_ok (ps_pc st') \<and> r_offset tr' = off
    \<and> (if assigned then off = r_offset tr \<and> st' = st
       else off = pc_stack_size (ps_pc st')
         \<and> unat (pc_stack_size (ps_pc st)) + slot_bytes st src' \<le> unat off
         \<and> unat off < unat (pc_stack_size (ps_pc st)) + slot_bytes st src' + 8
         \<and> (8 < slot_bytes st src' \<longrightarrow> 8 dvd unat off)
         \<and> (slot_bytes st src' \<le> 8 \<longrightarrow> unat off = unat (pc_stack_size (ps_pc st)) + slot_bytes st src'))"
proof (cases assigned)
  case True
  then show ?thesis using r f by (auto simp: resolve_stack_store_target_def Let_def split: bind_splits if_splits)
next
  case False
  have "\<exists>t. base_of st (r_dtype src') = Some t \<and> off = pc_stack_size (ps_pc st') \<and> r_offset tr' = off
    \<and> st' = upd_pc (alloc_slot name (ty_name t) (slot_size t (dtype_tryget_arr (r_dtype src')))) st"
    using r unfolding resolve_stack_store_target_def Let_def
    by (simp only: False not_False_eq_True if_True) (elim bind_SomeE, clarsimp, elim bind_SomeE, clarsimp simp: guard_Some)
  then obtain t where t: "base_of st (r_dtype src') = Some t" "off = pc_stack_size (ps_pc st')" "r_offset tr' = off"
    and st': "st' = upd_pc (alloc_slot name (ty_name t) (slot_size t (dtype_tryget_arr (r_dtype src')))) st"
    by blast
  have b: "slot_bytes st src' = unat (slot_size t (dtype_tryget_arr (r_dtype src')))" using t by (simp add: slot_bytes_def)
  note s = small [unfolded b]
  show ?thesis
    using alloc_slot_frame [OF f s] alloc_slot_stack [OF s] False t(2,3) unfolding b by (simp add: st' upd_pc_def)
qed

text \<open>A slot for a type of at most four bytes has at most four bytes.\<close>

lemma slot_size_small:
  assumes "unat (ty_size t) \<le> 4"
  shows "unat (slot_size t 0) \<le> 4"
proof -
  have "unat (ucast (ty_size t) :: u32) = unat (ty_size t)"
    using assms by (simp add: unsigned_ucast_eq take_bit_nat_eq_self)
  moreover have "unat (ty_size t) \<in> {0, 1, 2, 3, 4}" using assms by auto
  ultimately have "(ucast (ty_size t) :: u32) \<in> {0, 1, 2, 3, 4}"
    by (simp add: word_unat_eq_iff)
  moreover have "next_pow2 0 = 1" "next_pow2 1 = 1" "next_pow2 2 = 2" "next_pow2 3 = 4" "next_pow2 4 = 4"
    by code_simp+
  ultimately have "next_pow2 (ucast (ty_size t)) \<in> {1, 2, 4}" by auto
  then show ?thesis by (auto simp: slot_size_def Let_def)
qed

section \<open>Properties\<close>

text \<open>
  C18. Reserving an object keeps the frame: recorded objects stay apart and inside it, a new object lies beyond what the
  frame had, at a multiple of eight when it is larger than eight bytes, and an assigned target keeps its place.
  The frame is assumed to stay below two gigabytes.
\<close>

theorem stack_objects_apart:
  assumes "resolve_stack_store_target tr assigned name src st = Some (off, src', tr', st')"
    and "frame_ok (ps_pc st)" and "unat (pc_stack_size (ps_pc st)) + slot_bytes st src' + 8 < 2 ^ 31"
  shows "frame_ok (ps_pc st') \<and> r_offset tr' = off
    \<and> (if assigned then off = r_offset tr \<and> st' = st
       else off = pc_stack_size (ps_pc st')
         \<and> unat (pc_stack_size (ps_pc st)) + slot_bytes st src' \<le> unat off
         \<and> unat off < unat (pc_stack_size (ps_pc st)) + slot_bytes st src' + 8
         \<and> (8 < slot_bytes st src' \<longrightarrow> 8 dvd unat off)
         \<and> (slot_bytes st src' \<le> 8 \<longrightarrow> unat off = unat (pc_stack_size (ps_pc st)) + slot_bytes st src'))"
  by (rule resolve_frame [OF assms])

text \<open>A frame with an \<open>i32\<close>, and a pointer to a byte that is stored next to it.\<close>

definition slots_st :: "a64 pst" where
  "slots_st = (layout_pst lexer0 layout_tab)\<lparr>ps_pc := parser_context0\<lparr>pc_stack_size := 4,
     pc_stack_slots := [\<lparr>sl_name = ''X'', sl_type_name = Some ''i32'', sl_offset = 4, sl_size = 4\<rparr>]\<rparr>\<rparr>"

definition slots_ptr :: reg where
  "slots_ptr = reg0\<lparr>r_rsize := 8, r_type := NREG,
     r_dtype := \<lparr>d_base = Some 88, d_decl = [\<lparr>dk_tag = DK_ADDR, dk_amount = 1\<rparr>]\<rparr>\<rparr>"

lemma slots_base: "base_of slots_st (r_dtype slots_ptr) = Some (fund_type ''u8'' 1)"
  by (simp add: base_of_def base_type_def slots_st_def slots_ptr_def tys_def layout_pst_def layout_tab_nth)

lemma slots_resolve:
  "\<exists>tr' st'. resolve_stack_store_target reg0 False ''P'' slots_ptr slots_st = Some (5, slots_ptr, tr', st')"
proof -
  have c: "resolve_comptime_default slots_st slots_ptr = Some (False, slots_ptr)" "d_base (r_dtype slots_ptr) = Some 88"
    "r_rsize slots_ptr = 8" "dtype_tryget_arr (r_dtype slots_ptr) = 0" "pc_stack_size (ps_pc slots_st) = 4"
    by (simp_all add: resolve_comptime_default_def slots_ptr_def COMPTIME_def slots_st_def dtype_tryget_arr_def dtype_outer_def
        amount_i32_def)
  have s: "slot_size (fund_type ''u8'' 1) 0 = 1" "ty_size (fund_type ''u8'' 1) \<noteq> 0"
    by (simp_all add: slot_size_def fund_type_def next_pow2_def)
  show ?thesis
    by (simp add: resolve_stack_store_target_def c s slots_base upd_pc_def alloc_slot_def Let_def del: One_nat_def)
qed

lemma slots_frame: "frame_ok (ps_pc slots_st)" "unat (pc_stack_size (ps_pc slots_st)) = 4" "slot_bytes slots_st slots_ptr = 1"
proof -
  show "frame_ok (ps_pc slots_st)" "unat (pc_stack_size (ps_pc slots_st)) = 4"
    by (simp_all add: frame_ok_def slots_st_def)
  have "dtype_tryget_arr (r_dtype slots_ptr) = 0" "slot_size (fund_type ''u8'' 1) 0 = 1"
    by (simp_all add: slots_ptr_def dtype_tryget_arr_def dtype_outer_def slot_size_def fund_type_def next_pow2_def)
  then show "slot_bytes slots_st slots_ptr = 1"
    by (simp add: slot_bytes_def slots_base)
qed

lemma stack_objects_apart_witness:
  "\<exists>tr' st'. resolve_stack_store_target reg0 False ''P'' slots_ptr slots_st = Some (5, slots_ptr, tr', st') \<and> frame_ok (ps_pc st')"
  using slots_resolve stack_objects_apart [OF _ slots_frame(1)] slots_frame(2,3) by fastforce

text \<open>
  C37. A pointer that is stored in a new object of the stack does not fit: the object has the size of the type pointed at,
  so for a type of at most four bytes the eight bytes written from the offset on reach into what the frame
  already held.
\<close>

theorem pointer_overlaps_frame:
  assumes "resolve_stack_store_target tr False name src st = Some (off, src', tr', st')"
    and "frame_ok (ps_pc st)" and "unat (pc_stack_size (ps_pc st)) + 16 < 2 ^ 31"
    and "base_of st (r_dtype src') = Some t" and "unat (ty_size t) \<le> 4" and "dtype_tryget_arr (r_dtype src') = 0"
    and "dtype_tryget_addr (r_dtype src') \<noteq> 0" and "get_rsize src' st = Some (r_rsize src', st)"
  shows "r_rsize src' = 8 \<and> unat off < unat (pc_stack_size (ps_pc st)) + 8"
proof -
  have b: "slot_bytes st src' \<le> 4" using slot_size_small [OF assms(5)] assms(4,6) by (simp add: slot_bytes_def)
  then have "unat off = unat (pc_stack_size (ps_pc st)) + slot_bytes st src'"
    using resolve_frame [OF assms(1,2)] assms(3) by auto
  then show ?thesis using b assms(7,8) by (simp add: get_rsize_def)
qed

lemma pointer_overlaps_frame_witness:
  "\<exists>off tr' st'. resolve_stack_store_target reg0 False ''P'' slots_ptr slots_st = Some (off, slots_ptr, tr', st')
    \<and> unat off < unat (pc_stack_size (ps_pc slots_st)) + 8"
proof -
  have "dtype_tryget_arr (r_dtype slots_ptr) = 0" "dtype_tryget_addr (r_dtype slots_ptr) \<noteq> 0"
    "get_rsize slots_ptr slots_st = Some (r_rsize slots_ptr, slots_st)" "unat (ty_size (fund_type ''u8'' 1)) \<le> 4"
    by (simp_all add: get_rsize_def slots_ptr_def dtype_tryget_arr_def dtype_tryget_addr_def dtype_outer_def amount_i32_def fund_type_def)
  then show ?thesis
    using slots_resolve pointer_overlaps_frame [OF _ slots_frame(1) _ slots_base] slots_frame(2) by fastforce
qed

end
