(* ===== verification/Front_Conditions.thy ===== *)
theory Front_Conditions
  imports Compiler X64_Values
begin

text \<open>
  Comparisons of constants: what \<open>cond_eval\<close> of \<open>src/alc/main.c\<close> folds is what the comparison and the
  \<open>emit_cond_set\<close> of both back ends would have computed, and \<open>cond_flip\<close> negates it.
\<close>

section \<open>Folding\<close>

lemma sgn_of_full: "sgn_of 8 x = sint x" "take_bit 64 (x :: u64) = x"
  by (simp_all add: sgn_of_8 take_bit_word_eq_self)

lemma cond_eval_value:
  assumes "cond_eval c x y = Some b" and "cond_no c < 14"
  shows "b = cond_value 8 c x y"
  using assms by (cases c) (auto simp: cond_value_def sgn_of_full word_sle_eq word_sless_alt)

lemma cond_flip_eval:
  assumes "cond_eval c x y = Some b"
  shows "cond_eval (cond_flip c) x y = Some (\<not> b)"
  using assms by (cases c) (auto simp: cond_flip_def all_conds_def word_sle_eq word_sless_alt not_less not_le)

lemma cond_eval_defined: "cond_eval c x y = None \<longleftrightarrow> c \<in> {COND_MI, COND_PL, COND_VS, COND_VC}"
  by (cases c) auto

section \<open>Properties\<close>

text \<open>
  C11. Folding a comparison is the comparison: when two registers of eight bytes hold the two constants, comparing
  them and materialising the condition leaves on both back ends 1 or 0 as the folded outcome says, and the
  flipped condition, which guards the branch around a block, folds to the opposite outcome.
\<close>

theorem folding_is_comparing:
  assumes "cond_eval c x y = Some b" and "cond_no c < 14"
    and "xr m (rno lhs) = x" and "xr m (rno rhs) = y" and "gpr xm (xrno a lhs) = x" and "gpr xm (xrno a rhs) = y"
    and "length (body st) + 2 \<le> CODE_CAP" and "enc lhs" and "enc rhs" and "enc dst"
    and "rno lhs \<noteq> 31" and "rno rhs \<noteq> 31" and "rno dst \<noteq> 31"
    and "xroom 10 xs" and "xenc a lhs" and "xenc a rhs" and "xenc a dst"
    and "r_rsize lhs = 8" and "r_rsize rhs = 8" and "r_rsize dst = 4"
  shows "(\<exists>m' xm'. a64_run (emitted (emit_cmp_reg ts lhs rhs c) st @ emitted (emit_cond_set dst c) st) m = Some m'
      \<and> x64_run (xemitted (emit_cmp_reg_x64 a ts lhs rhs c) xs @ xemitted (emit_cond_set_x64 a ts dst c) xs) xm = Some xm'
      \<and> xr m' (rno dst) = (if b then 1 else 0) \<and> gpr xm' (xrno a dst) = (if b then 1 else 0))
    \<and> cond_eval (cond_flip c) x y = Some (\<not> b)"
  using compare_set_agree [OF assms(7-17), of True c m xm ts] cond_eval_value [OF assms(1,2)] cond_flip_eval [OF assms(1)]
    assms(2-6,18-20) by auto

lemma folding_is_comparing_witness:
  "\<exists>m' xm'. a64_run (emitted (emit_cmp_reg ex_ts (ex_reg PARAM 1 8) (ex_reg PARAM 1 8) COND_GE) ex_st
        @ emitted (emit_cond_set (ex_reg RET 0 4) COND_GE) ex_st) (ex_mach\<lparr>xr := (\<lambda>_. 6)\<rparr>) = Some m'
    \<and> x64_run (xemitted (emit_cmp_reg_x64 elf_abi ex_ts (ex_reg PARAM 1 8) (ex_reg PARAM 1 8) COND_GE) ex_xst
        @ xemitted (emit_cond_set_x64 elf_abi ex_ts (ex_reg RET 0 4) COND_GE) ex_xst) ex_xmach = Some xm'
    \<and> xr m' 0 = 1 \<and> gpr xm' 0 = 1"
proof -
  have "xreg_no elf_abi (ex_reg RET 0 8) = 0" "xreg_no elf_abi (ex_reg RET 0 4) = 0"
    by (simp_all add: ex_reg_def reg0_def xreg_no_def elf_abi_def)
  then show ?thesis
    using folding_is_comparing [of COND_GE 6 6 True "ex_mach\<lparr>xr := (\<lambda>_. 6)\<rparr>" "ex_reg PARAM 1 8" "ex_reg PARAM 1 8" ex_xmach elf_abi
        ex_st "ex_reg RET 0 4" ex_xst ex_ts]
    by (simp add: enc_def xenc_def gp_def CODE_CAP_def)
qed

end
