(* ===== verification/Exe_Image.thy ===== *)
theory Exe_Image
  imports A64_Link X64_Link
begin

text \<open>
  What the executable writers share (\<open>src/alc/emit-bin.h\<close>): the linked image of a back end as bytes, the
  static buffer \<open>img\<close> that a file is built in, and little-endian fields.

  The buffer starts as zeros and is written by \<open>memcpy\<close> and through pointers to structures; both are writes of
  a block of bytes. Offsets into a file are sums of sizes of arrays, far below any wrap-around, and are natural
  numbers; addresses and the fields of a file have their width.
\<close>

section \<open>Images\<close>

record exe_image =
  ei_text :: "u8 list"
  ei_entry :: nat
  ei_imports :: "string list"
  ei_extcalls :: "(nat \<times> nat) list"

definition exe_of_a64 :: "bin_image \<Rightarrow> exe_image" where
  "exe_of_a64 im = \<lparr>ei_text = concat (map le32 (im_code im)) @ map char_byte (im_cstrs im), ei_entry = im_entry im,
     ei_imports = im_imports im, ei_extcalls = im_extcalls im\<rparr>"

definition exe_of_x64 :: "x64_image \<Rightarrow> exe_image" where
  "exe_of_x64 im = \<lparr>ei_text = xi_text im, ei_entry = xi_entry im, ei_imports = xi_imports im, ei_extcalls = xi_extcalls im\<rparr>"

text \<open>The reports of the writers.\<close>

datatype exe_error = ElfTooLarge | ElfDynamicTooLarge | PeTooManyImports | PeTooLarge | MachoCommandsOverflow

section \<open>Bytes\<close>

definition le16 :: "u16 \<Rightarrow> u8 list" where
  "le16 v = [ucast v, ucast (drop_bit 8 v)]"

definition cstr :: "string \<Rightarrow> u8 list" where
  "cstr s = map char_byte s @ [0]"

definition zeros :: "nat \<Rightarrow> u8 list" where
  "zeros n = replicate n 0"

text \<open>A name in a field of fixed size.\<close>

definition name_field :: "nat \<Rightarrow> string \<Rightarrow> u8 list" where
  "name_field n s = take n (map char_byte s @ zeros n)"

lemma length_bytes [simp]:
  "length (le16 v) = 2" "length (le32 w) = 4" "length (le64 x) = 8" "length (cstr s) = Suc (length s)"
  "length (zeros n) = n" "length (name_field n s) = n"
  by (simp_all add: le16_def le32_def le64_def cstr_def zeros_def name_field_def)

section \<open>The buffer\<close>

type_synonym img = "nat \<Rightarrow> u8"

definition IMG_CAP :: nat where "IMG_CAP = 0x80000"

definition img0 :: img where "img0 = (\<lambda>_. 0)"

definition poke :: "nat \<Rightarrow> u8 list \<Rightarrow> img \<Rightarrow> img" where
  "poke off bs m = (\<lambda>i. if off \<le> i \<and> i < off + length bs then bs ! (i - off) else m i)"

definition peek :: "img \<Rightarrow> nat \<Rightarrow> nat \<Rightarrow> u8 list" where
  "peek m off n = map m [off ..< off + n]"

text \<open>Consecutive writes, each a place and its bytes.\<close>

definition pokes :: "(nat \<times> u8 list) list \<Rightarrow> img \<Rightarrow> img" where
  "pokes ws m = foldl (\<lambda>m (off, bs). poke off bs m) m ws"

text \<open>The next multiple of a power of two.\<close>

definition align_up :: "nat \<Rightarrow> nat \<Rightarrow> nat" where
  "align_up x a = (x + a - 1) div a * a"

lemma length_peek [simp]: "length (peek m off n) = n"
  by (simp add: peek_def)

lemma pokes_simps [simp]: "pokes [] m = m" "pokes ((off, bs) # ws) m = pokes ws (poke off bs m)"
  by (simp_all add: pokes_def)

lemma pokes_append [simp]: "pokes (vs @ ws) m = pokes ws (pokes vs m)"
  by (simp add: pokes_def)

lemma peek_poke_same [simp]: "peek (poke off bs m) off (length bs) = bs"
  by (rule nth_equalityI) (simp_all add: peek_def poke_def)

text \<open>A block of bytes apart from what is written stays.\<close>

definition clear_of :: "nat \<Rightarrow> nat \<Rightarrow> nat \<times> u8 list \<Rightarrow> bool" where
  "clear_of off n w \<longleftrightarrow> off + n \<le> fst w \<or> fst w + length (snd w) \<le> off"

lemma peek_poke_apart: "clear_of off n (at, bs) \<Longrightarrow> peek (poke at bs m) off n = peek m off n"
  by (auto simp: peek_def poke_def clear_of_def)

lemma peek_pokes_apart: "list_all (clear_of off n) ws \<Longrightarrow> peek (pokes ws m) off n = peek m off n"
  by (induction ws arbitrary: m) (auto simp: peek_poke_apart)

text \<open>A block that is inside what one write put and apart from the later ones.\<close>

lemma peek_pokes_at:
  assumes "list_all (clear_of off (length bs)) ws"
  shows "peek (pokes (vs @ (off, bs) # ws) m) off (length bs) = bs"
  using peek_pokes_apart [OF assms] by simp

lemma peek_part: "k + n \<le> l \<Longrightarrow> peek m (off + k) n = take n (drop k (peek m off l))"
  by (rule nth_equalityI) (simp_all add: peek_def add.assoc)

lemma align_up_bounds:
  assumes "0 < a"
  shows "x \<le> align_up x a" and "align_up x a < x + a" and "a dvd align_up x a"
proof -
  have "(x + a - 1) mod a < a" using assms by simp
  moreover have "align_up x a + (x + a - 1) mod a = x + a - 1" by (simp add: align_up_def)
  ultimately show "x \<le> align_up x a" and "align_up x a < x + a" using assms by linarith+
  show "a dvd align_up x a" by (simp add: align_up_def)
qed

end
