(* ===== verification/Exe_Elf.thy ===== *)
theory Exe_Elf
  imports Exe_Image
begin

text \<open>
  ELF executables: \<open>src/alc/emit_helper-elf-exe.h\<close>, and what \<open>exe-elf-x86_64.c\<close> and \<open>exe-elf-aarch64.c\<close> define before
  they include it, the record \<open>elf_target\<close>. The numbers of the format are those of \<open>elf.h\<close>.

  A program without imports becomes a static file (\<open>write_static_elf\<close>), one with imports a dynamic file
  (\<open>write_dynamic_elf\<close>). The result is the bytes of the file or the report; \<open>None\<close> is a write outside a buffer.
\<close>

section \<open>The two targets\<close>

record elf_target =
  et_machine :: u16
  et_jump_slot :: u32
  et_interp :: string
  et_start_stub_size :: nat
  et_dyn_start_stub_size :: nat
  et_plt0_size :: nat
  et_plt_entry_size :: nat
  et_start_stub :: "u64 \<Rightarrow> u64 \<Rightarrow> u8 list"
  et_dyn_start_stub :: "u64 \<Rightarrow> u64 \<Rightarrow> u64 \<Rightarrow> u8 list"
  et_plt0 :: "u64 \<Rightarrow> u64 \<Rightarrow> u8 list"
  et_plt_entry :: "u32 \<Rightarrow> u64 \<Rightarrow> u64 \<Rightarrow> u64 \<Rightarrow> u8 list \<times> u64"
  et_patch_call :: "u8 list \<Rightarrow> u64 \<Rightarrow> u64 \<Rightarrow> u8 list"

text \<open>A displacement as the code computes it: the difference of two addresses, cut to 32 bits.\<close>

definition rel_bytes :: "u64 \<Rightarrow> u64 \<Rightarrow> u8 list" where
  "rel_bytes target from_addr = le32 (ucast (target - from_addr))"

definition elf_build_start_stub_x64 :: "u64 \<Rightarrow> u64 \<Rightarrow> u8 list" where
  "elf_build_start_stub_x64 stub_vaddr main_vaddr =
    [0xe8] @ rel_bytes main_vaddr (stub_vaddr + 5) @ [0x89, 0xc7, 0xb8, 60, 0, 0, 0, 0x0f, 0x05]"

definition elf_build_dyn_start_stub_x64 :: "u64 \<Rightarrow> u64 \<Rightarrow> u64 \<Rightarrow> u8 list" where
  "elf_build_dyn_start_stub_x64 stub_vaddr main_vaddr exit_plt_vaddr =
    [0xe8] @ rel_bytes main_vaddr (stub_vaddr + 5) @ [0x89, 0xc7, 0xe8] @ rel_bytes exit_plt_vaddr (stub_vaddr + 12)"

definition elf_build_plt0_x64 :: "u64 \<Rightarrow> u64 \<Rightarrow> u8 list" where
  "elf_build_plt0_x64 plt0_vaddr got_vaddr =
    [0xff, 0x35] @ rel_bytes (got_vaddr + 8) (plt0_vaddr + 6) @ [0xff, 0x25] @ rel_bytes (got_vaddr + 16) (plt0_vaddr + 12)
    @ [0x0f, 0x1f, 0x40, 0x00]"

definition elf_build_plt_entry_x64 :: "u32 \<Rightarrow> u64 \<Rightarrow> u64 \<Rightarrow> u64 \<Rightarrow> u8 list \<times> u64" where
  "elf_build_plt_entry_x64 index plt_vaddr plt0_vaddr got_entry_vaddr =
    ([0xff, 0x25] @ rel_bytes got_entry_vaddr (plt_vaddr + 6) @ [0x68] @ le32 index @ [0xe9] @ rel_bytes plt0_vaddr (plt_vaddr + 16),
     plt_vaddr + 6)"

definition elf_patch_call_x64 :: "u8 list \<Rightarrow> u64 \<Rightarrow> u64 \<Rightarrow> u8 list" where
  "elf_patch_call_x64 old site_vaddr target_vaddr = rel_bytes target_vaddr (site_vaddr + 4)"

definition elf_x64 :: elf_target where
  "elf_x64 = \<lparr>et_machine = 62, et_jump_slot = 7, et_interp = ''/lib64/ld-linux-x86-64.so.2'',
     et_start_stub_size = 14, et_dyn_start_stub_size = 12, et_plt0_size = 16, et_plt_entry_size = 16,
     et_start_stub = elf_build_start_stub_x64, et_dyn_start_stub = elf_build_dyn_start_stub_x64, et_plt0 = elf_build_plt0_x64,
     et_plt_entry = elf_build_plt_entry_x64, et_patch_call = elf_patch_call_x64\<rparr>"

text \<open>The second target: instruction words. The shift of a signed difference is arithmetic.\<close>

definition enc_bl :: "u64 \<Rightarrow> u64 \<Rightarrow> u32" where
  "enc_bl pc target = 0x94000000 OR (ucast (signed_drop_bit 2 (target - pc)) AND 0x03FFFFFF)"

definition enc_adrp :: "u32 \<Rightarrow> u64 \<Rightarrow> u64 \<Rightarrow> u32" where
  "enc_adrp rd pc target =
    (let delta = (target AND NOT 0xFFF) - (pc AND NOT 0xFFF);
         imm = ucast (signed_drop_bit 12 delta AND 0x1FFFFF) :: u32 in
     0x90000000 OR push_bit 29 (imm AND 3) OR push_bit 5 (drop_bit 2 imm AND 0x7FFFF) OR rd)"

definition enc_ldr64 :: "u32 \<Rightarrow> u32 \<Rightarrow> u64 \<Rightarrow> u32" where
  "enc_ldr64 rt rn target = 0xF9400000 OR push_bit 10 (drop_bit 3 (ucast (target AND 0xFFF))) OR push_bit 5 rn OR rt"

definition enc_add64 :: "u32 \<Rightarrow> u32 \<Rightarrow> u64 \<Rightarrow> u32" where
  "enc_add64 rd rn target = 0x91000000 OR push_bit 10 (ucast (target AND 0xFFF)) OR push_bit 5 rn OR rd"

definition elf_build_start_stub_a64 :: "u64 \<Rightarrow> u64 \<Rightarrow> u8 list" where
  "elf_build_start_stub_a64 stub_vaddr main_vaddr = concat (map le32 [enc_bl stub_vaddr main_vaddr, 0x52800BA8, 0xD4000001])"

definition elf_build_dyn_start_stub_a64 :: "u64 \<Rightarrow> u64 \<Rightarrow> u64 \<Rightarrow> u8 list" where
  "elf_build_dyn_start_stub_a64 stub_vaddr main_vaddr exit_plt_vaddr =
    concat (map le32 [enc_bl stub_vaddr main_vaddr, enc_bl (stub_vaddr + 4) exit_plt_vaddr])"

definition elf_build_plt0_a64 :: "u64 \<Rightarrow> u64 \<Rightarrow> u8 list" where
  "elf_build_plt0_a64 plt0_vaddr got_vaddr =
    (let g2 = got_vaddr + 16 in
     concat (map le32 [0xA9BF7BF0, enc_adrp 16 (plt0_vaddr + 4) g2, enc_ldr64 17 16 g2, enc_add64 16 16 g2, 0xD61F0220,
       0xD503201F, 0xD503201F, 0xD503201F]))"

definition elf_build_plt_entry_a64 :: "u32 \<Rightarrow> u64 \<Rightarrow> u64 \<Rightarrow> u64 \<Rightarrow> u8 list \<times> u64" where
  "elf_build_plt_entry_a64 index plt_vaddr plt0_vaddr got_entry_vaddr =
    (concat (map le32 [enc_adrp 16 plt_vaddr got_entry_vaddr, enc_ldr64 17 16 got_entry_vaddr,
       enc_add64 16 16 got_entry_vaddr, 0xD61F0220]), plt0_vaddr)"

definition word_of_bytes :: "u8 list \<Rightarrow> u32" where
  "word_of_bytes bs = foldr (\<lambda>b w. push_bit 8 w OR ucast b) bs 0"

definition elf_patch_call_a64 :: "u8 list \<Rightarrow> u64 \<Rightarrow> u64 \<Rightarrow> u8 list" where
  "elf_patch_call_a64 old site_vaddr target_vaddr =
    le32 ((word_of_bytes old AND NOT 0x03FFFFFF) OR (ucast (signed_drop_bit 2 (target_vaddr - site_vaddr)) AND 0x03FFFFFF))"

definition elf_a64 :: elf_target where
  "elf_a64 = \<lparr>et_machine = 183, et_jump_slot = 1026, et_interp = ''/lib/ld-linux-aarch64.so.1'',
     et_start_stub_size = 12, et_dyn_start_stub_size = 8, et_plt0_size = 32, et_plt_entry_size = 16,
     et_start_stub = elf_build_start_stub_a64, et_dyn_start_stub = elf_build_dyn_start_stub_a64, et_plt0 = elf_build_plt0_a64,
     et_plt_entry = elf_build_plt_entry_a64, et_patch_call = elf_patch_call_a64\<rparr>"

section \<open>Structures of the format\<close>

record elf_ehdr =
  eh_type :: u16
  eh_machine :: u16
  eh_version :: u32
  eh_entry :: u64
  eh_phoff :: u64
  eh_shoff :: u64
  eh_flags :: u32
  eh_ehsize :: u16
  eh_phentsize :: u16
  eh_phnum :: u16
  eh_shentsize :: u16
  eh_shnum :: u16
  eh_shstrndx :: u16

record elf_phdr =
  ph_type :: u32
  ph_flags :: u32
  ph_offset :: u64
  ph_vaddr :: u64
  ph_paddr :: u64
  ph_filesz :: u64
  ph_memsz :: u64
  ph_align :: u64

record elf_shdr =
  sh_name :: u32
  sh_type :: u32
  sh_flags :: u64
  sh_addr :: u64
  sh_offset :: u64
  sh_size :: u64
  sh_addralign :: u64

definition elf_ident :: "u8 list" where
  "elf_ident = [0x7f, 0x45, 0x4c, 0x46, 2, 1, 1] @ zeros 9"

definition ehdr_bytes :: "elf_ehdr \<Rightarrow> u8 list" where
  "ehdr_bytes h = elf_ident @ le16 (eh_type h) @ le16 (eh_machine h) @ le32 (eh_version h) @ le64 (eh_entry h)
     @ le64 (eh_phoff h) @ le64 (eh_shoff h) @ le32 (eh_flags h) @ le16 (eh_ehsize h) @ le16 (eh_phentsize h)
     @ le16 (eh_phnum h) @ le16 (eh_shentsize h) @ le16 (eh_shnum h) @ le16 (eh_shstrndx h)"

definition phdr_bytes :: "elf_phdr \<Rightarrow> u8 list" where
  "phdr_bytes p = le32 (ph_type p) @ le32 (ph_flags p) @ le64 (ph_offset p) @ le64 (ph_vaddr p) @ le64 (ph_paddr p)
     @ le64 (ph_filesz p) @ le64 (ph_memsz p) @ le64 (ph_align p)"

text \<open>\<open>sh_link\<close>, \<open>sh_info\<close> and \<open>sh_entsize\<close> stay zero.\<close>

definition shdr_bytes :: "elf_shdr \<Rightarrow> u8 list" where
  "shdr_bytes s = le32 (sh_name s) @ le32 (sh_type s) @ le64 (sh_flags s) @ le64 (sh_addr s) @ le64 (sh_offset s)
     @ le64 (sh_size s) @ zeros 8 @ le64 (sh_addralign s) @ zeros 8"

definition LOAD_BASE :: u64 where "LOAD_BASE = 0x400000"
definition PAGE :: nat where "PAGE = 0x1000"

text \<open>The address of a place in the file.\<close>

definition vaddr :: "nat \<Rightarrow> u64" where
  "vaddr off = LOAD_BASE + of_nat off"

definition code_section :: "u32 \<Rightarrow> nat \<Rightarrow> nat \<Rightarrow> u64 \<Rightarrow> elf_shdr" where
  "code_section name off sz al = \<lparr>sh_name = name, sh_type = 1, sh_flags = 6, sh_addr = vaddr off, sh_offset = of_nat off,
     sh_size = of_nat sz, sh_addralign = al\<rparr>"

definition name_section :: "u32 \<Rightarrow> nat \<Rightarrow> nat \<Rightarrow> elf_shdr" where
  "name_section name off sz = \<lparr>sh_name = name, sh_type = 3, sh_flags = 0, sh_addr = 0, sh_offset = of_nat off,
     sh_size = of_nat sz, sh_addralign = 1\<rparr>"

text \<open>A segment at \<open>off\<close> of \<open>sz\<close> bytes, the same in the file and in memory.\<close>

definition segment :: "u32 \<Rightarrow> u32 \<Rightarrow> nat \<Rightarrow> nat \<Rightarrow> u64 \<Rightarrow> elf_phdr" where
  "segment ty fl off sz al = \<lparr>ph_type = ty, ph_flags = fl, ph_offset = of_nat off, ph_vaddr = vaddr off, ph_paddr = vaddr off,
     ph_filesz = of_nat sz, ph_memsz = of_nat sz, ph_align = al\<rparr>"

definition exec_ehdr :: "elf_target \<Rightarrow> nat \<Rightarrow> nat \<Rightarrow> u16 \<Rightarrow> u16 \<Rightarrow> u16 \<Rightarrow> elf_ehdr" where
  "exec_ehdr t start_off shoff phnum shnum strndx = \<lparr>eh_type = 2, eh_machine = et_machine t, eh_version = 1,
     eh_entry = vaddr start_off, eh_phoff = 64, eh_shoff = of_nat shoff, eh_flags = 0, eh_ehsize = 64, eh_phentsize = 56,
     eh_phnum = phnum, eh_shentsize = 64, eh_shnum = shnum, eh_shstrndx = strndx\<rparr>"

lemma length_structs [simp]:
  "length (ehdr_bytes h) = 64" "length (phdr_bytes p) = 56" "length (shdr_bytes s) = 64"
  by (simp_all add: ehdr_bytes_def phdr_bytes_def shdr_bytes_def elf_ident_def)

section \<open>Static files\<close>

definition shstrtab :: "u8 list" where
  "shstrtab = 0 # cstr ''.text'' @ cstr ''.shstrtab''"

definition static_text_off :: "elf_target \<Rightarrow> nat" where
  "static_text_off t = 64 + 56 + et_start_stub_size t"

definition static_shdr_off :: "elf_target \<Rightarrow> exe_image \<Rightarrow> nat" where
  "static_shdr_off t im = align_up (static_text_off t + length (ei_text im) + length shstrtab) 8"

definition static_writes :: "elf_target \<Rightarrow> exe_image \<Rightarrow> (nat \<times> u8 list) list" where
  "static_writes t im =
    (let stub_off = 64 + 56; text_off = static_text_off t; image_size = text_off + length (ei_text im);
         shstrtab_off = image_size; shdr_off = static_shdr_off t im in
     [(0, ehdr_bytes (exec_ehdr t stub_off shdr_off 1 3 2)),
      (64, phdr_bytes ((segment 1 7 0 image_size (of_nat PAGE)))),
      (stub_off, et_start_stub t (vaddr stub_off) (vaddr text_off + of_nat (ei_entry im))),
      (text_off, ei_text im),
      (shstrtab_off, shstrtab),
      (shdr_off + 64, shdr_bytes (code_section 1 stub_off (image_size - stub_off) 4)),
      (shdr_off + 128, shdr_bytes (name_section 7 shstrtab_off (length shstrtab)))])"

definition write_static_elf :: "elf_target \<Rightarrow> exe_image \<Rightarrow> exe_error + u8 list" where
  "write_static_elf t im =
    (let total_size = static_shdr_off t im + 3 * 64 in
     if IMG_CAP < total_size then Inl ElfTooLarge
     else Inr (peek (pokes (static_writes t im) img0) 0 total_size))"

section \<open>Dynamic files\<close>

primrec elf_hash_from :: "u32 \<Rightarrow> string \<Rightarrow> u32" where
  "elf_hash_from h [] = h"
| "elf_hash_from h (c # cs) =
    (let h1 = push_bit 4 h + ucast (char_byte c); g = h1 AND 0xf0000000;
         h2 = (if g \<noteq> 0 then h1 XOR drop_bit 24 g else h1) in
     elf_hash_from (h2 AND NOT g) cs)"

definition elf_hash :: "string \<Rightarrow> u32" where
  "elf_hash s = elf_hash_from 0 s"

definition import_name :: "exe_image \<Rightarrow> nat \<Rightarrow> string" where
  "import_name im i = (if i < length (ei_imports im) then ei_imports im ! i else ''exit'')"

definition import_names :: "exe_image \<Rightarrow> string list" where
  "import_names im = map (import_name im) [0 ..< length (ei_imports im) + 1]"

definition LIBNAME :: string where "LIBNAME = ''libc.so.6''"

text \<open>The table of names: an empty one, the library, and the imports; and where each import starts.\<close>

definition dynstr :: "exe_image \<Rightarrow> u8 list" where
  "dynstr im = 0 # cstr LIBNAME @ concat (map cstr (import_names im))"

definition sym_name_off :: "exe_image \<Rightarrow> nat \<Rightarrow> nat" where
  "sym_name_off im i = 1 + length (cstr LIBNAME) + length (concat (map cstr (take i (import_names im))))"

text \<open>Where everything is in the file.\<close>

record elf_layout =
  lo_interp :: nat
  lo_dynsym :: nat
  lo_dynstr :: nat
  lo_hash :: nat
  lo_rela :: nat
  lo_stub :: nat
  lo_plt :: nat
  lo_text :: nat
  lo_ro_end :: nat
  lo_dynamic :: nat
  lo_got :: nat
  lo_image :: nat
  lo_shdr :: nat
  lo_total :: nat

definition NDYN :: nat where "NDYN = 11"
definition NPHDR :: nat where "NPHDR = 5"
definition GOT_RESERVED :: nat where "GOT_RESERVED = 3"

definition shstrtab_dyn :: "u8 list" where
  "shstrtab_dyn = 0 # cstr ''.plt'' @ cstr ''.text'' @ cstr ''.shstrtab''"

definition elf_dyn_layout :: "elf_target \<Rightarrow> exe_image \<Rightarrow> elf_layout" where
  "elf_dyn_layout t im =
    (let nimp = length (ei_imports im) + 1; nsym = nimp + 1; nbucket = nimp;
         interp_off = 64 + NPHDR * 56;
         dynsym_off = align_up (interp_off + length (cstr (et_interp t))) 8;
         dynstr_off = dynsym_off + nsym * 24;
         hash_off = align_up (dynstr_off + length (dynstr im)) 8;
         rela_off = align_up (hash_off + (2 + nbucket + nsym) * 4) 8;
         stub_off = align_up (rela_off + nimp * 24) 16;
         plt_off = stub_off + et_dyn_start_stub_size t;
         text_off = align_up (plt_off + et_plt0_size t + nimp * et_plt_entry_size t) 16;
         ro_filesz = text_off + length (ei_text im);
         dynamic_off = align_up ro_filesz PAGE;
         got_off = dynamic_off + NDYN * 16;
         image_size = got_off + (GOT_RESERVED + nimp) * 8;
         shdr_off = align_up (image_size + length shstrtab_dyn) 8 in
     \<lparr>lo_interp = interp_off, lo_dynsym = dynsym_off, lo_dynstr = dynstr_off, lo_hash = hash_off, lo_rela = rela_off,
      lo_stub = stub_off, lo_plt = plt_off, lo_text = text_off, lo_ro_end = ro_filesz, lo_dynamic = dynamic_off,
      lo_got = got_off, lo_image = image_size, lo_shdr = shdr_off, lo_total = shdr_off + 4 * 64\<rparr>)"

definition dyn_phdrs :: "elf_target \<Rightarrow> elf_layout \<Rightarrow> elf_phdr list" where
  "dyn_phdrs t lo =
    [segment 6 4 64 (NPHDR * 56) 8,
     segment 3 4 (lo_interp lo) (length (cstr (et_interp t))) 1,
     segment 1 5 0 (lo_ro_end lo) (of_nat PAGE),
     segment 1 6 (lo_dynamic lo) (lo_image lo - lo_dynamic lo) (of_nat PAGE),
     segment 2 6 (lo_dynamic lo) (NDYN * 16) 8]"

text \<open>An undefined global function of this name.\<close>

definition sym_bytes :: "nat \<Rightarrow> u8 list" where
  "sym_bytes name_off = le32 (of_nat name_off) @ [0x12, 0] @ le16 0 @ zeros 16"

text \<open>The chains of the symbol table by hash value: symbol \<open>i\<close> is put in front of its bucket.\<close>

primrec hash_chains :: "u32 \<Rightarrow> nat \<Rightarrow> string list \<Rightarrow> u32 list \<times> u32 list \<Rightarrow> u32 list \<times> u32 list" where
  "hash_chains nbucket i [] bc = bc"
| "hash_chains nbucket i (nm # nms) bc =
    (let h = unat (elf_hash nm mod nbucket) in
     hash_chains nbucket (i + 1) nms ((fst bc)[h := of_nat i], (snd bc)[i := fst bc ! h]))"

definition hash_bytes :: "exe_image \<Rightarrow> u8 list" where
  "hash_bytes im =
    (let nimp = length (ei_imports im) + 1;
         (bucket, chain) = hash_chains (of_nat nimp) 1 (import_names im) (replicate nimp 0, replicate (nimp + 1) 0) in
     concat (map le32 ([of_nat nimp, of_nat (nimp + 1)] @ bucket @ chain)))"

definition got_slot :: "elf_layout \<Rightarrow> nat \<Rightarrow> nat" where
  "got_slot lo i = lo_got lo + (GOT_RESERVED + i) * 8"

definition rela_bytes :: "elf_target \<Rightarrow> elf_layout \<Rightarrow> nat \<Rightarrow> u8 list" where
  "rela_bytes t lo i = le64 (vaddr (got_slot lo i)) @ le64 (push_bit 32 (of_nat (i + 1)) + ucast (et_jump_slot t)) @ zeros 8"

definition dynamic_entries :: "exe_image \<Rightarrow> elf_layout \<Rightarrow> (u64 \<times> u64) list" where
  "dynamic_entries im lo =
    [(1, 1), (4, vaddr (lo_hash lo)), (5, vaddr (lo_dynstr lo)), (6, vaddr (lo_dynsym lo)),
     (10, of_nat (length (dynstr im))), (11, 24), (3, vaddr (lo_got lo)),
     (2, of_nat ((length (ei_imports im) + 1) * 24)), (20, 7), (23, vaddr (lo_rela lo)), (0, 0)]"

definition dynamic_bytes :: "exe_image \<Rightarrow> elf_layout \<Rightarrow> u8 list" where
  "dynamic_bytes im lo = concat (map (\<lambda>(tag, val). le64 tag @ le64 val) (dynamic_entries im lo))"

definition plt_place :: "elf_target \<Rightarrow> elf_layout \<Rightarrow> nat \<Rightarrow> nat" where
  "plt_place t lo i = lo_plt lo + et_plt0_size t + i * et_plt_entry_size t"

text \<open>The entry of an import in the procedure linkage table, and the slot of the global offset table it jumps through.\<close>

definition plt_entry_writes :: "elf_target \<Rightarrow> elf_layout \<Rightarrow> nat \<Rightarrow> (nat \<times> u8 list) list" where
  "plt_entry_writes t lo i =
    (let e = et_plt_entry t (of_nat i) (vaddr (plt_place t lo i)) (vaddr (lo_plt lo)) (vaddr (got_slot lo i)) in
     [(plt_place t lo i, fst e), (got_slot lo i, le64 (snd e))])"

definition patch_extcall :: "elf_target \<Rightarrow> elf_layout \<Rightarrow> nat \<times> nat \<Rightarrow> img \<Rightarrow> img" where
  "patch_extcall t lo e m =
    (let at = lo_text lo + fst e in
     poke at (et_patch_call t (peek m at 4) (vaddr at) (vaddr (plt_place t lo (snd e)))) m)"

definition patch_extcalls :: "elf_target \<Rightarrow> elf_layout \<Rightarrow> exe_image \<Rightarrow> img \<Rightarrow> img" where
  "patch_extcalls t lo im m = foldl (\<lambda>m e. patch_extcall t lo e m) m (ei_extcalls im)"

definition dyn_sections :: "elf_target \<Rightarrow> exe_image \<Rightarrow> elf_layout \<Rightarrow> elf_shdr list" where
  "dyn_sections t im lo =
    [code_section 1 (lo_stub lo)
       (lo_plt lo + (et_plt0_size t + (length (ei_imports im) + 1) * et_plt_entry_size t) - lo_stub lo) 16,
     code_section 6 (lo_text lo) (length (ei_text im)) 4,
     name_section 12 (lo_image lo) (length shstrtab_dyn)]"

definition dyn_writes :: "elf_target \<Rightarrow> exe_image \<Rightarrow> elf_layout \<Rightarrow> (nat \<times> u8 list) list" where
  "dyn_writes t im lo =
    (let nimp = length (ei_imports im) + 1 in
     [(0, ehdr_bytes (exec_ehdr t (lo_stub lo) (lo_shdr lo) 5 4 3)),
      (64, concat (map phdr_bytes (dyn_phdrs t lo))),
      (lo_interp lo, cstr (et_interp t))]
     @ map (\<lambda>i. (lo_dynsym lo + 24 * (i + 1), sym_bytes (sym_name_off im i))) [0 ..< nimp]
     @ [(lo_dynstr lo, dynstr im), (lo_hash lo, hash_bytes im)]
     @ map (\<lambda>i. (lo_rela lo + 24 * i, rela_bytes t lo i)) [0 ..< nimp]
     @ [(lo_dynamic lo, dynamic_bytes im lo),
        (lo_stub lo, et_dyn_start_stub t (vaddr (lo_stub lo)) (vaddr (lo_text lo) + of_nat (ei_entry im))
                       (vaddr (plt_place t lo (length (ei_imports im))))),
        (lo_got lo, le64 (vaddr (lo_dynamic lo))),
        (lo_plt lo, et_plt0 t (vaddr (lo_plt lo)) (vaddr (lo_got lo)))]
     @ concat (map (plt_entry_writes t lo) [0 ..< nimp])
     @ [(lo_text lo, ei_text im)])"

definition dyn_tail :: "elf_target \<Rightarrow> exe_image \<Rightarrow> elf_layout \<Rightarrow> (nat \<times> u8 list) list" where
  "dyn_tail t im lo = [(lo_image lo, shstrtab_dyn), (lo_shdr lo + 64, concat (map shdr_bytes (dyn_sections t im lo)))]"

text \<open>The names and their offsets are written to their buffers before anything is tested.\<close>

definition write_dynamic_elf :: "elf_target \<Rightarrow> exe_image \<Rightarrow> (exe_error + u8 list) option" where
  "write_dynamic_elf t im =
    (let nimp = length (ei_imports im) + 1; lo = elf_dyn_layout t im in
     if 64 < nimp \<or> 0x2000 < length (dynstr im) then None
     else if IMG_CAP < lo_total lo \<or> 62 < nimp then Some (Inl ElfDynamicTooLarge)
     else Some (Inr (peek (pokes (dyn_tail t im lo) (patch_extcalls t lo im (pokes (dyn_writes t im lo) img0))) 0 (lo_total lo))))"

definition write_elf :: "elf_target \<Rightarrow> exe_image \<Rightarrow> (exe_error + u8 list) option" where
  "write_elf t im = (if 0 < length (ei_imports im) then write_dynamic_elf t im else Some (write_static_elf t im))"

text \<open>\<open>emit_output\<close> of the two targets.\<close>

definition elf_emit_output_a64 :: "a64 \<Rightarrow> (exe_error + u8 list) option" where
  "elf_emit_output_a64 st = write_elf elf_a64 (exe_of_a64 (fst (bin_emit st)))"

definition elf_emit_output_x64 :: "x64 \<Rightarrow> (exe_error + u8 list) option" where
  "elf_emit_output_x64 st = write_elf elf_x64 (exe_of_x64 (fst (bin_emit_x64 st)))"

end
