(* ===== verification/Exe_Laws.thy ===== *)
theory Exe_Laws
  imports Exe_Elf X64_Values
begin

text \<open>
  What a dynamic ELF file makes of the calls of a program: from the site of a call, over the entry of the
  procedure linkage table and the slot of the global offset table, to the relocation, the symbol and the name
  that the dynamic linker resolves.
\<close>

section \<open>Reading a file\<close>

definition bytes_at :: "u8 list \<Rightarrow> nat \<Rightarrow> nat \<Rightarrow> u8 list" where
  "bytes_at file off n = take n (drop off file)"

text \<open>The displacement stored at a place counts from its end.\<close>

definition jumps_to :: "u8 list \<Rightarrow> nat \<Rightarrow> nat \<Rightarrow> bool" where
  "jumps_to file at q \<longleftrightarrow> sle_take 4 (bytes_at file at 4) = Some (int q - int (at + 4), [])"

text \<open>
  The call at \<open>site\<close> reaches an entry \<open>jmp *disp\<close> of the linkage table whose slot the relocation \<open>i\<close> fills
  with the address of the symbol \<open>k\<close>, and the name of that symbol is \<open>name\<close>.
\<close>

definition calls_import :: "u8 list \<Rightarrow> elf_layout \<Rightarrow> nat \<Rightarrow> string \<Rightarrow> bool" where
  "calls_import file lo site name \<longleftrightarrow> (\<exists>plt slot i k off.
     jumps_to file site plt \<and> bytes_at file plt 2 = [0xff, 0x25] \<and> jumps_to file (plt + 2) slot
     \<and> bytes_at file (lo_rela lo + 24 * i) 24 = le64 (vaddr slot) @ le64 (push_bit 32 (of_nat k) + 7) @ zeros 8
     \<and> bytes_at file (lo_dynsym lo + 24 * k) 4 = le32 (of_nat off)
     \<and> bytes_at file (lo_dynstr lo + off) (length name + 1) = cstr name)"

lemma bytes_at_peek: "off + n \<le> len \<Longrightarrow> bytes_at (peek m 0 len) off n = peek m off n"
  by (rule nth_equalityI) (simp_all add: bytes_at_def peek_def)

lemma rel_bytes_jumps:
  assumes "p < 2 ^ 30" and "q < 2 ^ 30"
  shows "sle_take 4 (rel_bytes (vaddr q) (vaddr p)) = Some (int q - int p, [])"
proof -
  have v: "vaddr q - vaddr p = word_of_int (int q - int p)"
    by (simp add: vaddr_def)
  have s: "sint (ucast (word_of_int k :: u64) :: u32) = signed_take_bit 31 k" for k
    by (intro bit_eqI) (auto simp: bit_simps min_def)
  have "signed_take_bit 31 (int q - int p) = int q - int p"
    using assms by (intro signed_take_bit_int_eq_self) simp_all
  then have "sint (ucast (vaddr q - vaddr p) :: u32) = int q - int p"
    by (simp only: v s)
  then show ?thesis
    using sle_take_le32 [of "ucast (vaddr q - vaddr p)" "[]"] by (simp add: rel_bytes_def)
qed

lemma vaddr_add: "vaddr p + of_nat n = vaddr (p + n)"
  by (simp add: vaddr_def)

section \<open>The layout\<close>

lemma layout_order:
  fixes t im
  defines "lo \<equiv> elf_dyn_layout t im" and "n \<equiv> length (ei_imports im) + 1"
  shows "lo_interp lo = 344" and "344 + length (cstr (et_interp t)) \<le> lo_dynsym lo"
    and "lo_dynstr lo = lo_dynsym lo + (n + 1) * 24" and "lo_dynstr lo + length (dynstr im) \<le> lo_hash lo"
    and "lo_hash lo + (3 + 2 * n) * 4 \<le> lo_rela lo" and "lo_rela lo + n * 24 \<le> lo_stub lo"
    and "lo_plt lo = lo_stub lo + et_dyn_start_stub_size t"
    and "lo_plt lo + et_plt0_size t + n * et_plt_entry_size t \<le> lo_text lo"
    and "lo_ro_end lo = lo_text lo + length (ei_text im)" and "lo_ro_end lo \<le> lo_dynamic lo"
    and "lo_got lo = lo_dynamic lo + 176" and "lo_image lo = lo_got lo + (3 + n) * 8"
    and "lo_image lo + length shstrtab_dyn \<le> lo_shdr lo" and "lo_total lo = lo_shdr lo + 256"
  using align_up_bounds(1) [of 8] align_up_bounds(1) [of 16] align_up_bounds(1) [of PAGE]
  by (simp_all add: lo_def n_def elf_dyn_layout_def Let_def NPHDR_def NDYN_def GOT_RESERVED_def PAGE_def algebra_simps)

lemma layout_less:
  fixes t im
  defines "lo \<equiv> elf_dyn_layout t im" and "n \<equiv> length (ei_imports im) + 1"
  shows "lo_dynsym lo < 344 + length (cstr (et_interp t)) + 8" and "lo_hash lo < lo_dynstr lo + length (dynstr im) + 8"
    and "lo_rela lo < lo_hash lo + (3 + 2 * n) * 4 + 8" and "lo_stub lo < lo_rela lo + n * 24 + 16"
    and "lo_text lo < lo_plt lo + et_plt0_size t + n * et_plt_entry_size t + 16"
    and "lo_dynamic lo < lo_ro_end lo + PAGE" and "lo_shdr lo < lo_image lo + length shstrtab_dyn + 8"
  by (simp_all only: lo_def n_def elf_dyn_layout_def Let_def elf_layout.simps)
    (rule order_less_le_trans [OF align_up_bounds(2)]; simp add: NPHDR_def PAGE_def algebra_simps)+

section \<open>The writes\<close>

lemma hash_chains_length:
  "length (fst (hash_chains nb i nms bc)) = length (fst bc) \<and> length (snd (hash_chains nb i nms bc)) = length (snd bc)"
  by (induction nms arbitrary: i bc) (simp_all add: Let_def)

lemma length_concat_le32: "length (concat (map le32 ws)) = 4 * length ws"
  by (induction ws) simp_all

lemma length_hash_bytes: "length (hash_bytes im) = (3 + 2 * (length (ei_imports im) + 1)) * 4"
  using hash_chains_length [of "of_nat (length (ei_imports im) + 1)" 1 "import_names im"
      "(replicate (length (ei_imports im) + 1) 0, replicate (length (ei_imports im) + 2) 0)"]
  by (simp add: hash_bytes_def Let_def length_concat_le32 split: prod.split) auto

lemma length_dynamic_bytes: "length (dynamic_bytes im lo) = 176"
  by (simp add: dynamic_bytes_def dynamic_entries_def)

text \<open>What is asked of a target: its pieces have the sizes it declares.\<close>

definition target_ok :: "elf_target \<Rightarrow> bool" where
  "target_ok t \<longleftrightarrow> (\<forall>a b. length (et_start_stub t a b) = et_start_stub_size t)
     \<and> (\<forall>a b c. length (et_dyn_start_stub t a b c) = et_dyn_start_stub_size t)
     \<and> (\<forall>a b. length (et_plt0 t a b) = et_plt0_size t) \<and> (\<forall>i a b c. length (fst (et_plt_entry t i a b c)) = et_plt_entry_size t)
     \<and> (\<forall>w a b. length (et_patch_call t w a b) = 4)"

lemma target_ok_x64: "target_ok elf_x64"
  by (simp add: target_ok_def elf_x64_def elf_build_start_stub_x64_def elf_build_dyn_start_stub_x64_def elf_build_plt0_x64_def elf_build_plt_entry_x64_def
      elf_patch_call_x64_def rel_bytes_def)

lemma target_ok_a64: "target_ok elf_a64"
  by (simp add: target_ok_def elf_a64_def elf_build_start_stub_a64_def elf_build_dyn_start_stub_a64_def elf_build_plt0_a64_def elf_build_plt_entry_a64_def
      elf_patch_call_a64_def Let_def)

text \<open>The writes in front of, at and behind the index \<open>i\<close> of a loop.\<close>

lemma upt_at: "i < n \<Longrightarrow> [0 ..< n] = [0 ..< i] @ i # [Suc i ..< n]"
  using upt_add_eq_append [of 0 i "n - i"] by (simp add: upt_conv_Cons)

text \<open>Sites of calls are four bytes of the text, apart from each other.\<close>

definition sites_ok :: "exe_image \<Rightarrow> bool" where
  "sites_ok im \<longleftrightarrow> list_all (\<lambda>e. fst e + 4 \<le> length (ei_text im) \<and> snd e < length (ei_imports im)) (ei_extcalls im)
     \<and> sorted_wrt (\<lambda>d e. fst d + 4 \<le> fst e \<or> fst e + 4 \<le> fst d) (ei_extcalls im)"

lemma patches_apart:
  assumes t: "target_ok t" and "list_all (\<lambda>e. off + n \<le> lo_text lo + fst e \<or> lo_text lo + fst e + 4 \<le> off) es"
  shows "peek (foldl (\<lambda>m e. patch_extcall t lo e m) m es) off n = peek m off n"
  using assms(2)
proof (induction es arbitrary: m)
  case (Cons e es)
  then have "clear_of off n (lo_text lo + fst e, et_patch_call t w a b)" for w a b
    using t by (auto simp: clear_of_def target_ok_def)
  then show ?case
    using Cons by (simp add: patch_extcall_def Let_def peek_poke_apart)
qed simp

lemma patches_outside:
  assumes "target_ok t" and "list_all (\<lambda>e. fst e + 4 \<le> len) es" and "off + n \<le> lo_text lo \<or> lo_text lo + len \<le> off"
  shows "peek (foldl (\<lambda>m e. patch_extcall t lo e m) m es) off n = peek m off n"
  using assms(2,3) by (intro patches_apart [OF assms(1)]) (auto simp: list_all_iff)

lemma patches_site:
  assumes t: "target_ok t" and p: "\<And>w w' a b. et_patch_call t w a b = et_patch_call t w' a b"
    and "e \<in> set es" and "sorted_wrt (\<lambda>d e. fst d + 4 \<le> fst e \<or> fst e + 4 \<le> fst d) es"
  shows "peek (foldl (\<lambda>m e. patch_extcall t lo e m) m es) (lo_text lo + fst e) 4
    = et_patch_call t [] (vaddr (lo_text lo + fst e)) (vaddr (plt_place t lo (snd e)))"
  using assms(3,4)
proof (induction es arbitrary: m)
  case (Cons d es)
  let ?m = "patch_extcall t lo d m"
  show ?case
  proof (cases "e \<in> set es")
    case True
    then show ?thesis using Cons by simp
  next
    case False
    then have d: "d = e" using Cons by simp
    have "list_all (\<lambda>x. (lo_text lo + fst e) + 4 \<le> lo_text lo + fst x \<or> lo_text lo + fst x + 4 \<le> lo_text lo + fst e) es"
      using Cons d by (auto simp: list_all_iff)
    then have "peek (foldl (\<lambda>m e. patch_extcall t lo e m) ?m es) (lo_text lo + fst e) 4 = peek ?m (lo_text lo + fst e) 4"
      by (rule patches_apart [OF t])
    moreover have l: "length (et_patch_call t w a b) = 4" for w a b using t by (simp add: target_ok_def)
    have q: "et_patch_call t (peek m (lo_text lo + fst e) 4) a b = et_patch_call t [] a b" for a b by (rule p)
    have "peek ?m (lo_text lo + fst e) 4 = et_patch_call t [] (vaddr (lo_text lo + fst e)) (vaddr (plt_place t lo (snd e)))"
      using peek_poke_same [of "lo_text lo + fst e" "et_patch_call t [] (vaddr (lo_text lo + fst e)) (vaddr (plt_place t lo (snd e)))" m]
      by (simp add: patch_extcall_def Let_def d l q)
    ultimately show ?thesis by simp
  qed
qed simp

text \<open>What a write of the loop leaves, when the rest of the loop and the later writes are apart from it.\<close>

lemma peek_loop:
  assumes "i < n" and "\<And>j. i < j \<Longrightarrow> j < n \<Longrightarrow> list_all (clear_of off (length bs)) (f j)"
    and "list_all (clear_of off (length bs)) rest" and "f i = us @ (off, bs) # ws" and "list_all (clear_of off (length bs)) ws"
  shows "peek (pokes (concat (map f [0 ..< n]) @ rest) m) off (length bs) = bs"
proof -
  have e: "concat (map f [0 ..< n]) @ rest
    = (concat (map f [0 ..< i]) @ us) @ (off, bs) # (ws @ concat (map f [Suc i ..< n]) @ rest)"
    by (simp add: upt_at [OF assms(1)] assms(4))
  have "list_all (clear_of off (length bs)) (ws @ concat (map f [Suc i ..< n]) @ rest)"
    using assms(2,3,5) by (auto simp: list_all_iff Suc_le_eq)
  then show ?thesis unfolding e by (rule peek_pokes_at)
qed

text \<open>Writes that all start behind a place.\<close>

definition from_on :: "nat \<Rightarrow> (nat \<times> u8 list) list \<Rightarrow> bool" where
  "from_on b ws \<longleftrightarrow> list_all (\<lambda>w. b \<le> fst w) ws"

lemma from_on_clear: "from_on b ws \<Longrightarrow> off + n \<le> b \<Longrightarrow> list_all (clear_of off n) ws"
  by (auto simp: from_on_def clear_of_def list_all_iff)

lemma from_on_append [simp]: "from_on b (vs @ ws) \<longleftrightarrow> from_on b vs \<and> from_on b ws"
  by (simp add: from_on_def)

lemma map_singles: "map f xs = concat (map (\<lambda>x. [f x]) xs)"
  by (induction xs) simp_all

definition late_writes :: "elf_target \<Rightarrow> exe_image \<Rightarrow> elf_layout \<Rightarrow> (nat \<times> u8 list) list" where
  "late_writes t im lo =
     [(lo_dynamic lo, dynamic_bytes im lo),
      (lo_stub lo, et_dyn_start_stub t (vaddr (lo_stub lo)) (vaddr (lo_text lo) + of_nat (ei_entry im))
                     (vaddr (plt_place t lo (length (ei_imports im))))),
      (lo_got lo, le64 (vaddr (lo_dynamic lo))),
      (lo_plt lo, et_plt0 t (vaddr (lo_plt lo)) (vaddr (lo_got lo)))]
     @ concat (map (plt_entry_writes t lo) [0 ..< length (ei_imports im) + 1]) @ [(lo_text lo, ei_text im)]"

lemma dyn_writes_split:
  "dyn_writes t im lo =
    [(0, ehdr_bytes (exec_ehdr t (lo_stub lo) (lo_shdr lo) 5 4 3)), (64, concat (map phdr_bytes (dyn_phdrs t lo))),
     (lo_interp lo, cstr (et_interp t))]
    @ concat (map (\<lambda>i. [(lo_dynsym lo + 24 * (i + 1), sym_bytes (sym_name_off im i))]) [0 ..< length (ei_imports im) + 1])
    @ [(lo_dynstr lo, dynstr im), (lo_hash lo, hash_bytes im)]
    @ concat (map (\<lambda>i. [(lo_rela lo + 24 * i, rela_bytes t lo i)]) [0 ..< length (ei_imports im) + 1])
    @ late_writes t im lo"
  by (simp only: dyn_writes_def Let_def late_writes_def map_singles [symmetric] append_assoc)

lemma late_writes_from:
  fixes t im
  defines "lo \<equiv> elf_dyn_layout t im"
  shows "from_on (lo_stub lo) (late_writes t im lo)"
  using layout_order [of t im, folded lo_def]
  by (auto simp: late_writes_def from_on_def list_all_iff plt_entry_writes_def Let_def plt_place_def got_slot_def)

lemma sym_writes_from:
  fixes t im
  defines "lo \<equiv> elf_dyn_layout t im"
  shows "from_on (lo_dynstr lo) ([(lo_dynstr lo, dynstr im), (lo_hash lo, hash_bytes im)]
    @ concat (map (\<lambda>i. [(lo_rela lo + 24 * i, rela_bytes t lo i)]) [0 ..< length (ei_imports im) + 1]) @ late_writes t im lo)"
proof -
  note o = layout_order [of t im, folded lo_def]
  have "from_on (lo_stub lo) (late_writes t im lo)" unfolding lo_def by (rule late_writes_from)
  then show ?thesis using o by (auto simp: from_on_def list_all_iff)
qed

section \<open>What the file holds\<close>

definition dyn_image :: "elf_target \<Rightarrow> exe_image \<Rightarrow> img" where
  "dyn_image t im = (let lo = elf_dyn_layout t im in
     pokes (dyn_tail t im lo) (patch_extcalls t lo im (pokes (dyn_writes t im lo) img0)))"

lemma image_tail:
  fixes t im
  defines "lo \<equiv> elf_dyn_layout t im"
  assumes "off + n \<le> lo_image lo"
  shows "peek (dyn_image t im) off n = peek (patch_extcalls t lo im (pokes (dyn_writes t im lo) img0)) off n"
proof -
  have "from_on (lo_image lo) (dyn_tail t im lo)"
    using layout_order [of t im, folded lo_def] by (simp add: from_on_def dyn_tail_def)
  then show ?thesis
    using peek_pokes_apart [OF from_on_clear] assms(2) by (simp add: dyn_image_def Let_def lo_def)
qed

lemma image_before_text:
  fixes t im
  defines "lo \<equiv> elf_dyn_layout t im"
  assumes "target_ok t" and "sites_ok im" and "off + n \<le> lo_text lo"
  shows "peek (dyn_image t im) off n = peek (pokes (dyn_writes t im lo) img0) off n"
proof -
  have "off + n \<le> lo_image lo" using layout_order [of t im, folded lo_def] assms(4) by linarith
  moreover have "list_all (\<lambda>e. fst e + 4 \<le> length (ei_text im)) (ei_extcalls im)"
    using assms(3) by (auto simp: sites_ok_def list_all_iff)
  ultimately show ?thesis
    using image_tail [of off n t im, folded lo_def] patches_outside [OF assms(2), of _ "ei_extcalls im" off n lo] assms(4)
    by (simp add: patch_extcalls_def)
qed

lemma image_symbol:
  fixes t im
  defines "lo \<equiv> elf_dyn_layout t im"
  assumes "target_ok t" and "sites_ok im" and i: "i < length (ei_imports im) + 1"
  shows "peek (dyn_image t im) (lo_dynsym lo + 24 * (i + 1)) 24 = sym_bytes (sym_name_off im i)"
proof -
  note o = layout_order [of t im, folded lo_def]
  have l: "length (sym_bytes k) = 24" for k by (simp add: sym_bytes_def)
  have off: "lo_dynsym lo + 24 * (i + 1) + 24 \<le> lo_dynstr lo" using o i by simp
  have t: "lo_dynsym lo + 24 * (i + 1) + 24 \<le> lo_text lo" using off o by linarith
  let ?off = "lo_dynsym lo + 24 * (i + 1)" and ?bs = "sym_bytes (sym_name_off im i)"
  have "list_all (clear_of ?off (length ?bs)) ([(lo_dynstr lo, dynstr im), (lo_hash lo, hash_bytes im)]
    @ concat (map (\<lambda>i. [(lo_rela lo + 24 * i, rela_bytes t lo i)]) [0 ..< length (ei_imports im) + 1]) @ late_writes t im lo)"
    by (rule from_on_clear [OF sym_writes_from [of t im, folded lo_def]]) (use off l in simp)
  note p = peek_loop [OF i _ this, of "\<lambda>i. [(lo_dynsym lo + 24 * (i + 1), sym_bytes (sym_name_off im i))]" "[]" "[]"]
  show ?thesis
    unfolding image_before_text [OF assms(2,3), folded lo_def, OF t] dyn_writes_split
    using p by (simp add: l clear_of_def)
qed

lemma image_rela:
  fixes t im
  defines "lo \<equiv> elf_dyn_layout t im"
  assumes "target_ok t" and "sites_ok im" and i: "i < length (ei_imports im) + 1"
  shows "peek (dyn_image t im) (lo_rela lo + 24 * i) 24 = rela_bytes t lo i"
proof -
  note o = layout_order [of t im, folded lo_def]
  have l: "length (rela_bytes t lo k) = 24" for k by (simp add: rela_bytes_def)
  have off: "lo_rela lo + 24 * i + 24 \<le> lo_stub lo" using o i by simp
  have t: "lo_rela lo + 24 * i + 24 \<le> lo_text lo" using off o by linarith
  let ?off = "lo_rela lo + 24 * i" and ?bs = "rela_bytes t lo i"
  have "list_all (clear_of ?off (length ?bs)) (late_writes t im lo)"
    by (rule from_on_clear [OF late_writes_from [of t im, folded lo_def]]) (use off l in simp)
  note p = peek_loop [OF i _ this, of "\<lambda>i. [(lo_rela lo + 24 * i, rela_bytes t lo i)]" "[]" "[]"]
  show ?thesis
    unfolding image_before_text [OF assms(2,3), folded lo_def, OF t] dyn_writes_split
    using p by (simp add: l clear_of_def)
qed

lemma image_dynstr:
  fixes t im
  defines "lo \<equiv> elf_dyn_layout t im"
  assumes "target_ok t" and "sites_ok im"
  shows "peek (dyn_image t im) (lo_dynstr lo) (length (dynstr im)) = dynstr im"
proof -
  note o = layout_order [of t im, folded lo_def]
  have t: "lo_dynstr lo + length (dynstr im) \<le> lo_text lo" using o by linarith
  have "from_on (lo_stub lo) (late_writes t im lo)" unfolding lo_def by (rule late_writes_from)
  then have "from_on (lo_hash lo) ((lo_hash lo, hash_bytes im)
    # concat (map (\<lambda>i. [(lo_rela lo + 24 * i, rela_bytes t lo i)]) [0 ..< length (ei_imports im) + 1]) @ late_writes t im lo)"
    using o by (auto simp: from_on_def list_all_iff)
  then have "list_all (clear_of (lo_dynstr lo) (length (dynstr im))) ((lo_hash lo, hash_bytes im)
    # concat (map (\<lambda>i. [(lo_rela lo + 24 * i, rela_bytes t lo i)]) [0 ..< length (ei_imports im) + 1]) @ late_writes t im lo)"
    by (rule from_on_clear) (rule o(4))
  from peek_pokes_at [OF this, of "[]"] show ?thesis
    unfolding image_before_text [OF assms(2,3), folded lo_def, OF t] dyn_writes_split by simp
qed

lemma image_plt_entry:
  fixes t im
  defines "lo \<equiv> elf_dyn_layout t im"
  assumes t: "target_ok t" and "sites_ok im" and i: "i < length (ei_imports im) + 1"
  shows "peek (dyn_image t im) (plt_place t lo i) (et_plt_entry_size t)
    = fst (et_plt_entry t (of_nat i) (vaddr (plt_place t lo i)) (vaddr (lo_plt lo)) (vaddr (got_slot lo i)))"
proof -
  note o = layout_order [of t im, folded lo_def]
  have l: "length (fst (et_plt_entry t k a b c)) = et_plt_entry_size t" for k a b c using t by (simp add: target_ok_def)
  have le: "plt_place t lo j + et_plt_entry_size t \<le> plt_place t lo k" if "j < k" for j k
    using mult_le_mono1 [of "Suc j" k "et_plt_entry_size t"] that by (simp add: plt_place_def)
  have "plt_place t lo (length (ei_imports im) + 1) \<le> lo_text lo" using o(8) by (simp add: plt_place_def)
  then have off: "plt_place t lo i + et_plt_entry_size t \<le> lo_text lo" using le [OF i] by linarith
  have g: "lo_text lo \<le> got_slot lo k" for k using o by (simp add: got_slot_def)
  define e where "e = (\<lambda>i. et_plt_entry t (of_nat i) (vaddr (plt_place t lo i)) (vaddr (lo_plt lo)) (vaddr (got_slot lo i)))"
  have w: "plt_entry_writes t lo k = [] @ (plt_place t lo k, fst (e k)) # [(got_slot lo k, le64 (snd (e k)))]" for k
    by (simp add: plt_entry_writes_def e_def Let_def)
  have le': "length (fst (e k)) = et_plt_entry_size t" for k by (simp add: e_def l)
  have c: "list_all (clear_of (plt_place t lo i) (length (fst (e i)))) [(lo_text lo, ei_text im)]"
    using off by (simp add: clear_of_def le')
  have g': "clear_of (plt_place t lo i) (length (fst (e i))) (got_slot lo k, bs)" for k bs
    using g [of k] off by (simp add: clear_of_def le')
  have p: "peek (pokes (concat (map (plt_entry_writes t lo) [0 ..< length (ei_imports im) + 1]) @ [(lo_text lo, ei_text im)]) m)
      (plt_place t lo i) (length (fst (e i))) = fst (e i)" for m
  proof (rule peek_loop [where f = "plt_entry_writes t lo" and us = "[]" and ws = "[(got_slot lo i, le64 (snd (e i)))]", OF i _ c w])
    fix j assume "i < j"
    then show "list_all (clear_of (plt_place t lo i) (length (fst (e i)))) (plt_entry_writes t lo j)"
      using le [of i j] g' [of j "le64 (snd (e j))"] by (simp add: w clear_of_def le')
  qed (simp add: g')
  have q: "peek (pokes (concat (map (plt_entry_writes t lo) [0 ..< length (ei_imports im) + 1]) @ [(lo_text lo, ei_text im)]) m)
      (plt_place t lo i) (et_plt_entry_size t) = fst (e i)" for m
    using p [of m] by (simp only: le')
  show ?thesis
    unfolding image_before_text [OF assms(2,3), folded lo_def, OF off] dyn_writes_split late_writes_def
    using q by (simp add: e_def)
qed

lemma image_site:
  fixes t im
  defines "lo \<equiv> elf_dyn_layout t im"
  assumes t: "target_ok t" and s: "sites_ok im" and p: "\<And>w w' a b. et_patch_call t w a b = et_patch_call t w' a b"
    and e: "e \<in> set (ei_extcalls im)"
  shows "peek (dyn_image t im) (lo_text lo + fst e) 4 = et_patch_call t [] (vaddr (lo_text lo + fst e)) (vaddr (plt_place t lo (snd e)))"
proof -
  have "fst e + 4 \<le> length (ei_text im)" using s e by (auto simp: sites_ok_def list_all_iff)
  then have "lo_text lo + fst e + 4 \<le> lo_image lo" using layout_order [of t im, folded lo_def] by linarith
  from image_tail [of "lo_text lo + fst e" 4 t im, folded lo_def, OF this] show ?thesis
    using patches_site [OF t p e] s by (simp add: patch_extcalls_def sites_ok_def)
qed

section \<open>Names\<close>

lemma length_import_names: "length (import_names im) = length (ei_imports im) + 1"
  by (simp add: import_names_def)

lemma import_names_nth: "i < length (ei_imports im) \<Longrightarrow> import_names im ! i = ei_imports im ! i"
  by (simp add: import_names_def import_name_def nth_append)

text \<open>The name of an import is in the table where its symbol says.\<close>

lemma dynstr_name:
  assumes "i < length (ei_imports im)"
  shows "take (length (ei_imports im ! i) + 1) (drop (sym_name_off im i) (dynstr im)) = cstr (ei_imports im ! i)"
    and "sym_name_off im i + (length (ei_imports im ! i) + 1) \<le> length (dynstr im)"
proof -
  let ?ns = "import_names im"
  define pre post where "pre = take i ?ns" and "post = drop (Suc i) ?ns"
  have "i < length ?ns" using assms by (simp add: length_import_names)
  from id_take_nth_drop [OF this] have "?ns = pre @ ei_imports im ! i # post"
    by (simp add: import_names_nth [OF assms] pre_def post_def)
  then have d: "dynstr im = (0 # cstr LIBNAME @ concat (map cstr pre)) @ cstr (ei_imports im ! i) @ concat (map cstr post)"
    by (simp add: dynstr_def)
  have s: "sym_name_off im i = length (0 # cstr LIBNAME @ concat (map cstr pre))"
    by (simp add: sym_name_off_def pre_def)
  show "take (length (ei_imports im ! i) + 1) (drop (sym_name_off im i) (dynstr im)) = cstr (ei_imports im ! i)"
    and "sym_name_off im i + (length (ei_imports im ! i) + 1) \<le> length (dynstr im)"
    unfolding s by (simp_all add: d)
qed

section \<open>Calls of imports\<close>

lemma dynamic_file:
  assumes "write_dynamic_elf t im = Some (Inr file)"
  shows "file = peek (dyn_image t im) 0 (lo_total (elf_dyn_layout t im))" and "lo_total (elf_dyn_layout t im) \<le> 0x80000"
  using assms by (auto simp: write_dynamic_elf_def Let_def dyn_image_def IMG_CAP_def split: if_splits)

lemma dynamic_calls:
  fixes im
  defines "lo \<equiv> elf_dyn_layout elf_x64 im"
  assumes w: "write_dynamic_elf elf_x64 im = Some (Inr file)" and s: "sites_ok im" and e: "e \<in> set (ei_extcalls im)"
  shows "calls_import file lo (lo_text lo + fst e) (ei_imports im ! snd e)"
proof -
  let ?M = "dyn_image elf_x64 im" and ?i = "snd e" and ?t = elf_x64
  let ?plt = "plt_place ?t lo ?i" and ?slot = "got_slot lo ?i" and ?name = "ei_imports im ! snd e"
  note o = layout_order [of ?t im, folded lo_def]
  have f: "file = peek ?M 0 (lo_total lo)" and cap: "lo_total lo \<le> 0x80000"
    using dynamic_file [OF w] by (simp_all add: lo_def)
  have i: "?i < length (ei_imports im)" and site: "fst e + 4 \<le> length (ei_text im)"
    using s e by (auto simp: sites_ok_def list_all_iff)
  then have i1: "?i < length (ei_imports im) + 1" by simp
  have sz: "et_plt_entry_size ?t = 16" "et_plt0_size ?t = 16" by (simp_all add: elf_x64_def)
  have pe: "?plt + 16 \<le> lo_text lo" using o(8) i by (simp add: plt_place_def sz)
  have ge: "?slot + 8 \<le> lo_image lo" using o(12) i by (simp add: got_slot_def GOT_RESERVED_def)
  have at: "bytes_at file off n = peek ?M off n" if "off + n \<le> lo_image lo" for off n
    unfolding f by (rule bytes_at_peek) (use that o(13,14) in linarith)
  have small: "lo_text lo + fst e + 4 < 2 ^ 30" "?plt + 16 < 2 ^ 30" "?slot < 2 ^ 30"
    using o(7-14) pe ge cap site by simp_all
  have jump: "jumps_to file (lo_text lo + fst e) ?plt"
  proof -
    have "peek ?M (lo_text lo + fst e) 4 = rel_bytes (vaddr ?plt) (vaddr (lo_text lo + fst e + 4))"
      using image_site [OF target_ok_x64 s _ e, folded lo_def] vaddr_add [of "lo_text lo + fst e" 4]
      by (simp add: elf_x64_def elf_patch_call_x64_def)
    then show ?thesis
      using at [of "lo_text lo + fst e" 4] rel_bytes_jumps [of "lo_text lo + fst e + 4" ?plt] small o(9-12) site
      by (simp add: jumps_to_def)
  qed
  have entry: "peek ?M ?plt 16 = [0xff, 0x25] @ rel_bytes (vaddr ?slot) (vaddr (?plt + 6)) @ [0x68] @ le32 (of_nat ?i) @ [0xe9]
      @ rel_bytes (vaddr (lo_plt lo)) (vaddr (?plt + 16))"
    using image_plt_entry [OF target_ok_x64 s i1, folded lo_def] vaddr_add [of ?plt 6] vaddr_add [of ?plt 16]
    by (simp add: sz) (simp add: elf_x64_def elf_build_plt_entry_x64_def)
  have opc: "bytes_at file ?plt 2 = [0xff, 0x25]"
    using at [of ?plt 2] peek_part [of 0 2 16 ?M ?plt] pe o(9-12) by (simp add: entry)
  have "peek ?M (?plt + 2) 4 = rel_bytes (vaddr ?slot) (vaddr (?plt + 6))"
    using peek_part [of 2 4 16 ?M ?plt] by (simp add: entry rel_bytes_def)
  then have slot: "jumps_to file (?plt + 2) ?slot"
    using at [of "?plt + 2" 4] rel_bytes_jumps [of "?plt + 6" ?slot] small pe o(9-12) by (simp add: jumps_to_def)
  have rela: "bytes_at file (lo_rela lo + 24 * ?i) 24 = le64 (vaddr ?slot) @ le64 (push_bit 32 (of_nat (?i + 1)) + 7) @ zeros 8"
    using at [of "lo_rela lo + 24 * ?i" 24] image_rela [OF target_ok_x64 s i1, folded lo_def] i o(6-12)
    by (simp add: rela_bytes_def elf_x64_def)
  have "peek ?M (lo_dynsym lo + 24 * (?i + 1)) 4 = le32 (of_nat (sym_name_off im ?i))"
    using peek_part [of 0 4 24 ?M "lo_dynsym lo + 24 * (?i + 1)"] image_symbol [OF target_ok_x64 s i1, folded lo_def]
    by (simp add: sym_bytes_def)
  then have sym: "bytes_at file (lo_dynsym lo + 24 * (?i + 1)) 4 = le32 (of_nat (sym_name_off im ?i))"
    using at [of "lo_dynsym lo + 24 * (?i + 1)" 4] i o(3-12) by simp
  note n = dynstr_name [OF i]
  have "peek ?M (lo_dynstr lo + sym_name_off im ?i) (length ?name + 1) = cstr ?name"
    using peek_part [OF n(2), of ?M "lo_dynstr lo"] image_dynstr [OF target_ok_x64 s, folded lo_def] n(1) by simp
  then have name: "bytes_at file (lo_dynstr lo + sym_name_off im ?i) (length ?name + 1) = cstr ?name"
    using at [of "lo_dynstr lo + sym_name_off im ?i" "length ?name + 1"] n(2) o(4-12) by simp
  show ?thesis
    unfolding calls_import_def using jump opc slot rela sym name by blast
qed

section \<open>Properties\<close>

text \<open>
  C3. In a dynamic executable every call of an import reaches its name: the displacement at the site leads to
  an entry of the linkage table that jumps through a slot of the offset table, a relocation of the file makes
  the dynamic linker fill that slot with the address of a symbol, and the name of that symbol is the import's.
  The sites are assumed to be inside the text and apart.
\<close>

theorem elf_calls_reach_imports:
  assumes "write_dynamic_elf elf_x64 im = Some (Inr file)" and "sites_ok im" and "e \<in> set (ei_extcalls im)"
  shows "calls_import file (elf_dyn_layout elf_x64 im) (lo_text (elf_dyn_layout elf_x64 im) + fst e) (ei_imports im ! snd e)"
  by (rule dynamic_calls [OF assms])

definition ex_exe :: exe_image where
  "ex_exe = \<lparr>ei_text = replicate 32 0x90, ei_entry = 4, ei_imports = [''puts'', ''getc''], ei_extcalls = [(8, 1), (16, 0)]\<rparr>"

lemma elf_calls_reach_imports_witness:
  "\<exists>bytes. write_dynamic_elf elf_x64 ex_exe = Some (Inr bytes)
    \<and> calls_import bytes (elf_dyn_layout elf_x64 ex_exe) (lo_text (elf_dyn_layout elf_x64 ex_exe) + 8) ''getc''"
proof -
  have d: "length (dynstr ex_exe) = 26"
    by (simp add: dynstr_def import_names_def import_name_def ex_exe_def LIBNAME_def)
  have n: "length (ei_imports ex_exe) = 2" "length (ei_text ex_exe) = 32" by (simp_all add: ex_exe_def)
  have "lo_total (elf_dyn_layout elf_x64 ex_exe) \<le> IMG_CAP"
    using layout_less [of elf_x64 ex_exe] layout_order [of elf_x64 ex_exe]
    by (simp add: d n IMG_CAP_def PAGE_def elf_x64_def shstrtab_dyn_def)
  then obtain bytes where f: "write_dynamic_elf elf_x64 ex_exe = Some (Inr bytes)"
    by (simp add: write_dynamic_elf_def Let_def d n)
  have "sites_ok ex_exe" "(8, 1) \<in> set (ei_extcalls ex_exe)" by (simp_all add: sites_ok_def ex_exe_def)
  from elf_calls_reach_imports [OF f this] show ?thesis using f by (simp add: ex_exe_def)
qed

end
