(* ===== verification/Exe_Pe.thy ===== *)
theory Exe_Pe
  imports Exe_Image
begin

text \<open>
  Windows executables: \<open>src/alc/emit_helper-pe-exe.h\<close>, with the stubs of \<open>exe-pe-x86_64.c\<close>. The structures and numbers
  are those of \<open>winnt.h\<close>; fields that the code leaves alone are zero.
\<close>

section \<open>Stubs\<close>

definition pe_entry_stub_size :: nat where "pe_entry_stub_size = 16"
definition pe_thunk_size :: nat where "pe_thunk_size = 6"

definition pe_rel :: "nat \<Rightarrow> nat \<Rightarrow> u8 list" where
  "pe_rel target from_rva = le32 (of_nat target - of_nat from_rva)"

definition pe_build_entry_stub :: "nat \<Rightarrow> nat \<Rightarrow> nat \<Rightarrow> u8 list" where
  "pe_build_entry_stub stub_rva main_rva exit_thunk_rva =
    [0x48, 0x83, 0xec, 0x28, 0xe8] @ pe_rel main_rva (stub_rva + 9) @ [0x89, 0xc1, 0xe8] @ pe_rel exit_thunk_rva (stub_rva + 16)"

definition pe_build_thunk :: "nat \<Rightarrow> nat \<Rightarrow> u8 list" where
  "pe_build_thunk thunk_rva iat_slot_rva = [0xff, 0x25] @ pe_rel iat_slot_rva (thunk_rva + 6)"

definition pe_patch_call :: "nat \<Rightarrow> nat \<Rightarrow> u8 list" where
  "pe_patch_call site_rva target_rva = pe_rel target_rva (site_rva + 4)"

section \<open>Layout\<close>

definition PE_SECTION_ALIGN :: nat where "PE_SECTION_ALIGN = 0x1000"
definition PE_FILE_ALIGN :: nat where "PE_FILE_ALIGN = 0x200"
definition PE_IMPORT_DLL :: string where "PE_IMPORT_DLL = ''msvcrt.dll''"
definition PE_MAX_IMPORTS :: nat where "PE_MAX_IMPORTS = 128"

definition pe_export_name :: "string \<Rightarrow> string" where
  "pe_export_name name = (if name = ''_Exit'' then ''_exit'' else name)"

definition pe_import_name :: "exe_image \<Rightarrow> nat \<Rightarrow> string" where
  "pe_import_name im i = (if i = length (ei_imports im) then ''exit'' else pe_export_name (ei_imports im ! i))"

text \<open>The hint and name of an import take an even number of bytes.\<close>

definition pe_name_size :: "exe_image \<Rightarrow> nat \<Rightarrow> nat" where
  "pe_name_size im i = align_up (2 + length (pe_import_name im i) + 1) 2"

record pe_layout =
  pl_headers :: nat
  pl_thunks :: nat
  pl_code :: nat
  pl_text_vsize :: nat
  pl_text_raw :: nat
  pl_idata_va :: nat
  pl_ilt :: nat
  pl_iat :: nat
  pl_iat_size :: nat
  pl_names :: nat
  pl_dllname :: nat
  pl_idata_vsize :: nat
  pl_idata_ptr :: nat
  pl_idata_raw :: nat
  pl_image :: nat
  pl_total :: nat

definition pe_lay_out :: "exe_image \<Rightarrow> pe_layout" where
  "pe_lay_out im =
    (let nimp = length (ei_imports im) + 1;
         size_of_headers = align_up (64 + 264 + 2 * 40) PE_FILE_ALIGN;
         text_va = PE_SECTION_ALIGN;
         thunks_rva = text_va + pe_entry_stub_size;
         code_rva = thunks_rva + nimp * pe_thunk_size;
         text_vsize = (code_rva - text_va) + length (ei_text im);
         text_raw_size = align_up text_vsize PE_FILE_ALIGN;
         idata_va = align_up (text_va + text_vsize) PE_SECTION_ALIGN;
         ilt_off = 2 * 20;
         iat_size = (nimp + 1) * 8;
         iat_off = ilt_off + iat_size;
         names_off = iat_off + iat_size;
         dllname_off = names_off + sum_list (map (pe_name_size im) [0 ..< nimp]);
         idata_vsize = dllname_off + length PE_IMPORT_DLL + 1;
         idata_raw_ptr = size_of_headers + text_raw_size;
         idata_raw_size = align_up idata_vsize PE_FILE_ALIGN in
     \<lparr>pl_headers = size_of_headers, pl_thunks = thunks_rva, pl_code = code_rva, pl_text_vsize = text_vsize,
      pl_text_raw = text_raw_size, pl_idata_va = idata_va, pl_ilt = ilt_off, pl_iat = iat_off, pl_iat_size = iat_size,
      pl_names = names_off, pl_dllname = dllname_off, pl_idata_vsize = idata_vsize, pl_idata_ptr = idata_raw_ptr,
      pl_idata_raw = idata_raw_size, pl_image = align_up (idata_va + idata_vsize) PE_SECTION_ALIGN,
      pl_total = idata_raw_ptr + idata_raw_size\<rparr>)"

definition pe_name_off :: "exe_image \<Rightarrow> pe_layout \<Rightarrow> nat \<Rightarrow> nat" where
  "pe_name_off im pl i = pl_names pl + sum_list (map (pe_name_size im) [0 ..< i])"

section \<open>Headers\<close>

definition pe_dos_header :: "u8 list" where
  "pe_dos_header = le16 0x5A4D @ zeros 58 @ le32 64"

definition pe_file_header :: "u8 list" where
  "pe_file_header = le32 0x4550 @ le16 0x8664 @ le16 2 @ zeros 12 @ le16 240 @ le16 0x22"

text \<open>The sixteen directories; the imports are the second and their addresses the thirteenth.\<close>

definition pe_directories :: "pe_layout \<Rightarrow> u8 list" where
  "pe_directories pl = zeros 8 @ le32 (of_nat (pl_idata_va pl)) @ le32 40 @ zeros 80
     @ le32 (of_nat (pl_idata_va pl + pl_iat pl)) @ le32 (of_nat (pl_iat_size pl)) @ zeros 24"

definition pe_optional_header :: "pe_layout \<Rightarrow> u8 list" where
  "pe_optional_header pl =
     le16 0x20b @ zeros 2 @ le32 (of_nat (pl_text_raw pl)) @ le32 (of_nat (pl_idata_raw pl)) @ zeros 4
     @ le32 (of_nat PE_SECTION_ALIGN) @ le32 (of_nat PE_SECTION_ALIGN)
     @ le64 0x140000000 @ le32 (of_nat PE_SECTION_ALIGN) @ le32 (of_nat PE_FILE_ALIGN)
     @ le16 6 @ zeros 6 @ le16 6 @ zeros 2 @ zeros 4
     @ le32 (of_nat (pl_image pl)) @ le32 (of_nat (pl_headers pl)) @ zeros 4 @ le16 3 @ zeros 2
     @ le64 0x100000 @ le64 0x1000 @ le64 0x100000 @ le64 0x1000 @ zeros 4 @ le32 16 @ pe_directories pl"

definition pe_section :: "string \<Rightarrow> nat \<Rightarrow> nat \<Rightarrow> nat \<Rightarrow> nat \<Rightarrow> u32 \<Rightarrow> u8 list" where
  "pe_section name vsize va raw_size raw_ptr flags =
     name_field 8 name @ le32 (of_nat vsize) @ le32 (of_nat va) @ le32 (of_nat raw_size) @ le32 (of_nat raw_ptr) @ zeros 12 @ le32 flags"

definition pe_sections :: "pe_layout \<Rightarrow> u8 list" where
  "pe_sections pl =
     pe_section ''.text'' (pl_text_vsize pl) PE_SECTION_ALIGN (pl_text_raw pl) (pl_headers pl) 0x60000020
     @ pe_section ''.idata'' (pl_idata_vsize pl) (pl_idata_va pl) (pl_idata_raw pl) (pl_idata_ptr pl) 0xC0000040"

lemma length_pe_headers [simp]:
  "length pe_dos_header = 64" "length pe_file_header = 24" "length (pe_optional_header pl) = 240" "length (pe_sections pl) = 80"
  by (simp_all add: pe_dos_header_def pe_file_header_def pe_optional_header_def pe_directories_def pe_sections_def pe_section_def)

section \<open>The file\<close>

text \<open>The place in the file of an address in the text section.\<close>

definition pe_text_place :: "pe_layout \<Rightarrow> nat \<Rightarrow> nat" where
  "pe_text_place pl rva = pl_headers pl + (rva - PE_SECTION_ALIGN)"

definition pe_thunk_rva :: "pe_layout \<Rightarrow> nat \<Rightarrow> nat" where
  "pe_thunk_rva pl i = pl_thunks pl + i * pe_thunk_size"

definition pe_text_writes :: "exe_image \<Rightarrow> pe_layout \<Rightarrow> (nat \<times> u8 list) list" where
  "pe_text_writes im pl =
    (let exit_idx = length (ei_imports im) in
     [(pl_headers pl, pe_build_entry_stub PE_SECTION_ALIGN (pl_code pl + ei_entry im) (pe_thunk_rva pl exit_idx))]
     @ map (\<lambda>i. (pe_text_place pl (pe_thunk_rva pl i),
          pe_build_thunk (pe_thunk_rva pl i) (pl_idata_va pl + pl_iat pl + i * 8))) [0 ..< exit_idx + 1]
     @ [(pe_text_place pl (pl_code pl), ei_text im)]
     @ map (\<lambda>e. (pe_text_place pl (pl_code pl) + fst e,
          pe_patch_call (pl_code pl + fst e) (pe_thunk_rva pl (snd e)))) (ei_extcalls im))"

definition pe_import_writes :: "exe_image \<Rightarrow> pe_layout \<Rightarrow> (nat \<times> u8 list) list" where
  "pe_import_writes im pl =
    (let idata = pl_idata_ptr pl; nimp = length (ei_imports im) + 1;
         entry = (\<lambda>i. le64 (of_nat (pl_idata_va pl + pe_name_off im pl i))) in
     [(idata, le32 (of_nat (pl_idata_va pl + pl_ilt pl)) @ zeros 8 @ le32 (of_nat (pl_idata_va pl + pl_dllname pl))
         @ le32 (of_nat (pl_idata_va pl + pl_iat pl)))]
     @ concat (map (\<lambda>i. [(idata + pl_ilt pl + i * 8, entry i), (idata + pl_iat pl + i * 8, entry i)]) [0 ..< nimp])
     @ map (\<lambda>i. (idata + pe_name_off im pl i + 2, cstr (pe_import_name im i))) [0 ..< nimp]
     @ [(idata + pl_dllname pl, cstr PE_IMPORT_DLL)])"

definition write_pe :: "exe_image \<Rightarrow> exe_error + u8 list" where
  "write_pe im =
    (let nimp = length (ei_imports im) + 1; pl = pe_lay_out im in
     if PE_MAX_IMPORTS < nimp then Inl PeTooManyImports
     else if IMG_CAP < pl_total pl then Inl PeTooLarge
     else Inr (peek (pokes ([(0, pe_dos_header), (64, pe_file_header @ pe_optional_header pl), (64 + 264, pe_sections pl)]
                   @ pe_text_writes im pl @ pe_import_writes im pl) img0) 0 (pl_total pl)))"

definition pe_emit_output :: "x64 \<Rightarrow> exe_error + u8 list" where
  "pe_emit_output st = write_pe (exe_of_x64 (fst (bin_emit_x64 st)))"

end
