(* ===== verification/Exe_Macho.thy ===== *)
theory Exe_Macho
  imports Exe_Elf
begin

text \<open>
  Executables for macOS: \<open>src/alc/exe-macho.c\<close>. The structures and numbers are those of \<open>mach-o/loader.h\<close> and
  \<open>mach-o/fixup-chains.h\<close>; fields that the code leaves alone are zero. The digest \<open>CC_SHA256\<close> of the signature is
  the argument \<open>sha\<close>. The load commands are appended one after the other; the fields that are filled in later, through the
  pointers the builder returned, are already in place here, since nothing reads them in between.
\<close>

section \<open>Big-endian fields\<close>

definition be32 :: "u32 \<Rightarrow> u8 list" where
  "be32 v = [ucast (drop_bit 24 v), ucast (drop_bit 16 v), ucast (drop_bit 8 v), ucast v]"

definition be64 :: "u64 \<Rightarrow> u8 list" where
  "be64 v = be32 (ucast (drop_bit 32 v)) @ be32 (ucast v)"

lemma length_be [simp]: "length (be32 v) = 4" "length (be64 w) = 8"
  by (simp_all add: be32_def be64_def)

definition TEXT_VM :: u64 where "TEXT_VM = 0x100000000"
definition FILE_PAGE :: nat where "FILE_PAGE = 0x4000"
definition CS_PAGE :: nat where "CS_PAGE = 4096"
definition DIGEST :: nat where "DIGEST = 32"
definition CD_HDR_SZ :: nat where "CD_HDR_SZ = 88"
definition CD_IDENT :: string where "CD_IDENT = ''alc''"
definition DYLD_PATH :: string where "DYLD_PATH = ''/usr/lib/dyld''"
definition LIB_PATH :: string where "LIB_PATH = ''/usr/lib/libSystem.B.dylib''"

section \<open>Load commands\<close>

text \<open>\<open>builder\<close>: the bytes appended behind the header, and the counts.\<close>

record builder =
  bl_bytes :: "u8 list"
  bl_ncmds :: nat
  bl_sizeofcmds :: nat
  bl_nsegs :: nat

definition builder0 :: builder where
  "builder0 = \<lparr>bl_bytes = [], bl_ncmds = 0, bl_sizeofcmds = 0, bl_nsegs = 0\<rparr>"

definition bld_append :: "u8 list \<Rightarrow> builder \<Rightarrow> builder" where
  "bld_append bs b = b\<lparr>bl_bytes := bl_bytes b @ bs\<rparr>"

definition add_payload :: "u8 list \<Rightarrow> builder \<Rightarrow> builder" where
  "add_payload bs b = (bld_append bs b)\<lparr>bl_sizeofcmds := bl_sizeofcmds b + length bs\<rparr>"

definition add_command :: "u8 list \<Rightarrow> builder \<Rightarrow> builder" where
  "add_command bs b = (bld_append bs b)\<lparr>bl_ncmds := bl_ncmds b + 1, bl_sizeofcmds := bl_sizeofcmds b + length bs\<rparr>"

definition add_segment :: "u8 list \<Rightarrow> builder \<Rightarrow> builder" where
  "add_segment bs b = (add_command bs b)\<lparr>bl_nsegs := bl_nsegs b + 1\<rparr>"

record segment_command =
  sc_cmdsize :: u32
  sc_segname :: string
  sc_vmaddr :: u64
  sc_vmsize :: u64
  sc_fileoff :: u64
  sc_filesize :: u64
  sc_prot :: u32
  sc_nsects :: u32

definition segment_bytes :: "segment_command \<Rightarrow> u8 list" where
  "segment_bytes s = le32 0x19 @ le32 (sc_cmdsize s) @ name_field 16 (sc_segname s) @ le64 (sc_vmaddr s) @ le64 (sc_vmsize s)
     @ le64 (sc_fileoff s) @ le64 (sc_filesize s) @ le32 (sc_prot s) @ le32 (sc_prot s) @ le32 (sc_nsects s) @ zeros 4"

definition section_bytes :: "string \<Rightarrow> string \<Rightarrow> u64 \<Rightarrow> nat \<Rightarrow> nat \<Rightarrow> u32 \<Rightarrow> u32 \<Rightarrow> u8 list" where
  "section_bytes sect seg addr sz off al flags = name_field 16 sect @ name_field 16 seg @ le64 addr @ le64 (of_nat sz)
     @ le32 (of_nat off) @ le32 al @ zeros 8 @ le32 flags @ zeros 12"

definition linkedit_data :: "u32 \<Rightarrow> nat \<Rightarrow> nat \<Rightarrow> u8 list" where
  "linkedit_data cmd off sz = le32 cmd @ le32 16 @ le32 (of_nat off) @ le32 (of_nat sz)"

definition LC_DYLD_CHAINED_FIXUPS :: u32 where "LC_DYLD_CHAINED_FIXUPS = 0x80000034"
definition LC_CODE_SIGNATURE :: u32 where "LC_CODE_SIGNATURE = 0x1d"

text \<open>A path behind a command of \<open>n\<close> bytes, up to a multiple of eight.\<close>

definition path_cmdsize :: "nat \<Rightarrow> string \<Rightarrow> nat" where
  "path_cmdsize n path = align_up (n + length path + 1) 8"

definition path_bytes :: "nat \<Rightarrow> string \<Rightarrow> u8 list" where
  "path_bytes n path = name_field (path_cmdsize n path - n) path"

lemma length_macho [simp]:
  "length (segment_bytes s) = 72" "length (section_bytes a b c d e f g) = 80" "length (linkedit_data cmd off sz) = 16"
  "length (path_bytes n p) = path_cmdsize n p - n"
  by (simp_all add: segment_bytes_def section_bytes_def linkedit_data_def path_bytes_def)

section \<open>Layout\<close>

record macho_layout =
  ml_dyn :: bool
  ml_code :: nat
  ml_stubs :: nat
  ml_sect_size :: nat
  ml_text_end :: nat
  ml_linkedit :: nat
  ml_fixups_size :: nat
  ml_sig :: nat
  ml_slots :: nat
  ml_sig_size :: nat

text \<open>The size of the load commands, which does not depend on the layout.\<close>

definition commands_size :: "bool \<Rightarrow> nat" where
  "commands_size dyn = 72 + (72 + 80) + (if dyn then 72 + 80 else 0) + 72 + 16 + path_cmdsize 12 DYLD_PATH
     + (if dyn then path_cmdsize 24 LIB_PATH else 0) + 24 + 24 + 16"

section \<open>Chained fixups\<close>

text \<open>
  The header, the starts of the chains per segment, the imports and their names, in a block that starts at the place of
  the fixups. The offsets are from there.
\<close>

definition fixup_names :: "string list \<Rightarrow> u8 list" where
  "fixup_names imps = 0 # concat (map (\<lambda>s. cstr (CHR ''_'' # s)) imps)"

definition fixup_name_off :: "string list \<Rightarrow> nat \<Rightarrow> nat" where
  "fixup_name_off imps i = 1 + length (concat (map (\<lambda>s. cstr (CHR ''_'' # s)) (take i imps)))"

definition chained_header :: "nat \<Rightarrow> nat \<Rightarrow> nat \<Rightarrow> nat \<Rightarrow> u8 list" where
  "chained_header starts imports symbols count = le32 0 @ le32 (of_nat starts) @ le32 (of_nat imports) @ le32 (of_nat symbols)
     @ le32 (of_nat count) @ le32 1 @ le32 0"

definition chained_starts :: "nat \<Rightarrow> u8 list" where
  "chained_starts data_off = le32 24 @ le16 (of_nat FILE_PAGE) @ le16 6 @ le64 (of_nat data_off) @ le32 0 @ le16 1 @ le16 0"

definition sii_off :: nat where "sii_off = align_up 28 8"

definition sis_off :: "nat \<Rightarrow> nat" where
  "sis_off nsegs = align_up (sii_off + 4 + 4 * nsegs) 8"

definition fixup_imports_off :: "nat \<Rightarrow> nat" where
  "fixup_imports_off nsegs = align_up (sis_off nsegs + 24) 4"

definition fixup_symbols_off :: "nat \<Rightarrow> nat \<Rightarrow> nat" where
  "fixup_symbols_off nsegs n_imp = align_up (fixup_imports_off nsegs + 4 * n_imp) 4"

definition build_chained_imports :: "nat \<Rightarrow> nat \<Rightarrow> nat \<Rightarrow> string list \<Rightarrow> nat \<Rightarrow> (nat \<times> u8 list) list \<times> nat" where
  "build_chained_imports dst nsegs data_seg_idx imps data_off =
    (let sis = sis_off nsegs; io = fixup_imports_off nsegs; so = fixup_symbols_off nsegs (length imps) in
     ([(dst, chained_header sii_off io so (length imps)),
       (dst + sii_off, le32 (of_nat nsegs) @ zeros (4 * nsegs)),
       (dst + sii_off + 4 + 4 * data_seg_idx, le32 (of_nat (sis - sii_off))),
       (dst + sis, chained_starts data_off),
       (dst + so, fixup_names imps)]
      @ map (\<lambda>i. (dst + io + 4 * i, le32 (1 OR push_bit 9 (of_nat (fixup_name_off imps i))))) [0 ..< length imps],
      so + length (fixup_names imps)))"

text \<open>Without imports there are a header and the count of the segments, whose starts are zero.\<close>

definition empty_fixups_size :: "nat \<Rightarrow> nat" where
  "empty_fixups_size nsegs = align_up 28 8 + 4 * (1 + nsegs)"

definition empty_fixups :: "nat \<Rightarrow> nat \<Rightarrow> (nat \<times> u8 list) list" where
  "empty_fixups dst nsegs =
    [(dst, chained_header (align_up 28 8) (empty_fixups_size nsegs) (empty_fixups_size nsegs) 0),
     (dst + align_up 28 8, le32 (of_nat nsegs) @ zeros 4)]"

section \<open>The whole layout\<close>

definition macho_nsegs :: "bool \<Rightarrow> nat" where
  "macho_nsegs dyn = (if dyn then 4 else 3)"

definition macho_lay_out :: "bool \<Rightarrow> exe_image \<Rightarrow> macho_layout" where
  "macho_lay_out link_c im =
    (let n_imp = length (ei_imports im); dyn = (link_c \<and> 0 < n_imp);
         text_bytes = length (ei_text im);
         stub_pad = align_up text_bytes 4 - text_bytes;
         sect_size = text_bytes + stub_pad + n_imp * 12;
         code_off = 32 + commands_size dyn;
         text_fp = align_up (code_off + sect_size) FILE_PAGE;
         le_fileoff = (if dyn then text_fp + FILE_PAGE else text_fp);
         cf_size = (if dyn then fixup_symbols_off (macho_nsegs dyn) n_imp + length (fixup_names (ei_imports im))
                    else empty_fixups_size (macho_nsegs dyn));
         sig_off = align_up (le_fileoff + cf_size) 16;
         n_slots = (sig_off + CS_PAGE - 1) div CS_PAGE in
     \<lparr>ml_dyn = dyn, ml_code = code_off, ml_stubs = code_off + text_bytes + stub_pad, ml_sect_size = sect_size,
      ml_text_end = text_fp, ml_linkedit = le_fileoff, ml_fixups_size = cf_size, ml_sig = sig_off, ml_slots = n_slots,
      ml_sig_size = 20 + (CD_HDR_SZ + (length CD_IDENT + 1)) + n_slots * DIGEST\<rparr>)"

text \<open>The capacity of the buffer that is allocated for the file, and the part of it for the commands.\<close>

definition macho_cmd_max :: nat where "macho_cmd_max = 32 + 0x400"

definition macho_img_cap :: "exe_image \<Rightarrow> nat" where
  "macho_img_cap im =
    (let n_imp = length (ei_imports im); text_bytes = length (ei_text im);
         sect_size = text_bytes + (align_up text_bytes 4 - text_bytes) + n_imp * 12;
         ident_len = length CD_IDENT + 1;
         name_bytes = 1 + sum_list (map (\<lambda>s. length s + 2) (ei_imports im));
         cf_max = 0x100 + 4 * n_imp + name_bytes;
         body_max = macho_cmd_max + sect_size + 2 * FILE_PAGE + cf_max;
         sig_max = 64 + CD_HDR_SZ + ident_len + (body_max div CS_PAGE + 2) * DIGEST in
     body_max + 16 + sig_max)"

section \<open>Commands of the file\<close>

definition macho_segment :: "string \<Rightarrow> u64 \<Rightarrow> nat \<Rightarrow> nat \<Rightarrow> nat \<Rightarrow> u32 \<Rightarrow> nat \<Rightarrow> segment_command" where
  "macho_segment name vm vmsize off filesize prot nsects =
     \<lparr>sc_cmdsize = of_nat (72 + 80 * nsects), sc_segname = name, sc_vmaddr = vm, sc_vmsize = of_nat vmsize,
      sc_fileoff = of_nat off, sc_filesize = of_nat filesize, sc_prot = prot, sc_nsects = of_nat nsects\<rparr>"

definition macho_data_commands :: "exe_image \<Rightarrow> macho_layout \<Rightarrow> builder \<Rightarrow> builder" where
  "macho_data_commands im ml b =
    (if ml_dyn ml then
       add_payload (section_bytes ''__got'' ''__DATA_CONST'' (TEXT_VM + of_nat (ml_text_end ml)) (length (ei_imports im) * 8)
           (ml_text_end ml) 3 0)
         (add_segment (segment_bytes (macho_segment ''__DATA_CONST'' (TEXT_VM + of_nat (ml_text_end ml)) FILE_PAGE
           (ml_text_end ml) FILE_PAGE 3 1)) b)
     else b)"

definition macho_library_commands :: "macho_layout \<Rightarrow> builder \<Rightarrow> builder" where
  "macho_library_commands ml b =
    (if ml_dyn ml then
       add_payload (path_bytes 24 LIB_PATH)
         (add_command (le32 0xc @ le32 (of_nat (path_cmdsize 24 LIB_PATH)) @ le32 24 @ le32 2 @ le32 0x05470000 @ le32 0x00010000) b)
     else b)"

definition macho_commands :: "exe_image \<Rightarrow> macho_layout \<Rightarrow> builder" where
  "macho_commands im ml =
    (let b1 = add_segment (segment_bytes \<lparr>sc_cmdsize = 72, sc_segname = ''__PAGEZERO'', sc_vmaddr = 0, sc_vmsize = TEXT_VM,
                sc_fileoff = 0, sc_filesize = 0, sc_prot = 0, sc_nsects = 0\<rparr>) builder0;
         b2 = add_segment (segment_bytes (macho_segment ''__TEXT'' TEXT_VM (ml_text_end ml) 0 (ml_text_end ml) 5 1)) b1;
         b3 = add_payload (section_bytes ''__text'' ''__TEXT'' (TEXT_VM + of_nat (ml_code ml)) (ml_sect_size ml) (ml_code ml) 2 0x80000400) b2;
         b4 = macho_data_commands im ml b3;
         b5 = add_segment (segment_bytes (macho_segment ''__LINKEDIT'' (TEXT_VM + of_nat (ml_linkedit ml)) FILE_PAGE
                (ml_linkedit ml) (ml_sig ml + ml_sig_size ml - ml_linkedit ml) 1 0)) b4;
         b6 = add_command (linkedit_data LC_DYLD_CHAINED_FIXUPS (ml_linkedit ml) (ml_fixups_size ml)) b5;
         b7 = add_payload (path_bytes 12 DYLD_PATH)
                (add_command (le32 0xe @ le32 (of_nat (path_cmdsize 12 DYLD_PATH)) @ le32 12) b6);
         b8 = macho_library_commands ml b7;
         b9 = add_command (le32 0x32 @ le32 24 @ le32 1 @ le32 0x000d0000 @ le32 0x000d0000 @ le32 0) b8;
         b10 = add_command (le32 0x80000028 @ le32 24 @ le64 (of_nat (ml_code ml + ei_entry im)) @ le64 0) b9 in
     add_command (linkedit_data LC_CODE_SIGNATURE (ml_sig ml) (ml_sig_size ml)) b10)"

definition macho_header :: "builder \<Rightarrow> u8 list" where
  "macho_header b = le32 0xfeedfacf @ le32 0x0100000c @ le32 0 @ le32 2 @ le32 (of_nat (bl_ncmds b)) @ le32 (of_nat (bl_sizeofcmds b))
     @ le32 0x200085 @ le32 0"

section \<open>Stubs, calls and slots\<close>

text \<open>A stub loads the address of its import from the slot and branches to it.\<close>

definition macho_stub :: "u64 \<Rightarrow> u64 \<Rightarrow> u8 list" where
  "macho_stub stub_vm got_vm =
    (let pages = signed_drop_bit 12 ((got_vm AND NOT 0xfff) - (stub_vm AND NOT 0xfff));
         immlo = ucast (pages AND 3) :: u32;
         immhi = ucast (signed_drop_bit 2 pages) AND 0x7ffff :: u32 in
     le32 (0x90000010 OR push_bit 29 immlo OR push_bit 5 immhi)
     @ le32 (0xf9400210 OR push_bit 10 (drop_bit 3 (ucast (got_vm AND 0xfff)))) @ le32 0xd61f0200)"

definition macho_bl :: "u64 \<Rightarrow> u64 \<Rightarrow> u8 list" where
  "macho_bl bl_vm stub_vm = le32 (0x94000000 OR (ucast (signed_drop_bit 2 (stub_vm - bl_vm)) AND 0x3ffffff))"

definition macho_slot :: "nat \<Rightarrow> nat \<Rightarrow> u8 list" where
  "macho_slot n_imp i = le64 (push_bit 63 1 OR push_bit 51 (if i + 1 < n_imp then 2 else 0) OR of_nat i)"

definition macho_code_writes :: "exe_image \<Rightarrow> macho_layout \<Rightarrow> (nat \<times> u8 list) list" where
  "macho_code_writes im ml =
    (let n_imp = length (ei_imports im); stub = (\<lambda>i. ml_stubs ml + i * 12) in
     [(ml_code ml, ei_text im)]
     @ map (\<lambda>i. (stub i, macho_stub (TEXT_VM + of_nat (stub i)) (TEXT_VM + of_nat (ml_text_end ml + i * 8)))) [0 ..< n_imp]
     @ map (\<lambda>e. (ml_code ml + fst e,
          macho_bl (TEXT_VM + of_nat (ml_code ml + fst e)) (TEXT_VM + of_nat (stub (snd e))))) (ei_extcalls im)
     @ (if ml_dyn ml then map (\<lambda>i. (ml_text_end ml + i * 8, macho_slot n_imp i)) [0 ..< n_imp] else []))"

section \<open>The signature\<close>

definition write_signature :: "nat \<Rightarrow> nat \<Rightarrow> u8 list list \<Rightarrow> u8 list" where
  "write_signature code_limit text_fp hashes =
    (let ident_len = length CD_IDENT + 1; n_slots = length hashes;
         cd_hash_off = CD_HDR_SZ + ident_len;
         cd_len = cd_hash_off + n_slots * DIGEST in
     be32 0xfade0cc0 @ be32 (of_nat (20 + cd_len)) @ be32 1 @ be32 0 @ be32 20
     @ be32 0xfade0c02 @ be32 (of_nat cd_len) @ be32 0x20400 @ be32 2 @ be32 (of_nat cd_hash_off) @ be32 (of_nat CD_HDR_SZ)
     @ be32 0 @ be32 (of_nat n_slots) @ be32 (of_nat code_limit) @ [of_nat DIGEST, 2, 0, 12]
     @ be32 0 @ be32 0 @ be32 0 @ be32 0 @ be64 0 @ be64 0 @ be64 (of_nat text_fp) @ be64 1
     @ cstr CD_IDENT @ concat hashes)"

definition page_hashes :: "(u8 list \<Rightarrow> u8 list) \<Rightarrow> macho_layout \<Rightarrow> img \<Rightarrow> u8 list list" where
  "page_hashes sha ml m =
    map (\<lambda>i. sha (peek m (i * CS_PAGE) (if CS_PAGE < ml_sig ml - i * CS_PAGE then CS_PAGE else ml_sig ml - i * CS_PAGE)))
      [0 ..< ml_slots ml]"

section \<open>The file\<close>

definition macho_writes :: "exe_image \<Rightarrow> macho_layout \<Rightarrow> (nat \<times> u8 list) list" where
  "macho_writes im ml =
    (let b = macho_commands im ml; nsegs = macho_nsegs (ml_dyn ml) in
     [(32, bl_bytes b)]
     @ (if ml_dyn ml then fst (build_chained_imports (ml_linkedit ml) nsegs 2 (ei_imports im) (ml_text_end ml))
        else empty_fixups (ml_linkedit ml) nsegs)
     @ [(0, macho_header b)] @ macho_code_writes im ml)"

definition write_macho :: "(u8 list \<Rightarrow> u8 list) \<Rightarrow> bool \<Rightarrow> exe_image \<Rightarrow> exe_error + u8 list" where
  "write_macho sha link_c im =
    (let ml = macho_lay_out link_c im; m = pokes (macho_writes im ml) img0 in
     if macho_cmd_max < ml_code ml then Inl MachoCommandsOverflow
     else Inr (peek (poke (ml_sig ml) (write_signature (ml_sig ml) (ml_text_end ml) (page_hashes sha ml m)) m)
            0 (ml_sig ml + ml_sig_size ml)))"

definition macho_emit_output :: "(u8 list \<Rightarrow> u8 list) \<Rightarrow> bool \<Rightarrow> a64 \<Rightarrow> exe_error + u8 list" where
  "macho_emit_output sha link_c st = write_macho sha link_c (exe_of_a64 (fst (bin_emit st)))"

end
