(* ===== verification/Exe_Bounds.thy ===== *)
theory Exe_Bounds
  imports Exe_Laws Exe_Pe Exe_Macho
begin

text \<open>
  The executable writers stay inside their buffers: the static \<open>img\<close> of the ELF and PE writers, and the block that the
  Mach-O writer allocates by an estimate made before the layout is known. The buffers of names of the dynamic ELF
  writer are filled before they are tested, and can overflow.
\<close>

definition within :: "nat \<Rightarrow> (nat \<times> u8 list) list \<Rightarrow> bool" where
  "within n ws \<longleftrightarrow> list_all (\<lambda>w. fst w + length (snd w) \<le> n) ws"

lemma within_simps [simp]:
  "within n []" "within n (w # ws) \<longleftrightarrow> fst w + length (snd w) \<le> n \<and> within n ws" "within n (vs @ ws) \<longleftrightarrow> within n vs \<and> within n ws"
  by (simp_all add: within_def)

lemma within_concat: "(\<And>x. x \<in> set xs \<Longrightarrow> within n (f x)) \<Longrightarrow> within n (concat (map f xs))"
  by (induction xs) simp_all

lemma within_map: "(\<And>x. x \<in> set xs \<Longrightarrow> fst (f x) + length (snd (f x)) \<le> n) \<Longrightarrow> within n (map f xs)"
  by (induction xs) simp_all

section \<open>ELF\<close>

lemma static_within:
  assumes "target_ok t" and "static_shdr_off t im + 3 * 64 \<le> n"
  shows "within n (static_writes t im)"
  using assms align_up_bounds(1) [of 8 "static_text_off t + length (ei_text im) + length shstrtab"]
  by (simp add: static_writes_def Let_def target_ok_def static_shdr_off_def static_text_off_def)

lemma dynamic_within:
  fixes t im
  defines "lo \<equiv> elf_dyn_layout t im"
  assumes t: "target_ok t" and n: "lo_total lo \<le> n"
  shows "within n (dyn_writes t im lo)" and "within n (dyn_tail t im lo)"
    and "sites_ok im \<Longrightarrow> e \<in> set (ei_extcalls im) \<Longrightarrow> lo_text lo + fst e + 4 \<le> n"
proof -
  note o = layout_order [of t im, folded lo_def]
  have plt: "plt_place t lo i + et_plt_entry_size t \<le> lo_text lo" if "i < length (ei_imports im) + 1" for i
  proof -
    have "i * et_plt_entry_size t \<le> length (ei_imports im) * et_plt_entry_size t"
      by (rule mult_le_mono1) (use that in simp)
    moreover have "(length (ei_imports im) + 1) * et_plt_entry_size t = length (ei_imports im) * et_plt_entry_size t + et_plt_entry_size t"
      by simp
    ultimately show ?thesis using o(8) unfolding plt_place_def by linarith
  qed
  have entry: "within n (plt_entry_writes t lo i)" if i: "i < length (ei_imports im) + 1" for i
    using plt [OF i] o n i t by (simp add: plt_entry_writes_def Let_def target_ok_def got_slot_def GOT_RESERVED_def)
  have l: "length (sym_bytes k) = 24" "length (rela_bytes t lo k) = 24" for k by (simp_all add: sym_bytes_def rela_bytes_def)
  have "within n (late_writes t im lo)"
    using o n t entry by (auto simp: late_writes_def length_dynamic_bytes target_ok_def intro!: within_concat)
  then show "within n (dyn_writes t im lo)"
    unfolding dyn_writes_split using o n
    by (auto simp: l length_hash_bytes dyn_phdrs_def intro!: within_concat within_map)
  show "within n (dyn_tail t im lo)"
    using o n by (simp add: dyn_tail_def dyn_sections_def)
  show "lo_text lo + fst e + 4 \<le> n" if "sites_ok im" "e \<in> set (ei_extcalls im)"
    using that o n by (auto simp: sites_ok_def list_all_iff)
qed

section \<open>PE\<close>

lemma pe_layout_order:
  fixes im
  defines "pl \<equiv> pe_lay_out im" and "n \<equiv> length (ei_imports im) + 1"
  shows "408 \<le> pl_headers pl" and "pl_thunks pl = PE_SECTION_ALIGN + 16" and "pl_code pl = pl_thunks pl + n * 6"
    and "pl_text_vsize pl = (pl_code pl - PE_SECTION_ALIGN) + length (ei_text im)"
    and "pl_text_vsize pl \<le> pl_text_raw pl" and "pl_idata_ptr pl = pl_headers pl + pl_text_raw pl"
    and "pl_ilt pl = 40" and "pl_iat pl = 40 + (n + 1) * 8" and "pl_names pl = pl_iat pl + (n + 1) * 8"
    and "pl_dllname pl = pe_name_off im pl n" and "pl_idata_vsize pl = pl_dllname pl + 11"
    and "pl_idata_vsize pl \<le> pl_idata_raw pl" and "pl_total pl = pl_idata_ptr pl + pl_idata_raw pl"
proof -
  note a = align_up_bounds(1) [of PE_FILE_ALIGN]
  have p: "0 < PE_FILE_ALIGN" by (simp add: PE_FILE_ALIGN_def)
  show "408 \<le> pl_headers pl" using a [OF p, of 408] by (simp add: pl_def pe_lay_out_def Let_def)
  show "pl_text_vsize pl \<le> pl_text_raw pl" "pl_idata_vsize pl \<le> pl_idata_raw pl"
    using a [OF p] by (simp_all add: pl_def pe_lay_out_def Let_def)
qed (simp_all add: pl_def n_def pe_lay_out_def Let_def pe_entry_stub_size_def pe_thunk_size_def pe_name_off_def PE_IMPORT_DLL_def)

lemma pe_name_off_mono:
  assumes "i < n"
  shows "pe_name_off im pl i + 2 + length (cstr (pe_import_name im i)) \<le> pe_name_off im pl n"
proof -
  have "[0 ..< n] = [0 ..< i] @ i # [Suc i ..< n]" by (rule upt_at [OF assms])
  moreover have "2 + length (cstr (pe_import_name im i)) \<le> pe_name_size im i"
    using align_up_bounds(1) [of 2 "2 + length (pe_import_name im i) + 1"] by (simp add: pe_name_size_def)
  ultimately show ?thesis by (simp add: pe_name_off_def)
qed

lemma pe_within:
  fixes im
  defines "pl \<equiv> pe_lay_out im"
  assumes s: "sites_ok im" and n: "pl_total pl \<le> n"
  shows "within n ([(0, pe_dos_header), (64, pe_file_header @ pe_optional_header pl), (64 + 264, pe_sections pl)]
                   @ pe_text_writes im pl @ pe_import_writes im pl)"
proof -
  note o = pe_layout_order [of im, folded pl_def]
  let ?k = "length (ei_imports im) + 1"
  have code: "pe_text_place pl (pl_code pl) + length (ei_text im) \<le> n"
    using o n by (simp add: pe_text_place_def)
  have thunk: "pe_text_place pl (pe_thunk_rva pl i) + 6 \<le> n" if "i < ?k" for i
    using o n that by (simp add: pe_text_place_def pe_thunk_rva_def pe_thunk_size_def)
  have len: "length (pe_rel a b) = 4" for a b by (simp add: pe_rel_def)
  have "within n (pe_text_writes im pl)"
    using code thunk o n s
    by (auto simp: pe_text_writes_def Let_def pe_build_entry_stub_def pe_build_thunk_def pe_patch_call_def len sites_ok_def list_all_iff
        intro!: within_map)
  moreover have "within n (pe_import_writes im pl)"
  proof -
    have name: "pl_idata_ptr pl + pe_name_off im pl i + 2 + length (cstr (pe_import_name im i)) \<le> n" if "i < ?k" for i
      using pe_name_off_mono [OF that, of im pl] o(10-13) n by simp
    have "pl_iat pl + (?k + 1) * 8 \<le> pl_dllname pl" using o(9,10) by (simp add: pe_name_off_def)
    then have "pl_idata_ptr pl + 40 \<le> n" and "\<And>i. i < ?k \<Longrightarrow> pl_idata_ptr pl + pl_ilt pl + i * 8 + 8 \<le> n"
      and "\<And>i. i < ?k \<Longrightarrow> pl_idata_ptr pl + pl_iat pl + i * 8 + 8 \<le> n" and "pl_idata_ptr pl + pl_dllname pl + 11 \<le> n"
      using o(7,8,11-13) n by simp_all
    then show ?thesis
      using name by (auto simp: pe_import_writes_def Let_def PE_IMPORT_DLL_def intro!: within_map within_concat)
  qed
  ultimately show ?thesis using o n by simp
qed

section \<open>Mach-O\<close>

lemma path_sizes: "path_cmdsize 12 DYLD_PATH = 32" "path_cmdsize 24 LIB_PATH = 56"
  by (simp_all add: path_cmdsize_def align_up_def DYLD_PATH_def LIB_PATH_def)

lemma commands_size_le: "commands_size dyn \<le> 616"
  by (simp add: commands_size_def path_sizes)

text \<open>The commands take as many bytes as the layout reckons with.\<close>

lemma length_commands: "length (bl_bytes (macho_commands im ml)) = commands_size (ml_dyn ml)"
  by (simp add: macho_commands_def Let_def macho_data_commands_def macho_library_commands_def add_command_def add_segment_def
      add_payload_def bld_append_def builder0_def commands_size_def path_sizes)

lemma macho_layout_order:
  fixes link_c im
  defines "ml \<equiv> macho_lay_out link_c im" and "n \<equiv> length (ei_imports im)"
  shows "ml_code ml = 32 + commands_size (ml_dyn ml)"
    and "ml_stubs ml = ml_code ml + align_up (length (ei_text im)) 4"
    and "ml_text_end ml < ml_code ml + align_up (length (ei_text im)) 4 + n * 12 + FILE_PAGE"
    and "ml_stubs ml + n * 12 \<le> ml_text_end ml"
    and "ml_linkedit ml = (if ml_dyn ml then ml_text_end ml + FILE_PAGE else ml_text_end ml)"
    and "ml_dyn ml \<Longrightarrow> ml_fixups_size ml = 80 + 4 * n + length (fixup_names (ei_imports im))"
    and "\<not> ml_dyn ml \<Longrightarrow> ml_fixups_size ml = 48"
    and "ml_linkedit ml + ml_fixups_size ml \<le> ml_sig ml" and "ml_sig ml < ml_linkedit ml + ml_fixups_size ml + 16"
    and "ml_slots ml = (ml_sig ml + 4095) div 4096" and "ml_sig_size ml = 112 + ml_slots ml * 32"
proof -
  have t: "length (ei_text im) \<le> align_up (length (ei_text im)) 4" by (rule align_up_bounds(1)) simp
  have f: "fixup_symbols_off (macho_nsegs True) n = 80 + 4 * n" "empty_fixups_size (macho_nsegs False) = 48"
    by (simp_all add: fixup_symbols_off_def fixup_imports_off_def sis_off_def sii_off_def macho_nsegs_def align_up_def empty_fixups_size_def)
  note p = align_up_bounds [of FILE_PAGE "32 + commands_size (ml_dyn ml) + (align_up (length (ei_text im)) 4 + n * 12)"]
  note q = align_up_bounds [of 16 "ml_linkedit ml + ml_fixups_size ml"]
  note d = ml_def macho_lay_out_def Let_def
  show "ml_code ml = 32 + commands_size (ml_dyn ml)"
    and "ml_stubs ml = ml_code ml + align_up (length (ei_text im)) 4"
    and "ml_linkedit ml = (if ml_dyn ml then ml_text_end ml + FILE_PAGE else ml_text_end ml)"
    and "ml_slots ml = (ml_sig ml + 4095) div 4096" and "ml_sig_size ml = 112 + ml_slots ml * 32"
    using t by (simp_all add: d CS_PAGE_def CD_HDR_SZ_def CD_IDENT_def DIGEST_def)
  show "ml_dyn ml \<Longrightarrow> ml_fixups_size ml = 80 + 4 * n + length (fixup_names (ei_imports im))"
    and "\<not> ml_dyn ml \<Longrightarrow> ml_fixups_size ml = 48"
    using f by (auto simp: d n_def)
  show "ml_text_end ml < ml_code ml + align_up (length (ei_text im)) 4 + n * 12 + FILE_PAGE"
    and "ml_stubs ml + n * 12 \<le> ml_text_end ml"
    using t p by (simp_all add: d n_def FILE_PAGE_def add.assoc)
  show "ml_linkedit ml + ml_fixups_size ml \<le> ml_sig ml" and "ml_sig ml < ml_linkedit ml + ml_fixups_size ml + 16"
    using q by (simp_all add: d)
qed

lemma length_fixup_names: "length (fixup_names imps) = 1 + sum_list (map (\<lambda>s. length s + 2) imps)"
  by (induction imps) (simp_all add: fixup_names_def)

lemma macho_sig_fits:
  fixes link_c im
  defines "ml \<equiv> macho_lay_out link_c im"
  shows "ml_sig ml + ml_sig_size ml \<le> macho_img_cap im"
proof -
  note o = macho_layout_order [of link_c im, folded ml_def]
  define body where "body = macho_cmd_max + (align_up (length (ei_text im)) 4 + length (ei_imports im) * 12) + 2 * FILE_PAGE
    + (0x100 + 4 * length (ei_imports im) + length (fixup_names (ei_imports im)))"
  have cap: "macho_img_cap im = body + 16 + (64 + CD_HDR_SZ + (length CD_IDENT + 1) + (body div CS_PAGE + 2) * DIGEST)"
    using align_up_bounds(1) [of 4 "length (ei_text im)"] by (simp add: macho_img_cap_def body_def length_fixup_names Let_def)
  have "ml_linkedit ml \<le> ml_text_end ml + FILE_PAGE"
    and "ml_fixups_size ml \<le> 80 + 4 * length (ei_imports im) + length (fixup_names (ei_imports im))"
    using o(5-7) by (cases "ml_dyn ml"; simp)+
  moreover have "ml_code ml \<le> 648" using o(1) commands_size_le [of "ml_dyn ml"] by simp
  ultimately have s: "ml_sig ml \<le> body" using o(3,9) by (simp add: body_def macho_cmd_max_def)
  have "(ml_sig ml + 4095) div 4096 \<le> (body + 4096) div 4096" using s by (intro div_le_mono) simp
  then have "ml_slots ml \<le> body div 4096 + 1" using o(10) by simp
  then show ?thesis
    using s o(11) by (simp add: cap CD_HDR_SZ_def CD_IDENT_def CS_PAGE_def DIGEST_def)
qed

lemma macho_within:
  fixes link_c im
  defines "ml \<equiv> macho_lay_out link_c im"
  assumes s: "sites_ok im" and n: "length (ei_imports im) \<le> 2048"
  shows "within (macho_img_cap im) (macho_writes im ml)"
proof -
  note o = macho_layout_order [of link_c im, folded ml_def]
  let ?n = "length (ei_imports im)" and ?N = "ml_sig ml"
  have t: "length (ei_text im) \<le> align_up (length (ei_text im)) 4" by (rule align_up_bounds(1)) simp
  have le: "ml_linkedit ml \<le> ?N" "ml_text_end ml \<le> ml_linkedit ml" "ml_linkedit ml + ml_fixups_size ml \<le> ?N"
    using o(5,8) by (auto split: if_splits)
  have code: "ml_code ml + length (ei_text im) \<le> ?N" "ml_stubs ml + ?n * 12 \<le> ?N" "648 \<le> ?N \<or> ml_code ml \<le> ?N"
    using o(2,4) le t by linarith+
  have fxs: "within ?N (fst (build_chained_imports (ml_linkedit ml) (macho_nsegs True) 2 (ei_imports im) (ml_text_end ml)))"
    if "ml_dyn ml"
  proof -
    have f: "sis_off 4 = 56" "fixup_imports_off 4 = 80" "sii_off = 32" "fixup_symbols_off 4 k = 80 + 4 * k" "macho_nsegs True = 4" for k
      by (simp_all add: fixup_symbols_off_def fixup_imports_off_def sis_off_def sii_off_def macho_nsegs_def align_up_def)
    show ?thesis
      using le(3) o(6) [OF that]
      by (auto simp: build_chained_imports_def Let_def f chained_header_def chained_starts_def intro!: within_map)
  qed
  have nofxs: "within ?N (empty_fixups (ml_linkedit ml) (macho_nsegs False))" if "\<not> ml_dyn ml"
    using le(3) o(7) [OF that] by (simp add: empty_fixups_def chained_header_def align_up_def)
  have slots: "ml_text_end ml + ?n * 8 \<le> ?N" if "ml_dyn ml"
    using o(5) le(1) n that by (simp add: FILE_PAGE_def)
  have "within ?N (macho_code_writes im ml)"
    using code slots s by (auto simp: macho_code_writes_def Let_def macho_stub_def macho_bl_def macho_slot_def sites_ok_def list_all_iff
        intro!: within_map)
  then have "within ?N (macho_writes im ml)"
    using fxs nofxs code o(1) by (auto simp: macho_writes_def Let_def length_commands macho_header_def)
  moreover have "?N \<le> macho_img_cap im" using macho_sig_fits [of link_c im, folded ml_def] by linarith
  ultimately show ?thesis by (auto simp: within_def list_all_iff)
qed

lemma length_concat_digests: "(\<And>h. h \<in> set hs \<Longrightarrow> length h = n) \<Longrightarrow> length (concat hs) = length hs * n"
  by (induction hs) simp_all

text \<open>The signature takes the room that the layout gives it, when the digest has the length that SHA-256 has.\<close>

lemma length_signature:
  assumes "\<And>x. length (sha x) = DIGEST"
  shows "length (write_signature limit fp (page_hashes sha (macho_lay_out link_c im) m)) = ml_sig_size (macho_lay_out link_c im)"
proof -
  let ?hs = "page_hashes sha (macho_lay_out link_c im) m"
  have "length (concat ?hs) = length ?hs * DIGEST"
    by (rule length_concat_digests) (auto simp: page_hashes_def assms)
  moreover have "length ?hs = ml_slots (macho_lay_out link_c im)" by (simp add: page_hashes_def)
  ultimately show ?thesis
    using macho_layout_order(11) [of link_c im] by (simp add: write_signature_def Let_def CD_IDENT_def DIGEST_def)
qed

section \<open>The names of the imports\<close>

text \<open>
  \<open>write_dynamic_elf\<close> fills two more buffers before it looks at any size: \<open>dynstr\<close> with the names, and \<open>sym_name_off\<close>
  with the place of each.
\<close>

definition DYNSTR_CAP :: nat where "DYNSTR_CAP = 0x2000"
definition SYM_NAME_CAP :: nat where "SYM_NAME_CAP = 64"

definition dynstr_writes :: "exe_image \<Rightarrow> (nat \<times> u8 list) list" where
  "dynstr_writes im = [(0, [0]), (1, cstr LIBNAME)]
     @ map (\<lambda>i. (sym_name_off im i, cstr (import_name im i))) [0 ..< length (ei_imports im) + 1]"

lemma sym_name_off_Suc:
  assumes "i < length (ei_imports im) + 1"
  shows "sym_name_off im (Suc i) = sym_name_off im i + length (cstr (import_name im i))"
proof -
  have "import_names im ! i = import_name im i" "i < length (import_names im)"
    using assms by (simp_all add: import_names_def del: upt_Suc)
  then show ?thesis by (simp add: sym_name_off_def take_Suc_conv_app_nth)
qed

lemma sym_name_off_bounds:
  "sym_name_off im (length (ei_imports im) + 1) = length (dynstr im)" "1 + length (cstr LIBNAME) \<le> sym_name_off im i"
  "i < length (ei_imports im) + 1 \<Longrightarrow> sym_name_off im (Suc i) \<le> length (dynstr im)"
proof -
  have l: "length (import_names im) = length (ei_imports im) + 1" by (simp add: import_names_def)
  then show e: "sym_name_off im (length (ei_imports im) + 1) = length (dynstr im)" by (simp add: sym_name_off_def dynstr_def)
  show "1 + length (cstr LIBNAME) \<le> sym_name_off im i" by (simp add: sym_name_off_def)
  assume i: "i < length (ei_imports im) + 1"
  have "concat (map cstr (import_names im)) = concat (map cstr (take (Suc i) (import_names im)))
      @ concat (map cstr (drop (Suc i) (import_names im)))"
    by (metis append_take_drop_id concat_append map_append)
  then show "sym_name_off im (Suc i) \<le> length (dynstr im)" by (simp add: sym_name_off_def dynstr_def)
qed

lemma dynstr_within: "within n (dynstr_writes im) \<longleftrightarrow> length (dynstr im) \<le> n"
proof
  let ?k = "length (ei_imports im)"
  assume "within n (dynstr_writes im)"
  then have "sym_name_off im ?k + length (cstr (import_name im ?k)) \<le> n" by (simp add: dynstr_writes_def)
  then show "length (dynstr im) \<le> n" using sym_name_off_Suc [of ?k im] sym_name_off_bounds(1) [of im] by simp
next
  assume n: "length (dynstr im) \<le> n"
  have "sym_name_off im i + length (cstr (import_name im i)) \<le> n" if "i < length (ei_imports im) + 1" for i
    using sym_name_off_Suc [OF that] sym_name_off_bounds(3) [OF that] n by simp
  then have "within n (map (\<lambda>i. (sym_name_off im i, cstr (import_name im i))) [0 ..< length (ei_imports im) + 1])"
    by (intro within_map) (simp del: upt_Suc)
  moreover have "1 + length (cstr LIBNAME) \<le> n" using sym_name_off_bounds(1,2) [of im] n by (metis le_trans)
  ultimately show "within n (dynstr_writes im)" by (simp add: dynstr_writes_def del: upt_Suc)
qed

text \<open>One place for every import and for the exit, in an array of \<open>cap\<close> elements.\<close>

definition places_fit :: "nat \<Rightarrow> exe_image \<Rightarrow> bool" where
  "places_fit cap im \<longleftrightarrow> list_all (\<lambda>i. i < cap) [0 ..< length (ei_imports im) + 1]"

lemma places_fit_iff: "places_fit cap im \<longleftrightarrow> length (ei_imports im) < cap"
  by (auto simp: places_fit_def list_all_iff)

section \<open>Properties\<close>

text \<open>
  Every store of an ELF writer: without imports the static file, refused or inside the image; with imports the
  names and their places first, each inside its buffer, and then the file, refused or inside the image with the
  patches of the calls.
\<close>

definition elf_stores_fit :: "elf_target \<Rightarrow> exe_image \<Rightarrow> bool" where
  "elf_stores_fit t im \<longleftrightarrow>
    (if ei_imports im = [] then isl (write_static_elf t im) \<or> within IMG_CAP (static_writes t im)
     else places_fit SYM_NAME_CAP im \<and> within DYNSTR_CAP (dynstr_writes im)
       \<and> (case write_dynamic_elf t im of
            None \<Rightarrow> False
          | Some (Inl _) \<Rightarrow> True
          | Some (Inr _) \<Rightarrow>
             (let lo = elf_dyn_layout t im in
              within IMG_CAP (dyn_writes t im lo) \<and> within IMG_CAP (dyn_tail t im lo)
              \<and> list_all (\<lambda>e. lo_text lo + fst e + 4 \<le> IMG_CAP) (ei_extcalls im))))"

text \<open>The PE writer refuses the image before it records the places of the names; then those and the file.\<close>

definition pe_stores_fit :: "exe_image \<Rightarrow> bool" where
  "pe_stores_fit im \<longleftrightarrow>
    (PE_MAX_IMPORTS < length (ei_imports im) + 1 \<or> places_fit PE_MAX_IMPORTS im)
    \<and> (isl (write_pe im)
       \<or> (let pl = pe_lay_out im in
          within IMG_CAP ([(0, pe_dos_header), (64, pe_file_header @ pe_optional_header pl), (64 + 264, pe_sections pl)]
                          @ pe_text_writes im pl @ pe_import_writes im pl)))"

text \<open>The Mach-O writer: everything it stores, and the signature behind it, in the block it allocated.\<close>

definition macho_stores_fit :: "bool \<Rightarrow> exe_image \<Rightarrow> bool" where
  "macho_stores_fit link_c im \<longleftrightarrow>
    (let ml = macho_lay_out link_c im in
       within (macho_img_cap im) (macho_writes im ml) \<and> ml_sig ml + ml_sig_size ml \<le> macho_img_cap im)"

definition exe_stores_fit :: "bool \<Rightarrow> exe_image \<Rightarrow> bool" where
  "exe_stores_fit link_c im \<longleftrightarrow>
    list_all (\<lambda>t. elf_stores_fit t im) [elf_x64, elf_a64] \<and> pe_stores_fit im \<and> macho_stores_fit link_c im"

lemma elf_stores:
  assumes t: "target_ok t" and s: "sites_ok im"
  shows "elf_stores_fit t im \<longleftrightarrow> ei_imports im = [] \<or> (length (ei_imports im) < 64 \<and> length (dynstr im) \<le> 0x2000)"
proof (cases "ei_imports im = []")
  case True
  have "isl (write_static_elf t im) \<or> within IMG_CAP (static_writes t im)"
    using static_within [OF t, of im IMG_CAP] by (simp add: write_static_elf_def Let_def not_less)
  then show ?thesis using True by (simp add: elf_stores_fit_def)
next
  case False
  let ?lo = "elf_dyn_layout t im"
  have names: "places_fit SYM_NAME_CAP im \<longleftrightarrow> length (ei_imports im) < 64" by (simp add: places_fit_iff SYM_NAME_CAP_def)
  have whole: "within IMG_CAP (dyn_writes t im ?lo) \<and> within IMG_CAP (dyn_tail t im ?lo)
      \<and> list_all (\<lambda>e. lo_text ?lo + fst e + 4 \<le> IMG_CAP) (ei_extcalls im)" if "lo_total ?lo \<le> IMG_CAP"
    using dynamic_within [OF t that] s by (simp add: list_all_iff)
  have out: "write_dynamic_elf t im = (if 64 < length (ei_imports im) + 1 \<or> 0x2000 < length (dynstr im) then None
     else if IMG_CAP < lo_total ?lo \<or> 62 < length (ei_imports im) + 1 then Some (Inl ElfDynamicTooLarge)
     else Some (Inr (peek (pokes (dyn_tail t im ?lo) (patch_extcalls t ?lo im (pokes (dyn_writes t im ?lo) img0))) 0 (lo_total ?lo))))"
    by (simp only: write_dynamic_elf_def Let_def)
  show ?thesis
  proof (cases "length (ei_imports im) < 64 \<and> length (dynstr im) \<le> 0x2000")
    case True
    then show ?thesis
      using False whole by (auto simp: elf_stores_fit_def names dynstr_within DYNSTR_CAP_def out Let_def)
  next
    case no: False
    then show ?thesis using False by (auto simp: elf_stores_fit_def names dynstr_within DYNSTR_CAP_def)
  qed
qed

lemma pe_stores:
  assumes "sites_ok im"
  shows "pe_stores_fit im"
proof -
  have "isl (write_pe im)
      \<or> within IMG_CAP ([(0, pe_dos_header), (64, pe_file_header @ pe_optional_header (pe_lay_out im)), (64 + 264, pe_sections (pe_lay_out im))]
                          @ pe_text_writes im (pe_lay_out im) @ pe_import_writes im (pe_lay_out im))"
    using pe_within [OF assms, of IMG_CAP] by (simp only: write_pe_def Let_def) (simp add: not_less)
  then show ?thesis by (auto simp: pe_stores_fit_def Let_def places_fit_iff)
qed

text \<open>
  C26. What the writers of executables store stays inside their buffers, except for the names of the imports. With at
  most 2048 imports and the sites of calls inside the code, the PE writer, the Mach-O writer, which allocates its
  buffer by an estimate made before it knows the layout, and the static ELF writer never write outside: each refuses
  the image or all its stores fit. The dynamic ELF writers fill the buffer of names and the array of their places
  before they test any size, so exactly when there are 64 or more imports, or more than 0x2000 bytes of names,
  something is written past one of them.
\<close>

theorem exe_writes_in_buffer:
  assumes "sites_ok im" and "length (ei_imports im) \<le> 2048"
  shows "exe_stores_fit link_c im \<longleftrightarrow> ei_imports im = [] \<or> (length (ei_imports im) < 64 \<and> length (dynstr im) \<le> 0x2000)"
  using elf_stores [OF target_ok_x64 assms(1)] elf_stores [OF target_ok_a64 assms(1)] pe_stores [OF assms(1)]
    macho_within [OF assms, of link_c] macho_sig_fits [of link_c im]
  by (simp add: exe_stores_fit_def macho_stores_fit_def Let_def)

text \<open>An image as the back ends can make it at their limit: 64 imports.\<close>

definition full_exe :: exe_image where
  "full_exe = ex_exe\<lparr>ei_imports := replicate 64 ''f'', ei_extcalls := []\<rparr>"

lemma exe_writes_in_buffer_witness: "exe_stores_fit True ex_exe \<and> \<not> exe_stores_fit True full_exe"
proof -
  have "sites_ok ex_exe" "length (ei_imports ex_exe) \<le> 2048" "length (ei_imports ex_exe) < 64"
    by (simp_all add: sites_ok_def ex_exe_def)
  moreover have "length (dynstr ex_exe) \<le> 0x2000"
    by (simp add: dynstr_def import_names_def import_name_def ex_exe_def LIBNAME_def)
  moreover have "sites_ok full_exe" "length (ei_imports full_exe) = 64" by (simp_all add: sites_ok_def full_exe_def)
  moreover have "ei_imports full_exe \<noteq> []" by (simp add: full_exe_def)
  ultimately show ?thesis
    using exe_writes_in_buffer [of ex_exe True] exe_writes_in_buffer [of full_exe True] by simp
qed

end
