(* ===== verification/Exe_Stub.thy ===== *)
theory Exe_Stub
  imports Exe_Elf Emit_Interface
begin

text \<open>
  \<open>src/alc/exe-elf.c\<close>: a back end whose emitters do nothing, and an output that is always the same ELF file, which
  exits with status 0. Its structures are those of \<open>elf.h\<close>, declared again.
\<close>

definition stub_back_end :: "unit back_end" where
  "stub_back_end = \<lparr>
     be_need_escaping = False,
     be_default_register_size = 8,
     be_fn_begin = (\<lambda>c st. Some st),
     be_fn_end = (\<lambda>c st. Some st),
     be_eightbyte_struct = (\<lambda>ts d dt args i sz limit st. Some (False, i, sz, st)),
     be_store_eightbytes = (\<lambda>ts b off lo lw hi hw h st. Some st),
     be_store_packed = (\<lambda>ts b off src n st. Some st),
     be_zerofill = (\<lambda>ts d off dt st. Some st),
     be_array_access = (\<lambda>ts d s off k st. Some st),
     be_elem_addr = (\<lambda>ts d ob ix st. Some st),
     be_mov = (\<lambda>ts d v st. Some st),
     be_mov_reg = (\<lambda>ts d s st. Some st),
     be_add = (\<lambda>ts d l v st. Some st),
     be_add_reg = (\<lambda>ts d l r st. Some st),
     be_sub = (\<lambda>ts d l v st. Some st),
     be_sub_reg = (\<lambda>ts d l r st. Some st),
     be_cmp = (\<lambda>ts l v st. Some st),
     be_cmp_reg = (\<lambda>ts l r c st. Some st),
     be_string_lit = (\<lambda>d s st. Some st),
     be_lsl = (\<lambda>ts d l v st. Some st),
     be_zero_out = (\<lambda>d st. Some st),
     be_cond_set = (\<lambda>ts d c st. Some st),
     be_str_reg = (\<lambda>ts d s off st. Some st),
     be_str_imm = (\<lambda>ts d v off st. Some st),
     be_ldr = (\<lambda>ts d s off st. Some st),
     be_str_regoff = (\<lambda>ts d s off st. Some st),
     be_str_imm_regoff = (\<lambda>ts d v off st. Some st),
     be_ldr_reg = (\<lambda>ts d s off st. Some st),
     be_branch = (\<lambda>f l i st. Some st),
     be_branch_cond = (\<lambda>c f l i st. Some st),
     be_label = (\<lambda>f l i st. Some st),
     be_prologue_epilogue = (\<lambda>pc st. Some st),
     be_fn_call = (\<lambda>s st. Some st),
     be_fn = (\<lambda>s st. Some st),
     be_ret = (\<lambda>st. Some st)\<rparr>"

definition code_stub :: "u8 list" where
  "code_stub = [0x31, 0xff, 0xb8, 0x3c, 0x00, 0x00, 0x00, 0x0f, 0x05]"

definition stub_emit_output :: "u8 list" where
  "stub_emit_output =
    (let image_size = 64 + 56 + length code_stub in
     ehdr_bytes \<lparr>eh_type = 2, eh_machine = 62, eh_version = 1, eh_entry = LOAD_BASE + 64 + 56, eh_phoff = 64, eh_shoff = 0,
       eh_flags = 0, eh_ehsize = 64, eh_phentsize = 56, eh_phnum = 1, eh_shentsize = 0, eh_shnum = 0, eh_shstrndx = 0\<rparr>
     @ phdr_bytes \<lparr>ph_type = 1, ph_flags = 5, ph_offset = 0, ph_vaddr = LOAD_BASE, ph_paddr = LOAD_BASE,
         ph_filesz = of_nat image_size, ph_memsz = of_nat image_size, ph_align = 0x1000\<rparr>
     @ code_stub)"

end
