(* ===== verification/Asm_Text.thy ===== *)
theory Asm_Text
  imports Buffers Parser_State
begin

text \<open>
  What the two back ends that write assembly text share: \<open>src/alc/emit_helper.h\<close>, and the strings that
  \<open>asm-linux.c\<close>, \<open>asm-macos.c\<close> and \<open>asm-windows.c\<close> define for an operating system.

  A context is the caller's object, so the contexts are a store. Text goes to a buffer of the active
  context. \<open>None\<close> stands for writing without a context, and for what the buffers leave undefined.
\<close>

section \<open>Numbers\<close>

definition hex_digit :: "nat \<Rightarrow> char" where
  "hex_digit d = (if d < 10 then char_of (48 + d) else char_of (87 + d))"

fun nat_hex :: "nat \<Rightarrow> string" where
  "nat_hex n = (if n < 16 then [hex_digit n] else nat_hex (n div 16) @ [hex_digit (n mod 16)])"

declare nat_hex.simps [simp del]

section \<open>State\<close>

definition TAB :: char where "TAB = char_of (9 :: nat)"

datatype asm_error =
    TooBig u8 | SourceSize usize | SourceTypeNull | UseMov | SizeOfZero | ElementSize | UnknownCondition cond
  | MaxContexts | CalleeRegsUsedUp | NegativeOffset i32 | RegistersUsedUp register_dst | IncorrectRsize u8

record asm_context =
  ac_header :: buf
  ac_prologue :: buf
  ac_fn :: buf

text \<open>\<open>as_string_begin\<close> is a pointer into the block the string buffer had when it was set, hence its capacity.\<close>

record asm =
  as_text :: buf
  as_cstr :: buf
  as_string_begin :: nat
  as_string_block :: nat
  as_lits :: u32
  as_ctxs :: "nat \<Rightarrow> asm_context"
  as_stack :: "nat option list"
  as_active :: "nat option"
  as_errs :: "asm_error list"

definition INIT_BUFSIZ :: nat where "INIT_BUFSIZ = 0x400"
definition MAX_CONTEXTS :: nat where "MAX_CONTEXTS = 10"

type_synonym emitter = "asm \<Rightarrow> asm option"

primrec seqs :: "emitter list \<Rightarrow> emitter" where
  "seqs [] st = Some st"
| "seqs (e # es) st = Option.bind (e st) (seqs es)"

definition skip :: emitter where
  "skip st = Some st"

definition report :: "asm_error \<Rightarrow> emitter" where
  "report e st = Some (st\<lparr>as_errs := as_errs st @ [e]\<rparr>)"

section \<open>The buffers of a context\<close>

datatype place = Header | Prologue | Fn

fun buf_at :: "place \<Rightarrow> asm_context \<Rightarrow> buf" where
  "buf_at Header c = ac_header c"
| "buf_at Prologue c = ac_prologue c"
| "buf_at Fn c = ac_fn c"

fun set_buf :: "place \<Rightarrow> buf \<Rightarrow> asm_context \<Rightarrow> asm_context" where
  "set_buf Header b c = c\<lparr>ac_header := b\<rparr>"
| "set_buf Prologue b c = c\<lparr>ac_prologue := b\<rparr>"
| "set_buf Fn b c = c\<lparr>ac_fn := b\<rparr>"

definition on_buf :: "place \<Rightarrow> (buf \<Rightarrow> buf option) \<Rightarrow> emitter" where
  "on_buf p f st =
    (case as_active st of None \<Rightarrow> None
     | Some c \<Rightarrow>
         map_option (\<lambda>b. st\<lparr>as_ctxs := (as_ctxs st)(c := set_buf p b (as_ctxs st c))\<rparr>) (f (buf_at p (as_ctxs st c))))"

definition tputs :: "string \<Rightarrow> emitter" where
  "tputs s = on_buf Fn (buf_puts s)"

definition tputc :: "char \<Rightarrow> emitter" where
  "tputc c = on_buf Fn (buf_putc c)"

definition tprint :: "string \<Rightarrow> emitter" where
  "tprint s = on_buf Fn (buf_snprintf s)"

text \<open>An instruction as the macro \<open>INSTR\<close> makes it: a tab before and a newline after.\<close>

definition INSTR :: "string \<Rightarrow> string" where
  "INSTR s = TAB # s @ [NL]"

section \<open>Operating systems\<close>

text \<open>
  The empty \<open>fn_annotation_fmt\<close> is \<open>None\<close>. The Windows file has no formats for addresses, so it does not link
  with the AArch64 back end, and the macOS file has no names of registers, so it does not link with the other.
\<close>

record asm_regs =
  rn_scratch :: "string list"
  rn_callee :: "string list"
  rn_param :: "string list"
  rn_ret :: "string list"

record asm_os =
  os_text_header :: string
  os_string_header :: string
  os_addrgen :: "((int \<Rightarrow> string \<Rightarrow> string) \<times> (int \<Rightarrow> int \<Rightarrow> string \<Rightarrow> string)) option"
  os_fn_prefix :: string
  os_annotation :: "(string \<Rightarrow> string) option"
  os_local_string :: "u32 \<Rightarrow> string"
  os_rnames :: "asm_regs option"

definition rnames_linux :: asm_regs where
  "rnames_linux = \<lparr>
     rn_scratch = [''ax'', ''cx'', ''dx'', ''si'', ''di'', ''r8'', ''r9''],
     rn_callee = [''bx'', ''r12'', ''r13'', ''r14'', ''r15'', ''r10'', ''r11''],
     rn_param = [''di'', ''si'', ''dx'', ''cx'', ''r8'', ''r9''],
     rn_ret = [''ax'', ''dx'']\<rparr>"

definition rnames_windows :: asm_regs where
  "rnames_windows = \<lparr>
     rn_scratch = [''ax'', ''cx'', ''dx'', ''r8'', ''r9'', ''r10'', ''r11''],
     rn_callee = [''bx'', ''si'', ''di'', ''r12'', ''r13'', ''r14'', ''r15''],
     rn_param = [''cx'', ''dx'', ''r8'', ''r9'', ''r10'', ''r11''],
     rn_ret = [''ax'', ''dx'']\<rparr>"

definition asm_linux :: asm_os where
  "asm_linux = \<lparr>
     os_text_header = INSTR ''.text'',
     os_string_header = INSTR (''.section'' @ TAB # ''.rodata.str1.1,'' @ [QUOTE] @ ''aMS'' @ [QUOTE] @ '',@progbits,1''),
     os_addrgen = Some (\<lambda>r s. INSTR (''adrp x'' @ int_dec r @ '', '' @ s),
       \<lambda>r r' s. INSTR (''add x'' @ int_dec r @ '', x'' @ int_dec r' @ '', :lo12:'' @ s)),
     os_fn_prefix = '''',
     os_annotation = Some (\<lambda>f. INSTR (''.type '' @ f @ '', @function'')),
     os_local_string = (\<lambda>k. ''.L.str.'' @ int_dec (sint k)),
     os_rnames = Some rnames_linux\<rparr>"

definition asm_macos :: asm_os where
  "asm_macos = \<lparr>
     os_text_header = INSTR (''.section'' @ TAB # ''__TEXT,__text,regular,pure_instructions''),
     os_string_header = INSTR (''.section'' @ TAB # ''__TEXT,__cstring,cstring_literals''),
     os_addrgen = Some (\<lambda>r s. INSTR (''adrp x'' @ int_dec r @ '', '' @ s @ ''@PAGE''),
       \<lambda>r r' s. INSTR (''add x'' @ int_dec r @ '', x'' @ int_dec r' @ '', '' @ s @ ''@PAGEOFF'')),
     os_fn_prefix = ''_'',
     os_annotation = None,
     os_local_string = (\<lambda>k. ''l_.str.'' @ int_dec (sint k)),
     os_rnames = None\<rparr>"

definition asm_windows :: asm_os where
  "asm_windows = \<lparr>
     os_text_header = INSTR ''.text'',
     os_string_header = '''',
     os_addrgen = None,
     os_fn_prefix = '''',
     os_annotation = Some (\<lambda>f. INSTR (''.def '' @ f @ '';'') @ INSTR ''.scl 2;'' @ INSTR ''.type 32;'' @ INSTR ''.endef''),
     os_local_string = (\<lambda>k. ''.Lstr.'' @ int_dec (sint k)),
     os_rnames = Some rnames_windows\<rparr>"

section \<open>Functions and output\<close>

text \<open>\<open>emit_init\<close> sets up everything but the contexts, which are the caller's.\<close>

definition emit_init_t :: "asm_os \<Rightarrow> (nat \<Rightarrow> asm_context) \<Rightarrow> asm option" where
  "emit_init_t os cs =
    (case buf_puts (os_text_header os) (buf_init INIT_BUFSIZ) of None \<Rightarrow> None
     | Some t \<Rightarrow>
        map_option (\<lambda>c. \<lparr>as_text = t, as_cstr = c, as_string_begin = buf_len c, as_string_block = buf_cap c, as_lits = 0, as_ctxs = cs,
            as_stack = [], as_active = None, as_errs = []\<rparr>)
          (buf_puts (os_string_header os) (buf_init INIT_BUFSIZ)))"

definition emit_fn_begin_t :: "nat \<Rightarrow> emitter" where
  "emit_fn_begin_t c st =
    (if length (as_stack st) = MAX_CONTEXTS then report MaxContexts st
     else Some (st\<lparr>as_stack := as_active st # as_stack st, as_active := Some c,
       as_ctxs := (as_ctxs st)(c := \<lparr>ac_header = buf_init 0x100, ac_prologue = buf_init INIT_BUFSIZ, ac_fn = buf_init INIT_BUFSIZ\<rparr>)\<rparr>))"

definition emit_fn_end_t :: "nat \<Rightarrow> emitter" where
  "emit_fn_end_t c st =
    (let x = as_ctxs st c in
     map_option (\<lambda>t. st\<lparr>as_text := t, as_active := (case as_stack st of [] \<Rightarrow> None | a # _ \<Rightarrow> a),
         as_stack := (case as_stack st of [] \<Rightarrow> [] | _ # as \<Rightarrow> as)\<rparr>)
       (Option.bind (Option.bind (buf_putbuf (ac_header x) (as_text st)) (buf_putbuf (ac_prologue x))) (buf_putbuf (ac_fn x))))"

text \<open>
  The test whether there are strings compares the end of the buffer with the pointer that \<open>emit_init\<close>
  kept. Once the buffer has grown the pointer is dangling and the comparison undefined.
\<close>

definition emit_output_t :: "asm \<Rightarrow> string option" where
  "emit_output_t st =
    (if buf_cap (as_cstr st) \<noteq> as_string_block st then None
     else Some (b_text (as_text st) @ (if as_string_begin st < buf_len (as_cstr st) then b_text (as_cstr st) else [])))"

section \<open>Operands\<close>

text \<open>
  The syntax of a target: how \<open>buf_putreg\<close> writes a register, and the prefix of an immediate.
\<close>

record asm_syntax =
  sy_putreg :: "place \<Rightarrow> reg \<Rightarrow> emitter"
  sy_imm_prefix :: string

definition imm_text :: "string \<Rightarrow> i64 \<Rightarrow> string" where
  "imm_text prefix i = prefix @ (if i <s 0 then ''-0x'' @ nat_hex (unat (- i)) else ''0x'' @ nat_hex (unat i))"

definition buf_comma :: emitter where
  "buf_comma = tputs '', ''"

definition buf_puti :: "asm_syntax \<Rightarrow> i64 \<Rightarrow> emitter" where
  "buf_puti sy i = tprint (imm_text (sy_imm_prefix sy) i)"

definition emit_r :: "asm_syntax \<Rightarrow> place \<Rightarrow> string \<Rightarrow> reg \<Rightarrow> emitter" where
  "emit_r sy p op r = seqs [on_buf p (buf_snprintf (TAB # op @ '' '')), sy_putreg sy p r, on_buf p (buf_putc NL)]"

definition emit_rx :: "asm_syntax \<Rightarrow> string \<Rightarrow> reg \<Rightarrow> emitter" where
  "emit_rx sy op r0 = seqs [tputc TAB, tputs op, tputc CHR '' '', sy_putreg sy Fn r0]"

definition emit_rix :: "asm_syntax \<Rightarrow> string \<Rightarrow> reg \<Rightarrow> i64 \<Rightarrow> emitter" where
  "emit_rix sy op r0 i0 = seqs [emit_rx sy op r0, tputs '', '', buf_puti sy i0]"

definition emit_ri :: "asm_syntax \<Rightarrow> string \<Rightarrow> reg \<Rightarrow> i64 \<Rightarrow> emitter" where
  "emit_ri sy op r0 i0 = seqs [emit_rx sy op r0, tputs '', '', buf_puti sy i0, tputc NL]"

definition emit_risi :: "asm_syntax \<Rightarrow> string \<Rightarrow> reg \<Rightarrow> i64 \<Rightarrow> string \<Rightarrow> i64 \<Rightarrow> emitter" where
  "emit_risi sy op r0 i0 s0 i1 = seqs [emit_rix sy op r0 i0, buf_comma, tputs s0, tputc CHR '' '', buf_puti sy i1, tputc NL]"

definition emit_rrx :: "asm_syntax \<Rightarrow> string \<Rightarrow> reg \<Rightarrow> reg \<Rightarrow> emitter" where
  "emit_rrx sy op r0 r1 = seqs [emit_rx sy op r0, tputs '', '', sy_putreg sy Fn r1]"

definition emit_rr :: "asm_syntax \<Rightarrow> string \<Rightarrow> reg \<Rightarrow> reg \<Rightarrow> emitter" where
  "emit_rr sy op r0 r1 = seqs [emit_rrx sy op r0 r1, tputc NL]"

definition emit_rrr :: "asm_syntax \<Rightarrow> string \<Rightarrow> reg \<Rightarrow> reg \<Rightarrow> reg \<Rightarrow> emitter" where
  "emit_rrr sy op r0 r1 r2 = seqs [emit_rrx sy op r0 r1, tputs '', '', sy_putreg sy Fn r2, tputc NL]"

definition emit_rri :: "asm_syntax \<Rightarrow> string \<Rightarrow> reg \<Rightarrow> reg \<Rightarrow> i64 \<Rightarrow> emitter" where
  "emit_rri sy op r0 r1 i0 = seqs [emit_rrx sy op r0 r1, tputs '', '', buf_puti sy i0, tputc NL]"

definition emit_rrii :: "asm_syntax \<Rightarrow> string \<Rightarrow> reg \<Rightarrow> reg \<Rightarrow> i64 \<Rightarrow> i64 \<Rightarrow> emitter" where
  "emit_rrii sy op r0 r1 i0 i1 = seqs [emit_rrx sy op r0 r1, tputs '', '', buf_puti sy i0, tputs '', '', buf_puti sy i1, tputc NL]"

definition emit_rrrx :: "asm_syntax \<Rightarrow> string \<Rightarrow> reg \<Rightarrow> reg \<Rightarrow> reg \<Rightarrow> emitter" where
  "emit_rrrx sy op r0 r1 r2 = seqs [emit_rrx sy op r0 r1, tputs '', '', sy_putreg sy Fn r2]"

definition put_label :: "string \<Rightarrow> string \<Rightarrow> int \<Rightarrow> emitter" where
  "put_label fn_name label index =
    seqs ([tputc CHR ''.'', tputs fn_name, tputc CHR ''.'', tputs label] @ (if 0 < index then [tprint (int_dec index)] else []))"

text \<open>The label of a string literal, and its line in the section of strings.\<close>

definition on_cstr :: "(buf \<Rightarrow> buf option) \<Rightarrow> emitter" where
  "on_cstr f st = map_option (\<lambda>b. st\<lparr>as_cstr := b\<rparr>) (f (as_cstr st))"

definition next_lit :: "asm_os \<Rightarrow> asm \<Rightarrow> string \<times> asm" where
  "next_lit os st = (os_local_string os (as_lits st), st\<lparr>as_lits := as_lits st + 1\<rparr>)"

definition put_cstr :: "string \<Rightarrow> string \<Rightarrow> emitter" where
  "put_cstr label s =
    seqs [on_cstr (buf_snprintf (label @ '':'' @ [NL])), on_cstr (buf_puts (TAB # ''.asciz '')), on_cstr (buf_puts s), on_cstr (buf_putc NL)]"

end
