(* ===== verification/A64_Asm.thy ===== *)
theory A64_Asm
  imports Asm_Text
begin

text \<open>
  \<open>src/alc/asm-aarch64.c\<close>: the back end that writes AArch64 assembly. Its functions carry the suffix \<open>_ta\<close>;
  those that both back ends of the machine declare alike keep their names otherwise. \<open>None\<close> stands for
  \<open>unreachable\<close>, a null base type, and reading past the members of a type.
\<close>

section \<open>Registers\<close>

definition get_regoff_ta :: "reg \<Rightarrow> i32" where
  "get_regoff_ta e =
    (case r_type e of
       SCRATCH \<Rightarrow> r_offset e + 8 | NREG \<Rightarrow> r_offset e + 19 | FRAME \<Rightarrow> 29 | STACK \<Rightarrow> 31 | _ \<Rightarrow> r_offset e)"

definition regno_text :: "reg \<Rightarrow> string" where
  "regno_text r = int_dec (sint (get_regoff_ta r))"

text \<open>\<open>get_wx\<close> reports a size above eight and goes on with \<open>x\<close>; \<open>k\<close> is what is printed with its result.\<close>

definition get_wx :: "u8 \<Rightarrow> (string \<Rightarrow> emitter) \<Rightarrow> emitter" where
  "get_wx rsize k =
    (if rsize \<le> 4 then k ''w'' else if rsize \<le> 8 then k ''x'' else seqs [report (TooBig rsize), k ''x''])"

definition buf_putreg_ta :: "place \<Rightarrow> reg \<Rightarrow> emitter" where
  "buf_putreg_ta p r =
    (if r_type r = RD_NONE then on_buf p (buf_snprintf (if r_rsize r \<le> 4 then ''wzr'' else ''xzr''))
     else if r_type r = STACK then on_buf p (buf_puts ''sp'')
     else if r_rsize r \<le> 4 then on_buf p (buf_snprintf (CHR ''w'' # regno_text r))
     else if r_rsize r \<le> 8 then on_buf p (buf_snprintf (CHR ''x'' # regno_text r))
     else report (TooBig (r_rsize r)))"

definition a64_syntax :: asm_syntax where
  "a64_syntax = \<lparr>sy_putreg = buf_putreg_ta, sy_imm_prefix = ''#''\<rparr>"

abbreviation putreg_ta :: "reg \<Rightarrow> emitter" where "putreg_ta \<equiv> buf_putreg_ta Fn"
abbreviation puti_ta :: "i64 \<Rightarrow> emitter" where "puti_ta \<equiv> buf_puti a64_syntax"
abbreviation rx :: "string \<Rightarrow> reg \<Rightarrow> emitter" where "rx \<equiv> emit_rx a64_syntax"
abbreviation ri :: "string \<Rightarrow> reg \<Rightarrow> i64 \<Rightarrow> emitter" where "ri \<equiv> emit_ri a64_syntax"
abbreviation risi :: "string \<Rightarrow> reg \<Rightarrow> i64 \<Rightarrow> string \<Rightarrow> i64 \<Rightarrow> emitter" where "risi \<equiv> emit_risi a64_syntax"
abbreviation rrx :: "string \<Rightarrow> reg \<Rightarrow> reg \<Rightarrow> emitter" where "rrx \<equiv> emit_rrx a64_syntax"
abbreviation rr :: "string \<Rightarrow> reg \<Rightarrow> reg \<Rightarrow> emitter" where "rr \<equiv> emit_rr a64_syntax"
abbreviation rrr :: "string \<Rightarrow> reg \<Rightarrow> reg \<Rightarrow> reg \<Rightarrow> emitter" where "rrr \<equiv> emit_rrr a64_syntax"
abbreviation rri :: "string \<Rightarrow> reg \<Rightarrow> reg \<Rightarrow> i64 \<Rightarrow> emitter" where "rri \<equiv> emit_rri a64_syntax"
abbreviation rrii :: "string \<Rightarrow> reg \<Rightarrow> reg \<Rightarrow> i64 \<Rightarrow> i64 \<Rightarrow> emitter" where "rrii \<equiv> emit_rrii a64_syntax"
abbreviation rrrx :: "string \<Rightarrow> reg \<Rightarrow> reg \<Rightarrow> reg \<Rightarrow> emitter" where "rrrx \<equiv> emit_rrrx a64_syntax"

definition cond_str_ta :: "string list" where
  "cond_str_ta = [''eq'', ''ne'', ''hs'', ''lo'', ''mi'', ''pl'', ''vs'', ''vc'', ''hi'', ''ls'', ''ge'', ''lt'', ''gt'', ''le'', ''al'', ''nv'']"

section \<open>Moves\<close>

definition emit_mov_lane_ta :: "reg \<Rightarrow> i64 \<Rightarrow> i64 \<Rightarrow> bool \<Rightarrow> emitter" where
  "emit_mov_lane_ta dst chunk offset_bits initialized =
    (if initialized then risi ''movk'' dst chunk ''lsl'' offset_bits else risi ''movz'' dst chunk ''lsl'' offset_bits)"

fun mov_lanes :: "reg \<Rightarrow> i64 \<Rightarrow> nat list \<Rightarrow> bool \<Rightarrow> asm \<Rightarrow> (bool \<times> asm) option" where
  "mov_lanes dst value [] initialized st = Some (initialized, st)"
| "mov_lanes dst value (lane # lanes) initialized st =
    (let chunk = signed_drop_bit (lane * 16) value AND 0xffff in
     if chunk = 0 then mov_lanes dst value lanes initialized st
     else Option.bind (emit_mov_lane_ta dst chunk (of_nat (lane * 16)) initialized st) (mov_lanes dst value lanes True))"

definition emit_mov_wide :: "reg \<Rightarrow> i64 \<Rightarrow> emitter" where
  "emit_mov_wide dst0 value st =
    (let dst = (if 0xffffffff <s value then dst0\<lparr>r_rsize := 8\<rparr> else dst0) in
     Option.bind (mov_lanes dst value [0 ..< (if 4 < r_rsize dst then 4 else 2)] False st)
       (\<lambda>(initialized, st1). if initialized then Some st1 else emit_mov_lane_ta dst 0 0 False st1))"

definition emit_mov_ta :: "reg \<Rightarrow> i64 \<Rightarrow> emitter" where
  "emit_mov_ta dst value =
    (if d_base (r_dtype dst) = Some COMPTIME then
       (if value \<le>s 0xffff then
          get_wx (r_rsize dst) (\<lambda>w. tprint (INSTR (''mov '' @ w @ regno_text dst @ '', #'' @ int_dec (sint (ucast value :: i32)))))
        else emit_mov_wide dst value)
     else ri ''mov'' dst value)"

definition emit_zero_out_ta :: "reg \<Rightarrow> emitter" where
  "emit_zero_out_ta dst = emit_mov_ta dst 0"

definition put_xt :: "type_t \<Rightarrow> emitter" where
  "put_xt t =
    seqs [tputc (if ty_sign t then CHR ''s'' else CHR ''u''), tputs ''xt'',
      (if ty_size t = 1 then tputc CHR ''b'' else if ty_size t = 2 then tputc CHR ''h'' else if ty_size t = 4 then tputc CHR ''w''
       else report (SourceSize (ty_size t))),
      tputc CHR '' '']"

definition type_conv_ta :: "tstore \<Rightarrow> reg \<Rightarrow> reg \<Rightarrow> emitter" where
  "type_conv_ta ts dst src =
    (case base_type ts (r_dtype src) of None \<Rightarrow> report SourceTypeNull
     | Some t \<Rightarrow>
        let d = regno_text dst; s = regno_text src;
            and_mask = (\<lambda>w m. tprint (''and '' @ w @ d @ '', '' @ w @ s @ '', #0x'' @ m @ [NL])) in
        if ty_sign t then
          seqs [tputc TAB, put_xt t, get_wx (r_rsize dst) (\<lambda>w. tprint ('' '' @ w @ d @ '', '')),
            get_wx (r_rsize src) (\<lambda>w. tprint (w @ s @ [NL]))]
        else
          seqs [tputc TAB, get_wx (r_rsize dst) (\<lambda>w.
            if ty_size t = 1 then and_mask w ''ff'' else if ty_size t = 2 then and_mask w ''ffff''
            else if ty_size t = 4 then tprint (''mov w'' @ d @ '', w'' @ s @ [NL]) else report UseMov)])"

definition emit_mov_reg_ta :: "tstore \<Rightarrow> reg \<Rightarrow> reg \<Rightarrow> emitter" where
  "emit_mov_reg_ta ts dst0 src =
    (let dst = (if dtype_tryget_addr (r_dtype dst0) \<noteq> 0 then dst0\<lparr>r_rsize := 8\<rparr> else dst0);
         mov = (\<lambda>w. tprint (INSTR (''mov '' @ w @ regno_text dst @ '', '' @ w @ regno_text src))) in
     if reg_eq dst0 src then skip
     else if r_rsize src < r_rsize dst then type_conv_ta ts dst src
     else if r_rsize dst \<le> 4 then mov ''w'' else if r_rsize dst \<le> 8 then mov ''x'' else (\<lambda>st. None))"

section \<open>Arithmetic\<close>

definition emit_add_ta :: "tstore \<Rightarrow> reg \<Rightarrow> reg \<Rightarrow> i64 \<Rightarrow> emitter" where
  "emit_add_ta ts dst lhs rhs =
    (if rhs = 0 then emit_mov_reg_ta ts dst lhs
     else seqs [tputs (TAB # ''add ''), putreg_ta dst, tputs '', '', putreg_ta lhs, tputs '', '',
       tprint (CHR ''#'' # int_dec (sint rhs) @ [NL])])"

definition buf_put_ext :: "tstore \<Rightarrow> reg \<Rightarrow> emitter" where
  "buf_put_ext ts narrow =
    (let t = base_type ts (r_dtype narrow);
         sz = (case t of None \<Rightarrow> ucast (r_rsize narrow) | Some t' \<Rightarrow> ty_size t') in
     seqs [tputc (if (case t of None \<Rightarrow> False | Some t' \<Rightarrow> ty_sign t') then CHR ''s'' else CHR ''u''), tputs ''xt'',
       tputc (if sz = 1 then CHR ''b'' else if sz = 2 then CHR ''h'' else CHR ''w'')])"

definition emit_add_reg_ta :: "tstore \<Rightarrow> reg \<Rightarrow> reg \<Rightarrow> reg \<Rightarrow> emitter" where
  "emit_add_reg_ta ts dst lhs rhs =
    (if r_rsize lhs \<noteq> r_rsize rhs then
       (let wide = (if r_rsize rhs < r_rsize lhs then lhs else rhs);
            narrow = (if r_rsize rhs < r_rsize lhs then rhs else lhs) in
        seqs [rrrx ''add'' dst wide narrow, buf_comma, buf_put_ext ts narrow, tputc NL])
     else rrr ''add'' dst lhs rhs)"

definition emit_sub_ta :: "tstore \<Rightarrow> reg \<Rightarrow> reg \<Rightarrow> i64 \<Rightarrow> emitter" where
  "emit_sub_ta ts dst lhs rhs = (if rhs = 0 then emit_mov_reg_ta ts dst lhs else rri ''sub'' dst lhs rhs)"

definition emit_sub_reg_ta :: "tstore \<Rightarrow> reg \<Rightarrow> reg \<Rightarrow> reg \<Rightarrow> emitter" where
  "emit_sub_reg_ta ts dst lhs rhs =
    (if r_rsize lhs = r_rsize rhs then rrr ''sub'' dst lhs rhs
     else if r_rsize rhs < r_rsize lhs then seqs [rrrx ''sub'' dst lhs rhs, buf_comma, buf_put_ext ts rhs, tputc NL]
     else
      (let tmp = reg0\<lparr>r_type := SCRATCH, r_offset := 8, r_rsize := r_rsize dst, r_dtype := r_dtype lhs\<rparr> in
       seqs [emit_mov_reg_ta ts tmp lhs, rrr ''sub'' dst tmp rhs]))"

definition emit_cmp_ta :: "reg \<Rightarrow> i64 \<Rightarrow> emitter" where
  "emit_cmp_ta lhs rhs = ri ''cmp'' lhs rhs"

definition emit_cmp_reg_ta :: "tstore \<Rightarrow> reg \<Rightarrow> reg \<Rightarrow> cond \<Rightarrow> emitter" where
  "emit_cmp_reg_ta ts lhs rhs c =
    (if r_rsize lhs = r_rsize rhs then rr ''cmp'' lhs rhs
     else if r_rsize rhs < r_rsize lhs then seqs [rrx ''cmp'' lhs rhs, buf_comma, buf_put_ext ts rhs, tputc NL]
     else
      (let tmp = reg0\<lparr>r_type := SCRATCH, r_offset := 8, r_rsize := r_rsize rhs, r_dtype := r_dtype lhs\<rparr> in
       if c = COND_EQ \<or> c = COND_NE then rr ''cmp'' (tmp\<lparr>r_type := r_type lhs, r_offset := r_offset lhs\<rparr>) rhs
       else seqs [emit_mov_reg_ta ts tmp lhs, rr ''cmp'' tmp rhs]))"

definition emit_lsl_ta :: "reg \<Rightarrow> reg \<Rightarrow> i64 \<Rightarrow> emitter" where
  "emit_lsl_ta dst lhs rhs = rri ''lsl'' dst lhs rhs"

definition emit_cond_set_ta :: "reg \<Rightarrow> cond \<Rightarrow> emitter" where
  "emit_cond_set_ta dst c = seqs [rx ''cset'' dst, tputs '', '', tputs (cond_str_ta ! cond_no c), tputc NL]"

section \<open>Strings\<close>

definition emit_string_lit_ta :: "asm_os \<Rightarrow> reg \<Rightarrow> string \<Rightarrow> emitter" where
  "emit_string_lit_ta os dst s st =
    (case os_addrgen os of None \<Rightarrow> None
     | Some (adrp, add) \<Rightarrow>
        let (label, st1) = next_lit os st; k = sint (get_regoff_ta dst) in
        seqs [tprint (adrp k label), tprint (add k k label), put_cstr label s] st1)"

section \<open>Loads and stores\<close>

text \<open>The first character of \<open>op\<close> tells a load from a store; only a load looks at the sign.\<close>

definition load_store_x :: "tstore \<Rightarrow> bool \<Rightarrow> reg \<Rightarrow> reg \<Rightarrow> emitter" where
  "load_store_x ts is_load r0 r1 =
    (let op = (if is_load then ''ldr'' else ''str'');
         sz = (if dtype_tryget_addr (r_dtype r0) \<noteq> 0 then 8 else ucast (r_rsize r0) :: usize);
         rest = (\<lambda>suffix. [tprint (TAB # op @ suffix @ '' ''), putreg_ta r0, tprint '', ['', putreg_ta (r1\<lparr>r_rsize := 8\<rparr>), tprint '', '']);
         signed = (\<lambda>suffix.
           if is_load then
             (case base_type ts (r_dtype r0) of None \<Rightarrow> (\<lambda>st. None)
              | Some t \<Rightarrow> seqs (rest (if ty_sign t then CHR ''s'' # suffix else suffix)))
           else seqs (rest suffix)) in
     if r_rsize r0 = 0 then seqs (report SizeOfZero # rest [])
     else if sz \<le> 1 then signed ''b''
     else if sz \<le> 2 then signed ''h''
     else seqs (rest []))"

definition emit_str_reg_ta :: "tstore \<Rightarrow> reg \<Rightarrow> reg \<Rightarrow> i32 \<Rightarrow> emitter" where
  "emit_str_reg_ta ts dst src offset = seqs [load_store_x ts False src dst, puti_ta (scast offset), tprint ('']'' @ [NL])]"

definition emit_ldr_ta :: "tstore \<Rightarrow> reg \<Rightarrow> reg \<Rightarrow> i32 \<Rightarrow> emitter" where
  "emit_ldr_ta ts dst src offset = seqs [load_store_x ts True dst src, puti_ta (scast offset), tprint ('']'' @ [NL])]"

definition emit_str_regoff_ta :: "tstore \<Rightarrow> reg \<Rightarrow> reg \<Rightarrow> reg \<Rightarrow> emitter" where
  "emit_str_regoff_ta ts dst src offset = seqs [load_store_x ts False src dst, tprint (CHR ''x'' # regno_text offset @ '']'' @ [NL])]"

definition imm_to_reg :: "tstore \<Rightarrow> reg \<Rightarrow> reg option" where
  "imm_to_reg ts dst =
    map_option (\<lambda>t. reg0\<lparr>r_type := SCRATCH, r_offset := 8, r_rsize := ucast (ty_size t), r_dtype := dtype0\<lparr>d_base := d_base (r_dtype dst)\<rparr>\<rparr>)
      (base_type ts (r_dtype dst))"

definition emit_str_imm_ta :: "tstore \<Rightarrow> reg \<Rightarrow> i64 \<Rightarrow> i32 \<Rightarrow> emitter" where
  "emit_str_imm_ta ts dst value offset =
    (case imm_to_reg ts dst of None \<Rightarrow> (\<lambda>st. None)
     | Some tmp \<Rightarrow> seqs [emit_mov_ta tmp value, emit_str_reg_ta ts dst tmp offset])"

definition emit_str_imm_regoff_ta :: "tstore \<Rightarrow> reg \<Rightarrow> i64 \<Rightarrow> reg \<Rightarrow> emitter" where
  "emit_str_imm_regoff_ta ts dst value offset =
    (case imm_to_reg ts dst of None \<Rightarrow> (\<lambda>st. None)
     | Some tmp \<Rightarrow> seqs [emit_mov_ta tmp value, emit_str_regoff_ta ts dst tmp offset])"

text \<open>\<open>str_lsl\<close> and \<open>ldr_lsl\<close>.\<close>

definition ldst_lsl :: "tstore \<Rightarrow> bool \<Rightarrow> reg \<Rightarrow> reg \<Rightarrow> reg \<Rightarrow> nat \<Rightarrow> emitter" where
  "ldst_lsl ts is_load r0 r1 offset lsl =
    seqs [load_store_x ts is_load r0 r1, tprint (CHR ''x'' # regno_text offset @ '', lsl #'' @ nat_dec lsl @ '']'' @ [NL])]"

definition emit_elem_addr_ta :: "tstore \<Rightarrow> reg \<Rightarrow> reg \<Rightarrow> reg \<Rightarrow> emitter" where
  "emit_elem_addr_ta ts dst object index =
    (let tmp = reg0\<lparr>r_type := SCRATCH, r_offset := 0, r_rsize := 8\<rparr>;
         on_stack = (r_type object = STACK); base = (if on_stack then tmp else object);
         pre = (if on_stack then emit_sub_ta ts tmp FP (scast (r_offset object)) else skip) in
     case base_type ts (r_dtype object) of None \<Rightarrow> (\<lambda>st. None) | Some t \<Rightarrow>
     if (ucast (ty_size t) :: u32) = 0 then (\<lambda>st. None) else
     let shift = of_nat (ctz (ucast (ty_size t) :: u32)) in
     case base_type ts (r_dtype index) of None \<Rightarrow> (\<lambda>st. None) | Some itype \<Rightarrow>
     if 8 \<le> ty_size itype then
       seqs [pre, rrrx ''add'' dst base (index\<lparr>r_rsize := 8\<rparr>), buf_comma, tputs ''lsl '', puti_ta shift, tputc NL]
     else
       seqs [pre, rrrx ''add'' dst base (index\<lparr>r_rsize := 4\<rparr>), buf_comma, put_xt itype, puti_ta shift, tputc NL])"

definition emit_ldr_reg_ta :: "tstore \<Rightarrow> reg \<Rightarrow> reg \<Rightarrow> reg \<Rightarrow> emitter" where
  "emit_ldr_reg_ta ts dst src offset =
    (if of_nat MAX_REG_SIZE < r_rsize src then report (TooBig (r_rsize src))
     else if 8 < r_rsize src then
       (let dst2 = dst\<lparr>r_offset := r_offset dst + 1\<rparr>; scratch = reg0\<lparr>r_type := SCRATCH, r_rsize := 8\<rparr> in
        seqs [emit_elem_addr_ta ts scratch (src\<lparr>r_rsize := 8\<rparr>) offset,
          tprint (INSTR (''ldp x'' @ regno_text dst @ '', x'' @ regno_text dst2 @ '', [x'' @ regno_text scratch @ '']''))])
     else seqs [load_store_x ts True dst src, tprint (CHR ''x'' # regno_text offset @ '']'' @ [NL])])"

definition emit_array_access_ta :: "tstore \<Rightarrow> reg \<Rightarrow> reg \<Rightarrow> reg \<Rightarrow> bool \<Rightarrow> emitter" where
  "emit_array_access_ta ts dst src offset is_store =
    (let mem = (if is_store then dst else src); value = (if is_store then src else dst);
         access = (\<lambda>mem. if is_store then emit_str_regoff_ta ts mem value offset else emit_ldr_reg_ta ts value mem offset) in
     case dtype_size ts (r_dtype mem) of None \<Rightarrow> (\<lambda>st. None) | Some array_size \<Rightarrow>
     case base_type ts (r_dtype mem) of None \<Rightarrow> (\<lambda>st. None) | Some t \<Rightarrow>
     let elem_size = ty_size t;
         on_stack = (r_type mem = STACK \<and> r_offset mem \<noteq> 0);
         tmp_mem = mem\<lparr>r_type := SCRATCH, r_offset := 3, r_rsize := 8,
                       r_dtype := dtype_wrap (r_dtype mem) \<lparr>dk_tag = DK_ADDR, dk_amount = 1\<rparr>\<rparr>;
         pre = (if on_stack then emit_sub_ta ts tmp_mem FP (scast (r_offset mem)) else skip);
         mem1 = (if on_stack then tmp_mem else mem) in
     if elem_size = 0 then seqs [pre, report ElementSize]
     else if elem_size = 1 then seqs [pre, access mem1]
     else if elem_size \<le> 8 \<and> power_of_two_exponent elem_size \<noteq> 0 then
       seqs [pre, ldst_lsl ts (\<not> is_store) value mem1 offset (power_of_two_exponent elem_size)]
     else
       (let sz = (if array_size \<noteq> 0 then reg0\<lparr>r_type := SCRATCH, r_offset := 1\<rparr> else reg0\<lparr>r_type := RD_NONE\<rparr>);
            idx = reg0\<lparr>r_type := SCRATCH, r_offset := 2\<rparr> in
        seqs [pre, (if array_size \<noteq> 0 then emit_mov_ta sz array_size else skip),
          tprint (TAB # ''smull x'' @ regno_text idx @ '', w'' @ regno_text idx @ '', ''), putreg_ta sz, tprint [NL], access mem1]))"

end
