(* ===== verification/A64_Asm_Agg.thy ===== *)
theory A64_Asm_Agg
  imports A64_Asm
begin

text \<open>
  The rest of \<open>src/alc/asm-aarch64.c\<close>: aggregates, control flow, functions, and the back end as a whole.
  The registers \<open>FP\<close>, \<open>XZR\<close> and \<open>WZR\<close>, the members of a type and the packing of small values are those of the
  machine-code back end, which the two files declare alike.
\<close>

section \<open>Aggregates\<close>

definition pack_small_values_ta ::
    "tstore \<Rightarrow> member list option \<Rightarrow> agg_member list \<Rightarrow> nat \<Rightarrow> usize \<Rightarrow> i64 \<Rightarrow> (usize \<times> nat \<times> i64) option" where
  "pack_small_values_ta ts members args i first_size value = pack_small_values ts members args i first_size first_size value"

definition emit_member_value_ta ::
    "tstore \<Rightarrow> reg \<Rightarrow> member list option \<Rightarrow> agg_member list \<Rightarrow> nat \<Rightarrow> i64 \<Rightarrow> usize \<Rightarrow> usize \<Rightarrow> bool
     \<Rightarrow> asm \<Rightarrow> (usize \<times> nat \<times> bool \<times> asm) option" where
  "emit_member_value_ta ts dst0 members args i value0 memb_size offset_bits initialized st =
    (let dst = (if 32 \<le> offset_bits \<and> r_rsize dst0 < 8 then dst0\<lparr>r_rsize := 8\<rparr> else dst0) in
     case (if offset_bits mod 16 = 0 then pack_small_values_ta ts members args i memb_size value0
           else Some (memb_size, i, value0)) of
       None \<Rightarrow> None
     | Some (packed, i', value) \<Rightarrow>
        if value = 0 then Some (packed, i', initialized, st)
        else if offset_bits mod 16 \<noteq> 0 then
          (if \<not> initialized then None
           else map_option (\<lambda>st1. (packed, i', True, st1)) (rri ''orr'' dst dst (push_bit (unat offset_bits) value) st))
        else map_option (\<lambda>st1. (packed, i', True, st1)) (emit_mov_lane_ta dst value offset_bits initialized st))"

text \<open>The mask of the lowest bytes, at least one.\<close>

definition bytes_mask :: "usize \<Rightarrow> i64" where
  "bytes_mask n = foldl (\<lambda>m j. m OR push_bit (j * 8) 0xff) 0xff [1 ..< unat n]"

definition emit_member_reg_ta :: "tstore \<Rightarrow> reg \<Rightarrow> reg \<Rightarrow> usize \<Rightarrow> usize \<Rightarrow> bool \<Rightarrow> emitter" where
  "emit_member_reg_ta ts dst r memb_size offset_bits dst_initialized =
    (let grown = (if r_rsize r < r_rsize dst then r\<lparr>r_rsize := r_rsize dst\<rparr> else r); wdth = memb_size * 8 in
     if r_type r = STACK then emit_sub_ta ts dst FP (scast (r_offset r))
     else if offset_bits = 0 then
       (if memb_size < 4 then rri ''and'' dst grown (bytes_mask memb_size)
        else rr ''mov'' (dst\<lparr>r_rsize := ucast memb_size\<rparr>) r)
     else if dst_initialized then rrii ''bfi'' dst grown offset_bits wdth
     else rrii ''ubfiz'' dst grown offset_bits wdth)"

record eightbyte_ta =
  tb_index :: nat
  tb_size :: usize
  tb_init :: bool
  tb_st :: asm

fun eightbyte_loop_ta ::
    "nat \<Rightarrow> tstore \<Rightarrow> reg \<Rightarrow> dtype \<Rightarrow> type_t \<Rightarrow> agg_member list \<Rightarrow> usize \<Rightarrow> nat \<Rightarrow> usize \<Rightarrow> eightbyte_ta \<Rightarrow> eightbyte_ta option" where
  "eightbyte_loop_ta 0 ts dst dt t args limit i base_bits e = Some e"
| "eightbyte_loop_ta (Suc fuel) ts dst dt t args limit i base_bits e =
    (if length args \<le> i then Some e
     else
      let members = (if dk_tag (dtype_outer dt) = DK_ARRAY then None else Some (ty_members t)) in
      case memb_at ts dt t i of None \<Rightarrow> None | Some (memb_size, memb_offset) \<Rightarrow>
      let base_bits' = (if tb_size e = 0 then memb_offset * 8 else base_bits);
          offset_bits = memb_offset * 8 - base_bits' in
      if limit < tb_size e + memb_size then Some e
      else case args ! i of
          A_VALUE v \<Rightarrow>
           (case emit_member_value_ta ts dst members args i v memb_size offset_bits (tb_init e) (tb_st e) of
              None \<Rightarrow> None
            | Some (packed, i', ini, st') \<Rightarrow>
               eightbyte_loop_ta fuel ts dst dt t args limit (i' + 1) base_bits'
                 \<lparr>tb_index = i' + 1, tb_size = tb_size e + packed, tb_init = ini, tb_st = st'\<rparr>)
        | A_REG r \<Rightarrow>
           (case emit_member_reg_ta ts dst r memb_size offset_bits (tb_init e) (tb_st e) of
              None \<Rightarrow> None
            | Some st' \<Rightarrow>
               eightbyte_loop_ta fuel ts dst dt t args limit (i + 1) base_bits'
                 \<lparr>tb_index = i + 1, tb_size = tb_size e + memb_size, tb_init = True, tb_st = st'\<rparr>)
        | _ \<Rightarrow> None)"

definition emit_eightbyte_struct_ta ::
    "tstore \<Rightarrow> reg \<Rightarrow> dtype \<Rightarrow> agg_member list \<Rightarrow> nat \<Rightarrow> usize \<Rightarrow> usize \<Rightarrow> asm \<Rightarrow> (bool \<times> nat \<times> usize \<times> asm) option" where
  "emit_eightbyte_struct_ta ts dst0 dt args index sz limit st =
    (case base_type ts dt of None \<Rightarrow> None | Some t \<Rightarrow>
      let dst = dst0\<lparr>r_rsize := (if 8 < ty_size t then 8 else ucast (ty_size t))\<rparr> in
      map_option (\<lambda>e. (tb_init e, tb_index e, sz + tb_size e, tb_st e))
        (eightbyte_loop_ta (length args - index) ts dst dt t args limit index 0
           \<lparr>tb_index = index, tb_size = 0, tb_init = False, tb_st = st\<rparr>))"

definition emit_stp_ta :: "reg \<Rightarrow> reg \<Rightarrow> reg \<Rightarrow> i64 \<Rightarrow> emitter" where
  "emit_stp_ta src1 src2 base offset =
    seqs [rrx ''stp'' src1 src2, tputs '', ['', putreg_ta base, buf_comma, puti_ta offset, tprint ('']'' @ [NL])]"

definition emit_store_eightbytes_ta :: "tstore \<Rightarrow> reg \<Rightarrow> i64 \<Rightarrow> reg \<Rightarrow> bool \<Rightarrow> reg \<Rightarrow> bool \<Rightarrow> bool \<Rightarrow> emitter" where
  "emit_store_eightbytes_ta ts base offset lo lo_written hi hi_written has_hi =
    (if has_hi then
       emit_stp_ta (if lo_written then lo\<lparr>r_rsize := 8\<rparr> else XZR) (if hi_written then hi\<lparr>r_rsize := 8\<rparr> else XZR) base offset
     else emit_str_reg_ta ts base (if lo_written then lo else lo\<lparr>r_type := RD_NONE\<rparr>) (ucast offset))"

text \<open>The loops of \<open>emit_store_packed\<close> and \<open>emit_zerofill\<close> are counted by the bytes that are left.\<close>

primrec packed_loop_ta :: "nat \<Rightarrow> tstore \<Rightarrow> reg \<Rightarrow> i64 \<Rightarrow> reg \<Rightarrow> usize \<Rightarrow> usize \<Rightarrow> emitter" where
  "packed_loop_ta 0 ts base offset src nbytes pos = skip"
| "packed_loop_ta (Suc fuel) ts base offset src nbytes pos =
    (if nbytes = 0 then skip
     else
      let chunk = store_chunk nbytes; left = nbytes - ucast chunk; full = src\<lparr>r_rsize := 8\<rparr> in
      seqs [emit_str_reg_ta ts base (src\<lparr>r_rsize := chunk\<rparr>) (ucast (offset + pos)),
        (if left \<noteq> 0 then rri ''lsr'' full full (ucast chunk * 8) else skip),
        packed_loop_ta fuel ts base offset src left (pos + ucast chunk)])"

definition emit_store_packed_ta :: "tstore \<Rightarrow> reg \<Rightarrow> i64 \<Rightarrow> reg \<Rightarrow> usize \<Rightarrow> emitter" where
  "emit_store_packed_ta ts base offset src nbytes = packed_loop_ta (unat nbytes) ts base offset src nbytes 0"

text \<open>The last loop halves the size of its stores until nothing is left; with the size zero it does not end.\<close>

function zero_tail_ta :: "tstore \<Rightarrow> reg \<Rightarrow> i64 \<Rightarrow> usize \<Rightarrow> u8 \<Rightarrow> emitter" where
  "zero_tail_ta ts dst offset sz rsize =
    (if sz = 0 then skip
     else if rsize = 0 then (\<lambda>st. None)
     else if ucast rsize \<le> sz then
       seqs [emit_str_reg_ta ts dst (WZR\<lparr>r_rsize := rsize\<rparr>) (ucast offset),
         zero_tail_ta ts dst (offset + ucast rsize) (sz - ucast rsize) (rsize div 2)]
     else zero_tail_ta ts dst offset sz (rsize div 2))"
  by pat_completeness auto
termination
  by (relation "measure (\<lambda>(_, _, _, _, rsize). unat rsize)") (auto simp: unat_div unat_gt_0)

declare zero_tail_ta.simps [simp del]

definition emit_zerofill_ta :: "tstore \<Rightarrow> reg \<Rightarrow> i64 \<Rightarrow> dtype \<Rightarrow> emitter" where
  "emit_zerofill_ta ts dst offset dt =
    (case dtype_size ts dt of None \<Rightarrow> (\<lambda>st. None)
     | Some sz \<Rightarrow>
        let pairs = unat (sz div 16); words = unat (sz mod 16 div 8) in
        seqs (map (\<lambda>k. emit_stp_ta XZR XZR dst (offset + of_nat (16 * k))) [0 ..< pairs]
          @ map (\<lambda>k. emit_str_reg_ta ts dst XZR (ucast (offset + of_nat (16 * pairs + 8 * k)))) [0 ..< words]
          @ [zero_tail_ta ts dst (offset + of_nat (16 * pairs + 8 * words)) (sz mod 8) 4]))"

section \<open>Control flow\<close>

definition emit_branch_ta :: "string \<Rightarrow> string \<Rightarrow> int \<Rightarrow> emitter" where
  "emit_branch_ta fn_name label index = seqs [tputs (TAB # ''b ''), put_label fn_name label index, tputs [NL]]"

definition emit_branch_cond_ta :: "cond \<Rightarrow> string \<Rightarrow> string \<Rightarrow> int \<Rightarrow> emitter" where
  "emit_branch_cond_ta c fn_name label index =
    seqs [tputs (TAB # ''b.''), tputs (cond_str_ta ! cond_no c), tputc CHR '' '', put_label fn_name label index, tputs [NL]]"

definition emit_label_ta :: "string \<Rightarrow> string \<Rightarrow> int \<Rightarrow> emitter" where
  "emit_label_ta fn_name label index = seqs [put_label fn_name label index, tputs ('':'' @ [NL])]"

definition emit_fn_call_ta :: "asm_os \<Rightarrow> string \<Rightarrow> emitter" where
  "emit_fn_call_ta os s = seqs [tputs (TAB # ''bl ''), tputs (os_fn_prefix os), tputs s, tputc NL]"

definition emit_ret_ta :: emitter where
  "emit_ret_ta = tputs (INSTR ''ret'')"

section \<open>Functions\<close>

definition hputs :: "string \<Rightarrow> emitter" where
  "hputs s = on_buf Header (buf_puts s)"

definition annotate :: "asm_os \<Rightarrow> string \<Rightarrow> emitter" where
  "annotate os fn_name = (case os_annotation os of None \<Rightarrow> skip | Some f \<Rightarrow> on_buf Header (buf_snprintf (f fn_name)))"

definition emit_fn_ta :: "asm_os \<Rightarrow> string \<Rightarrow> emitter" where
  "emit_fn_ta os fn_name =
    seqs [hputs (NL # TAB # ''.globl ''), hputs (os_fn_prefix os), hputs fn_name, hputs (NL # TAB # ''.p2align 2'' @ [NL]),
      annotate os fn_name, hputs (os_fn_prefix os), hputs fn_name, hputs ('':'' @ [NL])]"

definition pprint :: "string \<Rightarrow> emitter" where
  "pprint s = on_buf Prologue (buf_snprintf s)"

text \<open>Two registers saved or restored at \<open>[sp, off]\<close>, before or after \<open>sp\<close> moves.\<close>

definition pair_text :: "string \<Rightarrow> nat \<Rightarrow> nat \<Rightarrow> string" where
  "pair_text op r0 r1 = op @ '' x'' @ nat_dec r0 @ '', x'' @ nat_dec r1 @ '', [sp''"

definition hex32 :: "i32 \<Rightarrow> string" where
  "hex32 n = ''0x'' @ nat_hex (unat n)"

definition at_sp :: "i32 \<Rightarrow> string" where "at_sp off = '', #'' @ hex32 off @ '']''"
definition pre_sp :: "i32 \<Rightarrow> string" where "pre_sp off = '', #-'' @ hex32 off @ '']!''"
definition post_sp :: "i32 \<Rightarrow> string" where "post_sp off = ''], #'' @ hex32 off"

fun save_pairs_ta :: "nat \<Rightarrow> i32 \<Rightarrow> asm \<Rightarrow> (nat \<times> i32 \<times> asm) option" where
  "save_pairs_ta remaining off st =
    (if 1 < remaining then
       (let r0 = CALLEE_START + remaining - 1; r1 = r0 - 1 in
        Option.bind (seqs [pprint (INSTR (pair_text ''stp'' r0 r1 @ at_sp off)), tprint (INSTR (pair_text ''ldp'' r0 r1 @ at_sp off))] st)
          (save_pairs_ta (remaining - 2) (off + 16)))
     else Some (remaining, off, st))"

declare save_pairs_ta.simps [simp del]

definition save_last_ta :: "i32 \<Rightarrow> nat \<times> i32 \<times> asm \<Rightarrow> asm option" where
  "save_last_ta stack_size = (\<lambda>(remaining, off, st).
    if remaining = 1 then
      (let r0 = '' x'' @ nat_dec CALLEE_START @ '', [sp'' in
       if off = 0 then
         seqs [pprint (INSTR (''str'' @ r0 @ pre_sp stack_size)), tprint (INSTR (''ldr'' @ r0 @ post_sp stack_size))] st
       else seqs [pprint (INSTR (''str'' @ r0 @ at_sp off)), tprint (INSTR (''ldr'' @ r0 @ at_sp off))] st)
    else Some st)"

definition emit_fn_prologue_epilogue_ta :: "parser_context \<Rightarrow> emitter" where
  "emit_fn_prologue_epilogue_ta pc =
    (let reset = on_buf Prologue (\<lambda>b. Some (b\<lparr>b_text := []\<rparr>)) in
     if \<not> pc_calls_fn pc \<and> pc_max_nreg_count pc = 0 \<and> pc_stack_size pc = 0 then reset
     else if 28 \<le> unat (pc_max_nreg_count pc) + CALLEE_START then seqs [reset, report CalleeRegsUsedUp]
     else
      let needs_fp = (pc_calls_fn pc \<or> 0 <s pc_stack_size pc);
          regs_to_save = unat (pc_max_nreg_count pc) + (if needs_fp then 2 else 0);
          objs = ALIGN_TO (pc_stack_size pc) 16;
          stack_size = ALIGN_TO (of_nat (regs_to_save * 8)) 16 + objs;
          r0 = (if needs_fp then 29 else CALLEE_START + regs_to_save - 1);
          r1 = (if needs_fp then 30 else r0 - 1);
          defer = (1 < regs_to_save \<and> objs = 0) in
      seqs
       [reset,
        (if 0 <s objs then pprint (INSTR (''sub sp, sp, #'' @ hex32 stack_size)) else skip),
        (if 1 < regs_to_save then
           (if objs = 0 then pprint (INSTR (pair_text ''stp'' r0 r1 @ pre_sp stack_size))
            else seqs [pprint (INSTR (pair_text ''stp'' r0 r1 @ at_sp objs)), tprint (INSTR (pair_text ''ldp'' r0 r1 @ at_sp objs))])
         else skip),
        (\<lambda>st. Option.bind (if 1 < regs_to_save then save_pairs_ta (regs_to_save - 2) (objs + 16) st else save_pairs_ta regs_to_save objs st)
           (save_last_ta stack_size)),
        (if needs_fp then
           (if objs = 0 then on_buf Prologue (buf_puts (INSTR ''mov x29, sp''))
            else pprint (INSTR (''add x29, sp, #'' @ hex32 objs)))
         else skip),
        (if defer then tprint (INSTR (pair_text ''ldp'' r0 r1 @ post_sp stack_size)) else skip),
        (if 0 <s objs then tprint (INSTR (''add sp, sp, #'' @ hex32 stack_size)) else skip)])"

section \<open>The back end\<close>

definition a64_text_back_end :: "asm_os \<Rightarrow> asm back_end" where
  "a64_text_back_end os = \<lparr>
     be_need_escaping = False,
     be_default_register_size = 8,
     be_fn_begin = emit_fn_begin_t,
     be_fn_end = emit_fn_end_t,
     be_eightbyte_struct = emit_eightbyte_struct_ta,
     be_store_eightbytes = emit_store_eightbytes_ta,
     be_store_packed = emit_store_packed_ta,
     be_zerofill = emit_zerofill_ta,
     be_array_access = emit_array_access_ta,
     be_elem_addr = emit_elem_addr_ta,
     be_mov = (\<lambda>ts. emit_mov_ta),
     be_mov_reg = emit_mov_reg_ta,
     be_add = emit_add_ta,
     be_add_reg = emit_add_reg_ta,
     be_sub = emit_sub_ta,
     be_sub_reg = emit_sub_reg_ta,
     be_cmp = (\<lambda>ts. emit_cmp_ta),
     be_cmp_reg = emit_cmp_reg_ta,
     be_string_lit = emit_string_lit_ta os,
     be_lsl = (\<lambda>ts. emit_lsl_ta),
     be_zero_out = emit_zero_out_ta,
     be_cond_set = (\<lambda>ts. emit_cond_set_ta),
     be_str_reg = emit_str_reg_ta,
     be_str_imm = emit_str_imm_ta,
     be_ldr = emit_ldr_ta,
     be_str_regoff = emit_str_regoff_ta,
     be_str_imm_regoff = emit_str_imm_regoff_ta,
     be_ldr_reg = emit_ldr_reg_ta,
     be_branch = emit_branch_ta,
     be_branch_cond = emit_branch_cond_ta,
     be_label = emit_label_ta,
     be_prologue_epilogue = emit_fn_prologue_epilogue_ta,
     be_fn_call = emit_fn_call_ta os,
     be_fn = emit_fn_ta os,
     be_ret = emit_ret_ta\<rparr>"

end
