(* ===== verification/X64_Asm.thy ===== *)
theory X64_Asm
  imports Asm_Text
begin

text \<open>
  \<open>src/alc/asm-x86_64.c\<close>: the back end that writes x86-64 assembly in Intel syntax. Its functions carry the suffix
  \<open>_tx\<close> and take the operating system, whose file has the tables of register names. \<open>None\<close> stands for
  \<open>unreachable\<close>, a null base type, and reading past the members of a type.
\<close>

section \<open>Registers\<close>

text \<open>The name of a register at a size: the table has the names of two or three characters.\<close>

definition sized_rname :: "string \<Rightarrow> u8 \<Rightarrow> string option" where
  "sized_rname name size0 =
    (let rsize = (if size0 = 0 then 4 else size0); numbered = (hd name = CHR ''r'') in
     if rsize = 1 then
       Some (if numbered then name @ ''b'' else if name ! 1 = CHR ''i'' then name @ ''l'' else butlast name @ ''l'')
     else if rsize = 2 then Some (if numbered then name @ ''w'' else name)
     else if rsize = 4 then Some (if numbered then name @ ''d'' else CHR ''e'' # name)
     else if rsize = 8 then Some (if numbered then name else CHR ''r'' # name)
     else None)"

definition rname_table :: "asm_regs \<Rightarrow> register_dst \<Rightarrow> string list option" where
  "rname_table n t =
    (case t of SCRATCH \<Rightarrow> Some (rn_scratch n) | NREG \<Rightarrow> Some (rn_callee n) | PARAM \<Rightarrow> Some (rn_param n) | RET \<Rightarrow> Some (rn_ret n)
     | _ \<Rightarrow> None)"

definition buf_putreg_tx :: "asm_os \<Rightarrow> place \<Rightarrow> reg \<Rightarrow> emitter" where
  "buf_putreg_tx os p r =
    (if r_type r = STACK then on_buf p (buf_puts ''rsp'')
     else if r_type r = FRAME then on_buf p (buf_puts ''rbp'')
     else if r_offset r <s 0 then report (NegativeOffset (r_offset r))
     else
      (case Option.bind (os_rnames os) (\<lambda>n. rname_table n (r_type r)) of None \<Rightarrow> (\<lambda>st. None)
       | Some names \<Rightarrow>
          let k = unat (r_offset r) in
          if length names \<le> k then report (RegistersUsedUp (r_type r))
          else
           (case sized_rname (names ! k) (r_rsize r) of
              None \<Rightarrow> seqs [report (IncorrectRsize (r_rsize r)), on_buf p (buf_snprintf (names ! k))]
            | Some name \<Rightarrow> on_buf p (buf_snprintf name))))"

definition x64_syntax :: "asm_os \<Rightarrow> asm_syntax" where
  "x64_syntax os = \<lparr>sy_putreg = buf_putreg_tx os, sy_imm_prefix = []\<rparr>"

abbreviation putreg_tx :: "asm_os \<Rightarrow> reg \<Rightarrow> emitter" where "putreg_tx os \<equiv> buf_putreg_tx os Fn"
abbreviation puti_tx :: "asm_os \<Rightarrow> i64 \<Rightarrow> emitter" where "puti_tx os \<equiv> buf_puti (x64_syntax os)"
abbreviation xrx :: "asm_os \<Rightarrow> string \<Rightarrow> reg \<Rightarrow> emitter" where "xrx os \<equiv> emit_rx (x64_syntax os)"
abbreviation xri :: "asm_os \<Rightarrow> string \<Rightarrow> reg \<Rightarrow> i64 \<Rightarrow> emitter" where "xri os \<equiv> emit_ri (x64_syntax os)"
abbreviation xrr :: "asm_os \<Rightarrow> string \<Rightarrow> reg \<Rightarrow> reg \<Rightarrow> emitter" where "xrr os \<equiv> emit_rr (x64_syntax os)"

section \<open>Moves\<close>

definition emit_mov_tx :: "asm_os \<Rightarrow> reg \<Rightarrow> i64 \<Rightarrow> emitter" where
  "emit_mov_tx os dst value =
    (if value = 0 then xrr os ''xor'' dst dst
     else seqs [xrx os ''mov'' dst, tputs '', '', tprint (int_dec (sint value)), tputc NL])"

definition emit_mov_reg_tx :: "asm_os \<Rightarrow> tstore \<Rightarrow> reg \<Rightarrow> reg \<Rightarrow> emitter" where
  "emit_mov_reg_tx os ts dst src =
    (if r_rsize dst \<noteq> 0 \<and> r_rsize src \<noteq> 0 \<and> r_rsize src < r_rsize dst then
       (let dword = (r_rsize dst = 8 \<and> r_rsize src = 4) in
        if (case base_type ts (r_dtype src) of None \<Rightarrow> False | Some t \<Rightarrow> ty_sign t) then
          xrr os (if dword then ''movsxd'' else ''movsx'') dst src
        else if dword then xrr os ''mov'' (dst\<lparr>r_rsize := 4\<rparr>) src
        else xrr os ''movzx'' dst src)
     else xrr os ''mov'' (if r_rsize dst < r_rsize src then dst\<lparr>r_rsize := r_rsize src\<rparr> else dst) src)"

definition type_conv_tx :: "asm_os \<Rightarrow> tstore \<Rightarrow> reg \<Rightarrow> reg \<Rightarrow> emitter" where
  "type_conv_tx os ts dst src =
    emit_mov_reg_tx os ts dst
      (case base_type ts (r_dtype src) of None \<Rightarrow> src | Some t \<Rightarrow> src\<lparr>r_rsize := ucast (ty_size t)\<rparr>)"

section \<open>Arithmetic\<close>

definition emit_lea_begin :: "asm_os \<Rightarrow> reg \<Rightarrow> reg \<Rightarrow> string \<Rightarrow> emitter" where
  "emit_lea_begin os dst lhs op = seqs [xrx os ''lea'' dst, tputs '', ['', putreg_tx os (lhs\<lparr>r_rsize := 8\<rparr>), tputs op]"

definition emit_lea_end :: emitter where
  "emit_lea_end = tputs ('']'' @ [NL])"

definition emit_add_tx :: "asm_os \<Rightarrow> reg \<Rightarrow> reg \<Rightarrow> i64 \<Rightarrow> emitter" where
  "emit_add_tx os dst lhs rhs = seqs [emit_lea_begin os dst lhs ''+'', puti_tx os rhs, emit_lea_end]"

definition emit_add_reg_tx :: "asm_os \<Rightarrow> tstore \<Rightarrow> reg \<Rightarrow> reg \<Rightarrow> reg \<Rightarrow> emitter" where
  "emit_add_reg_tx os ts dst lhs rhs =
    (if r_rsize lhs \<noteq> r_rsize rhs then
       (let wide = (if r_rsize rhs < r_rsize lhs then lhs else rhs);
            narrow = (if r_rsize rhs < r_rsize lhs then rhs else lhs) in
        seqs [emit_mov_reg_tx os ts dst narrow, xrr os ''add'' dst (wide\<lparr>r_rsize := r_rsize dst\<rparr>)])
     else seqs [emit_lea_begin os dst lhs ''+'', putreg_tx os (rhs\<lparr>r_rsize := 8\<rparr>), emit_lea_end])"

definition emit_sub_tx :: "asm_os \<Rightarrow> reg \<Rightarrow> reg \<Rightarrow> i64 \<Rightarrow> emitter" where
  "emit_sub_tx os dst lhs rhs = seqs [emit_lea_begin os dst lhs ''-'', puti_tx os rhs, emit_lea_end]"

definition emit_sub_reg_tx :: "asm_os \<Rightarrow> tstore \<Rightarrow> reg \<Rightarrow> reg \<Rightarrow> reg \<Rightarrow> emitter" where
  "emit_sub_reg_tx os ts dst lhs rhs =
    (let wlhs = lhs\<lparr>r_rsize := r_rsize dst\<rparr>; wrhs = rhs\<lparr>r_rsize := r_rsize dst\<rparr> in
     if r_rsize lhs = r_rsize rhs then seqs [xrr os ''mov'' dst lhs, xrr os ''sub'' dst rhs]
     else if r_rsize rhs < r_rsize lhs then
       seqs [emit_mov_reg_tx os ts dst rhs, xrr os ''sub'' dst wlhs, emit_r (x64_syntax os) Fn ''neg'' dst]
     else seqs [emit_mov_reg_tx os ts dst lhs, xrr os ''sub'' dst wrhs])"

definition emit_cmp_tx :: "asm_os \<Rightarrow> reg \<Rightarrow> i64 \<Rightarrow> emitter" where
  "emit_cmp_tx os lhs rhs = xri os ''cmp'' lhs rhs"

definition emit_cmp_reg_tx :: "asm_os \<Rightarrow> tstore \<Rightarrow> reg \<Rightarrow> reg \<Rightarrow> cond \<Rightarrow> emitter" where
  "emit_cmp_reg_tx os ts lhs rhs c =
    (let n = (if r_rsize rhs < r_rsize lhs then r_rsize lhs else r_rsize rhs);
         tmp = reg0\<lparr>r_type := SCRATCH, r_offset := 0, r_rsize := n\<rparr>;
         wlhs = lhs\<lparr>r_rsize := n\<rparr>; wrhs = rhs\<lparr>r_rsize := n\<rparr> in
     if r_rsize lhs = r_rsize rhs then xrr os ''cmp'' lhs rhs
     else if r_rsize rhs < r_rsize lhs then seqs [emit_mov_reg_tx os ts tmp rhs, xrr os ''cmp'' wlhs tmp]
     else if c = COND_EQ \<or> c = COND_NE then xrr os ''cmp'' wlhs wrhs
     else seqs [emit_mov_reg_tx os ts tmp lhs, xrr os ''cmp'' tmp wrhs])"

definition emit_string_lit_tx :: "asm_os \<Rightarrow> reg \<Rightarrow> string \<Rightarrow> emitter" where
  "emit_string_lit_tx os dst s st =
    (let (label, st1) = next_lit os st in
     seqs [xrx os ''lea'' dst, tprint ('', [rip+'' @ label @ '']'' @ [NL]), put_cstr label s] st1)"

text \<open>A negative count reaches \<open>1 << rhs\<close>, which is undefined.\<close>

definition emit_lsl_tx :: "asm_os \<Rightarrow> tstore \<Rightarrow> reg \<Rightarrow> reg \<Rightarrow> i64 \<Rightarrow> emitter" where
  "emit_lsl_tx os ts dst lhs rhs =
    (if 4 \<le>s rhs then seqs [xrr os ''mov'' dst lhs, xri os ''shl'' dst rhs]
     else if rhs = 0 then emit_mov_reg_tx os ts dst lhs
     else if rhs = 1 then emit_add_reg_tx os ts dst lhs lhs
     else if rhs <s 0 then (\<lambda>st. None)
     else seqs [emit_lea_begin os dst lhs ''*'', puti_tx os (push_bit (unat rhs) 1), emit_lea_end])"

section \<open>Loads and stores\<close>

definition ptr_names :: "string list" where
  "ptr_names = [''byte'', ''word'', ''dword'', ''qword'']"

definition rsize_log2 :: "u8 \<Rightarrow> nat option" where
  "rsize_log2 n = (if n \<le> 1 then Some 0 else if n \<le> 2 then Some 1 else if n \<le> 4 then Some 2 else if n \<le> 8 then Some 3 else None)"

definition with_ptr :: "u8 \<Rightarrow> (string \<Rightarrow> emitter) \<Rightarrow> emitter" where
  "with_ptr rsize k = (case rsize_log2 rsize of None \<Rightarrow> (\<lambda>st. None) | Some i \<Rightarrow> k (ptr_names ! i))"

definition i32_text :: "i32 \<Rightarrow> string" where
  "i32_text n = int_dec (sint n)"

definition emit_str_reg_tx :: "asm_os \<Rightarrow> reg \<Rightarrow> reg \<Rightarrow> i32 \<Rightarrow> emitter" where
  "emit_str_reg_tx os dst src offset =
    with_ptr (r_rsize src) (\<lambda>ptr.
      seqs [tputs (TAB # ''mov ''), tprint (ptr @ '' ptr [''), putreg_tx os (dst\<lparr>r_rsize := 8\<rparr>),
        tprint ('' + '' @ i32_text offset @ ''], ''), putreg_tx os src, tputc NL])"

definition emit_mem_imm_tx :: "asm_os \<Rightarrow> string \<Rightarrow> reg \<Rightarrow> i32 \<Rightarrow> i64 \<Rightarrow> emitter" where
  "emit_mem_imm_tx os ptr dst offset value =
    seqs [tputs (TAB # ''mov ''), tprint (ptr @ '' ptr [''), putreg_tx os (dst\<lparr>r_rsize := 8\<rparr>),
      tprint ('' + '' @ i32_text offset @ ''], '' @ int_dec (sint value) @ [NL])]"

definition emit_str_imm_tx :: "asm_os \<Rightarrow> tstore \<Rightarrow> reg \<Rightarrow> i64 \<Rightarrow> i32 \<Rightarrow> emitter" where
  "emit_str_imm_tx os ts dst value offset =
    (case base_type ts (r_dtype dst) of None \<Rightarrow> (\<lambda>st. None)
     | Some t \<Rightarrow>
        with_ptr (ucast (ty_size t)) (\<lambda>ptr.
          if ptr = ''qword'' \<and> (value <s - 0x80000000 \<or> 0x7fffffff <s value) then
            seqs [emit_mem_imm_tx os ''dword'' dst offset (scast (ucast value :: i32)),
              emit_mem_imm_tx os ''dword'' dst (offset + 4) (scast (ucast (drop_bit 32 value) :: i32))]
          else emit_mem_imm_tx os ptr dst offset value))"

definition emit_ldr_tx :: "asm_os \<Rightarrow> reg \<Rightarrow> reg \<Rightarrow> i32 \<Rightarrow> emitter" where
  "emit_ldr_tx os dst src offset =
    with_ptr (r_rsize dst) (\<lambda>ptr.
      seqs [tputs (TAB # ''mov ''), putreg_tx os dst, tprint ('', '' @ ptr @ '' ptr [''), putreg_tx os (src\<lparr>r_rsize := 8\<rparr>),
        tprint ('' + '' @ i32_text offset @ '']'' @ [NL])])"

text \<open>The address of a base and an index, which is taken at eight bytes.\<close>

definition lea_index :: "asm_os \<Rightarrow> reg \<Rightarrow> reg \<Rightarrow> reg \<Rightarrow> emitter" where
  "lea_index os addr base offset = seqs [emit_lea_begin os addr base ''+'', putreg_tx os (offset\<lparr>r_rsize := 8\<rparr>), emit_lea_end]"

definition emit_str_regoff_tx :: "asm_os \<Rightarrow> reg \<Rightarrow> reg \<Rightarrow> reg \<Rightarrow> emitter" where
  "emit_str_regoff_tx os dst src offset =
    (let addr = (if r_type src = SCRATCH \<and> r_offset src = 0 then rax\<lparr>r_offset := 1\<rparr> else rax) in
     seqs [lea_index os addr dst offset, emit_str_reg_tx os addr src 0])"

definition emit_str_imm_regoff_tx :: "asm_os \<Rightarrow> tstore \<Rightarrow> reg \<Rightarrow> i64 \<Rightarrow> reg \<Rightarrow> emitter" where
  "emit_str_imm_regoff_tx os ts dst value offset =
    (let addr = rax\<lparr>r_dtype := (r_dtype rax)\<lparr>d_base := d_base (r_dtype dst)\<rparr>\<rparr> in
     seqs [lea_index os rax dst offset, emit_str_imm_tx os ts addr value 0])"

definition emit_ldr_reg_tx :: "asm_os \<Rightarrow> reg \<Rightarrow> reg \<Rightarrow> reg \<Rightarrow> emitter" where
  "emit_ldr_reg_tx os dst src offset =
    (let addr = dst\<lparr>r_rsize := 8\<rparr> in seqs [lea_index os addr src offset, emit_ldr_tx os dst addr 0])"

text \<open>An index of one or two bytes is widened in place; every index is then taken at eight bytes.\<close>

definition wide_index :: "asm_os \<Rightarrow> tstore \<Rightarrow> reg \<Rightarrow> emitter" where
  "wide_index os ts offset =
    (if r_rsize offset = 1 \<or> r_rsize offset = 2 then emit_mov_reg_tx os ts (offset\<lparr>r_rsize := 8\<rparr>) offset else skip)"

definition imul_idx_tx :: "asm_os \<Rightarrow> reg \<Rightarrow> usize \<Rightarrow> emitter" where
  "imul_idx_tx os idx elem_size = seqs [tprint (TAB # ''imul ''), putreg_tx os idx, tprint ('', '' @ nat_dec (unat elem_size) @ [NL])]"

definition scaled_access :: "asm_os \<Rightarrow> reg \<Rightarrow> reg \<Rightarrow> reg \<Rightarrow> usize \<Rightarrow> bool \<Rightarrow> emitter" where
  "scaled_access os mem value offset elem_size is_store =
    with_ptr (r_rsize value) (\<lambda>ptr.
      if is_store then
        seqs [tprint (TAB # ''mov '' @ ptr @ '' ptr [''), putreg_tx os mem, tputs '' + '', putreg_tx os offset,
          tprint ('' * '' @ nat_dec (unat elem_size) @ ''], ''), putreg_tx os value, tputc NL]
      else
        seqs [tputs (TAB # ''mov ''), putreg_tx os value, tprint ('', '' @ ptr @ '' ptr [''), putreg_tx os mem, tputs '' + '',
          putreg_tx os offset, tprint ('' * '' @ nat_dec (unat elem_size) @ '']'' @ [NL])])"

definition emit_array_access_tx :: "asm_os \<Rightarrow> tstore \<Rightarrow> reg \<Rightarrow> reg \<Rightarrow> reg \<Rightarrow> bool \<Rightarrow> emitter" where
  "emit_array_access_tx os ts dst src offset0 is_store =
    (let mem0 = (if is_store then dst else src); value = (if is_store then src else dst);
         frame = reg0\<lparr>r_type := FRAME, r_rsize := 8\<rparr>;
         on_stack = (r_type mem0 = STACK \<and> r_offset mem0 \<noteq> 0);
         tmp_mem = mem0\<lparr>r_type := SCRATCH, r_offset := 2, r_rsize := 8\<rparr>;
         pre = (if on_stack then emit_sub_tx os tmp_mem frame (scast (r_offset mem0)) else skip);
         mem = (if on_stack then tmp_mem else mem0)\<lparr>r_rsize := 8\<rparr>;
         offset = offset0\<lparr>r_rsize := 8\<rparr>; idx = reg0\<lparr>r_type := SCRATCH, r_offset := 1, r_rsize := 8\<rparr> in
     case base_type ts (r_dtype mem0) of None \<Rightarrow> (\<lambda>st. None)
     | Some t \<Rightarrow>
        let elem_size = ty_size t in
        if elem_size = 0 then seqs [pre, report ElementSize]
        else if elem_size = 1 then
          seqs [pre, wide_index os ts offset0,
            if is_store then emit_str_regoff_tx os mem value offset else emit_ldr_reg_tx os value mem offset]
        else if elem_size \<le> 8 \<and> power_of_two_exponent elem_size \<noteq> 0 then
          seqs [pre, wide_index os ts offset0, scaled_access os mem value offset elem_size is_store]
        else
          seqs [pre, wide_index os ts offset0, emit_mov_reg_tx os ts idx offset, imul_idx_tx os idx elem_size, emit_add_reg_tx os ts idx mem idx,
            if is_store then emit_str_reg_tx os idx value 0 else emit_ldr_tx os value idx 0])"

definition emit_elem_addr_tx :: "asm_os \<Rightarrow> tstore \<Rightarrow> reg \<Rightarrow> reg \<Rightarrow> reg \<Rightarrow> emitter" where
  "emit_elem_addr_tx os ts dst object index0 =
    (let base = reg0\<lparr>r_type := SCRATCH, r_offset := 0, r_rsize := 8\<rparr>; frame = reg0\<lparr>r_type := FRAME, r_rsize := 8\<rparr>;
         pre = (if r_type object = STACK then emit_sub_tx os base frame (scast (r_offset object)) else emit_mov_reg_tx os ts base object);
         index = index0\<lparr>r_rsize := 8\<rparr>; idx = reg0\<lparr>r_type := SCRATCH, r_offset := 1, r_rsize := 8\<rparr> in
     case base_type ts (r_dtype object) of None \<Rightarrow> (\<lambda>st. None)
     | Some t \<Rightarrow>
        let elem_size = ty_size t in
        if elem_size \<le> 8 \<and> (elem_size = 1 \<or> power_of_two_exponent elem_size \<noteq> 0) then
          seqs [pre, wide_index os ts index0, emit_lea_begin os dst base ''+'', putreg_tx os index,
            tprint (''*'' @ nat_dec (unat elem_size) @ '']'' @ [NL])]
        else
          seqs [pre, wide_index os ts index0, emit_mov_reg_tx os ts idx index, imul_idx_tx os idx elem_size, emit_add_reg_tx os ts dst base idx])"

end
