(* ===== verification/X64_Asm_Agg.thy ===== *)
theory X64_Asm_Agg
  imports X64_Asm A64_Asm_Agg
begin

text \<open>
  The rest of \<open>src/alc/asm-x86_64.c\<close>: aggregates, control flow, functions, and the back end as a whole. The
  members of a type, the scratch register of a structure and the size of a frame are computed as in the
  machine-code back ends.
\<close>

section \<open>Aggregates\<close>

definition struct_value_tx :: "asm_os \<Rightarrow> reg \<Rightarrow> reg \<Rightarrow> i64 \<Rightarrow> bool \<Rightarrow> emitter" where
  "struct_value_tx os dst tmp shifted clrd =
    (if \<not> clrd then emit_mov_tx os dst shifted
     else if shifted \<noteq> 0 then
       (if shifted = scast (ucast shifted :: i32) then xri os ''or'' dst shifted
        else seqs [emit_mov_tx os tmp shifted, xrr os ''or'' dst tmp])
     else skip)"

definition struct_reg_tx :: "asm_os \<Rightarrow> tstore \<Rightarrow> reg \<Rightarrow> reg \<Rightarrow> reg \<Rightarrow> usize \<Rightarrow> usize \<Rightarrow> bool \<Rightarrow> emitter" where
  "struct_reg_tx os ts dst tmp arg memb_size bits clrd =
    (let frame = reg0\<lparr>r_type := FRAME, r_rsize := 8\<rparr>; on_stack = (r_type arg = STACK);
         r = (if on_stack then tmp else arg)\<lparr>r_rsize := (if memb_size < 4 then ucast memb_size else if memb_size \<le> 4 then 4 else 8)\<rparr>;
         pre = (if on_stack then emit_sub_tx os tmp frame (scast (r_offset arg)) else skip);
         op = (if clrd then ''or'' else ''mov'') in
     if bits = 0 \<and> r_rsize r = r_rsize dst then seqs [pre, xrr os op dst r]
     else
       seqs [pre, (if r_rsize r < 8 then emit_mov_reg_tx os ts tmp r else xrr os ''mov'' tmp r),
         (if bits \<noteq> 0 then xri os ''shl'' tmp bits else skip), xrr os op dst tmp])"

fun struct_loop_tx ::
    "nat \<Rightarrow> asm_os \<Rightarrow> tstore \<Rightarrow> reg \<Rightarrow> reg \<Rightarrow> dtype \<Rightarrow> type_t \<Rightarrow> agg_member list \<Rightarrow> nat \<Rightarrow> usize \<Rightarrow> bool \<Rightarrow> asm
     \<Rightarrow> (nat \<times> usize \<times> bool \<times> asm) option" where
  "struct_loop_tx 0 os ts dst tmp dt t args i acc clrd st = Some (i, acc, clrd, st)"
| "struct_loop_tx (Suc fuel) os ts dst tmp dt t args i acc clrd st =
    (if length args \<le> i then Some (i, acc, clrd, st)
     else case memb_at ts dt t i of None \<Rightarrow> None | Some (memb_size, memb_offset) \<Rightarrow>
      let bits = (memb_offset * 8) mod 64 in
      if 8 < acc + memb_size then Some (i, acc, clrd, st)
      else
       (let (clrd', step) =
          (case args ! i of
             A_VALUE v \<Rightarrow> (True, struct_value_tx os dst tmp (push_bit (unat bits) v) clrd)
           | A_REG r \<Rightarrow> (True, struct_reg_tx os ts dst tmp r memb_size bits clrd)
           | _ \<Rightarrow> (clrd, skip)) in
        Option.bind (step st) (struct_loop_tx fuel os ts dst tmp dt t args (i + 1) (acc + memb_size) clrd')))"

definition emit_eightbyte_struct_tx ::
    "asm_os \<Rightarrow> tstore \<Rightarrow> reg \<Rightarrow> dtype \<Rightarrow> agg_member list \<Rightarrow> nat \<Rightarrow> usize \<Rightarrow> asm \<Rightarrow> (bool \<times> nat \<times> usize \<times> asm) option" where
  "emit_eightbyte_struct_tx os ts dst0 dt args index sz st =
    (case base_type ts dt of None \<Rightarrow> None | Some t \<Rightarrow>
      let remaining = of_nat (length args - index) * ty_size t;
          span = (if 8 < remaining then 8 else remaining);
          dst = (if \<not> dtype_empty dt \<and> dk_tag (dtype_outer dt) = DK_ARRAY
                 then dst0\<lparr>r_rsize := (if 4 < span then 8 else if 2 < span then 4 else if 1 < span then 2 else 1)\<rparr>
                 else dst0) in
      map_option (\<lambda>(i, acc, clrd, st'). (clrd, i, sz + acc, st'))
        (struct_loop_tx (length args - index) os ts dst (shift_tmp_for dst) dt t args index 0 False st))"

definition emit_zero_out_tx :: "asm_os \<Rightarrow> reg \<Rightarrow> emitter" where
  "emit_zero_out_tx os dst = xrr os ''xor'' dst dst"

text \<open>The stores of \<open>emit_zerofill\<close>: eight bytes as often as they fit, then at most one of each smaller size.\<close>

definition zero_store :: "asm_os \<Rightarrow> reg \<Rightarrow> reg \<Rightarrow> i64 \<Rightarrow> u8 \<Rightarrow> usize \<Rightarrow> emitter" where
  "zero_store os base zero offset rsize left =
    (if ucast rsize \<le> left then emit_str_reg_tx os base (zero\<lparr>r_rsize := rsize\<rparr>) (ucast offset) else skip)"

definition emit_zerofill_tx :: "asm_os \<Rightarrow> tstore \<Rightarrow> reg \<Rightarrow> i64 \<Rightarrow> dtype \<Rightarrow> emitter" where
  "emit_zerofill_tx os ts base offset dt =
    (case dtype_size ts dt of None \<Rightarrow> (\<lambda>st. None)
     | Some sz \<Rightarrow>
        let zero = reg0\<lparr>r_type := SCRATCH, r_offset := 1, r_rsize := 8, r_dtype := dtype0\<lparr>d_base := d_base dt\<rparr>\<rparr>;
            words = unat (sz div 8) in
        seqs (xrr os ''xor'' zero zero
          # map (\<lambda>k. emit_str_reg_tx os base zero (ucast (offset + of_nat (8 * k)))) [0 ..< words]
          @ [zero_store os base zero (offset + (sz - sz mod 8)) 4 (sz mod 8),
             zero_store os base zero (offset + (sz - sz mod 4)) 2 (sz mod 4),
             zero_store os base zero (offset + (sz - sz mod 2)) 1 (sz mod 2)]))"

definition emit_store_eightbytes_tx :: "asm_os \<Rightarrow> reg \<Rightarrow> i64 \<Rightarrow> reg \<Rightarrow> bool \<Rightarrow> reg \<Rightarrow> bool \<Rightarrow> bool \<Rightarrow> emitter" where
  "emit_store_eightbytes_tx os base offset lo0 lo_written hi0 hi_written has_hi =
    (let lo = (if has_hi then lo0\<lparr>r_rsize := 8\<rparr> else lo0); hi = (if has_hi then hi0\<lparr>r_rsize := 8\<rparr> else hi0) in
     seqs
      ([if lo_written then skip else xrr os ''xor'' lo lo, emit_str_reg_tx os base lo (ucast offset)]
       @ (if has_hi then [if hi_written then skip else xrr os ''xor'' hi hi, emit_str_reg_tx os base hi (ucast offset + 8)] else [])))"

primrec packed_loop_tx :: "nat \<Rightarrow> asm_os \<Rightarrow> reg \<Rightarrow> i64 \<Rightarrow> reg \<Rightarrow> usize \<Rightarrow> usize \<Rightarrow> emitter" where
  "packed_loop_tx 0 os base offset src nbytes pos = skip"
| "packed_loop_tx (Suc fuel) os base offset src nbytes pos =
    (if nbytes = 0 then skip
     else
      let chunk = store_chunk nbytes; left = nbytes - ucast chunk in
      seqs [emit_str_reg_tx os base (src\<lparr>r_rsize := chunk\<rparr>) (ucast (offset + pos)),
        (if left \<noteq> 0 then xri os ''shr'' (src\<lparr>r_rsize := 8\<rparr>) (ucast chunk * 8) else skip),
        packed_loop_tx fuel os base offset src left (pos + ucast chunk)])"

definition emit_store_packed_tx :: "asm_os \<Rightarrow> reg \<Rightarrow> i64 \<Rightarrow> reg \<Rightarrow> usize \<Rightarrow> emitter" where
  "emit_store_packed_tx os base offset src nbytes = packed_loop_tx (unat nbytes) os base offset src nbytes 0"

section \<open>Control flow\<close>

definition cond_str_tx :: "string list" where
  "cond_str_tx = [''e'', ''ne'', ''ae'', ''b'', ''s'', ''ns'', ''o'', ''no'', ''a'', ''be'', ''ge'', ''l'', ''g'', ''le'']"

definition emit_branch_tx :: "string \<Rightarrow> string \<Rightarrow> int \<Rightarrow> emitter" where
  "emit_branch_tx fn_name label index = seqs [tputs (TAB # ''jmp ''), put_label fn_name label index, tputs [NL]]"

definition emit_branch_cond_tx :: "cond \<Rightarrow> string \<Rightarrow> string \<Rightarrow> int \<Rightarrow> emitter" where
  "emit_branch_cond_tx c fn_name label index =
    (if length cond_str_tx \<le> cond_no c then report (UnknownCondition c)
     else seqs [tprint (TAB # ''j'' @ cond_str_tx ! cond_no c @ '' ''), put_label fn_name label index, tputs [NL]])"

definition emit_label_tx :: "string \<Rightarrow> string \<Rightarrow> int \<Rightarrow> emitter" where
  "emit_label_tx fn_name label index = seqs [put_label fn_name label index, tputs ('':'' @ [NL])]"

definition emit_cond_set_tx :: "asm_os \<Rightarrow> reg \<Rightarrow> cond \<Rightarrow> emitter" where
  "emit_cond_set_tx os dst c =
    (let byte_dst = dst\<lparr>r_rsize := 1\<rparr>; wide_dst = (if r_rsize dst \<le> 1 then dst\<lparr>r_rsize := 4\<rparr> else dst) in
     if length cond_str_tx \<le> cond_no c then report (UnknownCondition c)
     else
       seqs [tprint (TAB # ''set'' @ cond_str_tx ! cond_no c @ '' ''), putreg_tx os byte_dst, tputc NL,
         tputs (TAB # ''movzx ''), putreg_tx os wide_dst, tputs '', '', putreg_tx os byte_dst, tputc NL])"

section \<open>Functions\<close>

definition hex_usize :: "usize \<Rightarrow> string" where
  "hex_usize n = ''0x'' @ nat_hex (unat n)"

text \<open>The frame: the shadow space, the locals and, when the pushes are odd, eight bytes of padding.\<close>

definition frame_shadow :: "parser_context \<Rightarrow> usize" where
  "frame_shadow pc = (if pc_calls_fn pc then 32 else 0)"

definition frame_locals :: "parser_context \<Rightarrow> usize" where
  "frame_locals pc = scast (pc_stack_size pc)"

definition frame_bytes :: "parser_context \<Rightarrow> usize" where
  "frame_bytes pc =
    (let pushes = unat (pc_nreg_count pc) + (if frame_locals pc \<noteq> 0 then 1 else 0) + (if pc_calls_fn pc then 1 else 0) in
     ALIGN_TO (frame_shadow pc + frame_locals pc) 0x10 + (if pushes mod 2 = 1 then 8 else 0))"

definition emit_fn_prologue_epilogue_tx :: "asm_os \<Rightarrow> parser_context \<Rightarrow> emitter" where
  "emit_fn_prologue_epilogue_tx os pc =
    (let n = unat (pc_nreg_count pc); locals = (frame_locals pc \<noteq> 0); sz = frame_bytes pc;
         saved = (\<lambda>i. reg0\<lparr>r_type := NREG, r_offset := of_nat i, r_rsize := 8\<rparr>) in
     seqs
      ([if locals then on_buf Prologue (buf_puts (INSTR ''push rbp'')) else skip]
       @ map (\<lambda>i. emit_r (x64_syntax os) Prologue ''push'' (saved i)) [0 ..< n]
       @ [if locals then
            (if frame_shadow pc \<noteq> 0 then pprint (INSTR (''lea rbp, [rsp - '' @ hex_usize (frame_shadow pc) @ '']''))
             else pprint (INSTR ''mov rbp, rsp''))
          else skip,
          if sz \<noteq> 0 then pprint (INSTR (''sub rsp, '' @ hex_usize sz)) else skip,
          if sz \<noteq> 0 then tprint (INSTR (''add rsp, '' @ hex_usize sz)) else skip]
       @ map (\<lambda>i. emit_r (x64_syntax os) Fn ''pop'' (saved i)) (rev [0 ..< n])
       @ [if locals then tputs (INSTR ''pop rbp'') else skip]))"

definition emit_fn_call_tx :: "string \<Rightarrow> emitter" where
  "emit_fn_call_tx s = seqs [tputs (TAB # ''call ''), tputs s, tputc NL]"

definition emit_fn_tx :: "asm_os \<Rightarrow> string \<Rightarrow> emitter" where
  "emit_fn_tx os fn_name =
    seqs [hputs (NL # TAB # ''.globl ''), hputs (os_fn_prefix os), hputs fn_name, hputs (NL # TAB # ''.p2align 4'' @ [NL]),
      annotate os fn_name, hputs (os_fn_prefix os), hputs fn_name, hputs ('':'' @ [NL])]"

definition emit_ret_tx :: emitter where
  "emit_ret_tx = tputs (INSTR ''ret'')"

section \<open>The back end\<close>

definition x64_text_back_end :: "asm_os \<Rightarrow> asm back_end" where
  "x64_text_back_end os = \<lparr>
     be_need_escaping = False,
     be_default_register_size = 8,
     be_fn_begin = emit_fn_begin_t,
     be_fn_end = emit_fn_end_t,
     be_eightbyte_struct = (\<lambda>ts d dt args i sz limit. emit_eightbyte_struct_tx os ts d dt args i sz),
     be_store_eightbytes = (\<lambda>ts. emit_store_eightbytes_tx os),
     be_store_packed = (\<lambda>ts. emit_store_packed_tx os),
     be_zerofill = emit_zerofill_tx os,
     be_array_access = emit_array_access_tx os,
     be_elem_addr = emit_elem_addr_tx os,
     be_mov = (\<lambda>ts. emit_mov_tx os),
     be_mov_reg = emit_mov_reg_tx os,
     be_add = (\<lambda>ts. emit_add_tx os),
     be_add_reg = emit_add_reg_tx os,
     be_sub = (\<lambda>ts. emit_sub_tx os),
     be_sub_reg = emit_sub_reg_tx os,
     be_cmp = (\<lambda>ts. emit_cmp_tx os),
     be_cmp_reg = emit_cmp_reg_tx os,
     be_string_lit = emit_string_lit_tx os,
     be_lsl = emit_lsl_tx os,
     be_zero_out = emit_zero_out_tx os,
     be_cond_set = (\<lambda>ts. emit_cond_set_tx os),
     be_str_reg = (\<lambda>ts. emit_str_reg_tx os),
     be_str_imm = emit_str_imm_tx os,
     be_ldr = (\<lambda>ts. emit_ldr_tx os),
     be_str_regoff = (\<lambda>ts. emit_str_regoff_tx os),
     be_str_imm_regoff = emit_str_imm_regoff_tx os,
     be_ldr_reg = (\<lambda>ts. emit_ldr_reg_tx os),
     be_branch = emit_branch_tx,
     be_branch_cond = emit_branch_cond_tx,
     be_label = emit_label_tx,
     be_prologue_epilogue = emit_fn_prologue_epilogue_tx os,
     be_fn_call = emit_fn_call_tx,
     be_fn = emit_fn_tx os,
     be_ret = emit_ret_tx\<rparr>"

end
