(* ===== verification/Asm_Laws.thy ===== *)
theory Asm_Laws
  imports A64_Asm_Agg X64_Asm_Agg A64_Arith
begin

text \<open>
  What the text back ends write: every emitter appends its lines to the text of the active function, and the
  AArch64 lines are the assembly syntax of the instructions that the machine-code back end emits.
\<close>

section \<open>Lengths of numbers\<close>

lemma length_nat_dec: "n < 10 ^ Suc k \<Longrightarrow> length (nat_dec n) \<le> Suc k"
proof (induction k arbitrary: n)
  case (Suc k)
  then have "n div 10 < 10 ^ Suc k" by (simp add: div_less_iff_less_mult)
  then show ?case using Suc.IH [of "n div 10"] by (subst nat_dec.simps) simp
qed (subst nat_dec.simps, simp)

lemma length_nat_hex: "n < 16 ^ Suc k \<Longrightarrow> length (nat_hex n) \<le> Suc k"
proof (induction k arbitrary: n)
  case (Suc k)
  then have "n div 16 < 16 ^ Suc k" by (simp add: div_less_iff_less_mult)
  then show ?case using Suc.IH [of "n div 16"] by (subst nat_hex.simps) simp
qed (subst nat_hex.simps, simp)

lemma length_hex64: "length (nat_hex (unat (w :: u64))) \<le> 16"
proof -
  have "unat w < 16 ^ Suc 15" using unsigned_less [of w] by simp
  then show ?thesis using length_nat_hex [of "unat w" 15] by simp
qed

lemma length_hex32: "length (nat_hex (unat (w :: u32))) \<le> 8"
proof -
  have "unat w < 16 ^ Suc 7" using unsigned_less [of w] by simp
  then show ?thesis using length_nat_hex [of "unat w" 7] by simp
qed

lemma length_int_dec32: "length (int_dec (sint (w :: i32))) \<le> 11"
proof -
  have "\<bar>sint w\<bar> \<le> 2 ^ 31" using sint_ge [of w] sint_lt [of w] by (simp add: abs_le_iff)
  then have "nat \<bar>sint w\<bar> < 10 ^ Suc 9" by simp
  from length_nat_dec [OF this] show ?thesis by (cases "sint w < 0") (simp_all add: int_dec_def)
qed

section \<open>Saying something\<close>

text \<open>A state with an active context whose buffers are in order.\<close>

definition ready :: "nat \<Rightarrow> asm \<Rightarrow> bool" where
  "ready c st \<longleftrightarrow> as_active st = Some c \<and> buf_ok (ac_prologue (as_ctxs st c)) \<and> buf_ok (ac_fn (as_ctxs st c))"

definition prologue_text :: "nat \<Rightarrow> asm \<Rightarrow> string" where
  "prologue_text c st = b_text (ac_prologue (as_ctxs st c))"

definition fn_text :: "nat \<Rightarrow> asm \<Rightarrow> string" where
  "fn_text c st = b_text (ac_fn (as_ctxs st c))"

text \<open>Nothing but the two buffers of the context changes.\<close>

definition aside :: "nat \<Rightarrow> asm \<Rightarrow> asm \<Rightarrow> bool" where
  "aside c st st' \<longleftrightarrow>
    (\<exists>p f. st' = st\<lparr>as_ctxs := (as_ctxs st)(c := (as_ctxs st c)\<lparr>ac_prologue := p, ac_fn := f\<rparr>)\<rparr>)"

definition adds :: "nat \<Rightarrow> string \<Rightarrow> string \<Rightarrow> asm \<Rightarrow> asm \<Rightarrow> bool" where
  "adds c p f st st' \<longleftrightarrow> ready c st' \<and> aside c st st' \<and> prologue_text c st' = prologue_text c st @ p \<and> fn_text c st' = fn_text c st @ f"

definition says :: "string \<Rightarrow> string \<Rightarrow> emitter \<Rightarrow> bool" where
  "says p f e \<longleftrightarrow> (\<forall>c st. ready c st \<longrightarrow> (\<exists>st'. e st = Some st' \<and> adds c p f st st'))"

lemma aside_refl: "aside c st st"
proof -
  let ?x = "as_ctxs st c"
  have "st = st\<lparr>as_ctxs := (as_ctxs st)(c := ?x\<lparr>ac_prologue := ac_prologue ?x, ac_fn := ac_fn ?x\<rparr>)\<rparr>" by simp
  then show ?thesis unfolding aside_def by blast
qed

lemma aside_trans: "aside c st st1 \<Longrightarrow> aside c st1 st2 \<Longrightarrow> aside c st st2"
  unfolding aside_def by (elim exE, rename_tac p f p' f', rule_tac x = p' in exI, rule_tac x = f' in exI) simp

lemma adds_trans: "adds c p f st st1 \<Longrightarrow> adds c p' f' st1 st2 \<Longrightarrow> adds c (p @ p') (f @ f') st st2"
  by (auto simp: adds_def intro: aside_trans)

lemma saysD:
  assumes "says p f e" and "ready c st"
  obtains st' where "e st = Some st'" and "adds c p f st st'" and "ready c st'"
  using assms unfolding says_def adds_def by blast

lemma says_nothing [intro!]: "says [] [] skip" "says [] [] (seqs [])"
  by (auto simp: says_def adds_def skip_def aside_refl)

lemma says_bind:
  assumes "says p f e" and "says p' f' e'"
  shows "says (p @ p') (f @ f') (\<lambda>st. Option.bind (e st) e')"
  unfolding says_def
proof (intro allI impI)
  fix c st
  assume "ready c st"
  with assms(1) obtain st1 where 1: "e st = Some st1" "adds c p f st st1" "ready c st1" by (rule saysD)
  obtain st2 where 2: "e' st1 = Some st2" "adds c p' f' st1 st2" using assms(2) 1(3) by (rule saysD)
  show "\<exists>st'. Option.bind (e st) e' = Some st' \<and> adds c (p @ p') (f @ f') st st'"
    using 1 2 adds_trans by auto
qed

lemma says_seqs [intro!]: "says p f e \<Longrightarrow> says p' f' (seqs es) \<Longrightarrow> says (p @ p') (f @ f') (seqs (e # es))"
  using says_bind [of p f e p' f' "seqs es"] by (simp add: says_def)

lemma says_eq: "says p f e \<Longrightarrow> p = p' \<Longrightarrow> f = f' \<Longrightarrow> says p' f' e"
  by simp

lemma buf_write:
  assumes "buf_ok b"
  shows "\<exists>b'. buf_puts s b = Some b' \<and> buf_ok b' \<and> b_text b' = b_text b @ s"
    and "\<exists>b'. buf_putc x b = Some b' \<and> buf_ok b' \<and> b_text b' = b_text b @ [x]"
    and "length s < SPRINTF_BUFSIZ \<Longrightarrow> \<exists>b'. buf_snprintf s b = Some b' \<and> buf_ok b' \<and> b_text b' = b_text b @ s"
proof -
  obtain b1 where 1: "buf_grow (length s) b = Some b1" "b_text b1 = b_text b" "buf_ok (b1\<lparr>b_text := b_text b1 @ s\<rparr>)"
    using buf_grow_append [OF assms, of s "length s"] by auto
  obtain b2 where 2: "buf_grow 1 b = Some b2" "b_text b2 = b_text b" "buf_ok (b2\<lparr>b_text := b_text b2 @ [x]\<rparr>)"
    using buf_grow_append [OF assms, of "[x]" 1] by auto
  show "\<exists>b'. buf_puts s b = Some b' \<and> buf_ok b' \<and> b_text b' = b_text b @ s"
    using 1 by (simp add: buf_puts_def)
  show "\<exists>b'. buf_putc x b = Some b' \<and> buf_ok b' \<and> b_text b' = b_text b @ [x]"
    using 2 by (simp add: buf_putc_def)
  show "length s < SPRINTF_BUFSIZ \<Longrightarrow> \<exists>b'. buf_snprintf s b = Some b' \<and> buf_ok b' \<and> b_text b' = b_text b @ s"
    using 1 by (simp add: buf_snprintf_def)
qed

lemma says_on_buf:
  assumes "\<And>b. buf_ok b \<Longrightarrow> \<exists>b'. w b = Some b' \<and> buf_ok b' \<and> b_text b' = b_text b @ s"
  shows "says [] s (on_buf Fn w)" and "says s [] (on_buf Prologue w)"
proof -
  have "\<exists>st'. on_buf Fn w st = Some st' \<and> adds c [] s st st'" if r: "ready c st" for c st
  proof -
    obtain b' where b: "w (ac_fn (as_ctxs st c)) = Some b'" "buf_ok b'" "b_text b' = b_text (ac_fn (as_ctxs st c)) @ s"
      using assms r by (auto simp: ready_def)
    have "aside c st (st\<lparr>as_ctxs := (as_ctxs st)(c := (as_ctxs st c)\<lparr>ac_prologue := ac_prologue (as_ctxs st c), ac_fn := b'\<rparr>)\<rparr>)"
      unfolding aside_def by blast
    then show ?thesis using r b by (simp add: on_buf_def adds_def ready_def prologue_text_def fn_text_def)
  qed
  then show "says [] s (on_buf Fn w)" by (simp add: says_def)
  have "\<exists>st'. on_buf Prologue w st = Some st' \<and> adds c s [] st st'" if r: "ready c st" for c st
  proof -
    obtain b' where b: "w (ac_prologue (as_ctxs st c)) = Some b'" "buf_ok b'" "b_text b' = b_text (ac_prologue (as_ctxs st c)) @ s"
      using assms r by (auto simp: ready_def)
    have "aside c st (st\<lparr>as_ctxs := (as_ctxs st)(c := (as_ctxs st c)\<lparr>ac_prologue := b', ac_fn := ac_fn (as_ctxs st c)\<rparr>)\<rparr>)"
      unfolding aside_def by blast
    then show ?thesis using r b by (simp add: on_buf_def adds_def ready_def prologue_text_def fn_text_def)
  qed
  then show "says s [] (on_buf Prologue w)" by (simp add: says_def)
qed

lemma says_put [intro!]:
  "says [] s (tputs s)" "says [] [x] (tputc x)"
  "length s < SPRINTF_BUFSIZ \<Longrightarrow> says [] s (tprint s)" "length s < SPRINTF_BUFSIZ \<Longrightarrow> says s [] (pprint s)"
  "says s [] (on_buf Prologue (buf_puts s))"
  unfolding tputs_def tputc_def tprint_def pprint_def by (rule says_on_buf; rule buf_write; assumption)+

section \<open>The syntax of instructions\<close>

text \<open>The assembly syntax of the instructions of \<open>A64_Isa\<close> that the emitters use, without the tab and the newline.\<close>

definition gpr_text :: "bool \<Rightarrow> nat \<Rightarrow> string" where
  "gpr_text sf n = (if sf then CHR ''x'' else CHR ''w'') # (if n = 31 then ''zr'' else nat_dec n)"

definition gsp_text :: "bool \<Rightarrow> nat \<Rightarrow> string" where
  "gsp_text sf n = (if n = 31 then (if sf then ''sp'' else ''wsp'') else gpr_text sf n)"

definition hex_imm :: "int \<Rightarrow> string" where
  "hex_imm k = CHR ''#'' # (if k < 0 then ''-0x'' @ nat_hex (nat (- k)) else ''0x'' @ nat_hex (nat k))"

definition mem_text :: "addr_mode \<Rightarrow> nat \<Rightarrow> int \<Rightarrow> string" where
  "mem_text md rn off =
    (case md of
       Offset \<Rightarrow> '', ['' @ gsp_text True rn @ '', '' @ hex_imm off @ '']''
     | PreIndex \<Rightarrow> '', ['' @ gsp_text True rn @ '', '' @ hex_imm off @ '']!''
     | PostIndex \<Rightarrow> '', ['' @ gsp_text True rn @ ''], '' @ hex_imm off)"

definition ext_names :: "string list" where
  "ext_names = [''uxtb'', ''uxth'', ''uxtw'', ''uxtx'', ''sxtb'', ''sxth'', ''sxtw'', ''sxtx'']"

definition access_text :: "nat \<Rightarrow> u32 \<Rightarrow> nat \<Rightarrow> string" where
  "access_text sz opc rt = (if opc = 0 then ''str'' else ''ldr'') @ (if sz = 0 then ''b'' else if sz = 1 then ''h'' else []) @ '' '' @ gpr_text (sz = 3) rt"

definition unknown_text :: string where "unknown_text = ''?''"

fun asm_line :: "a64_instr \<Rightarrow> string" where
  "asm_line (AddSubImm sf neg s sh imm rn d) =
    (if sh then unknown_text
     else if s then (if neg \<and> d = 31 then ''cmp '' @ gpr_text sf rn @ '', '' @ hex_imm (uint imm) else unknown_text)
     else if \<not> neg \<and> imm = 0 then ''mov '' @ gsp_text sf d @ '', '' @ gsp_text sf rn
     else (if neg then ''sub '' else ''add '') @ gsp_text sf d @ '', '' @ gsp_text sf rn @ '', '' @ hex_imm (uint imm))"
| "asm_line (AddSubReg sf neg s rm rn d) =
    (if s then (if neg \<and> d = 31 then ''cmp '' @ gpr_text sf rn @ '', '' @ gpr_text sf rm else unknown_text)
     else (if neg then ''sub '' else ''add '') @ gpr_text sf d @ '', '' @ gpr_text sf rn @ '', '' @ gpr_text sf rm)"
| "asm_line (AddSubExt sf neg s rm opt amount rn d) =
    (let operand = gpr_text (opt AND 3 = 3) rm @ '', '' @ ext_names ! unat opt in
     if amount \<noteq> 0 then unknown_text
     else if s then (if neg \<and> d = 31 then ''cmp '' @ gpr_text sf rn @ '', '' @ operand else unknown_text)
     else (if neg then ''sub '' else ''add '') @ gpr_text sf d @ '', '' @ gpr_text sf rn @ '', '' @ operand)"
| "asm_line (OrrReg sf rm rn d) =
    (if rn = 31 then ''mov '' @ gpr_text sf d @ '', '' @ gpr_text sf rm
     else ''orr '' @ gpr_text sf d @ '', '' @ gpr_text sf rn @ '', '' @ gpr_text sf rm)"
| "asm_line (Csinc sf rm c rn d) =
    (if rm = 31 \<and> rn = 31 then ''cset '' @ gpr_text sf d @ '', '' @ cond_str_ta ! (if even c then c + 1 else c - 1) else unknown_text)"
| "asm_line (LdStUImm sz opc imm rn rt) = access_text sz opc rt @ mem_text Offset rn (uint imm * 2 ^ sz)"
| "asm_line (LdStSImm md sz opc imm rn rt) = access_text sz opc rt @ mem_text md rn (sint (sext 9 imm))"
| "asm_line (LdStReg sz opc rm opt scaled rn rt) =
    access_text sz opc rt @ '', ['' @ gsp_text True rn @ '', '' @ gpr_text True rm @ (if scaled then '', lsl #'' @ nat_dec sz else []) @ '']''"
| "asm_line (LdStPair load md imm rt2 rn rt) =
    (if load then ''ldp'' else ''stp'') @ '' '' @ gpr_text True rt @ '', '' @ gpr_text True rt2 @ mem_text md rn (8 * sint (sext 7 imm))"
| "asm_line Return = ''ret''"
| "asm_line _ = unknown_text"

definition line_of :: "u32 \<Rightarrow> string" where
  "line_of w = INSTR (case a64_decode w of None \<Rightarrow> unknown_text | Some i \<Rightarrow> asm_line i)"

definition listing :: "u32 list \<Rightarrow> string" where
  "listing ws = concat (map line_of ws)"

lemma listing_simps [simp]:
  "listing [] = []" "listing (w # ws) = line_of w @ listing ws" "listing (vs @ ws) = listing vs @ listing ws"
  by (simp_all add: listing_def)

lemma line_of_decoded: "a64_decode w = Some i \<Longrightarrow> line_of w = INSTR (asm_line i)"
  by (simp add: line_of_def)

section \<open>Lines of a frame\<close>

lemma sint_small64: "- (2 ^ 63) \<le> i \<Longrightarrow> i < 2 ^ 63 \<Longrightarrow> sint (word_of_int i :: u64) = i"
  by (simp add: sint_sbintrunc' signed_take_bit_int_eq_self)

lemma unat_off8: "0 \<le> i \<Longrightarrow> i < 1000 \<Longrightarrow> unat (off8 i) = nat (8 * i)"
proof -
  assume "0 \<le> i" "i < 1000"
  then have "take_bit 32 (8 * i) = 8 * i" by (intro take_bit_int_eq_self) auto
  then show ?thesis unfolding off8_def unat_eq_nat_uint uint_word_of_int_eq by simp
qed

lemma hex_off8: "0 \<le> i \<Longrightarrow> i < 1000 \<Longrightarrow> hex_imm (8 * i) = CHR ''#'' # hex32 (off8 i)"
  "0 < i \<Longrightarrow> i < 1000 \<Longrightarrow> hex_imm (8 * - i) = CHR ''#'' # CHR ''-'' # hex32 (off8 i)"
  by (simp_all add: hex_imm_def hex32_def unat_off8)

lemma sint_imm7: "- 64 \<le> i \<Longrightarrow> i < 64 \<Longrightarrow> sint (sext 7 (imm7 i)) = i"
  using sint_small64 [of i] by simp

lemma gpr_text_x: "n < 31 \<Longrightarrow> gpr_text True n = CHR ''x'' # nat_dec n"
  by (simp add: gpr_text_def)

lemma pair_lines:
  assumes "a < 31" and "b < 31"
  shows "0 \<le> i \<Longrightarrow> i < 64 \<Longrightarrow> line_of (stp_word OP_STP_OFF (of_nat a) (of_nat b) 31 (off8 i)) = INSTR (pair_text ''stp'' a b @ at_sp (off8 i))"
    and "0 \<le> i \<Longrightarrow> i < 64 \<Longrightarrow> line_of (stp_word OP_LDP_OFF (of_nat a) (of_nat b) 31 (off8 i)) = INSTR (pair_text ''ldp'' a b @ at_sp (off8 i))"
    and "0 < i \<Longrightarrow> i \<le> 64 \<Longrightarrow> line_of (stp_word OP_STP_PRE (of_nat a) (of_nat b) 31 (off8 (- i))) = INSTR (pair_text ''stp'' a b @ pre_sp (off8 i))"
    and "0 \<le> i \<Longrightarrow> i < 64 \<Longrightarrow> line_of (stp_word OP_LDP_POST (of_nat a) (of_nat b) 31 (off8 i)) = INSTR (pair_text ''ldp'' a b @ post_sp (off8 i))"
proof -
  note r = callee_reg [OF assms(1)] callee_reg [OF assms(2)]
  note d = decode_pair [OF r(1,3) small_31 imm7(2), unfolded unat_31 r(2,4), THEN line_of_decoded]
  note t = gpr_text_x [OF assms(1)] gpr_text_x [OF assms(2)] pair_text_def mem_text_def gsp_text_def
  show "0 \<le> i \<Longrightarrow> i < 64 \<Longrightarrow> line_of (stp_word OP_STP_OFF (of_nat a) (of_nat b) 31 (off8 i)) = INSTR (pair_text ''stp'' a b @ at_sp (off8 i))"
    and "0 \<le> i \<Longrightarrow> i < 64 \<Longrightarrow> line_of (stp_word OP_LDP_OFF (of_nat a) (of_nat b) 31 (off8 i)) = INSTR (pair_text ''ldp'' a b @ at_sp (off8 i))"
    and "0 \<le> i \<Longrightarrow> i < 64 \<Longrightarrow> line_of (stp_word OP_LDP_POST (of_nat a) (of_nat b) 31 (off8 i)) = INSTR (pair_text ''ldp'' a b @ post_sp (off8 i))"
    using d(1) [of i] d(2) [of i] d(4) [of i]
    by (simp_all add: stp_word_imm7 t sint_imm7 hex_off8 at_sp_def post_sp_def del: imm7(1))
  show "0 < i \<Longrightarrow> i \<le> 64 \<Longrightarrow> line_of (stp_word OP_STP_PRE (of_nat a) (of_nat b) 31 (off8 (- i))) = INSTR (pair_text ''stp'' a b @ pre_sp (off8 i))"
    using d(3) [of "- i"] hex_off8(2) [of i]
    by (simp add: stp_word_imm7 t sint_imm7 pre_sp_def del: imm7(1))
qed

lemma one_lines:
  shows "0 < i \<Longrightarrow> i \<le> 32 \<Longrightarrow> line_of (str_imm9_word OP_STR_PRE (of_nat CALLEE_START) 31 (off8 (- i)))
      = INSTR (''str x'' @ nat_dec CALLEE_START @ '', [sp'' @ pre_sp (off8 i))"
    and "0 \<le> i \<Longrightarrow> i < 32 \<Longrightarrow> line_of (str_imm9_word OP_LDR_POST (of_nat CALLEE_START) 31 (off8 i))
      = INSTR (''ldr x'' @ nat_dec CALLEE_START @ '', [sp'' @ post_sp (off8 i))"
    and "0 \<le> i \<Longrightarrow> i < 512 \<Longrightarrow> line_of (str_off64_word OP_STR_OFF64 (of_nat CALLEE_START) 31 (off8 i))
      = INSTR (''str x'' @ nat_dec CALLEE_START @ '', [sp'' @ at_sp (off8 i))"
    and "0 \<le> i \<Longrightarrow> i < 512 \<Longrightarrow> line_of (str_off64_word OP_LDR_OFF64 (of_nat CALLEE_START) 31 (off8 i))
      = INSTR (''ldr x'' @ nat_dec CALLEE_START @ '', [sp'' @ at_sp (off8 i))"
proof -
  note d = decode_frame_one [OF small_regs(3) small_31 small_take_bit small_take_bit, unfolded unat_31 small_regs(6), THEN line_of_decoded]
  have c: "of_nat CALLEE_START = (19 :: u32)" "CALLEE_START = 19" by (simp_all add: CALLEE_START_def)
  have s9: "sint (sext 9 (take_bit 9 (off8 j))) = 8 * j" if "- 32 \<le> j" "j < 32" for j
    using that sint_small64 [of "8 * j"] sext_field [of 9 "8 * j"] unfolding off8_def by (simp del: of_int_mult)
  have u12: "uint (take_bit 12 (word_of_int j :: u32)) = j" if "0 \<le> j" "j < 512" for j
    using that by (simp add: unsigned_take_bit_eq uint_word_of_int_eq take_bit_int_eq_self)
  note t = gpr_text_x [of 19] mem_text_def gsp_text_def access_text_def c
  show "0 < i \<Longrightarrow> i \<le> 32 \<Longrightarrow> line_of (str_imm9_word OP_STR_PRE (of_nat CALLEE_START) 31 (off8 (- i)))
      = INSTR (''str x'' @ nat_dec CALLEE_START @ '', [sp'' @ pre_sp (off8 i))"
    using hex_off8(2) [of i] s9 [of "- i"] unfolding c(1) str_imm9_word_def and_1ff d(1) by (simp add: t pre_sp_def)
  show "0 \<le> i \<Longrightarrow> i < 32 \<Longrightarrow> line_of (str_imm9_word OP_LDR_POST (of_nat CALLEE_START) 31 (off8 i))
      = INSTR (''ldr x'' @ nat_dec CALLEE_START @ '', [sp'' @ post_sp (off8 i))"
    using hex_off8(1) [of i] s9 [of i] unfolding c(1) str_imm9_word_def and_1ff d(2) by (simp add: t post_sp_def)
  show "0 \<le> i \<Longrightarrow> i < 512 \<Longrightarrow> line_of (str_off64_word OP_STR_OFF64 (of_nat CALLEE_START) 31 (off8 i))
      = INSTR (''str x'' @ nat_dec CALLEE_START @ '', [sp'' @ at_sp (off8 i))"
    using hex_off8(1) [of i] u12 [of i]
    unfolding c(1) str_off64_word_def and_fff by (simp add: c_sdiv_off8 d(3) [simplified] t at_sp_def mult.commute)
  show "0 \<le> i \<Longrightarrow> i < 512 \<Longrightarrow> line_of (str_off64_word OP_LDR_OFF64 (of_nat CALLEE_START) 31 (off8 i))
      = INSTR (''ldr x'' @ nat_dec CALLEE_START @ '', [sp'' @ at_sp (off8 i))"
    using hex_off8(1) [of i] u12 [of i]
    unfolding c(1) str_off64_word_def and_fff by (simp add: c_sdiv_off8 d(4) [simplified] t at_sp_def mult.commute)
qed

lemma sp_lines:
  assumes "0 \<le> i" and "i < 512"
  shows "line_of (addsub_imm64 OP_SUB_SP_IMM 31 31 (off8 i)) = INSTR (''sub sp, sp, #'' @ hex32 (off8 i))"
    and "i \<noteq> 0 \<Longrightarrow> line_of (addsub_imm64 OP_ADD_SP_IMM 31 31 (off8 i)) = INSTR (''add sp, sp, #'' @ hex32 (off8 i))"
    and "line_of (addsub_imm64 OP_ADD_SP_IMM 29 31 (off8 i))
      = INSTR (if i = 0 then ''mov x29, sp'' else ''add x29, sp, #'' @ hex32 (off8 i))"
proof -
  note d = decode_frame_sp [OF _ small_31 small_take_bit, unfolded unat_31, THEN line_of_decoded]
  have u: "uint (take_bit 12 (off8 i)) = 8 * i"
    using assms by (simp add: off8_def unsigned_take_bit_eq uint_word_of_int_eq take_bit_int_eq_self del: of_int_mult)
  have z: "take_bit 12 (off8 i) = 0 \<longleftrightarrow> i = 0"
    using arg_cong [OF u, of "\<lambda>x. x = 0"] by (simp add: uint_0_iff)
  have n: "nat_dec 29 = ''29''" by code_simp
  show "line_of (addsub_imm64 OP_SUB_SP_IMM 31 31 (off8 i)) = INSTR (''sub sp, sp, #'' @ hex32 (off8 i))"
    and "i \<noteq> 0 \<Longrightarrow> line_of (addsub_imm64 OP_ADD_SP_IMM 31 31 (off8 i)) = INSTR (''add sp, sp, #'' @ hex32 (off8 i))"
    and "line_of (addsub_imm64 OP_ADD_SP_IMM 29 31 (off8 i))
      = INSTR (if i = 0 then ''mov x29, sp'' else ''add x29, sp, #'' @ hex32 (off8 i))"
    unfolding addsub_imm64_def and_fff d(1) [OF small_31] d(2) [OF small_31] d(2) [OF small_regs(1)]
    using hex_off8(1) [of i] assms by (simp_all add: small_regs unat_31 gsp_text_def gpr_text_def u z n)
qed

lemma seqs_last: "Option.bind (seqs es st) f = seqs (es @ [f]) st"
proof (induction es arbitrary: st)
  case Nil
  have "Option.bind x (seqs []) = x" for x by (cases x) simp_all
  then show ?case by simp
next
  case (Cons e es)
  then have "seqs (es @ [f]) = (\<lambda>st. Option.bind (seqs es st) f)" by auto
  then show ?case by (simp add: bind_assoc)
qed

lemma frame_line_lengths:
  "length (nat_dec (18 + n)) \<le> 2" "length (nat_dec (17 + n)) \<le> 2" if "n \<le> 8"
  using that length_nat_dec [of "18 + n" 1] length_nat_dec [of "17 + n" 1] by simp_all

lemma length_hexes: "length (hex32 w) \<le> 10" "length (at_sp w) \<le> 20" "length (pre_sp w) \<le> 20" "length (post_sp w) \<le> 20"
  using length_hex32 [of w] by (simp_all add: hex32_def at_sp_def pre_sp_def post_sp_def)

lemma says_lines:
  assumes "length (nat_dec a) \<le> 2" and "length (nat_dec b) \<le> 2" and "length x \<le> 20" and "length op \<le> 20"
  shows "says [] (INSTR (pair_text op a b @ x)) (tprint (INSTR (pair_text op a b @ x)))"
    and "says (INSTR (pair_text op a b @ x)) [] (pprint (INSTR (pair_text op a b @ x)))"
  using assms by (auto simp: INSTR_def pair_text_def SPRINTF_BUFSIZ_def)

lemma says_line:
  assumes "length x \<le> 20" and "length op \<le> 20"
  shows "says [] (INSTR (op @ x)) (tprint (INSTR (op @ x)))" and "says (INSTR (op @ x)) [] (pprint (INSTR (op @ x)))"
  using assms by (auto simp: INSTR_def SPRINTF_BUFSIZ_def)

lemma rest_words_rec:
  "rest_words op2 op1 n i =
    (if 1 < n then stp_word op2 (of_nat (18 + n)) (of_nat (17 + n)) 31 (off8 i) # rest_words op2 op1 (n - 2) (i + 2)
     else if n = 1 then [str_off64_word op1 (of_nat CALLEE_START) 31 (off8 i)] else [])"
proof (cases "1 < n")
  case True
  then have d: "n div 2 = Suc ((n - 2) div 2)" "(n - 2) mod 2 = n mod 2"
    by (simp_all add: le_div_geq le_mod_geq)
  have "off8 (i + 2 + 2 * int ((n - 2) div 2)) = off8 (i + 2 * int (n div 2))" by (simp add: d(1) algebra_simps)
  moreover have "of_nat (CALLEE_START + n - 1) = (of_nat (18 + n) :: u32)" "of_nat (18 + n) - 1 = (of_nat (17 + n) :: u32)"
    by (simp_all add: CALLEE_START_def)
  ultimately show ?thesis
    using True by (simp add: rest_words_def pair_words.simps [of _ n] d(2) del: of_nat_add)
next
  case False
  then have "n = 0 \<or> n = 1" by auto
  then show ?thesis by (auto simp: rest_words_def pair_words.simps [of _ 0] pair_words.simps [of _ "Suc 0"])
qed

lemma rest_says:
  assumes "n \<le> 8" and "0 \<le> i" and "i + int n < 64" and "n = 1 \<longrightarrow> i \<noteq> 0"
  shows "says (listing (rest_words OP_STP_OFF OP_STR_OFF64 n i)) (listing (rest_words OP_LDP_OFF OP_LDR_OFF64 n i))
    (\<lambda>st. Option.bind (save_pairs_ta n (off8 i) st) (save_last_ta ss))"
  using assms
proof (induction n i rule: pairs_plan.induct)
  case (1 n i)
  show ?case
  proof (cases "1 < n")
    case True
    have e: "CALLEE_START + n - 1 = 18 + n" "18 + n - 1 = 17 + n" using True by (simp_all add: CALLEE_START_def)
    have b: "18 + n < 31" "17 + n < 31" "0 \<le> i" "i < 64" using "1.prems" True by auto
    note l = frame_line_lengths [OF "1.prems"(1)]
    note w = pair_lines(1,2) [OF b(1,2) b(3,4)]
    have eq: "(\<lambda>st. Option.bind (save_pairs_ta n (off8 i) st) (save_last_ta ss)) = seqs
      [pprint (INSTR (pair_text ''stp'' (18 + n) (17 + n) @ at_sp (off8 i))), tprint (INSTR (pair_text ''ldp'' (18 + n) (17 + n) @ at_sp (off8 i))),
       \<lambda>st. Option.bind (save_pairs_ta (n - 2) (off8 (i + 2)) st) (save_last_ta ss)]"
      using True unfolding save_pairs_ta.simps [of n] by (intro ext) (simp add: Let_def e off8_add bind_assoc seqs_last del: seqs.simps One_nat_def)
    have "says (listing (rest_words OP_STP_OFF OP_STR_OFF64 (n - 2) (i + 2))) (listing (rest_words OP_LDP_OFF OP_LDR_OFF64 (n - 2) (i + 2)))
      (\<lambda>st. Option.bind (save_pairs_ta (n - 2) (off8 (i + 2)) st) (save_last_ta ss))"
      using "1.prems" True by (intro "1.IH" [OF True]) auto
    then have "says (INSTR (pair_text ''stp'' (18 + n) (17 + n) @ at_sp (off8 i)) @ [] @ listing (rest_words OP_STP_OFF OP_STR_OFF64 (n - 2) (i + 2)) @ [])
       ([] @ INSTR (pair_text ''ldp'' (18 + n) (17 + n) @ at_sp (off8 i)) @ listing (rest_words OP_LDP_OFF OP_LDR_OFF64 (n - 2) (i + 2)) @ [])
       (\<lambda>st. Option.bind (save_pairs_ta n (off8 i) st) (save_last_ta ss))"
      unfolding eq by (intro says_seqs says_lines says_line says_nothing l length_hexes) simp_all
    then show ?thesis using True w by (simp add: rest_words_rec [of _ _ n] del: of_nat_add)
  next
    case False
    then consider "n = 0" | "n = 1" "i \<noteq> 0" using "1.prems" by linarith
    then show ?thesis
    proof cases
      case 2
      have z: "off8 i \<noteq> 0" and b: "0 \<le> i" "i < 512" using 2 "1.prems" off8_eq_0 [of i] by auto
      have "says (INSTR ((''str x'' @ nat_dec CALLEE_START @ '', [sp'') @ at_sp (off8 i)) @ [] @ [])
         ([] @ INSTR ((''ldr x'' @ nat_dec CALLEE_START @ '', [sp'') @ at_sp (off8 i)) @ [])
         (seqs [pprint (INSTR ((''str x'' @ nat_dec CALLEE_START @ '', [sp'') @ at_sp (off8 i))),
                tprint (INSTR ((''ldr x'' @ nat_dec CALLEE_START @ '', [sp'') @ at_sp (off8 i)))])"
        using frame_line_lengths(1) [of 1] frame_line_lengths(1) [of 1]
        by (intro says_seqs says_line says_nothing length_hexes) (simp_all add: CALLEE_START_def)
      then show ?thesis
        using 2 z one_lines(3,4) [OF b] save_pairs_ta.simps [of 1]
        by (simp add: rest_words_rec [of _ _ "Suc 0"] save_last_ta_def Let_def del: seqs.simps)
    qed (use save_pairs_ta.simps [of 0] in \<open>simp add: rest_words_rec [of _ _ 0] save_last_ta_def says_nothing(1) [unfolded skip_def]\<close>)
  qed
qed

section \<open>The frame in both back ends\<close>

text \<open>The emitters of a frame after the prologue buffer has been emptied.\<close>

lemma one_says:
  assumes "0 < i" and "i < 32"
  shows "says (line_of (str_imm9_word OP_STR_PRE (of_nat CALLEE_START) 31 (off8 (- i))))
    (line_of (str_imm9_word OP_LDR_POST (of_nat CALLEE_START) 31 (off8 i)))
    (\<lambda>st. Option.bind (save_pairs_ta 1 0 st) (save_last_ta (off8 i)))"
proof -
  have c: "length (nat_dec CALLEE_START) \<le> 2" using frame_line_lengths(1) [of 1] by (simp add: CALLEE_START_def)
  have "says (INSTR ((''str x'' @ nat_dec CALLEE_START @ '', [sp'') @ pre_sp (off8 i)) @ [] @ [])
     ([] @ INSTR ((''ldr x'' @ nat_dec CALLEE_START @ '', [sp'') @ post_sp (off8 i)) @ [])
     (seqs [pprint (INSTR ((''str x'' @ nat_dec CALLEE_START @ '', [sp'') @ pre_sp (off8 i))),
            tprint (INSTR ((''ldr x'' @ nat_dec CALLEE_START @ '', [sp'') @ post_sp (off8 i)))])"
    using c by (intro says_seqs says_line says_nothing length_hexes) simp_all
  then show ?thesis
    using one_lines(1,2) [of i] assms save_pairs_ta.simps [of 1] by (simp add: save_last_ta_def Let_def del: seqs.simps)
qed

definition frame_steps :: "parser_context \<Rightarrow> emitter list" where
  "frame_steps pc =
    (let n = nregs pc; o' = off8 (obj_slots pc); T = off8 (frame_slots pc); a = CALLEE_START + n - 1; b = a - 1;
         rest = (\<lambda>n i st. Option.bind (save_pairs_ta n i st) (save_last_ta T)) in
     if has_fp pc then
       (if obj_slots pc = 0 then
          [pprint (INSTR (pair_text ''stp'' 29 30 @ pre_sp T)), rest n (o' + 16), on_buf Prologue (buf_puts (INSTR ''mov x29, sp'')),
           tprint (INSTR (pair_text ''ldp'' 29 30 @ post_sp T))]
        else
          [pprint (INSTR (''sub sp, sp, #'' @ hex32 T)), pprint (INSTR (pair_text ''stp'' 29 30 @ at_sp o')),
           tprint (INSTR (pair_text ''ldp'' 29 30 @ at_sp o')), rest n (o' + 16), pprint (INSTR (''add x29, sp, #'' @ hex32 o')),
           tprint (INSTR (''add sp, sp, #'' @ hex32 T))])
     else if n = 0 then []
     else if n = 1 then [rest 1 0]
     else [pprint (INSTR (pair_text ''stp'' a b @ pre_sp T)), rest (n - 2) (o' + 16), tprint (INSTR (pair_text ''ldp'' a b @ post_sp T))])"

lemma seqs_fun: "seqs [] = Some" "seqs (e # es) = (\<lambda>st. Option.bind (e st) (seqs es))" "skip = Some"
  by (simp_all add: fun_eq_iff skip_def)

lemmas seqs_norm = seqs_fun bind_assoc bind_runit Option.bind.simps(2) append_Cons append_Nil

lemma frame_text_steps:
  assumes "frame_fits pc"
  shows "emit_fn_prologue_epilogue_ta pc = seqs (on_buf Prologue (\<lambda>b. Some (b\<lparr>b_text := []\<rparr>)) # frame_steps pc)"
proof -
  note o = objs_off8 [OF assms]
  have n: "\<not> 28 \<le> nregs pc + CALLEE_START"
    using assms by (auto simp: frame_fits_def CALLEE_START_def)
  have early: "\<not> pc_calls_fn pc \<and> pc_max_nreg_count pc = 0 \<and> pc_stack_size pc = 0 \<longleftrightarrow> \<not> has_fp pc \<and> nregs pc = 0"
    using sless_small [of "pc_stack_size pc"] assms
    by (auto simp: has_fp_def nregs_def unat_eq_0 frame_fits_def)
  have z: "off8 0 = 0" by (simp add: off8_def)
  have nofp: "\<not> has_fp pc \<Longrightarrow> obj_slots pc = 0" using frame_slots_bounds(5) [OF assms] .
  have t: "ALIGN_TO (of_nat ((nregs pc + (if has_fp pc then 2 else 0)) * 8)) 16 + off8 (obj_slots pc) = off8 (frame_slots pc)"
    using o(2) unfolding o(1) .
  note unf = emit_fn_prologue_epilogue_ta_def Let_def has_fp_def [symmetric] nregs_def [symmetric] early o(1) t o(3,4)
  show ?thesis
  proof (cases "has_fp pc")
    case True
    have r: "1 < nregs pc + 2" "nregs pc + 2 - 2 = nregs pc" by auto
    have t2: "ALIGN_TO (of_nat ((nregs pc + 2) * 8)) 16 + off8 (obj_slots pc) = off8 (frame_slots pc)"
      using t True by simp
    show ?thesis
    proof (cases "obj_slots pc = 0")
      case zero: True
      then have h: "(obj_slots pc = 0) = True" by simp
      show ?thesis by (simp only: unf True n h simp_thms if_True if_False r t2 frame_steps_def seqs_norm)
    next
      case zero: False
      then have h: "(obj_slots pc = 0) = False" by simp
      show ?thesis by (simp only: unf True n h simp_thms if_True if_False r t2 frame_steps_def seqs_norm)
    qed
  next
    case False
    have t2: "ALIGN_TO (of_nat (nregs pc * 8)) 16 + 0 = off8 (frame_slots pc)"
      using t False nofp [OF False] z by simp
    consider "nregs pc = 0" | "nregs pc = 1" | "(1 < nregs pc) = True" "(nregs pc = 0) = False" "(nregs pc = 1) = False"
      by (cases "1 < nregs pc") (auto simp: not_less le_Suc_eq)
    then show ?thesis
    proof cases
      case 1
      then show ?thesis using False by (simp only: unf simp_thms if_True if_False frame_steps_def seqs_norm)
    next
      case 2
      have "((1 :: nat) = 0) = False" "((1 :: nat) < 1) = False" "(0 <s (0 :: i32)) = False" by simp_all
      then show ?thesis
        using n t2 unfolding unf frame_steps_def nofp [OF False]
        by (simp only: False 2 simp_thms if_True if_False add_0_right z seqs_norm)
    next
      case 3
      have "(0 <s (0 :: i32)) = False" by simp
      then show ?thesis
        using 3 n t2 unfolding unf frame_steps_def nofp [OF False]
        by (simp only: False simp_thms if_True if_False add_0_right z seqs_norm)
    qed
  qed
qed

lemma frame_says:
  assumes "frame_fits pc"
  shows "says (listing (frame_prol pc)) (listing (frame_epil pc)) (seqs (frame_steps pc))"
proof -
  note b = frame_slots_bounds [OF assms]
  define n o' T where "n = nregs pc" and "o' = obj_slots pc" and "T = frame_slots pc"
  note f = n_def [symmetric] o'_def [symmetric] T_def [symmetric]
  have T: "T \<le> 62" "n \<le> 8" "0 \<le> o'" "o' + int n + (if has_fp pc then 2 else 0) \<le> T"
    using b by (auto simp: f split: if_splits)
  have d: "length (nat_dec 29) \<le> 2" "length (nat_dec 30) \<le> 2"
    using length_nat_dec [of 29 1] length_nat_dec [of 30 1] by simp_all
  note say = says_seqs says_lines says_line says_nothing says_put length_hexes d
  show ?thesis
  proof (cases "has_fp pc")
    case True
    then have bd: "0 < T" "0 \<le> T" "T \<le> 64" "T < 64" "T < 512" "0 \<le> o'" "o' < 64" "o' < 512" "0 \<le> o' + 2" "o' + 2 + int n < 64"
      using T by (auto split: if_splits)
    note rest = rest_says [OF T(2) bd(9,10), of "off8 T"]
    show ?thesis
    proof (cases "o' = 0")
      case z: True
      have "says (INSTR (pair_text ''stp'' 29 30 @ pre_sp (off8 T)) @ listing (rest_words OP_STP_OFF OP_STR_OFF64 n (o' + 2)) @ INSTR ''mov x29, sp'' @ [] @ [])
        ([] @ listing (rest_words OP_LDP_OFF OP_LDR_OFF64 n (o' + 2)) @ [] @ INSTR (pair_text ''ldp'' 29 30 @ post_sp (off8 T)) @ [])
        (seqs (frame_steps pc))"
        using rest bd unfolding frame_steps_def f Let_def off8_add if_P [OF True] if_P [OF z]
        by (intro say) simp_all
      then show ?thesis
        using True z bd T(2) pair_lines(3,4) [of 29 30 T] sp_lines(3) [of 0]
        unfolding frame_prol_def frame_epil_def f Let_def by simp
    next
      case z: False
      have "says (INSTR (''sub sp, sp, #'' @ hex32 (off8 T)) @ INSTR (pair_text ''stp'' 29 30 @ at_sp (off8 o')) @ []
           @ listing (rest_words OP_STP_OFF OP_STR_OFF64 n (o' + 2)) @ INSTR (''add x29, sp, #'' @ hex32 (off8 o')) @ [] @ [])
        ([] @ [] @ INSTR (pair_text ''ldp'' 29 30 @ at_sp (off8 o')) @ listing (rest_words OP_LDP_OFF OP_LDR_OFF64 n (o' + 2)) @ []
           @ INSTR (''add sp, sp, #'' @ hex32 (off8 T)) @ [])
        (seqs (frame_steps pc))"
        using rest bd length_hexes(1) [of "off8 T"] length_hexes(1) [of "off8 o'"]
        unfolding frame_steps_def f Let_def off8_add if_P [OF True] if_not_P [OF z]
        by (intro say) simp_all
      then show ?thesis
        using True z bd T(2) pair_lines(1,2) [of 29 30 o'] sp_lines(1,2) [of T] sp_lines(3) [of o']
        unfolding frame_prol_def frame_epil_def f Let_def by simp
    qed
  next
    case False
    then have z: "o' = 0" using b(5) by (simp add: f)
    consider "n = 0" | "n = 1" | "1 < n" by linarith
    then show ?thesis
    proof cases
      case 1
      then show ?thesis
        using False unfolding frame_steps_def frame_prol_def frame_epil_def f Let_def by (simp add: says_nothing del: seqs.simps)
    next
      case 2
      have "T = 2" using 2 False z by (simp add: T_def frame_slots_def f)
      have q: "(n = 0) = False" "(n = 1) = True" using 2 by simp_all
      have steps: "frame_steps pc = [\<lambda>st. Option.bind (save_pairs_ta 1 0 st) (save_last_ta (off8 T))]"
        unfolding frame_steps_def f Let_def if_not_P [OF False] q if_True if_False ..
      have "says (line_of (str_imm9_word OP_STR_PRE (of_nat CALLEE_START) 31 (off8 (- T))) @ [])
        (line_of (str_imm9_word OP_LDR_POST (of_nat CALLEE_START) 31 (off8 T)) @ []) (seqs (frame_steps pc))"
        using one_says [of T] \<open>T = 2\<close> unfolding steps
        by (intro say) simp_all
      then show ?thesis
        using 2 False unfolding frame_prol_def frame_epil_def f Let_def by simp
    next
      case 3
      have k: "n - 2 \<le> 8" "2 + int (n - 2) < 64" "0 < T" "T < 64" "T \<le> 64" "0 \<le> T" using T 3 False z by auto
      have e: "CALLEE_START + n - 1 = 18 + n" "18 + n - 1 = 17 + n" using 3 by (simp_all add: CALLEE_START_def)
      have w: "of_nat (CALLEE_START + n - 1) = (of_nat (18 + n) :: u32)" "of_nat (18 + n) - 1 = (of_nat (17 + n) :: u32)"
        "18 + n < 31" "17 + n < 31" using 3 T(2) by (simp_all add: CALLEE_START_def)
      note l = frame_line_lengths [OF T(2)]
      have q: "(n = 0) = False" "(n = 1) = False" "off8 o' + 16 = off8 2" using 3 z by (simp_all add: off8_def)
      have steps: "frame_steps pc = [pprint (INSTR (pair_text ''stp'' (18 + n) (17 + n) @ pre_sp (off8 T))),
          \<lambda>st. Option.bind (save_pairs_ta (n - 2) (off8 2) st) (save_last_ta (off8 T)),
          tprint (INSTR (pair_text ''ldp'' (18 + n) (17 + n) @ post_sp (off8 T)))]"
        unfolding frame_steps_def f Let_def if_not_P [OF False] q if_True if_False e ..
      have "says (INSTR (pair_text ''stp'' (18 + n) (17 + n) @ pre_sp (off8 T)) @ listing (rest_words OP_STP_OFF OP_STR_OFF64 (n - 2) 2) @ [] @ [])
        ([] @ listing (rest_words OP_LDP_OFF OP_LDR_OFF64 (n - 2) 2) @ INSTR (pair_text ''ldp'' (18 + n) (17 + n) @ post_sp (off8 T)) @ [])
        (seqs (frame_steps pc))"
        using rest_says [OF k(1) _ k(2), of "off8 T"] unfolding steps
        by (intro say l) simp_all
      then show ?thesis
        using 3 False k pair_lines(3,4) [OF w(3,4), of T] unfolding frame_prol_def frame_epil_def f Let_def w(1,2) by simp
    qed
  qed
qed

text \<open>
  C6. The two AArch64 back ends give a function the same frame: for a frame that fits the encodings, of at most
  eight callee-saved registers and 496 bytes, the
  prologue that the text back end writes is the listing of the words that the machine-code back end puts
  before the function, what it appends to the body is the listing of the epilogue words, and nothing else of
  its state changes. Beyond these bounds the words hold cut offsets and the text whole ones.
\<close>

theorem frame_text_is_listing:
  assumes "frame_fits pc" and "length (body bst) + 10 \<le> CODE_CAP" and "ready c st"
  shows "\<exists>st'. emit_fn_prologue_epilogue_ta pc st = Some st' \<and> aside c st st'
    \<and> prologue_text c st' = listing (prol (emit_fn_prologue_epilogue pc bst))
    \<and> fn_text c st' = fn_text c st @ listing (emitted (emit_fn_prologue_epilogue pc) bst)"
proof -
  let ?x = "as_ctxs st c"
  let ?st0 = "st\<lparr>as_ctxs := (as_ctxs st)(c := ?x\<lparr>ac_prologue := (ac_prologue ?x)\<lparr>b_text := []\<rparr>\<rparr>)\<rparr>"
  have r: "on_buf Prologue (\<lambda>b. Some (b\<lparr>b_text := []\<rparr>)) st = Some ?st0"
    using assms(3) by (simp add: on_buf_def ready_def)
  have "ready c ?st0" "prologue_text c ?st0 = []" "fn_text c ?st0 = fn_text c st"
    using assms(3) by (auto simp: ready_def prologue_text_def fn_text_def buf_ok_def buf_len_def buf_cap_def)
  moreover have "aside c st ?st0"
    unfolding aside_def by (rule exI [of _ "(ac_prologue ?x)\<lparr>b_text := []\<rparr>"], rule exI [of _ "ac_fn ?x"]) simp
  moreover obtain st' where "seqs (frame_steps pc) ?st0 = Some st'"
    "adds c (listing (frame_prol pc)) (listing (frame_epil pc)) ?st0 st'"
    using frame_says [OF assms(1)] \<open>ready c ?st0\<close> by (rule saysD)
  ultimately show ?thesis
    unfolding frame_text_steps [OF assms(1)] frame_emit [OF assms(1,2)]
    by (intro exI [of _ st']) (simp add: r adds_def emitted_def frame_emit [OF assms(1,2)] aside_trans [of c st ?st0])
qed

definition ex_asm :: asm where
  "ex_asm = (let ctx = \<lparr>ac_header = buf_init 0x100, ac_prologue = buf_init INIT_BUFSIZ, ac_fn = buf_init INIT_BUFSIZ\<rparr> in
    \<lparr>as_text = buf_init INIT_BUFSIZ, as_cstr = buf_init INIT_BUFSIZ, as_string_begin = 0, as_string_block = INIT_BUFSIZ, as_lits = 0,
     as_ctxs = (\<lambda>_. ctx), as_stack = [], as_active = Some 0, as_errs = []\<rparr>)"

lemma ex_asm_ready: "ready 0 ex_asm"
  by (simp add: ready_def ex_asm_def buf_ok_def buf_init_def buf_len_def buf_cap_def INIT_BUFSIZ_def Let_def)

lemma frame_text_is_listing_witness:
  "\<exists>st'. emit_fn_prologue_epilogue_ta ex_pc ex_asm = Some st'
    \<and> prologue_text 0 st' = listing (prol (emit_fn_prologue_epilogue ex_pc ex_st))"
  using frame_text_is_listing [OF ex_pc_fits(1,2) ex_asm_ready] by blast

end
