(* ===== verification/Asm_Listing.thy ===== *)
theory Asm_Listing
  imports Asm_Laws
begin

text \<open>
  The arithmetic, the comparisons, the loads and the stores of the AArch64 text back end: they write the
  listing of the words that the machine-code back end emits for the same operands.
\<close>

section \<open>Operands\<close>

text \<open>
  A register that both back ends print alike: a numbered one, of a size a register can have, which is also
  the size of its type unless it is eight bytes wide.
\<close>

definition operand :: "tstore \<Rightarrow> reg \<Rightarrow> bool" where
  "operand ts r \<longleftrightarrow> r_type r \<noteq> RD_NONE \<and> r_type r \<noteq> STACK \<and> rno r < 31 \<and> r_rsize r \<in> {1, 2, 4, 8}
    \<and> (r_rsize r \<noteq> 8 \<longrightarrow> dtype_tryget_addr (r_dtype r) = 0
         \<and> (case base_type ts (r_dtype r) of None \<Rightarrow> True | Some t \<Rightarrow> ty_size t = ucast (r_rsize r)))"

lemma operand_enc: "operand ts r \<Longrightarrow> small 5 (reg_no r)"
  by (simp add: operand_def small_def)

lemma operand_wide: "operand ts r \<Longrightarrow> wide r \<longleftrightarrow> r_rsize r = 8"
  by (auto simp: operand_def wide_def is64_def)

lemma operand_size:
  assumes "operand ts r"
  shows "ldst_size r = ucast (r_rsize r)" "ldst_size r \<noteq> 0" "size_log r = 3 \<longleftrightarrow> wide r"
    "unat (size_log r) = 3 \<longleftrightarrow> wide r"
  using assms operand_wide [OF assms] by (auto simp: operand_def ldst_size_def size_log_def Let_def word_le_nat_alt)

lemma operand_text: "operand ts r \<Longrightarrow> regno_text r = nat_dec (rno r)"
proof -
  assume r: "operand ts r"
  then have "get_regoff_ta r = reg_no r"
    by (cases "r_type r") (simp_all add: operand_def get_regoff_ta_def reg_no_def)
  moreover have "sint (reg_no r) = int (rno r)"
  proof -
    have "rno r < 31" using r by (simp add: operand_def)
    then have "int (rno r) < int 31" by (simp only: of_nat_less_iff)
    then have "uint (reg_no r) < 2 ^ 31" by simp
    moreover have "- (2 ^ 31) \<le> uint (reg_no r)" by (rule order.trans [of _ 0]) simp_all
    ultimately show ?thesis using sint_small_int [of "uint (reg_no r)"] by simp
  qed
  ultimately show ?thesis by (simp add: regno_text_def int_dec_def)
qed

lemma regno_text_size [simp]: "regno_text (r\<lparr>r_rsize := n\<rparr>) = regno_text r"
  by (cases "r_type r") (simp_all add: regno_text_def get_regoff_ta_def)

lemma operand_digits: "operand ts r \<Longrightarrow> length (nat_dec (rno r)) \<le> 2"
  using length_nat_dec [of "rno r" 1] by (simp add: operand_def)

lemma says_operand:
  assumes "operand ts r"
  shows "says [] (gpr_text (wide r) (rno r)) (putreg_ta r)"
proof -
  have "putreg_ta r = tprint (gpr_text (wide r) (rno r))"
    using assms operand_wide [OF assms] operand_text [OF assms]
    by (auto simp: buf_putreg_ta_def gpr_text_def tprint_def operand_def fun_eq_iff)
  then show ?thesis
    using operand_digits [OF assms] by (auto simp: gpr_text_def SPRINTF_BUFSIZ_def intro!: says_put(3))
qed

text \<open>A base register may also be the stack pointer; it is printed at eight bytes.\<close>

lemma says_base:
  assumes "operand ts r \<or> r_type r = STACK"
  shows "says [] (gsp_text True (rno r)) (putreg_ta (r\<lparr>r_rsize := 8\<rparr>))"
proof (cases "r_type r = STACK")
  case True
  then show ?thesis
    using says_put(1) [of "''sp''"] by (simp add: buf_putreg_ta_def gsp_text_def reg_no_def tputs_def)
next
  case False
  then have r: "operand ts r" using assms by simp
  then have "putreg_ta (r\<lparr>r_rsize := 8\<rparr>) = tprint (gpr_text True (rno r))"
    using operand_text [OF r]
    by (auto simp: buf_putreg_ta_def gpr_text_def tprint_def operand_def fun_eq_iff)
  then show ?thesis
    using r operand_digits [OF r] by (auto simp: gsp_text_def gpr_text_def operand_def SPRINTF_BUFSIZ_def intro!: says_put(3))
qed

lemma imm_text_hex: "imm_text ''#'' i = hex_imm (sint i)"
proof -
  have b: "- (2 ^ 63) \<le> sint i" "sint i < 2 ^ 63" using sint_ge [of i] sint_lt [of i] by simp_all
  have u: "unat (word_of_int k :: u64) = nat k" if "0 \<le> k" "k < 2 ^ 64" for k
    using that by (rule unat_word_of_int)
  have "i = word_of_int (sint i)" "- i = word_of_int (- sint i)" by simp_all
  then have "0 \<le> sint i \<Longrightarrow> unat i = nat (sint i)" "sint i < 0 \<Longrightarrow> unat (- i) = nat (- sint i)"
    using u [of "sint i"] u [of "- sint i"] b by simp_all
  then show ?thesis by (auto simp: imm_text_def hex_imm_def word_sless_alt not_less)
qed

section \<open>Saying the same\<close>

text \<open>The lines one emitter appends to the function are the listing of the words that the other appends.\<close>

definition same_code :: "emitter \<Rightarrow> (a64 \<Rightarrow> a64) \<Rightarrow> bool" where
  "same_code te be \<longleftrightarrow>
    (\<forall>c st bst. ready c st \<and> length (body bst) < CODE_CAP \<longrightarrow>
      (\<exists>st'. te st = Some st' \<and> adds c [] (listing (emitted be bst)) st st'))"

lemma same_codeI:
  assumes "be = put_word w" and "says [] (line_of w) te"
  shows "same_code te be"
  using assms(2) by (auto simp: same_code_def assms(1) says_def)

lemma same_code_nothing: "same_code skip id"
  using says_nothing(1) by (auto simp: same_code_def says_def emitted_def)

text \<open>The lines of the helper functions, in the shape in which the emitters call them.\<close>

lemma says_rx:
  assumes "says [] a (putreg_ta r)"
  shows "says [] (TAB # op @ '' '' @ a) (rx op r)"
  using says_seqs [OF says_put(2) [of TAB] says_seqs [OF says_put(1) [of op] says_seqs [OF says_put(2) [of "CHR '' ''"]
    says_seqs [OF assms says_nothing(2)]]]]
  by (simp add: emit_rx_def a64_syntax_def)

lemma says_then: "says [] a e \<Longrightarrow> says [] b (seqs es) \<Longrightarrow> says [] (a @ b) (seqs (e # es))"
  using says_seqs [of "[]" a e "[]" b es] by simp

lemma says_rrx:
  assumes "says [] a (putreg_ta r)" and "says [] b (putreg_ta s)"
  shows "says [] (TAB # op @ '' '' @ a @ '', '' @ b) (rrx op r s)"
  using says_then [OF says_rx [OF assms(1)] says_then [OF says_put(1) [of "'', ''"] says_then [OF assms(2) says_nothing(2)]]]
  by (simp add: emit_rrx_def a64_syntax_def)

lemma says_rr:
  assumes "says [] a (putreg_ta r)" and "says [] b (putreg_ta s)"
  shows "says [] (INSTR (op @ '' '' @ a @ '', '' @ b)) (rr op r s)"
  using says_then [OF says_rrx [OF assms] says_then [OF says_put(2) [of NL] says_nothing(2)]]
  by (simp add: emit_rr_def INSTR_def)

lemma says_rrrx:
  assumes "says [] a (putreg_ta r)" and "says [] b (putreg_ta s)" and "says [] d (putreg_ta t)"
  shows "says [] (TAB # op @ '' '' @ a @ '', '' @ b @ '', '' @ d) (rrrx op r s t)"
  using says_then [OF says_rrx [OF assms(1,2)] says_then [OF says_put(1) [of "'', ''"] says_then [OF assms(3) says_nothing(2)]]]
  by (simp add: emit_rrrx_def a64_syntax_def)

lemma says_rrr:
  assumes "says [] a (putreg_ta r)" and "says [] b (putreg_ta s)" and "says [] d (putreg_ta t)"
  shows "says [] (INSTR (op @ '' '' @ a @ '', '' @ b @ '', '' @ d)) (rrr op r s t)"
  using says_then [OF says_rrx [OF assms(1,2)] says_then [OF says_put(1) [of "'', ''"] says_then [OF assms(3)
    says_then [OF says_put(2) [of NL] says_nothing(2)]]]]
  by (simp add: emit_rrr_def INSTR_def a64_syntax_def)

section \<open>Arithmetic and comparisons\<close>

lemma says_ext:
  assumes "operand ts n" and "r_rsize n \<noteq> 8"
  shows "says [] (ext_names ! unat (ext_option ts n)) (buf_put_ext ts n)" and "small 3 (ext_option ts n)"
    and "ext_option ts n AND 3 \<noteq> 3"
proof -
  define sz where "sz = (case base_type ts (r_dtype n) of None \<Rightarrow> ucast (r_rsize n) | Some t \<Rightarrow> ty_size t)"
  define sg where "sg \<longleftrightarrow> (case base_type ts (r_dtype n) of None \<Rightarrow> False | Some t \<Rightarrow> ty_sign t)"
  have sz: "sz = 1 \<or> sz = 2 \<or> sz = 4"
    using assms by (auto simp: operand_def sz_def split: option.splits)
  have o: "ext_option ts n = (if sg then 4 else 0) OR (if sz = 1 then 0 else if sz = 2 then 1 else 2)"
    using sz by (cases "base_type ts (r_dtype n)") (auto simp: ext_option_def sz_def sg_def Let_def word_le_nat_alt)
  have "buf_put_ext ts n = seqs [tputc (if sg then CHR ''s'' else CHR ''u''), tputs ''xt'',
      tputc (if sz = 1 then CHR ''b'' else if sz = 2 then CHR ''h'' else CHR ''w'')]"
    by (simp add: buf_put_ext_def sz_def sg_def Let_def)
  moreover have "says [] ([if sg then CHR ''s'' else CHR ''u''] @ ''xt'' @ [if sz = 1 then CHR ''b'' else if sz = 2 then CHR ''h'' else CHR ''w''] @ [])
      (seqs [tputc (if sg then CHR ''s'' else CHR ''u''), tputs ''xt'',
        tputc (if sz = 1 then CHR ''b'' else if sz = 2 then CHR ''h'' else CHR ''w'')])"
    by (intro says_then says_put says_nothing)
  ultimately show "says [] (ext_names ! unat (ext_option ts n)) (buf_put_ext ts n)"
    using sz unfolding o by (auto simp: ext_names_def)
  show "small 3 (ext_option ts n)" "ext_option ts n AND 3 \<noteq> 3"
    using sz unfolding o by (auto simp: small_def)
qed

lemma same_addsub_reg:
  assumes "operand ts d" and "operand ts l" and "operand ts r" and "r_rsize l = r_rsize r"
  shows "wide d = wide l \<Longrightarrow> same_code (rrr ''add'' d l r) (addsub_reg OP_ADD_REG d l r)"
    and "wide d = wide l \<Longrightarrow> same_code (rrr ''sub'' d l r) (addsub_reg OP_SUB_REG d l r)"
    and "same_code (rr ''cmp'' l r) (addsub_reg OP_SUBS_REG (zr_of (r_rsize l)) l r)"
proof -
  have w: "wide l = wide r" using assms(4) operand_wide [OF assms(2)] operand_wide [OF assms(3)] by simp
  note enc = operand_enc [OF assms(1)] operand_enc [OF assms(2)] operand_enc [OF assms(3)]
  note t = says_operand [OF assms(1)] says_operand [OF assms(2)] says_operand [OF assms(3)]
  have word: "addsub_reg op x l r = put_word (push_bit 31 (sf_of (wide x)) OR op OR push_bit 16 (reg_no r) OR push_bit 5 (reg_no l) OR reg_no x)" for op x
    by (simp add: addsub_reg_def is64_wide fun_eq_iff)
  have sf: "small 1 (sf_of b)" "(sf_of b = 1) = b" for b by (simp_all add: sf_of_def small_def)
  note line = decode_addsub_reg [OF enc(1-3) sf(1), THEN line_of_decoded] 
  note cmp = decode_addsub_reg(3) [OF _ enc(2,3) sf(1), THEN line_of_decoded]
  show "wide d = wide l \<Longrightarrow> same_code (rrr ''add'' d l r) (addsub_reg OP_ADD_REG d l r)"
    using says_rrr [OF t(1-3), of "''add''"] w by (intro same_codeI [OF word]) (simp add: line(1) sf)
  show "wide d = wide l \<Longrightarrow> same_code (rrr ''sub'' d l r) (addsub_reg OP_SUB_REG d l r)"
    using says_rrr [OF t(1-3), of "''sub''"] w by (intro same_codeI [OF word]) (simp add: line(2) sf)
  have z: "wide (zr_of (r_rsize l)) = wide l"
    using operand_wide [OF assms(2)] assms(2) by (auto simp: operand_def)
  show "same_code (rr ''cmp'' l r) (addsub_reg OP_SUBS_REG (zr_of (r_rsize l)) l r)"
    using says_rr [OF t(2,3), of "''cmp''"] w unfolding word [of _ "zr_of (r_rsize l)"] z enc_zr_of(2)
    by (intro same_codeI [OF refl]) (simp add: cmp [OF small_31] sf unat_31)
qed

lemma same_addsub_ext:
  assumes "operand ts d" and "operand ts w" and "operand ts n" and "r_rsize n < r_rsize w"
  shows "wide d = wide w \<Longrightarrow> same_code (seqs [rrrx ''add'' d w n, buf_comma, buf_put_ext ts n, tputc NL]) (addsub_ext ts OP_ADD_REG d w n 0)"
    and "wide d = wide w \<Longrightarrow> same_code (seqs [rrrx ''sub'' d w n, buf_comma, buf_put_ext ts n, tputc NL]) (addsub_ext ts OP_SUB_REG d w n 0)"
    and "same_code (seqs [rrx ''cmp'' w n, buf_comma, buf_put_ext ts n, tputc NL]) (addsub_ext ts OP_SUBS_REG (zr_of (r_rsize w)) w n 0)"
proof -
  have n8: "r_rsize n \<noteq> 8" using assms(2,4) by (auto simp: operand_def)
  have nw: "\<not> wide n" using operand_wide [OF assms(3)] n8 by simp
  note enc = operand_enc [OF assms(1)] operand_enc [OF assms(2)] operand_enc [OF assms(3)]
  note t = says_operand [OF assms(1)] says_operand [OF assms(2)] says_operand [OF assms(3)]
  note x = says_ext [OF assms(3) n8]
  have word: "addsub_ext ts op y w n 0 = put_word ((op OR ADDSUB_EXT_BIT OR push_bit 31 (sf_of (wide w)))
      OR push_bit 16 (reg_no n) OR push_bit 13 (ext_option ts n) OR push_bit 10 0 OR push_bit 5 (reg_no w) OR reg_no y)" for op y
    by (rule ext) (simp only: addsub_ext_def Let_def is64_wide)
  have sf: "small 1 (sf_of b)" "(sf_of b = 1) = b" for b by (simp_all add: sf_of_def small_def)
  note line = decode_addsub_ext [OF enc(1-3) sf(1) x(2) small_const(1), THEN line_of_decoded]
  note cmp = decode_addsub_ext(3) [OF small_31 enc(2,3) sf(1) x(2) small_const(1), THEN line_of_decoded]
  have c: "says [] '', '' buf_comma" using says_put(1) by (simp add: buf_comma_def)
  note tail = says_then [OF c says_then [OF x(1) says_then [OF says_put(2) [of NL] says_nothing(2)]]]
  show "wide d = wide w \<Longrightarrow> same_code (seqs [rrrx ''add'' d w n, buf_comma, buf_put_ext ts n, tputc NL]) (addsub_ext ts OP_ADD_REG d w n 0)"
    using says_then [OF says_rrrx [OF t(1-3), of "''add''"] tail] x(3) nw
    by (intro same_codeI [OF word]) (simp add: line(1) sf INSTR_def Let_def del: push_bit_of_0 seqs.simps)
  show "wide d = wide w \<Longrightarrow> same_code (seqs [rrrx ''sub'' d w n, buf_comma, buf_put_ext ts n, tputc NL]) (addsub_ext ts OP_SUB_REG d w n 0)"
    using says_then [OF says_rrrx [OF t(1-3), of "''sub''"] tail] x(3) nw
    by (intro same_codeI [OF word]) (simp add: line(2) sf INSTR_def Let_def del: push_bit_of_0 seqs.simps)
  show "same_code (seqs [rrx ''cmp'' w n, buf_comma, buf_put_ext ts n, tputc NL]) (addsub_ext ts OP_SUBS_REG (zr_of (r_rsize w)) w n 0)"
    using says_then [OF says_rrx [OF t(2,3), of "''cmp''"] tail] x(3) nw unfolding word [of _ "zr_of (r_rsize w)"] enc_zr_of(2)
    by (intro same_codeI [OF refl]) (simp add: cmp sf unat_31 INSTR_def Let_def del: push_bit_of_0 seqs.simps)
qed

lemma same_cond_set:
  assumes "operand ts d" and "\<not> wide d"
  shows "same_code (emit_cond_set_ta d c) (emit_cond_set d c)"
proof -
  let ?k = "cond_aarch64 ! cond_no c XOR 1"
  have word: "emit_cond_set d c = put_word (OP_CSINC OR push_bit 12 ?k OR reg_no d)"
    by (simp add: emit_cond_set_def fun_eq_iff)
  have k: "(if even (unat ?k) then unat ?k + 1 else unat ?k - 1) = cond_no c"
    by (cases c) (simp_all add: cond_aarch64_def)
  have line: "line_of (OP_CSINC OR push_bit 12 ?k OR reg_no d) = INSTR (''cset '' @ gpr_text False (rno d) @ '', '' @ cond_str_ta ! cond_no c)"
    unfolding decode_misc(1) [OF operand_enc [OF assms(1)] small_cond small_31 small_31, THEN line_of_decoded]
    by (simp only: asm_line.simps k simp_thms if_True)
  have "says [] (INSTR (''cset '' @ gpr_text False (rno d) @ '', '' @ cond_str_ta ! cond_no c)) (emit_cond_set_ta d c)"
    using says_then [OF says_rx [OF says_operand [OF assms(1)], of "''cset''"] says_then [OF says_put(1) [of "'', ''"]
      says_then [OF says_put(1) [of "cond_str_ta ! cond_no c"] says_then [OF says_put(2) [of NL] says_nothing(2)]]]] assms(2)
    by (simp add: emit_cond_set_ta_def INSTR_def)
  then show ?thesis by (intro same_codeI [OF word]) (simp only: line)
qed

lemma same_mov_reg:
  assumes "operand ts d" and "operand ts r" and "r_rsize d \<le> r_rsize r"
  shows "same_code (emit_mov_reg_ta ts d r) (emit_mov_reg ts d r)"
proof (cases "reg_eq d r")
  case True
  then have "emit_mov_reg ts d r = id" "emit_mov_reg_ta ts d r = skip"
    by (simp_all add: emit_mov_reg_def emit_mov_reg_ta_def fun_eq_iff)
  then show ?thesis using same_code_nothing by simp
next
  case False
  have w: "\<not> (wide d \<and> r_rsize r \<le> 4)"
    using assms operand_wide [OF assms(1)] by (auto simp: operand_def word_le_nat_alt)
  then have word: "emit_mov_reg ts d r = put_word (push_bit 31 (sf_of (wide d)) OR OP_MOV_REG OR push_bit 16 (reg_no r) OR reg_no d)"
    by (auto simp: emit_mov_reg_cases [OF False] split: option.split)
  have dst: "(if dtype_tryget_addr (r_dtype d) \<noteq> 0 then d\<lparr>r_rsize := 8\<rparr> else d) = d"
    using assms(1) by (auto simp: operand_def)
  have sf: "small 1 (sf_of b)" "(sf_of b = 1) = b" for b by (simp_all add: sf_of_def small_def)
  have tx: "emit_mov_reg_ta ts d r = tprint (INSTR (''mov '' @ gpr_text (wide d) (rno d) @ '', '' @ gpr_text (wide d) (rno r)))"
  proof -
    have "r_rsize d \<le> 4 \<longleftrightarrow> \<not> wide d" "r_rsize d \<le> 8"
      using assms(1) operand_wide [OF assms(1)] by (auto simp: operand_def word_le_nat_alt)
    moreover have "rno d < 31" "rno r < 31" using assms(1,2) by (simp_all add: operand_def)
    ultimately show ?thesis
      using False assms(3) operand_text [OF assms(1)] operand_text [OF assms(2)]
      unfolding emit_mov_reg_ta_def dst Let_def by (simp add: gpr_text_def not_less [symmetric])
  qed
  have "says [] (INSTR (''mov '' @ gpr_text (wide d) (rno d) @ '', '' @ gpr_text (wide d) (rno r))) (emit_mov_reg_ta ts d r)"
    using operand_digits [OF assms(1)] operand_digits [OF assms(2)] unfolding tx
    by (intro says_put) (simp add: gpr_text_def INSTR_def SPRINTF_BUFSIZ_def)
  then show ?thesis
    using decode_orr(2) [OF operand_enc [OF assms(1)] small_31 operand_enc [OF assms(2)] sf(1), THEN line_of_decoded]
    by (intro same_codeI [OF word]) (simp add: sf)
qed

lemma same_ret: "same_code emit_ret_ta emit_ret"
proof -
  have "emit_ret = put_word OP_RET" by (simp add: emit_ret_def fun_eq_iff)
  moreover have "line_of OP_RET = INSTR ''ret''"
    using decode_branches(5) [of 0 0 0 0 0, THEN line_of_decoded] by (simp add: small_def)
  ultimately show ?thesis
    by (intro same_codeI) (auto simp: emit_ret_ta_def)
qed

section \<open>Loads and stores\<close>

definition base_operand :: "tstore \<Rightarrow> reg \<Rightarrow> bool" where
  "base_operand ts r \<longleftrightarrow> operand ts r \<or> r_type r = STACK"

lemma base_enc: "base_operand ts r \<Longrightarrow> small 5 (reg_no r)"
  by (auto simp: base_operand_def small_31 intro: operand_enc)

text \<open>The mnemonic and the register of an access; a load must not have to extend a sign.\<close>

lemma says_access:
  assumes "operand ts v" and "base_operand ts b"
    and "is_load \<Longrightarrow> base_type ts (r_dtype v) = Some t \<and> \<not> ty_sign t"
  shows "says [] (TAB # access_text (unat (size_log v)) (load_kind ts is_load v) (rno v) @ '', ['' @ gsp_text True (rno b) @ '', '')
    (load_store_x ts is_load v b)"
proof -
  define sfx where "sfx = (if size_log v = 0 then ''b'' else if size_log v = 1 then ''h'' else [])"
  define op where "op = (if is_load then ''ldr'' else ''str'')"
  have e: "load_store_x ts is_load v b = seqs [tprint (TAB # op @ sfx @ '' ''), putreg_ta v, tprint '', ['', putreg_ta (b\<lparr>r_rsize := 8\<rparr>), tprint '', '']"
    using assms(1,3) operand_size(1) [OF assms(1)]
    by (auto simp: load_store_x_def sfx_def op_def size_log_def ldst_size_def operand_def Let_def word_le_nat_alt)
  have k: "load_kind ts is_load v = (if is_load then 1 else 0)"
    using assms(3) by (auto simp: load_kind_def)
  have a: "access_text (unat (size_log v)) (load_kind ts is_load v) (rno v) = op @ sfx @ '' '' @ gpr_text (wide v) (rno v)"
    using operand_size(3,4) [OF assms(1)] size_log_cases [of v] unfolding k
    by (auto simp: access_text_def op_def sfx_def)
  have "says [] ((TAB # op @ sfx @ '' '') @ gpr_text (wide v) (rno v) @ '', ['' @ gsp_text True (rno b) @ '', '' @ []) (load_store_x ts is_load v b)"
    unfolding e using assms(2)
    by (intro says_then says_put says_operand [OF assms(1)] says_base says_nothing)
       (auto simp: SPRINTF_BUFSIZ_def op_def sfx_def base_operand_def)
  then show ?thesis by (simp add: a)
qed

lemma says_hex_imm: "says [] (hex_imm (sint i)) (puti_ta i)"
proof -
  have "length (imm_text ''#'' i) \<le> 20"
    using length_hex64 [of i] length_hex64 [of "- i"] by (simp add: imm_text_def)
  then show ?thesis
    unfolding imm_text_hex [symmetric] by (auto simp: buf_puti_def a64_syntax_def SPRINTF_BUFSIZ_def)
qed

lemma same_mem_op:
  assumes "operand ts v" and "base_operand ts b" and "offset_reach v off"
    and "is_load \<Longrightarrow> base_type ts (r_dtype v) = Some t \<and> \<not> ty_sign t"
  shows "same_code (seqs [load_store_x ts is_load v b, puti_ta off, tprint ('']'' @ [NL])]) (mem_op ts is_load v b off)"
proof -
  let ?sz = "unat (size_log v)"
  define acc where "acc = access_text (unat (size_log v)) (load_kind ts is_load v) (rno v) @ '', ['' @ gsp_text True (rno b) @ '', ''"
  note d = decode_ldst_imm [OF operand_enc [OF assms(1)] base_enc [OF assms(2)] size_log_small(1) _ _ small_load_kind, THEN line_of_decoded]
  have tx: "says [] (INSTR (acc @ hex_imm (sint off) @ '']''))
      (seqs [load_store_x ts is_load v b, puti_ta off, tprint ('']'' @ [NL])])"
    using says_then [OF says_access [OF assms(1,2,4)] says_then [OF says_hex_imm [of off]
      says_then [OF says_put(3) [of "'']'' @ [NL]"] says_nothing(2)]]]
    by (simp add: INSTR_def SPRINTF_BUFSIZ_def acc_def)
  show ?thesis
  proof (cases "scaled_ok v off")
    case True
    define j :: u32 where "j = ucast (off div push_bit ?sz 1)"
    have j: "small 12 j" "push_bit ?sz (ucast j) = off" using scaled_imm [OF True] by (simp_all add: j_def)
    have "sint off = uint j * 2 ^ ?sz"
    proof -
      have "2 ^ ?sz \<le> (2 :: nat) ^ 3" using size_log_small(2) [of v] by (intro power_increasing) auto
      moreover have "unat j < 2 ^ 12" using j(1) by (simp add: small_def)
      ultimately have "unat j * 2 ^ ?sz \<le> 2 ^ 12 * 2 ^ 3" by (intro mult_le_mono) simp_all
      then have "int (unat j * 2 ^ ?sz) \<le> int (2 ^ 12 * 2 ^ 3)" by (simp only: of_nat_le_iff)
      moreover have "off = word_of_int (int (unat j * 2 ^ ?sz))"
        by (simp add: j(2) [symmetric] push_bit_eq_mult)
      moreover have "- (2 ^ 63) \<le> int (unat j * 2 ^ ?sz)" by (rule order.trans [of _ 0]) simp_all
      ultimately show ?thesis using sint_small64 [of "int (unat j * 2 ^ ?sz)"] by simp
    qed
    then have "line_of (push_bit 30 (size_log v) OR OP_LDST_USCALED OR push_bit 22 (load_kind ts is_load v)
       OR push_bit 10 j OR push_bit 5 (reg_no b) OR reg_no v) = INSTR (acc @ hex_imm (sint off) @ '']'')"
      unfolding d(1) [OF j(1) small_const(1)] by (simp add: mem_text_def acc_def)
    then show ?thesis
      using tx by (intro same_codeI [OF mem_op_word [OF operand_size(2) [OF assms(1)]]]) (simp add: True j_def)
  next
    case False
    then have "signed_take_bit 8 off = off"
      using assms(3) by (simp add: offset_reach_def signed_take_bit_word_iff)
    then have "line_of (push_bit 30 (size_log v) OR OP_LDST_UNSCALED OR push_bit 22 (load_kind ts is_load v)
       OR push_bit 12 (ucast (off AND 0x1ff)) OR push_bit 5 (reg_no b) OR reg_no v) = INSTR (acc @ hex_imm (sint off) @ '']'')"
      unfolding d(2) [OF small_const(1) imm9_small] by (simp add: mem_text_def imm9_sext acc_def)
    then show ?thesis
      using tx by (intro same_codeI [OF mem_op_word [OF operand_size(2) [OF assms(1)]]]) (simp add: False)
  qed
qed

lemma same_regoff:
  assumes "operand ts v" and "base_operand ts b" and "operand ts x"
    and "is_load \<Longrightarrow> base_type ts (r_dtype v) = Some t \<and> \<not> ty_sign t"
  shows "same_code (seqs [load_store_x ts is_load v b, tprint (CHR ''x'' # regno_text x @ '']'' @ [NL])]) (ldst_regoff ts is_load v b x False)"
    and "unat (size_log v) = k \<Longrightarrow> same_code (ldst_lsl ts is_load v b x k) (ldst_regoff ts is_load v b x True)"
proof -
  define acc where "acc = access_text (unat (size_log v)) (load_kind ts is_load v) (rno v) @ '', ['' @ gsp_text True (rno b) @ '', ''"
  have word: "ldst_regoff ts is_load v b x scaled = put_word (push_bit 30 (size_log v) OR OP_LDST_REGOFF OR push_bit 22 (load_kind ts is_load v)
      OR push_bit 16 (reg_no x) OR push_bit 12 (sf_of scaled) OR push_bit 5 (reg_no b) OR reg_no v)" for scaled
    by (rule ext) (simp add: ldst_regoff_def ldst_size_bits_ok [OF operand_size(2) [OF assms(1)]] load_kind_opc sf_of_def LDST_REGOFF_SCALE_def)
  have sf: "small 1 (sf_of c)" "(sf_of c = 1) = c" for c by (simp_all add: sf_of_def small_def)
  note line = decode_ldst_reg [OF operand_enc [OF assms(1)] base_enc [OF assms(2)] operand_enc [OF assms(3)] size_log_small(1)
    small_load_kind sf(1), THEN line_of_decoded]
  have x: "regno_text x = nat_dec (rno x)" "gpr_text True (rno x) = CHR ''x'' # nat_dec (rno x)" "length (nat_dec (rno x)) \<le> 2"
    using assms(3) operand_text [OF assms(3)] operand_digits [OF assms(3)] by (simp_all add: gpr_text_def operand_def)
  have l: "line_of (push_bit 30 (size_log v) OR OP_LDST_REGOFF OR push_bit 22 (load_kind ts is_load v)
      OR push_bit 16 (reg_no x) OR push_bit 12 (sf_of scaled) OR push_bit 5 (reg_no b) OR reg_no v)
    = INSTR (acc @ CHR ''x'' # nat_dec (rno x) @ (if scaled then '', lsl #'' @ nat_dec (unat (size_log v)) else []) @ '']'')" for scaled
    unfolding line by (simp add: acc_def x(2) sf)
  note a = says_access [OF assms(1,2,4)]
  have "says [] (INSTR (acc @ CHR ''x'' # nat_dec (rno x) @ '']'')) (seqs [load_store_x ts is_load v b, tprint (CHR ''x'' # regno_text x @ '']'' @ [NL])])"
    using says_then [OF a says_then [OF says_put(3) [of "CHR ''x'' # nat_dec (rno x) @ '']'' @ [NL]"] says_nothing(2)]] x(3)
    by (simp add: INSTR_def SPRINTF_BUFSIZ_def acc_def x(1))
  then show "same_code (seqs [load_store_x ts is_load v b, tprint (CHR ''x'' # regno_text x @ '']'' @ [NL])]) (ldst_regoff ts is_load v b x False)"
    using l [of False] by (intro same_codeI [OF word]) simp
  assume k: "unat (size_log v) = k"
  have "length (nat_dec k) \<le> 1" using length_nat_dec [of k 0] size_log_small(2) [of v] k by simp
  then have "says [] (INSTR (acc @ CHR ''x'' # nat_dec (rno x) @ '', lsl #'' @ nat_dec k @ '']'')) (ldst_lsl ts is_load v b x k)"
    using says_then [OF a says_then [OF says_put(3) [of "CHR ''x'' # nat_dec (rno x) @ '', lsl #'' @ nat_dec k @ '']'' @ [NL]"] says_nothing(2)]] x(3)
    by (simp add: INSTR_def SPRINTF_BUFSIZ_def acc_def x(1) ldst_lsl_def)
  then show "same_code (ldst_lsl ts is_load v b x k) (ldst_regoff ts is_load v b x True)"
    using l [of True] k by (intro same_codeI [OF word]) simp
qed

section \<open>The two back ends agree\<close>

text \<open>
  C7. On operands of the sizes the types have, the two AArch64 back ends emit the same code for this register
  arithmetic: what the text back end appends to the function is the listing of the words that the
  machine-code back end appends, and nothing else of its state changes. It holds for moves into a register that is not
  wider than the source, for sums on either side, for differences and comparisons whose second operand is not the
  wider one (the narrower register is extended), into a register of the same kind (four bytes or eight) as the first
  operand, for the result of a condition in a register of less than eight bytes, and for the return. Widening moves,
  the other order of operands and the result of a condition in eight bytes are not claimed: there the two differ.
\<close>

theorem arith_text_is_listing:
  assumes "operand ts d" and "operand ts l" and "operand ts r" and "r_rsize r \<le> r_rsize l" and "wide d = wide l"
  shows "same_code (emit_add_reg_ta ts d l r) (emit_add_reg ts d l r) \<and> same_code (emit_add_reg_ta ts d r l) (emit_add_reg ts d r l)
    \<and> same_code (emit_sub_reg_ta ts d l r) (emit_sub_reg ts d l r) \<and> same_code (emit_cmp_reg_ta ts l r c) (emit_cmp_reg ts l r c)
    \<and> same_code (emit_mov_reg_ta ts r l) (emit_mov_reg ts r l)
    \<and> (\<not> wide d \<longrightarrow> same_code (emit_cond_set_ta d c) (emit_cond_set d c)) \<and> same_code emit_ret_ta emit_ret"
proof -
  have more: "same_code (emit_mov_reg_ta ts r l) (emit_mov_reg ts r l)" "same_code emit_ret_ta emit_ret"
    "\<not> wide d \<Longrightarrow> same_code (emit_cond_set_ta d c) (emit_cond_set d c)"
    using same_mov_reg [OF assms(3,2,4)] same_ret same_cond_set [OF assms(1)] by simp_all
  show ?thesis
  proof (cases "r_rsize l = r_rsize r")
    case True
    then have "wide d = wide r" using assms(2,3,5) by (simp add: operand_wide)
    then show ?thesis
      using True more same_addsub_reg [OF assms(1-3) True] same_addsub_reg(1) [OF assms(1,3,2) True [symmetric]] assms(5)
      by (simp add: emit_add_reg_ta_def emit_add_reg_def [abs_def] emit_sub_reg_ta_def emit_sub_reg_def [abs_def]
          emit_cmp_reg_ta_def emit_cmp_reg_def [abs_def])
  next
    case False
    then have less: "r_rsize r < r_rsize l" using assms(4) by simp
    then have "\<not> r_rsize l < r_rsize r" by simp
    then show ?thesis
      using less False more same_addsub_ext [OF assms(1-3) less] assms(5)
      by (simp add: emit_add_reg_ta_def emit_add_reg_def [abs_def] emit_sub_reg_ta_def emit_sub_reg_def [abs_def]
          emit_cmp_reg_ta_def emit_cmp_reg_def [abs_def] Let_def)
  qed
qed

lemma ex_operands:
  "operand ex_ts (ex_reg RET 0 8)" "operand ex_ts (ex_typed 1 (ex_reg NREG 2 8))" "operand ex_ts (ex_typed 0 (ex_reg PARAM 1 1))"
  "r_rsize (ex_typed 0 (ex_reg PARAM 1 1)) \<le> r_rsize (ex_typed 1 (ex_reg NREG 2 8))"
  "wide (ex_reg RET 0 8)" "wide (ex_typed 1 (ex_reg NREG 2 8))"
  by (simp_all add: operand_def wide_def ex_reg_def ex_typed_def reg_no_def reg0_def dtype0_def dtype_tryget_addr_def base_type_def ex_ts_def
      is64_def)

lemma arith_text_is_listing_witness:
  "same_code (emit_add_reg_ta ex_ts (ex_reg RET 0 8) (ex_typed 1 (ex_reg NREG 2 8)) (ex_typed 0 (ex_reg PARAM 1 1)))
    (emit_add_reg ex_ts (ex_reg RET 0 8) (ex_typed 1 (ex_reg NREG 2 8)) (ex_typed 0 (ex_reg PARAM 1 1)))"
  using arith_text_is_listing [OF ex_operands(1-3), of COND_EQ] ex_operands(4-6) by simp

text \<open>
  C19. Stores agree in the same sense, and so do loads of unsigned types. For an object of one of the four sizes, a
  numbered register or the stack pointer as its base, and an offset in the reach of an instruction, the text of a store
  is the listing of its word, whatever the sign of the type, and with a register as offset too, scaled by the size of the
  object or not. The text of a load is the listing of its word when the type is unsigned; of signed
  types it is not (the text back end loads four bytes without the extension of the sign that the machine code has).
\<close>

theorem access_text_is_listing:
  assumes "operand ts v" and "base_operand ts b" and "operand ts x" and "r_rsize b \<le> 8" and "offset_reach v (scast off)"
    and "unat (size_log v) = k"
  shows "same_code (emit_str_reg_ta ts b v off) (emit_str_reg ts b v off)
    \<and> same_code (emit_str_regoff_ta ts b v x) (emit_str_regoff ts b v x)
    \<and> same_code (ldst_lsl ts False v b x k) (ldst_regoff ts False v b x True)
    \<and> (\<forall>t. base_type ts (r_dtype v) = Some t \<and> \<not> ty_sign t \<longrightarrow>
         same_code (emit_ldr_ta ts v b off) (emit_ldr ts v b off)
       \<and> same_code (emit_ldr_reg_ta ts v b x) (emit_ldr_reg ts v b x)
       \<and> same_code (ldst_lsl ts True v b x k) (ldst_regoff ts True v b x True))"
proof -
  have b: "\<not> of_nat MAX_REG_SIZE < r_rsize b" "\<not> 8 < r_rsize b"
    using assms(4) by (auto simp: MAX_REG_SIZE_def not_less intro: order.trans)
  note ta = emit_str_reg_ta_def emit_ldr_ta_def emit_str_regoff_ta_def emit_ldr_reg_ta_def
        emit_str_reg_def [abs_def] emit_ldr_def [abs_def] emit_str_regoff_def [abs_def] emit_ldr_reg_def [abs_def]
  have "same_code (emit_str_reg_ta ts b v off) (emit_str_reg ts b v off)"
    "same_code (emit_str_regoff_ta ts b v x) (emit_str_regoff ts b v x)"
    "same_code (ldst_lsl ts False v b x k) (ldst_regoff ts False v b x True)"
    using same_mem_op [OF assms(1,2,5), where is_load = False] same_regoff [OF assms(1-3), where is_load = False] assms(6) b by (simp_all add: ta)
  moreover have "same_code (emit_ldr_ta ts v b off) (emit_ldr ts v b off) \<and> same_code (emit_ldr_reg_ta ts v b x) (emit_ldr_reg ts v b x)
      \<and> same_code (ldst_lsl ts True v b x k) (ldst_regoff ts True v b x True)"
    if "base_type ts (r_dtype v) = Some t" "\<not> ty_sign t" for t
    using same_mem_op [OF assms(1,2,5), where is_load = True and t = t] same_regoff [OF assms(1-3), where is_load = True and t = t] assms(6) b that by (simp add: ta)
  ultimately show ?thesis by blast
qed

lemma ex_access:
  "operand ex_ts (ex_reg NREG 2 8)" "r_rsize (ex_reg NREG 2 8) \<le> 8" "offset_reach (ex_typed 0 (ex_reg PARAM 1 1)) (scast (- 3 :: i32))"
  "unat (size_log (ex_typed 0 (ex_reg PARAM 1 1))) = 0"
  by (simp_all add: operand_def ex_reg_def ex_typed_def reg_no_def reg0_def dtype0_def dtype_tryget_addr_def base_type_def ex_ts_def
      offset_reach_def size_log_def ldst_size_def Let_def word_le_nat_alt)

lemma access_text_is_listing_witness:
  "same_code (emit_ldr_ta ex_ts (ex_typed 0 (ex_reg PARAM 1 1)) (ex_reg NREG 2 8) (- 3))
    (emit_ldr ex_ts (ex_typed 0 (ex_reg PARAM 1 1)) (ex_reg NREG 2 8) (- 3))"
  using access_text_is_listing [of ex_ts "ex_typed 0 (ex_reg PARAM 1 1)" "ex_reg NREG 2 8" "ex_reg NREG 2 8" "- 3" 0]
    ex_operands(3) ex_access
  by (simp add: base_operand_def)

end
