(* ===== verification/Asm_X64.thy ===== *)
theory Asm_X64
  imports Asm_Laws X64_Link Front_Layout
begin

text \<open>
  The x86-64 text back end: the registers it names are those the machine-code back end numbers, and the frame
  it opens is closed again and keeps the stack aligned.
\<close>

section \<open>Names of registers\<close>

text \<open>The architecture's name of a general register at a size of one, two, four or eight bytes.\<close>

definition x64_name :: "nat \<Rightarrow> u8 \<Rightarrow> string" where
  "x64_name k n =
    (if 8 \<le> k then CHR ''r'' # nat_dec k @ (if n = 1 then ''b'' else if n = 2 then ''w'' else if n = 4 then ''d'' else [])
     else if n = 1 then [''al'', ''cl'', ''dl'', ''bl'', ''spl'', ''bpl'', ''sil'', ''dil''] ! k
     else (if n = 8 then ''r'' else if n = 4 then ''e'' else []) @ [''ax'', ''cx'', ''dx'', ''bx'', ''sp'', ''bp'', ''si'', ''di''] ! k)"

text \<open>The two files that name registers, with the numbers of the same registers in the other back end.\<close>

definition same_abi :: "asm_os \<Rightarrow> abi \<Rightarrow> bool" where
  "same_abi os a \<longleftrightarrow> os = asm_linux \<and> a = elf_abi \<or> os = asm_windows \<and> a = pe_abi"

fun reg_class :: "abi \<Rightarrow> register_dst \<Rightarrow> u8 list" where
  "reg_class a SCRATCH = scratch_regs a"
| "reg_class a NREG = callee_regs a"
| "reg_class a PARAM = param_regs a"
| "reg_class a RET = ret_regs a"
| "reg_class a _ = []"

definition class_matches :: "asm_regs \<Rightarrow> abi \<Rightarrow> register_dst \<Rightarrow> bool" where
  "class_matches n a t \<longleftrightarrow> (case rname_table n t of None \<Rightarrow> False | Some names \<Rightarrow>
      length names = length (reg_class a t) \<and> list_all (\<lambda>sz. list_all (\<lambda>k.
        sized_rname (names ! k) sz = Some (x64_name (unat (reg_class a t ! k)) (if sz = 0 then 4 else sz)))
        [0 ..< length names]) [0, 1, 2, 4, 8])"

lemma classes_match:
  "list_all (class_matches rnames_linux elf_abi) [SCRATCH, NREG, PARAM, RET]"
  "list_all (class_matches rnames_windows pe_abi) [SCRATCH, NREG, PARAM, RET]"
  by code_simp+

lemma same_abi_names:
  assumes "same_abi os a" and "t \<in> {SCRATCH, NREG, PARAM, RET}"
  shows "\<exists>n names. os_rnames os = Some n \<and> rname_table n t = Some names \<and> length names = length (reg_class a t)
    \<and> (\<forall>k < length names. \<forall>sz \<in> {0, 1, 2, 4, 8}.
         sized_rname (names ! k) sz = Some (x64_name (unat (reg_class a t ! k)) (if sz = 0 then 4 else sz)))"
proof -
  obtain n where n: "os_rnames os = Some n" "list_all (class_matches n a) [SCRATCH, NREG, PARAM, RET]"
    using assms(1) classes_match by (auto simp: same_abi_def asm_linux_def asm_windows_def)
  then have "class_matches n a t" using assms(2) by (auto simp: list_all_iff)
  then show ?thesis
    using n(1) by (auto simp: class_matches_def list_all_iff split: option.splits)
qed

lemma length_x64_name: "length (x64_name (unat (k :: u8)) n) \<le> 5"
proof (cases "8 \<le> unat k")
  case True
  have "unat k < 2 ^ LENGTH(8)" by (rule unsigned_less)
  then show ?thesis
    using True length_nat_dec [of "unat k" 2] by (simp add: x64_name_def)
next
  case False
  have short: "length (xs ! unat k) \<le> 3" if "length xs = 8" "\<forall>x \<in> set xs. length x \<le> 3" for xs :: "string list"
    using that False by (intro that(2) [rule_format] nth_mem) simp
  have "length ([''al'', ''cl'', ''dl'', ''bl'', ''spl'', ''bpl'', ''sil'', ''dil''] ! unat k) \<le> 3"
    "length ([''ax'', ''cx'', ''dx'', ''bx'', ''sp'', ''bp'', ''si'', ''di''] ! unat k) \<le> 3"
    by (rule short; simp)+
  then show ?thesis using False by (simp add: x64_name_def)
qed

lemma xreg_no_class: "t = r_type r \<Longrightarrow> t \<in> {SCRATCH, NREG, PARAM, RET} \<Longrightarrow> unat (xreg_no a r) = unat (reg_class a t ! unat (r_offset r))"
  by (auto simp: xreg_no_def unsigned_ucast_eq take_bit_nat_eq_self order.strict_trans [OF unsigned_less])

lemma x64_putreg:
  assumes "same_abi os a" and "r_type r \<in> {SCRATCH, NREG, PARAM, RET}" and "r_rsize r \<in> {0, 1, 2, 4, 8}" and "0 \<le>s r_offset r"
  shows "buf_putreg_tx os p r =
    (if unat (r_offset r) < length (reg_class a (r_type r)) then on_buf p (buf_snprintf (x64_name (unat (xreg_no a r)) (rsz r)))
     else report (RegistersUsedUp (r_type r)))"
proof -
  obtain n names where n: "os_rnames os = Some n" "rname_table n (r_type r) = Some names" "length names = length (reg_class a (r_type r))"
    "\<forall>k < length names. \<forall>sz \<in> {0, 1, 2, 4, 8}.
      sized_rname (names ! k) sz = Some (x64_name (unat (reg_class a (r_type r) ! k)) (if sz = 0 then 4 else sz))"
    using same_abi_names [OF assms(1,2)] by blast
  let ?k = "unat (r_offset r)"
  have "\<not> r_offset r <s 0" using assms(4) by (simp add: word_sless_alt word_sle_eq)
  moreover have "r_type r \<noteq> STACK" "r_type r \<noteq> FRAME" using assms(2) by auto
  moreover note xreg_no_class [OF refl assms(2), of a]
  ultimately show ?thesis
    using n(3) n(4) [rule_format, of ?k "r_rsize r"] assms(3) by (simp add: buf_putreg_tx_def n(1,2) rsz_def not_le [symmetric])
qed

text \<open>
  The text back end for x86-64 names exactly the registers that the machine-code back end numbers. For
  the register tables of Linux and of Windows and every size an operand can have, the name written for a
  register within its table is the architecture's name of the number in the tables of the executable
  writers; beyond the table an error is reported and nothing is written.
\<close>

lemma x64_register_names:
  assumes "same_abi os a" and "r_type r \<in> {SCRATCH, NREG, PARAM, RET}" and "r_rsize r \<in> {0, 1, 2, 4, 8}" and "0 \<le>s r_offset r"
  shows "if unat (r_offset r) < length (reg_class a (r_type r))
    then says [] (x64_name (unat (xreg_no a r)) (rsz r)) (buf_putreg_tx os Fn r)
    else buf_putreg_tx os Fn r = report (RegistersUsedUp (r_type r))"
proof -
  have "length (x64_name (unat (xreg_no a r)) (rsz r)) < SPRINTF_BUFSIZ"
    using length_x64_name [of "reg_class a (r_type r) ! unat (r_offset r)" "rsz r"] xreg_no_class [OF refl assms(2), of a]
    by (simp add: SPRINTF_BUFSIZ_def)
  then show ?thesis
    using says_put(3) by (simp add: x64_putreg [OF assms] tprint_def)
qed

lemma x64_register_names_example:
  "says [] ''esi'' (buf_putreg_tx asm_linux Fn (reg0\<lparr>r_type := PARAM, r_offset := 1, r_rsize := 4\<rparr>))"
  using x64_register_names [of asm_linux elf_abi "reg0\<lparr>r_type := PARAM, r_offset := 1, r_rsize := 4\<rparr>"]
  by (simp add: same_abi_def elf_abi_def xreg_no_def rsz_def x64_name_def word_sle_eq)

section \<open>The frame\<close>

lemma seqs_append: "seqs (es @ fs) = (\<lambda>st. Option.bind (seqs es st) (seqs fs))"
proof -
  have "seqs (es @ fs) st = Option.bind (seqs es st) (seqs fs)" for st
  proof (induction es arbitrary: st)
    case (Cons e es)
    then have "seqs (es @ fs) = (\<lambda>st. Option.bind (seqs es st) (seqs fs))" by auto
    then show ?case by (simp add: bind_assoc)
  qed simp
  then show ?thesis by auto
qed

lemma says_append: "says p f (seqs es) \<Longrightarrow> says p' f' (seqs fs) \<Longrightarrow> says (p @ p') (f @ f') (seqs (es @ fs))"
  unfolding seqs_append by (rule says_bind)

lemma says_map:
  "(\<And>x. x \<in> set xs \<Longrightarrow> says (t x) [] (e x)) \<Longrightarrow> says (concat (map t xs)) [] (seqs (map e xs))"
  "(\<And>x. x \<in> set xs \<Longrightarrow> says [] (t x) (e x)) \<Longrightarrow> says [] (concat (map t xs)) (seqs (map e xs))"
  by (induction xs) (auto intro: says_seqs [of _ "[]" _ _ "[]", simplified] says_seqs [of "[]" _ _ "[]", simplified] simp del: seqs.simps)

text \<open>What the prologue pushes, and how it sets up the frame pointer.\<close>

definition pushed :: "abi \<Rightarrow> parser_context \<Rightarrow> string list" where
  "pushed a pc = (if frame_locals pc \<noteq> 0 then [''rbp''] else [])
    @ map (\<lambda>i. x64_name (unat (callee_regs a ! i)) 8) [0 ..< unat (pc_nreg_count pc)]"

definition frame_setup :: "parser_context \<Rightarrow> string" where
  "frame_setup pc =
    (if frame_locals pc = 0 then []
     else INSTR (if frame_shadow pc \<noteq> 0 then ''lea rbp, [rsp - '' @ hex_usize (frame_shadow pc) @ '']'' else ''mov rbp, rsp''))"

definition move_rsp :: "string \<Rightarrow> parser_context \<Rightarrow> string" where
  "move_rsp op pc = (if frame_bytes pc = 0 then [] else INSTR (op @ '' rsp, '' @ hex_usize (frame_bytes pc)))"

lemma says_saved:
  assumes "same_abi os a" and "i < length (callee_regs a)" and "length (callee_regs a) < 128"
  shows "says (INSTR (''push '' @ x64_name (unat (callee_regs a ! i)) 8)) []
      (emit_r (x64_syntax os) Prologue ''push'' (reg0\<lparr>r_type := NREG, r_offset := of_nat i, r_rsize := 8\<rparr>))"
    and "says [] (INSTR (''pop '' @ x64_name (unat (callee_regs a ! i)) 8))
      (emit_r (x64_syntax os) Fn ''pop'' (reg0\<lparr>r_type := NREG, r_offset := of_nat i, r_rsize := 8\<rparr>))"
proof -
  let ?r = "reg0\<lparr>r_type := NREG, r_offset := of_nat i, r_rsize := 8\<rparr>" and ?n = "x64_name (unat (callee_regs a ! i)) 8"
  have i: "unat (of_nat i :: i32) = i" using assms(2,3) by (intro unat_of_nat32) simp
  have "sint (word_of_int (int i) :: i32) = int i" using assms(2,3) by (intro sint_small_int) auto
  then have "0 \<le>s (of_nat i :: i32)" by (simp add: word_sle_eq)
  then have p: "buf_putreg_tx os p ?r = on_buf p (buf_snprintf ?n)" for p
    using x64_putreg [OF assms(1), of ?r p] assms(2) xreg_no_class [of NREG ?r a] i by (simp add: rsz_def)
  have l: "length ?n < SPRINTF_BUFSIZ" "length (TAB # ''push '') < SPRINTF_BUFSIZ" "length (TAB # ''pop '') < SPRINTF_BUFSIZ"
    using length_x64_name [of "callee_regs a ! i" 8] by (simp_all add: SPRINTF_BUFSIZ_def)
  note w = says_on_buf [OF buf_write(3) [OF _ l(1)]] says_on_buf [OF buf_write(3) [OF _ l(2)]] says_on_buf [OF buf_write(3) [OF _ l(3)]]
    says_on_buf [OF buf_write(2) [of _ NL]]
  have "says ((TAB # ''push '') @ ?n @ [NL] @ []) ([] @ [] @ [] @ []) (emit_r (x64_syntax os) Prologue ''push'' ?r)"
    unfolding emit_r_def x64_syntax_def asm_syntax.simps p
    using w by (intro says_seqs says_nothing) simp_all
  then show "says (INSTR (''push '' @ ?n)) [] (emit_r (x64_syntax os) Prologue ''push'' ?r)" by (simp add: INSTR_def)
  have "says ([] @ [] @ [] @ []) ((TAB # ''pop '') @ ?n @ [NL] @ []) (emit_r (x64_syntax os) Fn ''pop'' ?r)"
    unfolding emit_r_def x64_syntax_def asm_syntax.simps p
    using w by (intro says_seqs says_nothing) simp_all
  then show "says [] (INSTR (''pop '' @ ?n)) (emit_r (x64_syntax os) Fn ''pop'' ?r)" by (simp add: INSTR_def)
qed

lemma length_hex_usize: "length (hex_usize n) \<le> 18"
  using length_hex64 [of n] by (simp add: hex_usize_def)

lemma frame_text_says:
  assumes "same_abi os a" and "unat (pc_nreg_count pc) \<le> length (callee_regs a)"
  shows "says (concat (map (\<lambda>r. INSTR (''push '' @ r)) (pushed a pc)) @ frame_setup pc @ move_rsp ''sub'' pc)
    (move_rsp ''add'' pc @ concat (map (\<lambda>r. INSTR (''pop '' @ r)) (rev (pushed a pc))))
    (emit_fn_prologue_epilogue_tx os pc)"
proof -
  define n where "n = unat (pc_nreg_count pc)"
  define saved :: "nat \<Rightarrow> reg" where "saved i = reg0\<lparr>r_type := NREG, r_offset := of_nat i, r_rsize := 8\<rparr>" for i
  let ?nm = "\<lambda>i. x64_name (unat (callee_regs a ! i)) 8" and ?L = "frame_locals pc \<noteq> 0"
  have c: "length (callee_regs a) < 128"
    using assms(1) by (auto simp: same_abi_def elf_abi_def pe_abi_def)
  have push: "says (concat (map (\<lambda>i. INSTR (''push '' @ ?nm i)) [0 ..< n])) [] (seqs (map (\<lambda>i. emit_r (x64_syntax os) Prologue ''push'' (saved i)) [0 ..< n]))"
    unfolding saved_def using assms(2) by (intro says_map says_saved [OF assms(1) _ c]) (simp add: n_def)
  have pop: "says [] (concat (map (\<lambda>i. INSTR (''pop '' @ ?nm i)) (rev [0 ..< n]))) (seqs (map (\<lambda>i. emit_r (x64_syntax os) Fn ''pop'' (saved i)) (rev [0 ..< n])))"
    unfolding saved_def using assms(2) by (intro says_map says_saved [OF assms(1) _ c]) (simp add: n_def)
  have first: "says (if ?L then INSTR ''push rbp'' else []) [] (seqs [if ?L then on_buf Prologue (buf_puts (INSTR ''push rbp'')) else skip])"
    using says_seqs [OF says_put(5) says_nothing(2)] says_seqs [OF says_nothing] by (simp del: seqs.simps)
  have last: "says [] (if ?L then INSTR ''pop rbp'' else []) (seqs [if ?L then tputs (INSTR ''pop rbp'') else skip])"
    using says_seqs [OF says_put(1) says_nothing(2)] says_seqs [OF says_nothing] by (simp del: seqs.simps)
  have m: "says (frame_setup pc @ move_rsp ''sub'' pc) (move_rsp ''add'' pc)
     (seqs [if ?L then (if frame_shadow pc \<noteq> 0 then pprint (INSTR (''lea rbp, [rsp - '' @ hex_usize (frame_shadow pc) @ '']'')) else pprint (INSTR ''mov rbp, rsp'')) else skip,
       if frame_bytes pc \<noteq> 0 then pprint (INSTR (''sub rsp, '' @ hex_usize (frame_bytes pc))) else skip,
       if frame_bytes pc \<noteq> 0 then tprint (INSTR (''add rsp, '' @ hex_usize (frame_bytes pc))) else skip])"
  proof -
    have l: "length (INSTR (op @ '' rsp, '' @ hex_usize (frame_bytes pc))) < SPRINTF_BUFSIZ" if "length op \<le> 3" for op
      using that length_hex_usize [of "frame_bytes pc"] by (simp add: INSTR_def SPRINTF_BUFSIZ_def)
    have "says (frame_setup pc) [] (if ?L then (if frame_shadow pc \<noteq> 0 then pprint (INSTR (''lea rbp, [rsp - '' @ hex_usize (frame_shadow pc) @ '']''))
        else pprint (INSTR ''mov rbp, rsp'')) else skip)"
      using length_hex_usize [of "frame_shadow pc"] by (auto simp: frame_setup_def INSTR_def SPRINTF_BUFSIZ_def)
    moreover have "says (move_rsp ''sub'' pc) [] (if frame_bytes pc \<noteq> 0 then pprint (INSTR (''sub rsp, '' @ hex_usize (frame_bytes pc))) else skip)"
      using says_put(4) [OF l [of "''sub''"]] by (auto simp: move_rsp_def)
    moreover have "says [] (move_rsp ''add'' pc) (if frame_bytes pc \<noteq> 0 then tprint (INSTR (''add rsp, '' @ hex_usize (frame_bytes pc))) else skip)"
      using says_put(3) [OF l [of "''add''"]] by (auto simp: move_rsp_def)
    ultimately have "says (frame_setup pc @ move_rsp ''sub'' pc @ [] @ []) ([] @ [] @ move_rsp ''add'' pc @ [])
      (seqs [if ?L then (if frame_shadow pc \<noteq> 0 then pprint (INSTR (''lea rbp, [rsp - '' @ hex_usize (frame_shadow pc) @ '']'')) else pprint (INSTR ''mov rbp, rsp'')) else skip,
       if frame_bytes pc \<noteq> 0 then pprint (INSTR (''sub rsp, '' @ hex_usize (frame_bytes pc))) else skip,
       if frame_bytes pc \<noteq> 0 then tprint (INSTR (''add rsp, '' @ hex_usize (frame_bytes pc))) else skip])"
      by (intro says_seqs says_nothing)
    then show ?thesis by (simp only: append_Nil append_Nil2)
  qed
  have "says ((if ?L then INSTR ''push rbp'' else []) @ concat (map (\<lambda>i. INSTR (''push '' @ ?nm i)) [0 ..< n]) @ (frame_setup pc @ move_rsp ''sub'' pc) @ [] @ [])
     ([] @ [] @ move_rsp ''add'' pc @ concat (map (\<lambda>i. INSTR (''pop '' @ ?nm i)) (rev [0 ..< n])) @ (if ?L then INSTR ''pop rbp'' else []))
     (emit_fn_prologue_epilogue_tx os pc)"
    unfolding emit_fn_prologue_epilogue_tx_def Let_def n_def [symmetric] saved_def [symmetric]
    by (intro says_append first push m pop last)
  then show ?thesis
    by (cases "frame_locals pc = 0") (simp_all add: pushed_def n_def [symmetric] rev_map o_def)
qed

lemma frame_bytes_room:
  assumes "0 \<le>s pc_stack_size pc"
  shows "unat (frame_shadow pc) + unat (frame_locals pc) \<le> unat (frame_bytes pc)"
    and "pc_calls_fn pc \<Longrightarrow> 16 dvd 8 + 8 * length (pushed a pc) + unat (frame_bytes pc)"
proof -
  define pushes where "pushes = unat (pc_nreg_count pc) + (if frame_locals pc \<noteq> 0 then 1 else 0) + (if pc_calls_fn pc then 1 else 0)"
  define e where "e = frame_shadow pc + frame_locals pc"
  have "unat (frame_locals pc) < 2 ^ 31"
  proof -
    define k where "k = sint (pc_stack_size pc)"
    have k: "0 \<le> k" "k < 2 ^ 31"
      using assms sint_lt [of "pc_stack_size pc"] by (simp_all add: word_sle_eq k_def)
    have "frame_locals pc = word_of_int k"
      by (simp only: frame_locals_def scast_eq k_def)
    then have "unat (frame_locals pc) = nat k" using k unat_word_of_int [of k] by simp
    then show ?thesis using k by (simp add: nat_less_iff)
  qed
  moreover have "unat (frame_shadow pc) \<le> 32" by (simp add: frame_shadow_def)
  ultimately have b: "unat (frame_shadow pc) + unat (frame_locals pc) < 2 ^ 32" by simp
  then have "unat e = unat (frame_shadow pc) + unat (frame_locals pc)"
    unfolding e_def by (subst unat_plus_if') simp
  then have u: "unat e = unat (frame_shadow pc) + unat (frame_locals pc)" "unat e < 2 ^ 32" "unat e + 2 ^ 4 < 2 ^ LENGTH(64)"
    using b by simp_all
  note al = ALIGN_TO_bounds [where a = "0x10" and k = 4, OF _ u(3)]
  have s: "frame_bytes pc = ALIGN_TO e 0x10 + (if pushes mod 2 = 1 then 8 else 0)"
    by (simp add: frame_bytes_def e_def pushes_def Let_def)
  have sz: "unat (frame_bytes pc) = unat (ALIGN_TO e 0x10) + (if pushes mod 2 = 1 then 8 else 0)"
    using al(3) u(2) unfolding s by (cases "pushes mod 2 = 1") (simp_all add: unat_plus_if')
  show "unat (frame_shadow pc) + unat (frame_locals pc) \<le> unat (frame_bytes pc)"
    using al(2) u(1) sz by simp
  show "pc_calls_fn pc \<Longrightarrow> 16 dvd 8 + 8 * length (pushed a pc) + unat (frame_bytes pc)"
  proof -
    assume c: "pc_calls_fn pc"
    then have "pushes = length (pushed a pc) + 1" by (simp add: pushes_def pushed_def)
    moreover have "16 dvd unat (ALIGN_TO e 0x10)" using al(1) by simp
    ultimately show ?thesis unfolding sz by presburger
  qed
qed

text \<open>
  C20. The frame of the x86-64 text back end is well nested and aligned. The prologue pushes \<open>rbp\<close> when there
  are locals and the callee-saved registers in use, sets \<open>rbp\<close> and lowers \<open>rsp\<close>; the epilogue raises \<open>rsp\<close> by
  the same amount and pops the same registers in the opposite order. The frame has room for the shadow space
  and the locals, it is as large as the one of the machine-code back end, and in a function that calls
  others the return address, the pushes and the frame together keep \<open>rsp\<close> a multiple of 16.
\<close>

theorem x64_text_frame:
  assumes "same_abi os a" and "unat (pc_nreg_count pc) \<le> length (callee_regs a)" and "0 \<le>s pc_stack_size pc" and "ready c st"
  shows "\<exists>st'. emit_fn_prologue_epilogue_tx os pc st = Some st'
    \<and> adds c (concat (map (\<lambda>r. INSTR (''push '' @ r)) (pushed a pc)) @ frame_setup pc @ move_rsp ''sub'' pc)
        (move_rsp ''add'' pc @ concat (map (\<lambda>r. INSTR (''pop '' @ r)) (rev (pushed a pc)))) st st'
    \<and> unat (frame_shadow pc) + unat (frame_locals pc) \<le> unat (frame_bytes pc) \<and> frame_bytes pc = frame_size pc
    \<and> (pc_calls_fn pc \<longrightarrow> 16 dvd 8 + 8 * length (pushed a pc) + unat (frame_bytes pc))"
proof -
  have "frame_bytes pc = frame_size pc"
    by (simp add: frame_bytes_def frame_size_def frame_shadow_def frame_locals_def shadow_size_def locals_size_def Let_def)
  then show ?thesis
    using frame_text_says [OF assms(1,2)] frame_bytes_room [OF assms(3)] assms(4) by (auto simp: says_def)
qed

lemma x64_text_frame_witness:
  "\<exists>st'. emit_fn_prologue_epilogue_tx asm_linux ex_pc ex_asm = Some st'
    \<and> adds 0 (concat (map (\<lambda>r. INSTR (''push '' @ r)) (pushed elf_abi ex_pc)) @ frame_setup ex_pc @ move_rsp ''sub'' ex_pc)
        (move_rsp ''add'' ex_pc @ concat (map (\<lambda>r. INSTR (''pop '' @ r)) (rev (pushed elf_abi ex_pc)))) ex_asm st'"
  using x64_text_frame [of asm_linux elf_abi ex_pc 0 ex_asm] ex_asm_ready
  by (auto simp: same_abi_def ex_pc_def parser_context0_def word_sle_eq)

end
