(* ===== verification/Asm_Strings.thy ===== *)
theory Asm_Strings
  imports Asm_Laws
begin

text \<open>
  The section of strings of the assembly output: what the literals of a program put there, and when the
  output has it.
\<close>

section \<open>Writing without growing\<close>

text \<open>A write that appends a text, and moves the buffer exactly when the text does not fit before its end.\<close>

definition grown :: "string \<Rightarrow> buf \<Rightarrow> buf \<Rightarrow> bool" where
  "grown s b b' \<longleftrightarrow> b_text b' = b_text b @ s \<and> buf_len b' < buf_cap b' \<and> buf_cap b \<le> buf_cap b'
    \<and> (buf_cap b' = buf_cap b \<longleftrightarrow> buf_len b + length s < buf_cap b)"

lemma grown_trans: "grown s b b1 \<Longrightarrow> grown t b1 b2 \<Longrightarrow> grown (s @ t) b b2"
  by (auto simp: grown_def buf_len_def)

lemma grow_grown:
  assumes "buf_len b < buf_cap b" and "length s = n"
  shows "\<exists>b'. buf_grow n b = Some b' \<and> grown s b (b'\<lparr>b_text := b_text b' @ s\<rparr>)"
proof -
  obtain k where k: "buf_grow n b = Some (b\<lparr>b_cap := buf_cap b * 2 ^ k\<rparr>)" "buf_len b + n < buf_cap b * 2 ^ k"
      "\<forall>j<k. buf_cap b * 2 ^ j \<le> buf_len b + n"
    using buf_grow_total [of b n] assms by auto
  have "buf_cap b * 2 ^ k = buf_cap b \<longleftrightarrow> k = 0" using assms by auto
  moreover have "k = 0 \<longleftrightarrow> buf_len b + n < buf_cap b"
    using k(2) k(3) [rule_format, of 0] by (cases k) auto
  moreover have "buf_cap b \<le> buf_cap b * 2 ^ k" by simp
  ultimately show ?thesis
    using k(1,2) assms by (auto simp: grown_def buf_len_def buf_cap_def)
qed

lemma write_grown:
  assumes "buf_len b < buf_cap b"
  shows "\<exists>b'. buf_puts s b = Some b' \<and> grown s b b'" and "\<exists>b'. buf_putc x b = Some b' \<and> grown [x] b b'"
    and "length s < SPRINTF_BUFSIZ \<Longrightarrow> \<exists>b'. buf_snprintf s b = Some b' \<and> grown s b b'"
proof -
  obtain b1 where b1: "buf_grow (length s) b = Some b1" "grown s b (b1\<lparr>b_text := b_text b1 @ s\<rparr>)"
    using grow_grown [OF assms refl, of s] by auto
  obtain b2 where b2: "buf_grow 1 b = Some b2" "grown [x] b (b2\<lparr>b_text := b_text b2 @ [x]\<rparr>)"
    using grow_grown [OF assms, of "[x]" 1] by auto
  show "\<exists>b'. buf_puts s b = Some b' \<and> grown s b b'" using b1 by (simp add: buf_puts_def)
  show "\<exists>b'. buf_putc x b = Some b' \<and> grown [x] b b'" using b2 by (simp add: buf_putc_def)
  show "length s < SPRINTF_BUFSIZ \<Longrightarrow> \<exists>b'. buf_snprintf s b = Some b' \<and> grown s b b'"
    using b1 by (simp add: buf_snprintf_def)
qed

section \<open>The literals\<close>

definition lit_text :: "string \<Rightarrow> string \<Rightarrow> string" where
  "lit_text label s = label @ '':'' @ [NL] @ TAB # ''.asciz '' @ s @ [NL]"

primrec lit_section :: "asm_os \<Rightarrow> u32 \<Rightarrow> string list \<Rightarrow> string" where
  "lit_section os k [] = []"
| "lit_section os k (s # ss) = lit_text (os_local_string os k) s @ lit_section os (k + 1) ss"

lemma put_cstr_grown:
  assumes "buf_len (as_cstr st) < buf_cap (as_cstr st)" and "length label < 100"
  shows "\<exists>b. put_cstr label s st = Some (st\<lparr>as_cstr := b\<rparr>) \<and> grown (lit_text label s) (as_cstr st) b"
proof -
  let ?b = "as_cstr st"
  obtain b1 where b1: "buf_snprintf (label @ '':'' @ [NL]) ?b = Some b1" "grown (label @ '':'' @ [NL]) ?b b1"
    using write_grown(3) [OF assms(1), of "label @ '':'' @ [NL]"] assms(2) by (auto simp: SPRINTF_BUFSIZ_def)
  then have l1: "buf_len b1 < buf_cap b1" by (simp add: grown_def)
  obtain b2 where b2: "buf_puts (TAB # ''.asciz '') b1 = Some b2" "grown (TAB # ''.asciz '') b1 b2"
    using write_grown(1) [OF l1] by blast
  then have l2: "buf_len b2 < buf_cap b2" by (simp add: grown_def)
  obtain b3 where b3: "buf_puts s b2 = Some b3" "grown s b2 b3" using write_grown(1) [OF l2] by blast
  then have l3: "buf_len b3 < buf_cap b3" by (simp add: grown_def)
  obtain b4 where b4: "buf_putc NL b3 = Some b4" "grown [NL] b3 b4" using write_grown(2) [OF l3] by blast
  have "grown (((label @ '':'' @ [NL]) @ TAB # ''.asciz '') @ s @ [NL]) ?b b4"
    using grown_trans [OF grown_trans [OF b1(2) b2(2)] grown_trans [OF b3(2) b4(2)]] by simp
  then show ?thesis
    using b1(1) b2(1) b3(1) b4(1) by (intro exI [of _ b4]) (simp add: put_cstr_def on_cstr_def lit_text_def)
qed

text \<open>What a literal leaves alone, and what it keeps in order.\<close>

definition keeps :: "nat \<Rightarrow> asm \<Rightarrow> asm \<Rightarrow> bool" where
  "keeps c st st' \<longleftrightarrow> ready c st' \<and> as_text st' = as_text st \<and> as_string_begin st' = as_string_begin st \<and> as_string_block st' = as_string_block st"

lemma aside_fields:
  "aside c st st' \<Longrightarrow> as_cstr st' = as_cstr st \<and> as_text st' = as_text st \<and> as_lits st' = as_lits st
    \<and> as_string_begin st' = as_string_begin st \<and> as_string_block st' = as_string_block st"
  by (auto simp: aside_def)

lemma ready_cstr [simp]: "ready c (st\<lparr>as_cstr := b\<rparr>) = ready c st" "ready c (st\<lparr>as_lits := k\<rparr>) = ready c st"
  by (simp_all add: ready_def)

lemma string_lit_grown:
  assumes "os = asm_linux \<or> os = asm_macos" and "ready c st" and "buf_len (as_cstr st) < buf_cap (as_cstr st)"
  shows "\<exists>st'. emit_string_lit_ta os dst s st = Some st' \<and> keeps c st st' \<and> as_lits st' = as_lits st + 1
    \<and> grown (lit_text (os_local_string os (as_lits st)) s) (as_cstr st) (as_cstr st')"
proof -
  define label where "label = os_local_string os (as_lits st)"
  define k where "k = sint (get_regoff_ta dst)"
  have k: "length (int_dec k) \<le> 11" unfolding k_def by (rule length_int_dec32)
  have l: "length label \<le> 18"
    using assms(1) length_int_dec32 [of "as_lits st"] by (auto simp: label_def asm_linux_def asm_macos_def)
  obtain adrp add where a: "os_addrgen os = Some (adrp, add)" "length (adrp k label) < SPRINTF_BUFSIZ" "length (add k k label) < SPRINTF_BUFSIZ"
    using assms(1) k l by (auto simp: asm_linux_def asm_macos_def INSTR_def SPRINTF_BUFSIZ_def)
  let ?st0 = "st\<lparr>as_lits := as_lits st + 1\<rparr>"
  obtain st1 where 1: "seqs [tprint (adrp k label), tprint (add k k label)] ?st0 = Some st1" "adds c ([] @ [] @ []) (adrp k label @ add k k label @ []) ?st0 st1" "ready c st1"
    using saysD [OF says_seqs [OF says_put(3) [OF a(2)] says_seqs [OF says_put(3) [OF a(3)] says_nothing(2)]], of c ?st0] assms(2)
    by auto
  have f: "as_cstr st1 = as_cstr st" "as_text st1 = as_text st" "as_lits st1 = as_lits st + 1"
      "as_string_begin st1 = as_string_begin st" "as_string_block st1 = as_string_block st"
    using aside_fields [of c ?st0 st1] 1(2) by (auto simp: adds_def)
  obtain b where b: "put_cstr label s st1 = Some (st1\<lparr>as_cstr := b\<rparr>)" "grown (lit_text label s) (as_cstr st) b"
    using put_cstr_grown [of st1 label s] assms(3) l f(1) by auto
  have "emit_string_lit_ta os dst s st = Option.bind (seqs [tprint (adrp k label), tprint (add k k label)] ?st0) (put_cstr label s)"
    by (simp add: emit_string_lit_ta_def a(1) next_lit_def label_def [symmetric] k_def [symmetric] Let_def bind_assoc seqs_last del: seqs.simps)
  then show ?thesis
    using 1(1,3) b f by (intro exI [of _ "st1\<lparr>as_cstr := b\<rparr>"]) (simp add: keeps_def label_def [symmetric] del: seqs.simps)
qed

lemma string_lits_grown:
  assumes "os = asm_linux \<or> os = asm_macos" and "ready c st" and "buf_len (as_cstr st) < buf_cap (as_cstr st)"
  shows "\<exists>st'. seqs (map (emit_string_lit_ta os dst) ss) st = Some st' \<and> keeps c st st'
    \<and> grown (lit_section os (as_lits st) ss) (as_cstr st) (as_cstr st')"
  using assms(2,3)
proof (induction ss arbitrary: st)
  case Nil
  then show ?case by (simp add: keeps_def grown_def)
next
  case (Cons s ss)
  obtain st1 where 1: "emit_string_lit_ta os dst s st = Some st1" "keeps c st st1" "as_lits st1 = as_lits st + 1"
      "grown (lit_text (os_local_string os (as_lits st)) s) (as_cstr st) (as_cstr st1)"
    using string_lit_grown [OF assms(1) Cons.prems] by blast
  then have "ready c st1" "buf_len (as_cstr st1) < buf_cap (as_cstr st1)" by (simp_all add: keeps_def grown_def)
  from Cons.IH [OF this] obtain st2 where 2: "seqs (map (emit_string_lit_ta os dst) ss) st1 = Some st2" "keeps c st1 st2"
      "grown (lit_section os (as_lits st1) ss) (as_cstr st1) (as_cstr st2)" by blast
  show ?case
    using 1 2 grown_trans [OF 1(4) 2(3)] by (intro exI [of _ st2]) (simp add: keeps_def)
qed

text \<open>
  C32. The output has the section of strings exactly as long as the literals fit the first block of its
  buffer. From \<open>emit_init\<close> on, with a function begun, any sequence of string literals is accepted and laid out
  in the section under consecutive labels. While the header and the literals are less than 1024 bytes the
  output is the text followed by the section, which is left out when there are no literals; as soon as they
  are more, the buffer has moved, and the output compares with a pointer into the block that was freed.
\<close>

theorem string_section_output:
  assumes "os = asm_linux \<or> os = asm_macos" and "emit_init_t os cs = Some st0" and "emit_fn_begin_t c st0 = Some st"
  shows "\<exists>st'. seqs (map (emit_string_lit_ta os dst) ss) st = Some st'
    \<and> emit_output_t st' =
      (if length (os_string_header os) + length (lit_section os 0 ss) < 0x400
       then Some (os_text_header os @ (if ss = [] then [] else os_string_header os @ lit_section os 0 ss)) else None)"
proof -
  have h: "length (os_string_header os) < 100"
    using assms(1) by (auto simp: asm_linux_def asm_macos_def INSTR_def)
  obtain t where t: "buf_puts (os_text_header os) (buf_init INIT_BUFSIZ) = Some t" "grown (os_text_header os) (buf_init INIT_BUFSIZ) t"
    using write_grown(1) [of "buf_init INIT_BUFSIZ"] by (auto simp: buf_init_def buf_len_def buf_cap_def INIT_BUFSIZ_def)
  obtain b where b: "buf_puts (os_string_header os) (buf_init INIT_BUFSIZ) = Some b" "grown (os_string_header os) (buf_init INIT_BUFSIZ) b"
    using write_grown(1) [of "buf_init INIT_BUFSIZ"] by (auto simp: buf_init_def buf_len_def buf_cap_def INIT_BUFSIZ_def)
  have c: "b_text t = os_text_header os" "b_text b = os_string_header os" "buf_cap b = 0x400" "buf_len b < 0x400"
    using t(2) b(2) h by (auto simp: grown_def buf_init_def buf_len_def buf_cap_def INIT_BUFSIZ_def)
  have st0: "as_text st0 = t" "as_cstr st0 = b" "as_string_begin st0 = buf_len b" "as_string_block st0 = 0x400" "as_lits st0 = 0" "as_stack st0 = []"
    using assms(2) t(1) b(1) c(3) by (auto simp: emit_init_t_def)
  have st: "ready c st" "as_text st = t" "as_cstr st = b" "as_string_begin st = buf_len b" "as_string_block st = 0x400" "as_lits st = 0"
    using assms(3) st0 by (auto simp: emit_fn_begin_t_def MAX_CONTEXTS_def ready_def buf_ok_def buf_init_def buf_len_def buf_cap_def INIT_BUFSIZ_def)
  obtain st' where r: "seqs (map (emit_string_lit_ta os dst) ss) st = Some st'" "keeps c st st'" "grown (lit_section os 0 ss) b (as_cstr st')"
    using string_lits_grown [OF assms(1) st(1), of dst ss] st(3,6) c(3,4) by auto
  have len: "ss \<noteq> [] \<longleftrightarrow> lit_section os 0 ss \<noteq> []" by (cases ss) (simp_all add: lit_text_def)
  have "buf_len b = length (os_string_header os)" using c(2) by (simp add: buf_len_def)
  then show ?thesis
    using r st c len by (intro exI [of _ st']) (auto simp: emit_output_t_def keeps_def grown_def buf_len_def)
qed

lemma ex_start: "\<exists>st0 st. emit_init_t asm_linux (as_ctxs ex_asm) = Some st0 \<and> emit_fn_begin_t 0 st0 = Some st"
proof -
  have "\<exists>b'. buf_puts s (buf_init INIT_BUFSIZ) = Some b'" for s
    using write_grown(1) [of "buf_init INIT_BUFSIZ" s] by (auto simp: buf_init_def buf_len_def buf_cap_def INIT_BUFSIZ_def)
  then obtain t b where "buf_puts (os_text_header asm_linux) (buf_init INIT_BUFSIZ) = Some t"
      "buf_puts (os_string_header asm_linux) (buf_init INIT_BUFSIZ) = Some b" by blast
  then show ?thesis by (simp add: emit_init_t_def emit_fn_begin_t_def MAX_CONTEXTS_def)
qed

lemma string_section_output_witness:
  "\<exists>st0 st st'. emit_init_t asm_linux (as_ctxs ex_asm) = Some st0 \<and> emit_fn_begin_t 0 st0 = Some st
    \<and> seqs (map (emit_string_lit_ta asm_linux (ex_reg PARAM 0 8)) [''hi'']) st = Some st'
    \<and> emit_output_t st' = Some (os_text_header asm_linux @ os_string_header asm_linux @ lit_text (os_local_string asm_linux 0) ''hi'')"
proof -
  obtain st0 st where st: "emit_init_t asm_linux (as_ctxs ex_asm) = Some st0" "emit_fn_begin_t 0 st0 = Some st"
    using ex_start by blast
  have "length (os_local_string asm_linux 0) \<le> 18" "length (os_string_header asm_linux) < 100"
    using length_int_dec32 [of 0] by (simp_all add: asm_linux_def INSTR_def)
  then show ?thesis
    using string_section_output [OF _ st, of "ex_reg PARAM 0 8" "[''hi'']"] st by (simp add: lit_text_def del: seqs.simps)
qed

end
