(* ===== verification/Diagnostics.thy ===== *)
theory Diagnostics
  imports Parser_State A64_State "HOL-Library.Signed_Division"
begin

text \<open>
  \<open>src/alc/diagnostics.c\<close> and the printing helpers of \<open>src/alc/str.h\<close>: what the compiler writes to the
  terminal, as text. The parser model keeps a report as its format; here are the texts around it, the
  names of derived types, and the reports and diagrams of a build without \<open>NDEBUG\<close> (with it they are empty).

  A \<open>long\<close> is an \<open>int\<close>, since its overflow is undefined; a size or an offset that is printed as signed is read
  by \<open>sint\<close>. A character of a box is the bytes of its UTF-8 encoding. \<open>None\<close> stands for a null pointer
  followed, a read past the end of an array, and an abort of the arena.
\<close>

abbreviation HT :: char where "HT \<equiv> CHR 0x09"

definition CSI_RED :: string where "CSI_RED = CHR 0x1B # ''[31m''"
definition CSI_GREEN :: string where "CSI_GREEN = CHR 0x1B # ''[32m''"
definition CSI_YELLOW :: string where "CSI_YELLOW = CHR 0x1B # ''[33m''"
definition CSI_RESET :: string where "CSI_RESET = CHR 0x1B # ''[0m''"

section \<open>Slices\<close>

text \<open>What the helpers print for a slice; \<open>printnl\<close> is the same for the bytes of a slice.\<close>

definition str_fprintnl :: "memory \<Rightarrow> str \<Rightarrow> string" where
  "str_fprintnl m s =
    (if s_data s = s_end s then ''(empty)'' else if 0 < str_len s then str_bytes m s else [])"

definition str_fprint :: "memory \<Rightarrow> str \<Rightarrow> string" where
  "str_fprint m s = str_fprintnl m s @ [NL]"

definition printnl :: "string \<Rightarrow> string" where
  "printnl s = (if s = [] then ''(empty)'' else s)"

definition print_line :: "string \<Rightarrow> string" where
  "print_line s = printnl s @ [NL]"

lemma str_fprintnl_bytes: "s_data s \<le> s_end s \<Longrightarrow> str_fprintnl m s = printnl (str_bytes m s)"
  by (auto simp: str_fprintnl_def printnl_def str_len_def str_bytes_def)

section \<open>Messages\<close>

record diag =
  dg_has_err :: bool
  dg_has_warning :: bool
  dg_stderr :: string

text \<open>A token is given by the name of its file and its line, and the message is formatted.\<close>

definition compile_err_text :: "(string \<times> u16) option \<Rightarrow> string \<Rightarrow> diag \<Rightarrow> diag" where
  "compile_err_text token msg d =
    d\<lparr>dg_has_err := True,
      dg_stderr := dg_stderr d
        @ (case token of None \<Rightarrow> []
           | Some (filename, line) \<Rightarrow>
               CSI_RED @ ''error'' @ CSI_RESET @ '': '' @ filename @ '':'' @ nat_dec (unat line) @ '': '')
        @ msg\<rparr>"

definition compile_warning_text :: "(string \<times> u16) option \<Rightarrow> string \<Rightarrow> diag \<Rightarrow> diag" where
  "compile_warning_text token msg d =
    d\<lparr>dg_has_warning := True,
      dg_stderr := dg_stderr d @ CSI_YELLOW
        @ (case token of None \<Rightarrow> []
           | Some (filename, line) \<Rightarrow> ''warning in '' @ filename @ '':'' @ nat_dec (unat line) @ '': '')
        @ msg @ CSI_RESET\<rparr>"

text \<open>The frames of the compiler's own stack, as the system library prints them, are the argument \<open>trace\<close>.\<close>

definition report_backtrace_text :: "string \<Rightarrow> string \<Rightarrow> diag \<Rightarrow> diag" where
  "report_backtrace_text trace msg d = d\<lparr>dg_stderr := dg_stderr d @ msg @ trace\<rparr>"

definition report_err_text :: "string \<Rightarrow> string \<Rightarrow> diag \<Rightarrow> diag" where
  "report_err_text trace msg d =
    report_backtrace_text trace []
      (compile_err_text None [] (d\<lparr>dg_stderr := dg_stderr d @ CSI_RED @ ''error: '' @ CSI_RESET @ msg\<rparr>))"

section \<open>Names of derived types\<close>

text \<open>The table of names has no entry for \<open>DK_NONE\<close>.\<close>

fun dtype_kind_string :: "dtype_kind \<Rightarrow> string option" where
  "dtype_kind_string DK_ADDR = Some ''addr''"
| "dtype_kind_string DK_ARRAY = Some ''array''"
| "dtype_kind_string DK_CHECK = Some ''!''"
| "dtype_kind_string DK_SLICE = Some ''slice''"
| "dtype_kind_string DK_NONE = None"

text \<open>The blocks of the arena lie one behind the other, so what is copied into them is one text.\<close>

primrec decls_to_str :: "declarator list \<Rightarrow> allocator \<Rightarrow> (string \<times> allocator) option" where
  "decls_to_str [] al = Some ([], al)"
| "decls_to_str (d # ds) al =
    do { s \<leftarrow> dtype_kind_string (dk_tag d);
         (_, al1) \<leftarrow> allocator_alloc_undefined al (length s);
         (_, al2) \<leftarrow> allocator_alloc_undefined al1 1;
         (rest, al3) \<leftarrow> decls_to_str ds al2;
         Some (s @ '' '' @ rest, al3) }"

definition dtype_to_str :: "tstore \<Rightarrow> dtype \<Rightarrow> allocator \<Rightarrow> (string \<times> allocator) option" where
  "dtype_to_str ts self al =
    do { (_, al1) \<leftarrow> allocator_alloc_undefined al 0;
         (decls, al2) \<leftarrow> decls_to_str (d_decl self) al1;
         let name = (case base_type ts self of None \<Rightarrow> [] | Some t \<Rightarrow> ty_name t);
         (_, al3) \<leftarrow> allocator_alloc_undefined al2 (length name);
         (_, al4) \<leftarrow> allocator_alloc_undefined al3 1;
         Some (decls @ name, al4) }"

section \<open>Drawing memory\<close>

record mem_box =
  bx_name :: string
  bx_type_name :: string
  bx_lo :: int
  bx_hi :: int
  bx_pad :: bool

definition MEM_BOX_GUTTER :: nat where "MEM_BOX_GUTTER = 8"
definition MEM_BOX_MAX_ROWS :: int where "MEM_BOX_MAX_ROWS = 16"

definition pad_box :: "int \<Rightarrow> int \<Rightarrow> mem_box" where
  "pad_box lo hi = \<lparr>bx_name = [], bx_type_name = [], bx_lo = lo, bx_hi = hi, bx_pad = True\<rparr>"

abbreviation "box_H \<equiv> [CHR 0xE2, CHR 0x94, CHR 0x80]"
abbreviation "box_V \<equiv> [CHR 0xE2, CHR 0x94, CHR 0x82]"
abbreviation "box_DR \<equiv> [CHR 0xE2, CHR 0x94, CHR 0x8C]"
abbreviation "box_DL \<equiv> [CHR 0xE2, CHR 0x94, CHR 0x90]"
abbreviation "box_UR \<equiv> [CHR 0xE2, CHR 0x94, CHR 0x94]"
abbreviation "box_UL \<equiv> [CHR 0xE2, CHR 0x94, CHR 0x98]"
abbreviation "box_VR \<equiv> [CHR 0xE2, CHR 0x94, CHR 0x9C]"
abbreviation "box_VL \<equiv> [CHR 0xE2, CHR 0x94, CHR 0xA4]"
abbreviation "box_dots \<equiv> [CHR 0xE2, CHR 0x8B, CHR 0xAE]"

text \<open>Spaces, the conversion \<open>%*s\<close>, and the bytes before the first null byte.\<close>

definition spaces :: "nat \<Rightarrow> string" where
  "spaces n = replicate n (CHR '' '')"

definition right_in :: "nat \<Rightarrow> string \<Rightarrow> string" where
  "right_in n s = spaces (n - length s) @ s"

definition cstr :: "string \<Rightarrow> string" where
  "cstr s = takeWhile (\<lambda>c. c \<noteq> CHR 0x00) s"

definition mem_box_label :: "int \<Rightarrow> bool \<Rightarrow> string" where
  "mem_box_label addr fp_relative =
    (if \<not> fp_relative then ''+'' @ int_dec addr
     else if addr = 0 then ''fp''
     else if addr < 0 then ''fp-'' @ int_dec (- addr)
     else ''fp+'' @ int_dec addr)"

definition mem_box_divider :: "int \<Rightarrow> bool \<Rightarrow> nat \<Rightarrow> string \<Rightarrow> string \<Rightarrow> string \<Rightarrow> string" where
  "mem_box_divider addr fp_relative cols l mid r =
    right_in (MEM_BOX_GUTTER - 2) (mem_box_label addr fp_relative) @ '' '' @ box_H @ l
    @ concat (replicate cols mid) @ r @ [NL]"

definition mem_box_blank :: "nat \<Rightarrow> string" where
  "mem_box_blank cols = spaces MEM_BOX_GUTTER @ box_V @ spaces cols @ box_V @ [NL]"

definition mem_box_dots :: "nat \<Rightarrow> string" where
  "mem_box_dots cols =
    (let l = (cols - 1) div 2 in
     spaces MEM_BOX_GUTTER @ box_V @ spaces l @ box_dots @ spaces (cols - 1 - l) @ box_V @ [NL])"

text \<open>The text at the right of a box before it is cut to the 95 characters of its buffer, and the name.\<close>

definition right_text :: "mem_box \<Rightarrow> string" where
  "right_text b =
    (if bx_pad b then int_dec (bx_hi b - bx_lo b) @ '' bytes''
     else cstr (bx_type_name b) @ '' ('' @ int_dec (bx_hi b - bx_lo b) @ '')'')"

definition box_name :: "mem_box \<Rightarrow> string" where
  "box_name b = (if bx_pad b then ''(padding)'' else cstr (take 63 (bx_name b)))"

definition box_need :: "mem_box \<Rightarrow> nat" where
  "box_need b =
    (if bx_pad b then length ''(padding)'' else length (bx_name b)) + length (right_text b) + 3"

definition boxes_width :: "mem_box list \<Rightarrow> nat" where
  "boxes_width bs = fold (\<lambda>b w. if w < box_need b then box_need b else w) bs 0"

text \<open>The least size of a box with a name, or of any box when none has one; at least one.\<close>

definition least_size :: "mem_box list \<Rightarrow> int \<Rightarrow> int" where
  "least_size bs = fold (\<lambda>b s. if s = 0 \<or> bx_hi b - bx_lo b < s then bx_hi b - bx_lo b else s) bs"

definition smallest_size :: "mem_box list \<Rightarrow> int" where
  "smallest_size bs =
    (let s = least_size (filter (\<lambda>b. \<not> bx_pad b) bs) 0;
         s' = (if s = 0 then least_size bs s else s) in
     if s' < 1 then 1 else s')"

definition box_gap :: "nat \<Rightarrow> mem_box \<Rightarrow> nat" where
  "box_gap cols b =
    (let gap = int cols - int (length (box_name b)) - int (length (take 95 (right_text b))) - 2 in
     if gap < 1 then 1 else nat gap)"

definition box_title :: "nat \<Rightarrow> mem_box \<Rightarrow> string" where
  "box_title cols b =
    spaces MEM_BOX_GUTTER @ box_V @ '' '' @ (if bx_pad b then CSI_RED else CSI_GREEN) @ box_name b @ CSI_RESET
    @ spaces (box_gap cols b) @ take 95 (right_text b) @ '' '' @ box_V @ [NL]"

definition box_rows :: "int \<Rightarrow> mem_box \<Rightarrow> int \<times> bool" where
  "box_rows unit b =
    (let rows = (bx_hi b - bx_lo b) sdiv unit; rows1 = (if rows < 1 then 1 else rows);
         capped = MEM_BOX_MAX_ROWS < rows1 in
     (if capped then MEM_BOX_MAX_ROWS else rows1, capped))"

definition box_body :: "nat \<Rightarrow> int \<Rightarrow> mem_box \<Rightarrow> string" where
  "box_body cols unit b =
    (let (rows, capped) = box_rows unit b in
     concat (map (\<lambda>row. if capped \<and> row = rows - 1 then mem_box_dots cols else mem_box_blank cols)
       [1 .. rows - 1]))"

fun draw_boxes :: "nat \<Rightarrow> int \<Rightarrow> bool \<Rightarrow> mem_box list \<Rightarrow> string" where
  "draw_boxes cols unit fp_relative [] = []"
| "draw_boxes cols unit fp_relative (b # bs) =
    box_title cols b @ box_body cols unit b
    @ mem_box_divider (bx_hi b) fp_relative cols (if bs = [] then box_UR else box_VR) box_H
        (if bs = [] then box_UL else box_VL)
    @ draw_boxes cols unit fp_relative bs"

definition draw_mem_layout :: "mem_box list \<Rightarrow> bool \<Rightarrow> int \<Rightarrow> string" where
  "draw_mem_layout boxes fp_relative scale =
    (case boxes of [] \<Rightarrow> HT # ''<empty>'' @ [NL]
     | b # _ \<Rightarrow>
        let cols = boxes_width boxes; smallest = smallest_size boxes;
            unit = (if scale < smallest then smallest else scale) in
        [NL] @ mem_box_divider (bx_lo b) fp_relative cols box_DR box_H box_DL
        @ draw_boxes cols unit fp_relative boxes)"

section \<open>Diagrams\<close>

text \<open>What both diagrams do for a box: the bytes left out before it first, while the array has room.\<close>

definition push_box :: "mem_box \<Rightarrow> mem_box list \<Rightarrow> mem_box list" where
  "push_box b bs = (if length bs < MAX_STACK_SLOTS then bs @ [b] else bs)"

definition pad_to :: "int \<Rightarrow> int \<Rightarrow> mem_box list \<Rightarrow> mem_box list" where
  "pad_to prev_end lo bs = (if prev_end < lo then push_box (pad_box prev_end lo) bs else bs)"

text \<open>The name of the type of a member is only read when there is room for its box.\<close>

primrec member_boxes :: "tstore \<Rightarrow> member list \<Rightarrow> mem_box list \<Rightarrow> int \<Rightarrow> (mem_box list \<times> int) option" where
  "member_boxes ts [] bs prev_end = Some (bs, prev_end)"
| "member_boxes ts (m # ms) bs prev_end =
    do { sz \<leftarrow> dtype_size ts (m_dtype m);
         let off = sint (m_offset m);
         let bs1 = pad_to prev_end off bs;
         bs2 \<leftarrow> (if length bs1 < MAX_STACK_SLOTS
                 then do { t \<leftarrow> base_type ts (m_dtype m);
                           Some (push_box \<lparr>bx_name = m_name m, bx_type_name = ty_name t, bx_lo = off,
                             bx_hi = off + sint sz, bx_pad = False\<rparr> bs1) }
                 else Some bs1);
         member_boxes ts ms bs2 (off + sint sz) }"

definition struct_boxes :: "tstore \<Rightarrow> type_t \<Rightarrow> mem_box list option" where
  "struct_boxes ts t =
    do { (bs, prev_end) \<leftarrow> member_boxes ts (ty_members t) [] 0;
         Some (pad_to prev_end (sint (ty_size t)) bs) }"

definition struct_diagram :: "tstore \<Rightarrow> type_t \<Rightarrow> int \<Rightarrow> string option" where
  "struct_diagram ts t scale = map_option (\<lambda>bs. draw_mem_layout bs False scale) (struct_boxes ts t)"

definition slot_box :: "stack_slot \<Rightarrow> mem_box" where
  "slot_box s = \<lparr>bx_name = sl_name s, bx_type_name = (case sl_type_name s of None \<Rightarrow> [] | Some n \<Rightarrow> n),
     bx_lo = - sint (sl_offset s), bx_hi = - sint (sl_offset s) + sint (sl_size s), bx_pad = False\<rparr>"

text \<open>
  The insertion sort by address. The part that is sorted is held from its end, since the inner loop
  goes down from there and moves what is larger than the key up by one place.
\<close>

fun shift_in :: "mem_box \<Rightarrow> mem_box list \<Rightarrow> mem_box list" where
  "shift_in key [] = [key]"
| "shift_in key (x # xs) = (if bx_lo key < bx_lo x then x # shift_in key xs else key # x # xs)"

definition sort_boxes :: "mem_box list \<Rightarrow> mem_box list" where
  "sort_boxes raw = rev (fold shift_in raw [])"

primrec add_boxes :: "mem_box list \<Rightarrow> mem_box list \<Rightarrow> int \<Rightarrow> mem_box list \<times> int" where
  "add_boxes [] bs prev_end = (bs, prev_end)"
| "add_boxes (b # raw) bs prev_end = add_boxes raw (push_box b (pad_to prev_end (bx_lo b) bs)) (bx_hi b)"

definition stack_boxes :: "parser_context \<Rightarrow> mem_box list" where
  "stack_boxes pc =
    (let raw = sort_boxes (map slot_box (pc_stack_slots pc));
         (bs, prev_end) = add_boxes raw [] (bx_lo (hd raw)) in
     pad_to prev_end 0 bs)"

definition stack_diagram :: "parser_context \<Rightarrow> int \<Rightarrow> string" where
  "stack_diagram pc scale =
    (if pc_stack_slots pc = [] then [] else draw_mem_layout (stack_boxes pc) True scale)"

section \<open>Reports\<close>

definition extent_text :: "int \<Rightarrow> int \<Rightarrow> string" where
  "extent_text off sz = HT # ''offset: '' @ int_dec off @ '', size: '' @ int_dec sz @ [NL]"

primrec slot_lines :: "nat \<Rightarrow> stack_slot list \<Rightarrow> string" where
  "slot_lines i [] = []"
| "slot_lines i (s # ss) =
    HT # ''slot '' @ nat_dec i @ '': '' @ printnl (sl_name s) @ '' ''
    @ printnl (case sl_type_name s of None \<Rightarrow> [] | Some n \<Rightarrow> n)
    @ extent_text (sint (sl_offset s)) (sint (sl_size s)) @ slot_lines (Suc i) ss"

definition end_report :: string where
  "end_report = CSI_GREEN @ ''end report'' @ [NL, NL] @ CSI_RESET"

definition report_head :: "string \<Rightarrow> string \<Rightarrow> string" where
  "report_head what name = CSI_GREEN @ what @ '' report for '' @ print_line name @ ''================='' @ [NL] @ CSI_RESET"

definition stack_report :: "parser_context \<Rightarrow> string" where
  "stack_report pc =
    (if pc_stack_slots pc = [] then []
     else report_head ''stack'' (pc_name pc) @ HT # ''frame size: '' @ int_dec (sint (pc_stack_size pc)) @ [NL]
       @ slot_lines 0 (pc_stack_slots pc) @ end_report)"

primrec member_lines :: "tstore \<Rightarrow> nat \<Rightarrow> member list \<Rightarrow> string option" where
  "member_lines ts k [] = Some []"
| "member_lines ts k (m # ms) =
    do { t \<leftarrow> base_type ts (m_dtype m);
         sz \<leftarrow> dtype_size ts (m_dtype m);
         rest \<leftarrow> member_lines ts (Suc k) ms;
         Some (HT # ''member '' @ nat_dec k @ '': '' @ printnl (m_name m) @ '' '' @ printnl (ty_name t)
           @ extent_text (sint (m_offset m)) (sint sz) @ rest) }"

definition struct_report :: "tstore \<Rightarrow> type_t \<Rightarrow> string option" where
  "struct_report ts t =
    map_option (\<lambda>ls. report_head ''struct'' (ty_name t) @ HT # ''size: '' @ int_dec (sint (ty_size t)) @ '', align ''
      @ nat_dec (unat (ty_align t)) @ [NL] @ ls @ end_report) (member_lines ts 0 (ty_members t))"

text \<open>One argument for each member; a member without one is a read past the end of the arguments.\<close>

fun arg_lines :: "tstore \<Rightarrow> nat \<Rightarrow> nat \<Rightarrow> member list \<Rightarrow> agg_member list \<Rightarrow> string option" where
  "arg_lines ts depth i [] args = Some []"
| "arg_lines ts depth i (m # ms) [] = None"
| "arg_lines ts depth i (m # ms) (r # args) =
    do { body \<leftarrow>
           (case r of A_VALUE v \<Rightarrow> Some (''value: '' @ int_dec (sint v) @ [NL])
            | A_REG q \<Rightarrow> Some (''reg off: '' @ int_dec (sint (r_offset q)) @ [NL])
            | A_AGGREGATE inner \<Rightarrow>
                (case base_type ts (m_dtype m) of None \<Rightarrow> None
                 | Some t \<Rightarrow> map_option (\<lambda>ls. ''struct expr report: '' @ print_line (ty_name t) @ ls)
                     (arg_lines ts (Suc depth) 0 (ty_members t) inner))
            | A_NONE \<Rightarrow> Some (''error tag 0'' @ [NL]));
         rest \<leftarrow> arg_lines ts depth (Suc i) ms args;
         Some (replicate depth HT @ HT # ''arg '' @ nat_dec i @ '': '' @ printnl (m_name m) @ HT # body @ rest) }"

definition struct_expr_report :: "tstore \<Rightarrow> agg_member list \<Rightarrow> type_t \<Rightarrow> nat \<Rightarrow> string option" where
  "struct_expr_report ts args t depth =
    map_option (\<lambda>ls. (if depth = 0 then [NL] else []) @ ''struct expr report: '' @ print_line (ty_name t) @ ls
      @ (if depth = 0 then [NL] else [])) (arg_lines ts depth 0 (ty_members t) args)"

end
