(* ===== verification/Diagnostics_Laws.thy ===== *)
theory Diagnostics_Laws
  imports Diagnostics Front_Slots "HOL-Library.Multiset"
begin

text \<open>
  What the diagrams of \<open>src/alc/diagnostics.c\<close> show: for a frame as the parser builds it, and for a struct
  that is laid out, the boxes cover the memory without a gap or an overlap, and those that are not padding are
  the recorded objects. The sort is a sort; a title line is as wide as the box; a name of a type fits the arena.
\<close>

section \<open>Sorting\<close>

lemma shift_in_mset [simp]: "mset (shift_in key xs) = add_mset key (mset xs)"
  by (induction xs) auto

lemma shift_in_sorted:
  "sorted (rev (map bx_lo xs)) \<Longrightarrow> sorted (rev (map bx_lo (shift_in key xs)))"
proof (induction xs)
  case (Cons x xs)
  have s: "set (shift_in key xs) = insert key (set xs)" by (metis shift_in_mset set_mset_add_mset_insert set_mset_mset)
  show ?case using Cons by (fastforce simp: sorted_append s)
qed simp

lemma sort_fold:
  "mset (fold shift_in raw acc) = mset raw + mset acc"
  "sorted (rev (map bx_lo acc)) \<Longrightarrow> sorted (rev (map bx_lo (fold shift_in raw acc)))"
  by (induction raw arbitrary: acc) (simp_all add: shift_in_sorted)

lemma sort_boxes_sorts: "mset (sort_boxes raw) = mset raw \<and> sorted (map bx_lo (sort_boxes raw))"
  using sort_fold(1) [of raw "[]"] sort_fold(2) [of "[]" raw] by (simp add: sort_boxes_def rev_map)

text \<open>Boxes that already go down in memory are turned round.\<close>

lemma shift_in_last: "\<forall>x\<in>set xs. bx_lo key < bx_lo x \<Longrightarrow> shift_in key xs = xs @ [key]"
  by (induction xs) auto

lemma fold_descending:
  "sorted_wrt (\<lambda>a b. bx_lo b < bx_lo a) (acc @ raw) \<Longrightarrow> fold shift_in raw acc = acc @ raw"
proof (induction raw arbitrary: acc)
  case (Cons b raw)
  then have "shift_in b acc = acc @ [b]" by (intro shift_in_last) (auto simp: sorted_wrt_append)
  then show ?case using Cons by simp
qed simp

lemma sort_descending: "sorted_wrt (\<lambda>a b. bx_lo b < bx_lo a) raw \<Longrightarrow> sort_boxes raw = rev raw"
  using fold_descending [of "[]" raw] by (simp add: sort_boxes_def)

section \<open>Boxes that cover memory\<close>

text \<open>Where the boxes end when each begins where the one before ends.\<close>

fun covers :: "int \<Rightarrow> mem_box list \<Rightarrow> int option" where
  "covers lo [] = Some lo"
| "covers lo (b # bs) = (if bx_lo b = lo \<and> lo \<le> bx_hi b then covers (bx_hi b) bs else None)"

lemma covers_append: "covers lo (bs @ cs) = Option.bind (covers lo bs) (\<lambda>hi. covers hi cs)"
  by (induction lo bs rule: covers.induct) auto

text \<open>Where objects end that lie one above the other from \<open>lo\<close> on, with room between them.\<close>

fun climbs :: "int \<Rightarrow> mem_box list \<Rightarrow> int option" where
  "climbs lo [] = Some lo"
| "climbs lo (b # bs) = (if lo \<le> bx_lo b \<and> bx_lo b \<le> bx_hi b then climbs (bx_hi b) bs else None)"

lemma climbs_append: "climbs lo (bs @ cs) = Option.bind (climbs lo bs) (\<lambda>hi. climbs hi cs)"
  by (induction lo bs rule: climbs.induct) auto

lemma pad_to_covers:
  assumes "covers lo bs = Some p" and "p \<le> q" and "length bs < MAX_STACK_SLOTS"
  shows "covers lo (pad_to p q bs) = Some q" and "length (pad_to p q bs) \<le> Suc (length bs)"
    and "filter (\<lambda>b. \<not> bx_pad b) (pad_to p q bs) = filter (\<lambda>b. \<not> bx_pad b) bs"
  using assms by (auto simp: pad_to_def push_box_def pad_box_def covers_append)

text \<open>Objects that climb are drawn as boxes that cover, as long as the array has room for them.\<close>

lemma push_covers:
  assumes "covers lo bs = Some p" and "p \<le> bx_lo b" and "bx_lo b \<le> bx_hi b" and "Suc (length bs) < MAX_STACK_SLOTS"
  defines "bs' \<equiv> push_box b (pad_to p (bx_lo b) bs)"
  shows "covers lo bs' = Some (bx_hi b)" and "length bs' \<le> length bs + 2"
    and "filter (\<lambda>b. \<not> bx_pad b) bs' = filter (\<lambda>b. \<not> bx_pad b) (bs @ [b])"
  using pad_to_covers [OF assms(1,2)] assms(3,4) by (auto simp: bs'_def push_box_def covers_append)

lemma add_boxes_covers:
  assumes "climbs p raw = Some hi" and "covers lo bs = Some p" and "length bs + 2 * length raw < MAX_STACK_SLOTS"
  shows "\<exists>bs'. add_boxes raw bs p = (bs', hi) \<and> covers lo bs' = Some hi \<and> length bs' \<le> length bs + 2 * length raw
    \<and> filter (\<lambda>b. \<not> bx_pad b) bs' = filter (\<lambda>b. \<not> bx_pad b) (bs @ raw)"
  using assms
proof (induction raw arbitrary: bs p)
  case (Cons b raw)
  have c: "p \<le> bx_lo b" "bx_lo b \<le> bx_hi b" "climbs (bx_hi b) raw = Some hi"
    using Cons.prems(1) by (auto split: if_splits)
  have room: "Suc (length bs) < MAX_STACK_SLOTS" using Cons.prems(3) by simp
  note p = push_covers [OF Cons.prems(2) c(1,2) room]
  have "length (push_box b (pad_to p (bx_lo b) bs)) + 2 * length raw < MAX_STACK_SLOTS"
    using p(2) Cons.prems(3) by simp
  from Cons.IH [OF c(3) p(1) this] show ?case using p(2,3) by fastforce
qed simp

section \<open>The frame\<close>

lemma sint_small: "unat (w :: usize) < 2 ^ 63 \<Longrightarrow> sint w = int (unat w)"
proof -
  assume "unat w < 2 ^ 63"
  then have "int (unat w) < int (2 ^ 63)" by (simp only: of_nat_less_iff)
  then have "uint w < 2 ^ 63" by simp
  moreover have "- (2 ^ 63) \<le> uint w" by (rule order_trans [OF _ uint_ge_0]) simp
  ultimately show ?thesis using signed_take_bit_int_eq_self [of 63 "uint w"] by (simp add: sint_uint)
qed

definition slots_sized :: "stack_slot list \<Rightarrow> bool" where
  "slots_sized ss \<longleftrightarrow> (\<forall>s\<in>set ss. sl_size s \<noteq> 0)"

lemma slot_box_bounds:
  assumes "unat (sl_offset s) < 2 ^ 63" and "unat (sl_size s) \<le> unat (sl_offset s)"
  shows "bx_lo (slot_box s) = - int (unat (sl_offset s))"
    and "bx_hi (slot_box s) = - int (unat (sl_offset s)) + int (unat (sl_size s))" and "\<not> bx_pad (slot_box s)"
  using assms by (simp_all add: slot_box_def sint_small)

lemma stacked_mono: "stacked lo ss = Some hi \<Longrightarrow> lo \<le> hi \<and> (\<forall>s\<in>set ss. lo + unat (sl_size s) \<le> unat (sl_offset s) \<and> unat (sl_offset s) \<le> hi)"
proof (induction lo ss rule: stacked.induct)
  case (2 lo x xs)
  then have "stacked (unat (sl_offset x)) xs = Some hi" "lo + unat (sl_size x) \<le> unat (sl_offset x)" by (auto split: if_splits)
  with 2 show ?case by fastforce
qed simp

lemma stacked_last: "stacked lo ss = Some hi \<Longrightarrow> ss \<noteq> [] \<Longrightarrow> unat (sl_offset (last ss)) = hi"
  by (induction lo ss rule: stacked.induct) (auto split: if_splits)

text \<open>Objects below each other climb when they are taken from the last one.\<close>

lemma stacked_climbs:
  assumes "stacked lo ss = Some hi" and "hi < 2 ^ 63" and "ss \<noteq> []"
  shows "\<exists>top. climbs (- int hi) (rev (map slot_box ss)) = Some top \<and> top \<le> - int lo
    \<and> bx_lo (hd (rev (map slot_box ss))) = - int hi"
  using assms
proof (induction lo ss rule: stacked.induct)
  case (2 lo x xs)
  have x: "lo + unat (sl_size x) \<le> unat (sl_offset x)" and xs: "stacked (unat (sl_offset x)) xs = Some hi"
    using 2 by (auto split: if_splits)
  then have off: "unat (sl_offset x) < 2 ^ 63" using stacked_mono [OF xs] 2 by simp
  have b: "bx_lo (slot_box x) = - int (unat (sl_offset x))" "bx_hi (slot_box x) \<le> - int lo"
    "bx_lo (slot_box x) \<le> bx_hi (slot_box x)"
    using slot_box_bounds(1,2) [OF off] x by linarith+
  show ?case
  proof (cases "xs = []")
    case True
    then have "hi = unat (sl_offset x)" using xs by simp
    then show ?thesis using True b by simp
  next
    case False
    from "2.IH" [OF x xs "2.prems"(2) False] obtain t where
      t: "climbs (- int hi) (rev (map slot_box xs)) = Some t" "t \<le> - int (unat (sl_offset x))"
        "bx_lo (hd (rev (map slot_box xs))) = - int hi" by blast
    then show ?thesis using False b by (simp add: climbs_append)
  qed
qed simp

lemma stacked_descending:
  assumes "stacked lo ss = Some hi" and "hi < 2 ^ 63" and "slots_sized ss"
  shows "sorted_wrt (\<lambda>a b. bx_lo b < bx_lo a) (map slot_box ss)"
  using assms
proof (induction lo ss rule: stacked.induct)
  case (2 lo x xs)
  have x: "lo + unat (sl_size x) \<le> unat (sl_offset x)" and xs: "stacked (unat (sl_offset x)) xs = Some hi"
    using 2 by (auto split: if_splits)
  have "bx_lo (slot_box s) < bx_lo (slot_box x)" if "s \<in> set xs" for s
  proof -
    have "unat (sl_offset x) + unat (sl_size s) \<le> unat (sl_offset s)" "unat (sl_offset s) \<le> hi" "unat (sl_offset x) \<le> hi"
      using stacked_mono [OF xs] that by auto
    moreover have "0 < unat (sl_size s)" using 2 that by (simp add: slots_sized_def unat_gt_0)
    moreover have "unat (sl_offset s) < 2 ^ 63" "unat (sl_offset x) < 2 ^ 63" using calculation "2.prems"(2) by simp_all
    ultimately show ?thesis using slot_box_bounds(1) [of s] slot_box_bounds(1) [of x] x by linarith
  qed
  then show ?case using 2 xs x by (simp add: slots_sized_def)
qed simp

lemma frame_boxes:
  assumes "frame_ok pc" and "slots_sized (pc_stack_slots pc)" and "pc_stack_slots pc \<noteq> []"
    and "2 * length (pc_stack_slots pc) < MAX_STACK_SLOTS"
  shows "covers (- int (unat (sl_offset (last (pc_stack_slots pc))))) (stack_boxes pc) = Some 0
    \<and> filter (\<lambda>b. \<not> bx_pad b) (stack_boxes pc) = rev (map slot_box (pc_stack_slots pc))"
proof -
  let ?ss = "pc_stack_slots pc"
  obtain hi where hi: "stacked 0 ?ss = Some hi" and "hi < 2 ^ 31"
    using assms(1) by (auto simp: frame_ok_def split: option.splits)
  then have hi63: "hi < 2 ^ 63" by simp
  have srt: "sort_boxes (map slot_box ?ss) = rev (map slot_box ?ss)"
    using sort_descending stacked_descending [OF hi hi63 assms(2)] by blast
  obtain t where t: "climbs (- int hi) (rev (map slot_box ?ss)) = Some t" "t \<le> 0" "bx_lo (hd (rev (map slot_box ?ss))) = - int hi"
    using stacked_climbs [OF hi hi63 assms(3)] by auto
  have last_hi: "unat (sl_offset (last ?ss)) = hi"
    by (rule stacked_last [OF hi assms(3)])
  have pads: "filter (\<lambda>b. \<not> bx_pad b) (rev (map slot_box ?ss)) = rev (map slot_box ?ss)"
    by (intro filter_True) (auto simp: slot_box_def)
  obtain bs where bs: "add_boxes (rev (map slot_box ?ss)) [] (- int hi) = (bs, t)" "covers (- int hi) bs = Some t"
    "length bs \<le> 2 * length ?ss" "filter (\<lambda>b. \<not> bx_pad b) bs = rev (map slot_box ?ss)"
    using add_boxes_covers [OF t(1), of "- int hi" "[]"] assms(4) pads by auto
  have "stack_boxes pc = pad_to t 0 bs" using bs(1) t(3) by (simp add: stack_boxes_def srt)
  then show ?thesis using pad_to_covers [OF bs(2) t(2)] bs(3,4) assms(4) last_hi by simp
qed

section \<open>Structs\<close>

text \<open>The members of a struct, none of them under a declarator.\<close>

definition plain_members :: "type_t \<Rightarrow> bool" where
  "plain_members t \<longleftrightarrow> (\<forall>m\<in>set (ty_members t). d_decl (m_dtype m) = [])"

definition member_box :: "tstore \<Rightarrow> member \<Rightarrow> mem_box" where
  "member_box ts m = \<lparr>bx_name = m_name m, bx_type_name = (case base_type ts (m_dtype m) of None \<Rightarrow> [] | Some b \<Rightarrow> ty_name b),
     bx_lo = int (unat (m_offset m)),
     bx_hi = int (unat (m_offset m)) + (case base_type ts (m_dtype m) of None \<Rightarrow> 0 | Some b \<Rightarrow> int (unat (ty_size b))),
     bx_pad = False\<rparr>"

lemma laid_out_le: "laid_out ts lo ms = Some hi \<Longrightarrow> lo \<le> hi"
  by (induction ts lo ms rule: laid_out.induct) (fastforce split: option.splits if_splits)+

lemma member_boxes_covers:
  assumes "laid_out ts p ms = Some hi" and "hi < 2 ^ 63" and "\<forall>m\<in>set ms. d_decl (m_dtype m) = []"
    and "covers 0 bs = Some (int p)" and "length bs + 2 * length ms < MAX_STACK_SLOTS"
  shows "\<exists>bs'. member_boxes ts ms bs (int p) = Some (bs', int hi) \<and> covers 0 bs' = Some (int hi)
    \<and> length bs' \<le> length bs + 2 * length ms
    \<and> filter (\<lambda>b. \<not> bx_pad b) bs' = filter (\<lambda>b. \<not> bx_pad b) bs @ map (member_box ts) ms"
  using assms
proof (induction ms arbitrary: p bs)
  case (Cons m ms)
  obtain t where t: "base_type ts (m_dtype m) = Some t" "p \<le> unat (m_offset m)"
    and l: "laid_out ts (unat (m_offset m) + unat (ty_size t)) ms = Some hi"
    using Cons.prems(1,3) by (auto simp: dtype_size_def split: option.splits if_splits)
  let ?q = "unat (m_offset m) + unat (ty_size t)" and ?b = "member_box ts m"
  have "?q \<le> hi" by (rule laid_out_le [OF l])
  then have "unat (m_offset m) < 2 ^ 63" "unat (ty_size t) < 2 ^ 63" using Cons.prems(2) by simp_all
  note si = this [THEN sint_small]
  have room: "Suc (length bs) < MAX_STACK_SLOTS" using Cons.prems(5) by simp
  have b: "int p \<le> bx_lo ?b" "bx_lo ?b \<le> bx_hi ?b" "bx_hi ?b = int ?q" "bx_lo ?b = int (unat (m_offset m))" "\<not> bx_pad ?b"
    using t(1) zle_int [THEN iffD2, OF t(2)] by (simp_all add: member_box_def)
  note c = push_covers [OF Cons.prems(4) b(1,2) room]
  let ?bs = "push_box ?b (pad_to (int p) (bx_lo ?b) bs)"
  have "length (pad_to (int p) (bx_lo ?b) bs) < MAX_STACK_SLOTS"
    using pad_to_covers(2) [OF Cons.prems(4) b(1)] room by simp
  moreover have "dtype_size ts (m_dtype m) = Some (ty_size t)" using Cons.prems(3) t(1) by (simp add: dtype_size_def)
  moreover have "?b = \<lparr>bx_name = m_name m, bx_type_name = ty_name t, bx_lo = sint (m_offset m),
      bx_hi = sint (m_offset m) + sint (ty_size t), bx_pad = False\<rparr>" using t(1) si by (simp add: member_box_def)
  ultimately have step: "member_boxes ts (m # ms) bs (int p) = member_boxes ts ms ?bs (int ?q)"
    using t(1) si b(4) by (simp add: Let_def)
  have "covers 0 ?bs = Some (int ?q)" "length ?bs + 2 * length ms < MAX_STACK_SLOTS"
    using c(1,2) b(3) Cons.prems(5) by simp_all
  from Cons.IH [OF l Cons.prems(2) _ this] Cons.prems(3) obtain bs' where
    "member_boxes ts ms ?bs (int ?q) = Some (bs', int hi)" "covers 0 bs' = Some (int hi)"
    "length bs' \<le> length ?bs + 2 * length ms"
    "filter (\<lambda>b. \<not> bx_pad b) bs' = filter (\<lambda>b. \<not> bx_pad b) ?bs @ map (member_box ts) ms" by auto
  then show ?case using c(2,3) b(5) by (simp only: step) simp
qed simp

lemma struct_boxes_cover:
  assumes "sound_type ts t" and "ty_tag t = TK_STRUCT" and "plain_members t" and "unat (ty_size t) < 2 ^ 63"
    and "2 * length (ty_members t) < MAX_STACK_SLOTS"
  shows "\<exists>bs. struct_boxes ts t = Some bs \<and> covers 0 bs = Some (int (unat (ty_size t)))
    \<and> filter (\<lambda>b. \<not> bx_pad b) bs = map (member_box ts) (ty_members t)"
proof -
  obtain hi where l: "laid_out ts 0 (ty_members t) = Some hi" and hi: "hi \<le> unat (ty_size t)"
    using assms(1-3) by (auto simp: sound_type_def plain_members_def base_sized_def member_aligned_def dtype_size_def split: option.splits)
  obtain bs where "member_boxes ts (ty_members t) [] 0 = Some (bs, int hi)" "covers 0 bs = Some (int hi)"
    "length bs \<le> 2 * length (ty_members t)" "filter (\<lambda>b. \<not> bx_pad b) bs = map (member_box ts) (ty_members t)"
    using member_boxes_covers [OF l, of "[]"] hi assms(3-5) by (auto simp: plain_members_def)
  then show ?thesis
    using pad_to_covers [of 0 bs "int hi" "int (unat (ty_size t))"] zle_int [THEN iffD2, OF hi] assms(5) sint_small [OF assms(4)]
    by (simp add: struct_boxes_def)
qed

section \<open>Text\<close>

text \<open>The columns between the borders of a title: the gap fills them exactly, so its lower bound never applies.\<close>

lemma boxes_width_max: "(b \<in> set bs \<longrightarrow> box_need b \<le> fold (\<lambda>b w. if w < box_need b then box_need b else w) bs w)
    \<and> w \<le> fold (\<lambda>b w. if w < box_need b then box_need b else w) bs w"
proof (induction bs arbitrary: w)
  case (Cons c bs)
  show ?case using Cons [of "if w < box_need c then box_need c else w"] by (auto split: if_splits)
qed simp

lemma box_name_length: "length (box_name b) \<le> (if bx_pad b then length ''(padding)'' else length (bx_name b))"
  using length_takeWhile_le [of "\<lambda>c. c \<noteq> CHR 0x00" "take 63 (bx_name b)"] by (auto simp: box_name_def cstr_def)

lemma title_fills:
  assumes "b \<in> set bs"
  shows "1 + length (box_name b) + box_gap (boxes_width bs) b + length (take 95 (right_text b)) + 1 = boxes_width bs"
proof -
  have "box_need b \<le> boxes_width bs" using boxes_width_max [of b bs 0] assms by (simp add: boxes_width_def)
  then have "length (box_name b) + length (take 95 (right_text b)) + 3 \<le> boxes_width bs"
    using box_name_length [of b] by (simp add: box_need_def)
  then show ?thesis by (simp add: box_gap_def Let_def)
qed

text \<open>Every box has at least its title and at most fifteen lines more.\<close>

lemma box_rows_bounds: "1 \<le> fst (box_rows unit b) \<and> fst (box_rows unit b) \<le> 16"
  by (simp add: box_rows_def Let_def MEM_BOX_MAX_ROWS_def)

text \<open>The name of a derived type, and the room it takes in the arena.\<close>

definition decl_names :: "declarator list \<Rightarrow> string" where
  "decl_names ds = concat (map (\<lambda>d. the (dtype_kind_string (dk_tag d)) @ '' '') ds)"

lemma decls_to_str_text:
  assumes "\<forall>d\<in>set ds. dk_tag d \<noteq> DK_NONE" and "al_used al + length (decl_names ds) < al_size al"
  shows "decls_to_str ds al = Some (decl_names ds, al\<lparr>al_used := al_used al + length (decl_names ds)\<rparr>)"
  using assms
proof (induction ds arbitrary: al)
  case (Cons d ds)
  obtain s where s: "dtype_kind_string (dk_tag d) = Some s" using Cons.prems(1) by (cases "dk_tag d") auto
  then have n: "decl_names (d # ds) = s @ '' '' @ decl_names ds" by (simp add: decl_names_def)
  have "decls_to_str ds (al\<lparr>al_used := al_used al + length s + 1\<rparr>)
      = Some (decl_names ds, al\<lparr>al_used := al_used al + length s + 1 + length (decl_names ds)\<rparr>)"
    using Cons.IH [of "al\<lparr>al_used := al_used al + length s + 1\<rparr>"] Cons.prems by (simp add: n)
  then show ?case using Cons.prems(2) by (simp add: s n allocator_alloc_undefined_def Let_def ac_simps)
qed (simp add: decl_names_def)

lemma dtype_to_str_text:
  assumes "\<forall>d\<in>set (d_decl self). dk_tag d \<noteq> DK_NONE" and "base_type ts self = Some t"
    and "al_used al + length (decl_names (d_decl self)) + length (ty_name t) + 1 < al_size al"
  shows "map_option fst (dtype_to_str ts self al) = Some (decl_names (d_decl self) @ ty_name t)"
  using decls_to_str_text [OF assms(1), of al] assms(2,3)
  by (simp add: dtype_to_str_def allocator_alloc_undefined_def Let_def)

text \<open>The length of an array is not in the name, so the two types of a mismatch can have the same.\<close>

lemma decl_names_tags: "map dk_tag ds = map dk_tag es \<Longrightarrow> decl_names ds = decl_names es"
  by (induction ds es rule: list_induct2') (auto simp: decl_names_def)

section \<open>Reports\<close>

text \<open>An argument for each member, through nested structs; the arguments may be more.\<close>

fun args_fit :: "tstore \<Rightarrow> member list \<Rightarrow> agg_member list \<Rightarrow> bool" where
  "args_fit ts [] args = True"
| "args_fit ts (m # ms) [] = False"
| "args_fit ts (m # ms) (r # args) =
    ((case r of A_AGGREGATE inner \<Rightarrow>
        (case base_type ts (m_dtype m) of None \<Rightarrow> False | Some t \<Rightarrow> args_fit ts (ty_members t) inner)
      | _ \<Rightarrow> True) \<and> args_fit ts ms args)"

lemma arg_lines_fit: "arg_lines ts depth i ms args \<noteq> None \<longleftrightarrow> args_fit ts ms args"
proof (induction ts ms args arbitrary: depth i rule: args_fit.induct)
  case (3 ts m ms r args)
  have rest: "(\<exists>ls. arg_lines ts depth (Suc i) ms args = Some ls) = args_fit ts ms args"
    using "3.IH"(2) [of depth "Suc i"] by simp
  show ?case
  proof (cases r)
    case (A_AGGREGATE inner)
    then show ?thesis
      using rest "3.IH"(1) [OF A_AGGREGATE, of _ "Suc depth" 0] by (cases "base_type ts (m_dtype m)") (auto simp: bind_eq_Some_conv)
  qed (use rest in \<open>auto simp: bind_eq_Some_conv\<close>)
qed simp_all

lemma struct_expr_report_fit: "struct_expr_report ts args t depth \<noteq> None \<longleftrightarrow> args_fit ts (ty_members t) args"
  using arg_lines_fit [of ts depth 0 "ty_members t" args] by (simp add: struct_expr_report_def)

section \<open>Properties\<close>

text \<open>
  C40. The diagram of a frame shows the frame. For a frame as the parser keeps it, with at most thirty-one objects and
  none of them empty, the boxes that are drawn cover the memory from the object that lies lowest up to the frame
  pointer without gap or overlap, and those that are not padding are the recorded objects from the last to the first.
\<close>

theorem stack_diagram_covers:
  assumes "frame_ok pc" and "slots_sized (pc_stack_slots pc)" and "pc_stack_slots pc \<noteq> []"
    and "2 * length (pc_stack_slots pc) < MAX_STACK_SLOTS"
  shows "covers (- int (unat (sl_offset (last (pc_stack_slots pc))))) (stack_boxes pc) = Some 0
    \<and> filter (\<lambda>b. \<not> bx_pad b) (stack_boxes pc) = rev (map slot_box (pc_stack_slots pc))"
  by (rule frame_boxes [OF assms])

text \<open>Two objects with four unused bytes between them and four below the frame pointer.\<close>

definition drawn_pc :: parser_context where
  "drawn_pc = parser_context0\<lparr>pc_stack_size := 24, pc_stack_slots :=
    [\<lparr>sl_name = ''X'', sl_type_name = Some ''i32'', sl_offset = 8, sl_size = 4\<rparr>,
     \<lparr>sl_name = ''Arr'', sl_type_name = Some ''u8'', sl_offset = 24, sl_size = 12\<rparr>]\<rparr>"

lemma drawn_slots: "pc_stack_slots drawn_pc = [\<lparr>sl_name = ''X'', sl_type_name = Some ''i32'', sl_offset = 8, sl_size = 4\<rparr>,
    \<lparr>sl_name = ''Arr'', sl_type_name = Some ''u8'', sl_offset = 24, sl_size = 12\<rparr>]"
  by (simp add: drawn_pc_def)

lemma drawn_boxes: "map (\<lambda>b. (bx_lo b, bx_hi b, bx_pad b)) (stack_boxes drawn_pc)
    = [(-24, -12, False), (-12, -8, True), (-8, -4, False), (-4, 0, True)]"
  by (simp add: stack_boxes_def drawn_slots sort_boxes_def slot_box_def push_box_def pad_to_def pad_box_def MAX_STACK_SLOTS_def)

lemma stack_diagram_covers_witness:
  "covers (-24) (stack_boxes drawn_pc) = Some 0
    \<and> map bx_name (filter (\<lambda>b. \<not> bx_pad b) (stack_boxes drawn_pc)) = [''Arr'', ''X'']"
proof -
  have "frame_ok drawn_pc" "slots_sized (pc_stack_slots drawn_pc)" "2 * length (pc_stack_slots drawn_pc) < MAX_STACK_SLOTS"
    by (simp_all add: frame_ok_def slots_sized_def drawn_slots MAX_STACK_SLOTS_def) (simp add: drawn_pc_def)
  from stack_diagram_covers [OF this(1,2) _ this(3)] show ?thesis by (simp add: drawn_slots slot_box_def)
qed

end
